(* ===== verification/Prelude.thy ===== *)
theory Prelude
  imports Main "HOL-Library.Stream" "HOL-Library.List_Lexorder" "HOL-Library.Char_ord"
begin

text \<open>
  Shared vocabulary of the development.

  \<^item> The fact collections used by the component theories.
  \<^item> Generic lemmas on lists, sums over lists and association lists.
  \<^item> The outside world: every call of the program that can fail for a reason outside the
    program (a system call, a SQL statement) consumes one element of a stream of faults,
    every reading of the clock one element of a stream of times, every read of the random
    source one element of a stream of byte blocks. A theorem that quantifies over the world
    therefore holds for every pattern of failures.
\<close>

named_theorems result_rules \<open>what a successful sequence of fallible calls says of each of them\<close>

section \<open>Errors\<close>

text \<open>
  The error values of the program. \<open>ErrExternal k\<close> is any failure reported by the operating
  system or by SQLite other than the ones the code tells apart
  (\<^verbatim>\<open>sql.ErrNoRows\<close>, \<^verbatim>\<open>os.IsNotExist\<close>).
\<close>

datatype goerr =
    ErrNoRows
  | ErrNotExist
  | ErrExist
  | ErrConstraint
  | ErrExternal nat
  | ErrNoRecipients
  | ErrMessageLimit int
  | ErrStorageLimit int
  | ErrRecoveryRequired goerr
  | ErrAboveLimit
  | ErrPendingExhausted
  | ErrLimitExhausted
  | ErrReferencedBlob string goerr
  | ErrPanic

type_synonym 'a result = "goerr + 'a"

text \<open>The sequencing of fallible calls: the first error ends the sequence.\<close>

definition bnd :: "'e + 'a \<Rightarrow> ('a \<Rightarrow> 'e + 'b) \<Rightarrow> 'e + 'b" where
  "bnd m f = (case m of Inl e \<Rightarrow> Inl e | Inr x \<Rightarrow> f x)"

definition guard :: "bool \<Rightarrow> 'e \<Rightarrow> 'e + unit" where
  "guard b e = (if b then Inr () else Inl e)"

lemma bnd_Inr [result_rules]: "bnd m f = Inr y \<longleftrightarrow> (\<exists>x. m = Inr x \<and> f x = Inr y)"
  by (auto simp: bnd_def split: sum.split)

lemma guard_Inr [result_rules]: "guard b e = Inr u \<longleftrightarrow> b"
  by (simp add: guard_def)

lemma bnd_simps [simp]: "bnd (Inr x) f = f x" "bnd (Inl e) f = Inl e"
  by (simp_all add: bnd_def)

section \<open>The outside world\<close>

type_synonym time = int \<comment> \<open>nanoseconds since the Unix epoch, as \<^verbatim>\<open>time.Time\<close>\<close>

text \<open>\<^verbatim>\<open>Time.Unix\<close> and \<^verbatim>\<open>time.Unix(sec, 0)\<close>.\<close>

definition time_Unix :: "time \<Rightarrow> int" where
  "time_Unix t = t div 1000000000"

definition unix_time :: "int \<Rightarrow> time" where
  "unix_time sec = sec * 1000000000"

lemma time_Unix_unix_time [simp]: "time_Unix (unix_time n) = n"
  by (simp add: time_Unix_def unix_time_def)

lemma time_Unix_mono: "t \<le> t' \<Longrightarrow> time_Unix t \<le> time_Unix t'"
  by (simp add: time_Unix_def zdiv_mono1)

record env =
  faults :: "nat option stream"
  clock :: "time stream"
  rands :: "string stream"

section \<open>Lists\<close>

lemma sum_list_filter_split:
  fixes f :: "'a \<Rightarrow> int"
  shows "sum_list (map f xs) = sum_list (map f (filter P xs)) + sum_list (map f (filter (\<lambda>x. \<not> P x) xs))"
  by (induction xs) auto

lemma filter_neq_key_id: "k \<notin> set (map f xs) \<Longrightarrow> filter (\<lambda>x. f x \<noteq> k) xs = xs"
  by (induction xs) auto

lemma sum_list_remove_key:
  fixes g :: "'a \<Rightarrow> int"
  assumes "distinct (map f xs)" and "x \<in> set xs"
  shows "sum_list (map g (filter (\<lambda>y. f y \<noteq> f x) xs)) = sum_list (map g xs) - g x"
  using assms
proof (induction xs)
  case Nil
  then show ?case by simp
next
  case (Cons a xs)
  then show ?case
    by (cases "a = x") (auto simp: filter_neq_key_id)
qed

lemma length_remove_key:
  assumes "distinct (map f xs)" and "x \<in> set xs"
  shows "length (filter (\<lambda>y. f y \<noteq> f x) xs) = length xs - 1"
  using assms
proof (induction xs)
  case Nil
  then show ?case by simp
next
  case (Cons a xs)
  then show ?case
    by (cases "a = x") (auto simp: filter_neq_key_id length_greater_0_conv
        dest: length_pos_if_in_set)
qed

lemma distinct_map_filter [simp]: "distinct (map f xs) \<Longrightarrow> distinct (map f (filter P xs))"
  by (induction xs) auto

lemma distinct_key_unique:
  "distinct (map f xs) \<Longrightarrow> x \<in> set xs \<Longrightarrow> y \<in> set xs \<Longrightarrow> f x = f y \<Longrightarrow> x = y"
  by (auto simp: distinct_map inj_on_def)

lemma find_Some_iff_key:
  assumes "distinct (map f xs)"
  shows "find (\<lambda>x. f x = k) xs = Some x \<longleftrightarrow> x \<in> set xs \<and> f x = k"
  using assms by (induction xs) auto

lemma find_key_None: "find (\<lambda>x. f x = k) xs = None \<longleftrightarrow> k \<notin> set (map f xs)"
  by (induction xs) auto

lemma find_SomeD: "find P xs = Some x \<Longrightarrow> x \<in> set xs \<and> P x"
  by (induction xs) (auto split: if_splits)

lemma find_filter_hd: "find P xs = (case filter P xs of [] \<Rightarrow> None | x # _ \<Rightarrow> Some x)"
  by (induction xs) auto

lemma sum_list_nonneg_map:
  fixes f :: "'a \<Rightarrow> int"
  shows "(\<And>x. x \<in> set xs \<Longrightarrow> 0 \<le> f x) \<Longrightarrow> 0 \<le> sum_list (map f xs)"
  by (induction xs) auto

lemma sum_list_member_le:
  fixes f :: "'a \<Rightarrow> int"
  shows "(\<And>x. x \<in> set xs \<Longrightarrow> 0 \<le> f x) \<Longrightarrow> x \<in> set xs \<Longrightarrow> f x \<le> sum_list (map f xs)"
  by (induction xs) (auto intro: order_trans add_increasing2 add_increasing sum_list_nonneg_map)

text \<open>Sorting by a key is stable, so the first row of a sorted table is a minimal one.\<close>

lemma sort_key_hd_min:
  fixes f :: "'a \<Rightarrow> 'b::linorder"
  assumes "sort_key f xs = y # ys" and "x \<in> set xs"
  shows "f y \<le> f x"
proof -
  have "sorted (map f (y # ys))" using sorted_sort_key [of f xs] assms(1) by simp
  moreover have "x \<in> set (y # ys)" using assms by (metis set_sort)
  ultimately show ?thesis by auto
qed

lemma sort_key_hd_mem: "sort_key f xs = y # ys \<Longrightarrow> y \<in> set xs"
  by (metis list.set_intros(1) set_sort)

lemma sort_key_Nil_iff [simp]: "sort_key f xs = [] \<longleftrightarrow> xs = []"
  by (metis length_0_conv length_sort)

section \<open>Streams\<close>

lemma sconst_stl [simp]: "stl (sconst x) = sconst x"
  by simp

end
