(* ===== verification/StoreDb.thy ===== *)
theory StoreDb
  imports Prelude
begin

text \<open>
  The three tables of \<^verbatim>\<open>mail.db\<close> and the SQL statements \<^verbatim>\<open>internal/app/store.go\<close> runs on
  them. A table is the list of its rows in rowid order: SQLite gives a new row a rowid above all
  others, so inserting appends. A statement that violates a primary key fails with
  \<^const>\<open>ErrConstraint\<close>; a one-row query without a row fails with \<^const>\<open>ErrNoRows\<close>.

  \<open>db_ok\<close> is the consistency of the tables: primary keys and paths are unique, every message has
  its blob, a blob's reference count is the number of its messages and at least one, and a path
  is either that of a live blob or queued for deletion, never both.
\<close>

record blob_row =
  b_id :: string
  b_path :: string
  b_size :: int
  b_refs :: int

record msg_row =
  m_id :: string
  m_recipient :: string
  m_sender :: string
  m_subject :: string
  m_received :: int
  m_expires :: int
  m_size :: int
  m_blob :: string

record db =
  t_blobs :: "blob_row list"
  t_messages :: "msg_row list"
  t_pending :: "(string \<times> int) list"

section \<open>Statements\<close>

definition sql_insert_blob :: "blob_row \<Rightarrow> db \<Rightarrow> db result" where
  "sql_insert_blob b d =
     (if b_id b \<in> set (map b_id (t_blobs d)) then Inl ErrConstraint
      else Inr (d\<lparr>t_blobs := t_blobs d @ [b]\<rparr>))"

definition sql_insert_message :: "msg_row \<Rightarrow> db \<Rightarrow> db result" where
  "sql_insert_message m d =
     (if m_id m \<in> set (map m_id (t_messages d)) then Inl ErrConstraint
      else Inr (d\<lparr>t_messages := t_messages d @ [m]\<rparr>))"

definition sql_delete_message :: "string \<Rightarrow> db \<Rightarrow> db result" where
  "sql_delete_message i d = Inr (d\<lparr>t_messages := filter (\<lambda>m. m_id m \<noteq> i) (t_messages d)\<rparr>)"

definition sql_select_blob :: "string \<Rightarrow> db \<Rightarrow> blob_row result" where
  "sql_select_blob i d =
     (case find (\<lambda>b. b_id b = i) (t_blobs d) of None \<Rightarrow> Inl ErrNoRows | Some b \<Rightarrow> Inr b)"

definition sql_delete_blob :: "string \<Rightarrow> db \<Rightarrow> db result" where
  "sql_delete_blob i d = Inr (d\<lparr>t_blobs := filter (\<lambda>b. b_id b \<noteq> i) (t_blobs d)\<rparr>)"

definition sql_decr_ref :: "string \<Rightarrow> db \<Rightarrow> db result" where
  "sql_decr_ref i d =
     Inr (d\<lparr>t_blobs := map (\<lambda>b. if b_id b = i then b\<lparr>b_refs := b_refs b - 1\<rparr> else b) (t_blobs d)\<rparr>)"

definition sql_insert_pending :: "string \<Rightarrow> int \<Rightarrow> db \<Rightarrow> db result" where
  "sql_insert_pending p n d =
     (if p \<in> set (map fst (t_pending d)) then Inl ErrConstraint
      else Inr (d\<lparr>t_pending := t_pending d @ [(p, n)]\<rparr>))"

definition sql_insert_ignore_pending :: "string \<Rightarrow> int \<Rightarrow> db \<Rightarrow> db result" where
  "sql_insert_ignore_pending p n d =
     (if p \<in> set (map fst (t_pending d)) then Inr d
      else Inr (d\<lparr>t_pending := t_pending d @ [(p, n)]\<rparr>))"

definition sql_delete_pending :: "string \<Rightarrow> db \<Rightarrow> db result" where
  "sql_delete_pending p d = Inr (d\<lparr>t_pending := filter (\<lambda>r. fst r \<noteq> p) (t_pending d)\<rparr>)"

definition sql_oldest_expired :: "int \<Rightarrow> string \<Rightarrow> db \<Rightarrow> (string \<times> string) result" where
  "sql_oldest_expired before protected d =
     (case sort_key m_expires
             (filter (\<lambda>m. m_expires m \<le> before \<and> m_blob m \<noteq> protected) (t_messages d)) of
        [] \<Rightarrow> Inl ErrNoRows
      | m # _ \<Rightarrow> Inr (m_id m, m_blob m))"

definition sql_oldest :: "string \<Rightarrow> db \<Rightarrow> (string \<times> string) result" where
  "sql_oldest protected d =
     (case sort_key m_received (filter (\<lambda>m. m_blob m \<noteq> protected) (t_messages d)) of
        [] \<Rightarrow> Inl ErrNoRows
      | m # _ \<Rightarrow> Inr (m_id m, m_blob m))"

text \<open>
  The statement of a cleanup batch has no \<^verbatim>\<open>ORDER BY\<close>; its rows come in the order of the
  index on \<^verbatim>\<open>expires_at\<close> that serves the condition.
\<close>

definition sql_expired_batch :: "int \<Rightarrow> nat \<Rightarrow> db \<Rightarrow> (string \<times> string) list result" where
  "sql_expired_batch before n d =
     Inr (map (\<lambda>m. (m_id m, m_blob m))
       (take n (sort_key m_expires (filter (\<lambda>m. m_expires m \<le> before) (t_messages d)))))"

definition sql_pending_batch :: "string \<Rightarrow> nat \<Rightarrow> db \<Rightarrow> (string \<times> int) list result" where
  "sql_pending_batch cursor n d =
     Inr (take n (sort_key fst (filter (\<lambda>r. cursor < fst r) (t_pending d))))"

definition sum_blobs :: "db \<Rightarrow> int" where
  "sum_blobs d = sum_list (map b_size (t_blobs d))"

definition sum_pending :: "db \<Rightarrow> int" where
  "sum_pending d = sum_list (map snd (t_pending d))"

section \<open>Consistency of the tables\<close>

definition refs_of :: "string \<Rightarrow> db \<Rightarrow> msg_row list" where
  "refs_of i d = filter (\<lambda>m. m_blob m = i) (t_messages d)"

definition blob_paths :: "db \<Rightarrow> string set" where
  "blob_paths d = set (map b_path (t_blobs d))"

definition pending_paths :: "db \<Rightarrow> string set" where
  "pending_paths d = set (map fst (t_pending d))"

definition db_ok :: "db \<Rightarrow> bool" where
  "db_ok d \<longleftrightarrow>
     distinct (map m_id (t_messages d)) \<and>
     distinct (map b_id (t_blobs d)) \<and>
     distinct (map b_path (t_blobs d)) \<and>
     distinct (map fst (t_pending d)) \<and>
     blob_paths d \<inter> pending_paths d = {} \<and>
     (\<forall>m \<in> set (t_messages d). m_blob m \<in> set (map b_id (t_blobs d))) \<and>
     (\<forall>b \<in> set (t_blobs d). b_refs b = int (length (refs_of (b_id b) d)) \<and> 0 < b_refs b \<and> 0 \<le> b_size b) \<and>
     (\<forall>r \<in> set (t_pending d). 0 \<le> snd r)"

definition empty_db :: db where
  "empty_db = \<lparr>t_blobs = [], t_messages = [], t_pending = []\<rparr>"

lemma db_ok_empty: "db_ok empty_db"
  by (simp add: db_ok_def empty_db_def blob_paths_def)

lemma db_ok_keys:
  assumes "db_ok d"
  shows "distinct (map m_id (t_messages d))" "distinct (map b_id (t_blobs d))"
    "distinct (map b_path (t_blobs d))" "distinct (map fst (t_pending d))"
  using assms by (simp_all add: db_ok_def)

lemma db_ok_msg_blob: "db_ok d \<Longrightarrow> m \<in> set (t_messages d) \<Longrightarrow> m_blob m \<in> b_id ` set (t_blobs d)"
  by (simp add: db_ok_def)

lemma db_ok_refs:
  "db_ok d \<Longrightarrow> b \<in> set (t_blobs d) \<Longrightarrow> b_refs b = int (length (refs_of (b_id b) d)) \<and> 0 < b_refs b"
  unfolding db_ok_def by blast

lemma db_ok_size: "db_ok d \<Longrightarrow> b \<in> set (t_blobs d) \<Longrightarrow> 0 \<le> b_size b"
  by (simp add: db_ok_def)

lemma db_ok_disjoint: "db_ok d \<Longrightarrow> p \<in> blob_paths d \<Longrightarrow> p \<notin> pending_paths d"
  by (auto simp: db_ok_def)

lemma db_ok_pending_size: "db_ok d \<Longrightarrow> r \<in> set (t_pending d) \<Longrightarrow> 0 \<le> snd r"
  by (simp add: db_ok_def)

lemma db_okI:
  assumes "distinct (map m_id (t_messages d))" "distinct (map b_id (t_blobs d))"
    "distinct (map b_path (t_blobs d))" "distinct (map fst (t_pending d))"
    "\<And>p. p \<in> blob_paths d \<Longrightarrow> p \<notin> pending_paths d"
    "\<And>m. m \<in> set (t_messages d) \<Longrightarrow> m_blob m \<in> b_id ` set (t_blobs d)"
    "\<And>b. b \<in> set (t_blobs d) \<Longrightarrow> b_refs b = int (length (refs_of (b_id b) d)) \<and> 0 < b_refs b"
    "\<And>b. b \<in> set (t_blobs d) \<Longrightarrow> 0 \<le> b_size b"
    "\<And>r. r \<in> set (t_pending d) \<Longrightarrow> 0 \<le> snd r"
  shows "db_ok d"
  unfolding db_ok_def set_map by (intro conjI ballI) (use assms in blast)+

section \<open>Inserting\<close>

lemma refs_of_append:
  "refs_of i (d\<lparr>t_messages := t_messages d @ ms\<rparr>) = refs_of i d @ filter (\<lambda>m. m_blob m = i) ms"
  by (simp add: refs_of_def)

text \<open>A new blob with the messages that refer to it.\<close>

lemma db_ok_insert:
  assumes ok: "db_ok d" and ms: "ms \<noteq> []" "distinct (map m_id ms)"
    and fresh_m: "set (map m_id ms) \<inter> set (map m_id (t_messages d)) = {}"
    and blob: "\<forall>m \<in> set ms. m_blob m = b_id b"
    and fresh_b: "b_id b \<notin> set (map b_id (t_blobs d))"
    and fresh_p: "b_path b \<notin> blob_paths d" "b_path b \<notin> pending_paths d"
    and b: "b_refs b = int (length ms)" "0 \<le> b_size b"
  shows "db_ok (d\<lparr>t_blobs := t_blobs d @ [b], t_messages := t_messages d @ ms\<rparr>)" (is "db_ok ?d")
proof -
  have no_ref: "filter (\<lambda>m. m_blob m = b_id b) (t_messages d) = []"
  proof -
    have "m_blob x \<noteq> b_id b" if "x \<in> set (t_messages d)" for x
      using db_ok_msg_blob [OF ok that] fresh_b by auto
    then show ?thesis by (simp add: filter_empty_conv)
  qed
  have all: "filter (\<lambda>m. m_blob m = b_id b) ms = ms" using blob by simp
  have other: "filter (\<lambda>m. m_blob m = b_id b') ms = []" if "b' \<in> set (t_blobs d)" for b'
    using blob fresh_b that by (force simp: filter_empty_conv)
  show ?thesis
  proof (rule db_okI)
    show "b_refs b' = int (length (refs_of (b_id b') ?d)) \<and> 0 < b_refs b'"
      if "b' \<in> set (t_blobs ?d)" for b'
      using that db_ok_refs [OF ok, of b'] b ms(1) no_ref all other [of b']
      by (auto simp: refs_of_def)
  next
    show "m_blob m \<in> b_id ` set (t_blobs ?d)" if "m \<in> set (t_messages ?d)" for m
      using that db_ok_msg_blob [OF ok, of m] blob by auto
  next
    show "p \<notin> pending_paths ?d" if "p \<in> blob_paths ?d" for p
      using that fresh_p db_ok_disjoint [OF ok, of p]
      unfolding blob_paths_def pending_paths_def by (cases "p = b_path b") simp_all
  qed (use db_ok_keys [OF ok] ms fresh_m fresh_b fresh_p b db_ok_size [OF ok]
        db_ok_pending_size [OF ok] in \<open>auto simp: blob_paths_def\<close>)
qed

section \<open>Dropping a reference\<close>

text \<open>
  The effect of \<^verbatim>\<open>deleteMessageTx\<close> on the tables: the message goes, and with the last
  reference the blob's row becomes a row of the deletion queue. The result is the number of bytes
  released, the path queued and the new tables.
\<close>

definition drop_ref :: "string \<Rightarrow> string \<Rightarrow> db \<Rightarrow> (int \<times> string \<times> db) result" where
  "drop_ref i bi d =
     (let ms = filter (\<lambda>m. m_id m \<noteq> i) (t_messages d) in
      case find (\<lambda>b. b_id b = bi) (t_blobs d) of
        None \<Rightarrow> Inl ErrNoRows
      | Some b \<Rightarrow>
          if b_refs b \<le> 1 then
            (if b_path b \<in> pending_paths d then Inl ErrConstraint
             else Inr (b_size b, b_path b,
               d\<lparr>t_messages := ms, t_pending := t_pending d @ [(b_path b, b_size b)],
                 t_blobs := filter (\<lambda>b. b_id b \<noteq> bi) (t_blobs d)\<rparr>))
          else Inr (0, [],
               d\<lparr>t_messages := ms,
                 t_blobs := map (\<lambda>b. if b_id b = bi then b\<lparr>b_refs := b_refs b - 1\<rparr> else b) (t_blobs d)\<rparr>))"

definition blob_keys :: "db \<Rightarrow> (string \<times> string \<times> int) set" where
  "blob_keys d = (\<lambda>b. (b_id b, b_path b, b_size b)) ` set (t_blobs d)"

lemma db_ok_blob_of:
  assumes "db_ok d" "m \<in> set (t_messages d)"
  obtains b where "find (\<lambda>b. b_id b = m_blob m) (t_blobs d) = Some b" "b \<in> set (t_blobs d)"
    "b_id b = m_blob m"
proof -
  have "find (\<lambda>b. b_id b = m_blob m) (t_blobs d) \<noteq> None"
    using assms by (auto simp: db_ok_def find_key_None)
  then show ?thesis using that by (auto dest: find_SomeD)
qed

lemma refs_of_delete_other:
  assumes "distinct (map m_id ms)" "m \<in> set ms" "m_blob m \<noteq> i"
  shows "filter (\<lambda>x. m_blob x = i) (filter (\<lambda>x. m_id x \<noteq> m_id m) ms) = filter (\<lambda>x. m_blob x = i) ms"
  using assms by (auto simp: filter_filter intro!: filter_cong dest: distinct_key_unique)

lemma refs_of_delete_same:
  assumes "distinct (map m_id ms)" "m \<in> set ms" "m_blob m = i"
  shows "length (filter (\<lambda>x. m_blob x = i) (filter (\<lambda>x. m_id x \<noteq> m_id m) ms))
     = length (filter (\<lambda>x. m_blob x = i) ms) - 1"
proof -
  have "filter (\<lambda>x. m_blob x = i) (filter (\<lambda>x. m_id x \<noteq> m_id m) ms)
      = filter (\<lambda>x. m_id x \<noteq> m_id m) (filter (\<lambda>x. m_blob x = i) ms)"
    by (simp add: filter_filter conj_commute)
  then show ?thesis using assms length_remove_key [of m_id "filter (\<lambda>x. m_blob x = i) ms" m] by simp
qed

lemma drop_ref_messages:
  "drop_ref i bi d = Inr (n, p, d') \<Longrightarrow> t_messages d' = filter (\<lambda>m. m_id m \<noteq> i) (t_messages d)"
  by (auto simp: drop_ref_def Let_def split: option.splits if_splits)

text \<open>The whole contract of dropping a reference to a stored message.\<close>

definition drop_ref_post :: "db \<Rightarrow> int \<Rightarrow> db \<Rightarrow> bool" where
  "drop_ref_post d n d' \<longleftrightarrow>
     db_ok d' \<and> 0 \<le> n \<and>
     sum_blobs d' = sum_blobs d - n \<and> sum_pending d' = sum_pending d + n \<and>
     blob_keys d' \<subseteq> blob_keys d \<and>
     blob_paths d' \<union> pending_paths d' = blob_paths d \<union> pending_paths d \<and>
     pending_paths d \<subseteq> pending_paths d'"

lemma drop_ref_last:
  assumes ok: "db_ok d" and m: "m \<in> set (t_messages d)"
    and b: "b \<in> set (t_blobs d)" "b_id b = m_blob m" and last: "b_refs b \<le> 1"
  defines "d' \<equiv> d\<lparr>t_messages := filter (\<lambda>x. m_id x \<noteq> m_id m) (t_messages d),
      t_pending := t_pending d @ [(b_path b, b_size b)],
      t_blobs := filter (\<lambda>x. b_id x \<noteq> m_blob m) (t_blobs d)\<rparr>"
  shows "drop_ref_post d (b_size b) d'"
proof -
  have np: "b_path b \<notin> pending_paths d"
    using db_ok_disjoint [OF ok] b(1) by (auto simp: blob_paths_def)
  have "length (refs_of (m_blob m) d) = 1" using db_ok_refs [OF ok b(1)] b(2) last by simp
  then obtain y where "refs_of (m_blob m) d = [y]" by (auto simp: length_Suc_conv)
  then have single: "set (refs_of (m_blob m) d) = {y}" by simp
  have only: "x = m" if "x \<in> set (t_messages d)" "m_blob x = m_blob m" for x
  proof -
    have "x \<in> set (refs_of (m_blob m) d)" "m \<in> set (refs_of (m_blob m) d)"
      using that m by (simp_all add: refs_of_def)
    then show ?thesis unfolding single by simp
  qed
  have path: "b_path x = b_path b \<longleftrightarrow> x = b" if "x \<in> set (t_blobs d)" for x
    using distinct_key_unique [OF db_ok_keys(3) [OF ok] that b(1)] by auto
  have bid: "b_id x = m_blob m \<longleftrightarrow> x = b" if "x \<in> set (t_blobs d)" for x
    using distinct_key_unique [OF db_ok_keys(2) [OF ok] that b(1)] b(2) by auto
  have "db_ok d'"
  proof (rule db_okI)
    show "p \<notin> pending_paths d'" if "p \<in> blob_paths d'" for p
      using that path bid db_ok_disjoint [OF ok, of p]
      by (auto simp: d'_def blob_paths_def pending_paths_def)
  next
    show "m_blob x \<in> b_id ` set (t_blobs d')" if "x \<in> set (t_messages d')" for x
    proof -
      have x: "x \<in> set (t_messages d)" "m_id x \<noteq> m_id m" using that by (auto simp: d'_def)
      then have "m_blob x \<noteq> m_blob m" using only by blast
      with db_ok_msg_blob [OF ok x(1)] show ?thesis by (auto simp: d'_def)
    qed
  next
    show "b_refs x = int (length (refs_of (b_id x) d')) \<and> 0 < b_refs x" if "x \<in> set (t_blobs d')" for x
      using that db_ok_refs [OF ok, of x]
        refs_of_delete_other [OF db_ok_keys(1) [OF ok] m, of "b_id x"]
      by (auto simp: d'_def refs_of_def)
  qed (use db_ok_keys [OF ok] np b db_ok_size [OF ok] db_ok_pending_size [OF ok]
      in \<open>auto simp: d'_def pending_paths_def\<close>)
  moreover have "sum_blobs d' = sum_blobs d - b_size b"
    using sum_list_remove_key [OF db_ok_keys(2) [OF ok] b(1), of b_size] b(2)
    by (simp add: d'_def sum_blobs_def)
  moreover have "blob_paths d' \<union> pending_paths d' = blob_paths d \<union> pending_paths d"
    using bid b(1) by (auto simp: d'_def blob_paths_def pending_paths_def)
  ultimately show ?thesis
    using db_ok_size [OF ok b(1)]
    by (auto simp: drop_ref_post_def sum_pending_def blob_keys_def d'_def pending_paths_def)
qed

lemma drop_ref_shared:
  assumes ok: "db_ok d" and m: "m \<in> set (t_messages d)"
    and b: "b \<in> set (t_blobs d)" "b_id b = m_blob m" and more: "1 < b_refs b"
  defines "d' \<equiv> d\<lparr>t_messages := filter (\<lambda>x. m_id x \<noteq> m_id m) (t_messages d),
      t_blobs := map (\<lambda>b. if b_id b = m_blob m then b\<lparr>b_refs := b_refs b - 1\<rparr> else b) (t_blobs d)\<rparr>"
  shows "drop_ref_post d 0 d'"
proof -
  let ?f = "\<lambda>b. if b_id b = m_blob m then b\<lparr>b_refs := b_refs b - 1\<rparr> else b"
  have same: "b_id (?f x) = b_id x" "b_path (?f x) = b_path x" "b_size (?f x) = b_size x" for x
    by simp_all
  have maps: "map b_id (t_blobs d') = map b_id (t_blobs d)" "map b_path (t_blobs d') = map b_path (t_blobs d)"
    "map b_size (t_blobs d') = map b_size (t_blobs d)"
    by (simp_all add: d'_def same)
  have paths: "blob_paths d' = blob_paths d" "pending_paths d' = pending_paths d"
    by (simp_all only: blob_paths_def maps) (simp add: pending_paths_def d'_def)
  have bid: "b_id x = m_blob m \<longleftrightarrow> x = b" if "x \<in> set (t_blobs d)" for x
    using distinct_key_unique [OF db_ok_keys(2) [OF ok] that b(1)] b(2) by auto
  have "db_ok d'"
  proof (rule db_okI)
    show "m_blob x \<in> b_id ` set (t_blobs d')" if "x \<in> set (t_messages d')" for x
    proof -
      have "x \<in> set (t_messages d)" using that by (simp add: d'_def)
      then have "m_blob x \<in> set (map b_id (t_blobs d'))"
        using db_ok_msg_blob [OF ok] unfolding maps(1) by simp
      then show ?thesis by simp
    qed
  next
    fix x assume "x \<in> set (t_blobs d')"
    then obtain y where y: "y \<in> set (t_blobs d)" "x = ?f y" by (auto simp: d'_def)
    show "b_refs x = int (length (refs_of (b_id x) d')) \<and> 0 < b_refs x"
    proof (cases "y = b")
      case True
      with y db_ok_refs [OF ok b(1)] more b(2)
        refs_of_delete_same [OF db_ok_keys(1) [OF ok] m refl]
      show ?thesis by (simp add: refs_of_def d'_def)
    next
      case False
      with y(1) bid [of y] have "m_blob m \<noteq> b_id y" by metis
      then have "refs_of (b_id y) d' = refs_of (b_id y) d" "x = y"
        using y refs_of_delete_other [OF db_ok_keys(1) [OF ok] m, of "b_id y"]
        by (auto simp: refs_of_def d'_def)
      with db_ok_refs [OF ok y(1)] show ?thesis by metis
    qed
  next
    show "0 \<le> b_size x" if "x \<in> set (t_blobs d')" for x
      using that db_ok_size [OF ok] by (auto simp: d'_def)
  next
    show "distinct (map b_id (t_blobs d'))" "distinct (map b_path (t_blobs d'))"
      unfolding maps by (rule db_ok_keys [OF ok])+
  next
    show "p \<notin> pending_paths d'" if "p \<in> blob_paths d'" for p
      using that db_ok_disjoint [OF ok] unfolding paths by blast
  qed (use db_ok_keys [OF ok] db_ok_pending_size [OF ok] in \<open>auto simp: d'_def\<close>)
  moreover have "blob_keys d' \<subseteq> blob_keys d"
    by (force simp: blob_keys_def d'_def)
  ultimately show ?thesis
    using paths by (simp add: drop_ref_post_def sum_blobs_def maps) (simp add: sum_pending_def d'_def)
qed

lemma drop_ref_ok:
  assumes ok: "db_ok d" and m: "m \<in> set (t_messages d)"
  obtains n p d' where "drop_ref (m_id m) (m_blob m) d = Inr (n, p, d')" "drop_ref_post d n d'"
proof -
  obtain b where b: "find (\<lambda>b. b_id b = m_blob m) (t_blobs d) = Some b" "b \<in> set (t_blobs d)"
    "b_id b = m_blob m" by (rule db_ok_blob_of [OF ok m])
  have np: "b_path b \<notin> pending_paths d"
    using db_ok_disjoint [OF ok] b(2) by (auto simp: blob_paths_def)
  show ?thesis
  proof (cases "b_refs b \<le> 1")
    case True
    with b np drop_ref_last [OF ok m b(2,3) True] show ?thesis
      by (intro that) (auto simp: drop_ref_def Let_def)
  next
    case False
    with b drop_ref_shared [OF ok m b(2,3)] show ?thesis
      by (intro that) (auto simp: drop_ref_def Let_def)
  qed
qed

end
