(* ===== verification/GoStrings.thy ===== *)
theory GoStrings
  imports Prelude
begin

text \<open>
  The parts of Go's string library the program uses. A Go string is a sequence of bytes, so it
  is a \<^typ>\<open>string\<close> here and \<^const>\<open>length\<close> is \<^verbatim>\<open>len\<close>. UTF-8 decoding follows
  \<^verbatim>\<open>utf8.DecodeRuneInString\<close>. Case mapping is exact on ASCII strings, where the library
  takes its own ASCII path; its Unicode tables are the parameter \<open>unicode\<close>, consulted only on
  strings with a byte of 128 or more.
\<close>

section \<open>Bytes\<close>

definition byte :: "char \<Rightarrow> nat" where
  "byte c = of_char c"

definition is_ascii :: "char \<Rightarrow> bool" where
  "is_ascii c \<longleftrightarrow> byte c < 128"

definition ascii_lower :: "char \<Rightarrow> char" where
  "ascii_lower c = (if 65 \<le> byte c \<and> byte c \<le> 90 then char_of (byte c + 32) else c)"

lemma byte_less: "byte c < 256"
  by (simp add: byte_def)

lemma byte_char_of [simp]: "n < 256 \<Longrightarrow> byte (char_of n) = n"
  by (simp add: byte_def)

lemma byte_inject: "byte c = byte d \<longleftrightarrow> c = d"
  by (simp add: byte_def)

lemma ascii_lower_idem [simp]: "ascii_lower (ascii_lower c) = ascii_lower c"
  by (auto simp: ascii_lower_def)

lemma is_ascii_lower [simp]: "is_ascii (ascii_lower c) = is_ascii c"
  by (auto simp: ascii_lower_def is_ascii_def)

lemma byte_at: "byte (CHR ''@'') = 64"
  by (simp add: byte_def)

lemma ascii_lower_at [simp]: "ascii_lower c = CHR ''@'' \<longleftrightarrow> c = CHR ''@''"
proof -
  have "byte (ascii_lower c) = 64 \<longleftrightarrow> byte c = 64"
    by (auto simp: ascii_lower_def)
  then show ?thesis using byte_inject byte_at by metis
qed

section \<open>Case mapping\<close>

record unicode =
  uLower :: "string \<Rightarrow> string"
  uFold :: "string \<Rightarrow> string \<Rightarrow> bool"

definition ToLower :: "unicode \<Rightarrow> string \<Rightarrow> string" where
  "ToLower u s = (if list_all is_ascii s then map ascii_lower s else uLower u s)"

definition EqualFold :: "unicode \<Rightarrow> string \<Rightarrow> string \<Rightarrow> bool" where
  "EqualFold u s t =
     (if list_all is_ascii s \<and> list_all is_ascii t
      then map ascii_lower s = map ascii_lower t else uFold u s t)"

text \<open>
  What the code relies on of the Unicode tables: lower-casing twice is lower-casing once, and no
  letter is lower-cased to the at sign.
\<close>

definition unicode_ok :: "unicode \<Rightarrow> bool" where
  "unicode_ok u \<longleftrightarrow>
     (\<forall>s. ToLower u (ToLower u s) = ToLower u s) \<and>
     (\<forall>s. CHR ''@'' \<notin> set s \<longrightarrow> CHR ''@'' \<notin> set (ToLower u s))"

lemma ToLower_Nil [simp]: "ToLower u [] = []"
  by (simp add: ToLower_def)

lemma ToLower_ascii: "list_all is_ascii s \<Longrightarrow> ToLower u s = map ascii_lower s"
  by (simp add: ToLower_def)

lemma ToLower_idem: "unicode_ok u \<Longrightarrow> ToLower u (ToLower u s) = ToLower u s"
  by (simp add: unicode_ok_def)

lemma ToLower_no_at: "unicode_ok u \<Longrightarrow> CHR ''@'' \<notin> set s \<Longrightarrow> CHR ''@'' \<notin> set (ToLower u s)"
  by (simp add: unicode_ok_def)

text \<open>A table that maps nothing beyond ASCII: it satisfies the law, so the law can hold.\<close>

definition plain_unicode :: unicode where
  "plain_unicode = \<lparr>uLower = id, uFold = (=)\<rparr>"

lemma plain_unicode_ok: "unicode_ok plain_unicode"
proof -
  have "CHR ''@'' \<notin> ascii_lower ` set s" if "CHR ''@'' \<notin> set s" for s
    using that by (metis ascii_lower_at imageE)
  then show ?thesis
    by (auto simp: unicode_ok_def plain_unicode_def ToLower_def list_all_iff)
qed

section \<open>Searching and cutting\<close>

text \<open>\<^verbatim>\<open>strings.LastIndex(s, c)\<close> for a one-byte \<open>c\<close>; \<^const>\<open>None\<close> is -1.\<close>

fun LastIndex :: "string \<Rightarrow> char \<Rightarrow> nat option" where
  "LastIndex [] c = None"
| "LastIndex (x # xs) c =
     (case LastIndex xs c of
        Some n \<Rightarrow> Some (Suc n)
      | None \<Rightarrow> if x = c then Some 0 else None)"

lemma LastIndex_None_iff: "LastIndex s c = None \<longleftrightarrow> c \<notin> set s"
  by (induction s) (auto split: option.splits)

lemma LastIndex_split:
  "LastIndex s c = Some n \<longleftrightarrow> n < length s \<and> s ! n = c \<and> c \<notin> set (drop (Suc n) s)"
proof (induction s arbitrary: n)
  case Nil
  then show ?case by simp
next
  case (Cons x xs)
  show ?case
  proof (cases "LastIndex xs c")
    case None
    then have "c \<notin> set xs" by (simp add: LastIndex_None_iff)
    then show ?thesis using None
      by (cases n) (auto dest: nth_mem)
  next
    case (Some k)
    with Cons.IH [of k] have k: "k < length xs" "xs ! k = c" by auto
    then have "c \<in> set xs" by (auto simp: in_set_conv_nth)
    moreover have "LastIndex xs c = Some m \<longleftrightarrow> m < length xs \<and> xs ! m = c \<and> c \<notin> set (drop (Suc m) xs)"
      for m by (rule Cons.IH)
    ultimately show ?thesis using Some by (cases n) simp_all
  qed
qed

lemma LastIndex_append_notin:
  "c \<notin> set t \<Longrightarrow> LastIndex (s @ c # t) c = Some (length s)"
  by (simp add: LastIndex_split nth_append)

text \<open>\<^verbatim>\<open>strings.Cut(s, c)\<close> for a one-byte separator: before, after, found.\<close>

fun Cut :: "string \<Rightarrow> char \<Rightarrow> string \<times> string \<times> bool" where
  "Cut [] c = ([], [], False)"
| "Cut (x # xs) c =
     (if x = c then ([], xs, True)
      else case Cut xs c of (b, a, f) \<Rightarrow> (x # b, a, f))"

lemma Cut_append: "c \<notin> set b \<Longrightarrow> Cut (b @ c # a) c = (b, a, True)"
  by (induction b) auto

lemma Cut_notin: "c \<notin> set s \<Longrightarrow> Cut s c = (s, [], False)"
  by (induction s) auto

lemma Cut_cases:
  obtains b a where "s = b @ c # a" "c \<notin> set b" "Cut s c = (b, a, True)"
  | "c \<notin> set s" "Cut s c = (s, [], False)"
proof (cases "c \<in> set s")
  case True
  then obtain b a where "s = b @ c # a" "c \<notin> set b" by (meson split_list_first)
  then show ?thesis using that(1) Cut_append by metis
next
  case False
  then show ?thesis using that(2) Cut_notin by metis
qed

definition HasPrefix :: "string \<Rightarrow> string \<Rightarrow> bool" where
  "HasPrefix s p \<longleftrightarrow> take (length p) s = p"

definition HasSuffix :: "string \<Rightarrow> string \<Rightarrow> bool" where
  "HasSuffix s p \<longleftrightarrow> length p \<le> length s \<and> drop (length s - length p) s = p"

definition TrimPrefix :: "string \<Rightarrow> string \<Rightarrow> string" where
  "TrimPrefix s p = (if HasPrefix s p then drop (length p) s else s)"

definition TrimSuffix :: "string \<Rightarrow> string \<Rightarrow> string" where
  "TrimSuffix s p = (if HasSuffix s p then take (length s - length p) s else s)"

lemma HasPrefix_iff: "HasPrefix s p \<longleftrightarrow> (\<exists>t. s = p @ t)"
  by (metis HasPrefix_def append_eq_conv_conj append_take_drop_id)

lemma HasSuffix_iff: "HasSuffix s p \<longleftrightarrow> (\<exists>t. s = t @ p)"
proof
  assume "HasSuffix s p"
  then show "\<exists>t. s = t @ p"
    unfolding HasSuffix_def by (metis append_take_drop_id)
next
  assume "\<exists>t. s = t @ p"
  then show "HasSuffix s p" by (auto simp: HasSuffix_def)
qed

definition ContainsAny :: "string \<Rightarrow> string \<Rightarrow> bool" where
  "ContainsAny s cs = list_ex (\<lambda>c. c \<in> set cs) s"

text \<open>\<^verbatim>\<open>strings.Split(s, c)\<close> for a one-byte separator.\<close>

fun Split :: "string \<Rightarrow> char \<Rightarrow> string list" where
  "Split [] c = [[]]"
| "Split (x # xs) c =
     (if x = c then [] # Split xs c
      else case Split xs c of [] \<Rightarrow> [[x]] | p # ps \<Rightarrow> (x # p) # ps)"

fun Join :: "string list \<Rightarrow> char \<Rightarrow> string" where
  "Join [] c = []"
| "Join [p] c = p"
| "Join (p # ps) c = p @ c # Join ps c"

lemma Split_not_Nil [simp]: "Split s c \<noteq> []"
  by (induction s) (auto split: list.splits)

lemma Join_Split [simp]: "Join (Split s c) c = s"
proof (induction s)
  case Nil
  then show ?case by simp
next
  case (Cons x xs)
  then show ?case
    by (cases "Split xs c") (auto simp: neq_Nil_conv split: list.splits,
        metis Join.simps(2,3) append_Cons list.exhaust)
qed

lemma Split_parts: "p \<in> set (Split s c) \<Longrightarrow> c \<notin> set p"
  by (induction s arbitrary: p) (auto split: list.splits if_splits)

lemma Split_no_sep: "c \<notin> set p \<Longrightarrow> Split p c = [p]"
  by (induction p) auto

lemma Split_append: "c \<notin> set p \<Longrightarrow> Split (p @ c # s) c = p # Split s c"
  by (induction p) (auto split: list.splits)

lemma Split_Join:
  assumes "ps \<noteq> []" and "\<And>p. p \<in> set ps \<Longrightarrow> c \<notin> set p"
  shows "Split (Join ps c) c = ps"
  using assms
  by (induction ps c rule: Join.induct) (auto simp: Split_no_sep Split_append)

text \<open>\<^verbatim>\<open>strings.SplitN(s, sep, 2)\<close>: one part, or the two parts around the first \<open>sep\<close>.\<close>

fun split_first :: "string \<Rightarrow> string \<Rightarrow> (string \<times> string) option" where
  "split_first sep [] = (if sep = [] then Some ([], []) else None)"
| "split_first sep (x # xs) =
     (if HasPrefix (x # xs) sep then Some ([], drop (length sep) (x # xs))
      else case split_first sep xs of None \<Rightarrow> None | Some (b, a) \<Rightarrow> Some (x # b, a))"

lemma split_first_Some: "split_first sep s = Some (b, a) \<Longrightarrow> s = b @ sep @ a"
proof (induction s arbitrary: b)
  case Nil
  then show ?case by (auto split: if_splits)
next
  case (Cons x xs)
  then show ?case
    by (auto simp: HasPrefix_def split: if_splits option.splits)
      (metis append_take_drop_id)
qed

lemma split_first_None:
  "split_first sep s = None \<Longrightarrow> \<not> (\<exists>b a. s = b @ sep @ a)"
proof (induction s)
  case Nil
  then show ?case by (auto split: if_splits)
next
  case (Cons x xs)
  then have np: "\<not> HasPrefix (x # xs) sep" and IH: "\<not> (\<exists>b a. xs = b @ sep @ a)"
    by (auto split: if_splits option.splits)
  show ?case
  proof
    assume "\<exists>b a. x # xs = b @ sep @ a"
    then obtain b a where eq: "x # xs = b @ sep @ a" by blast
    with np have "b \<noteq> []" by (auto simp: HasPrefix_iff)
    with eq IH show False by (auto simp: Cons_eq_append_conv)
  qed
qed

lemma split_first_minimal:
  "split_first sep s = Some (b, a) \<Longrightarrow> s = b' @ sep @ a' \<Longrightarrow> length b \<le> length b'"
proof (induction s arbitrary: b b')
  case Nil
  then show ?case by (auto split: if_splits)
next
  case (Cons x xs)
  show ?case
  proof (cases "HasPrefix (x # xs) sep")
    case True
    with Cons.prems(1) have "b = []" by simp
    then show ?thesis by simp
  next
    case False
    with Cons.prems(1) obtain c where c: "split_first sep xs = Some (c, a)" "b = x # c"
      by (auto split: option.splits)
    from False Cons.prems(2) have "b' \<noteq> []" by (auto simp: HasPrefix_iff)
    with Cons.prems(2) obtain d where "b' = x # d" "xs = d @ sep @ a'"
      by (auto simp: Cons_eq_append_conv)
    with Cons.IH [OF c(1)] c(2) show ?thesis by simp
  qed
qed

end
