(* ===== verification/GoText.thy ===== *)
theory GoText
  imports GoStrings
begin

text \<open>
  UTF-8 validity (\<^verbatim>\<open>utf8.DecodeRuneInString\<close>, \<^verbatim>\<open>strings.ToValidUTF8\<close>), white space
  (\<^verbatim>\<open>strings.TrimSpace\<close>) and decimal numbers (\<^verbatim>\<open>strconv.Itoa\<close>, \<^verbatim>\<open>strconv.Atoi\<close>).
\<close>

section \<open>UTF-8\<close>

definition in_range :: "char \<Rightarrow> nat \<Rightarrow> nat \<Rightarrow> bool" where
  "in_range c lo hi \<longleftrightarrow> lo \<le> byte c \<and> byte c \<le> hi"

text \<open>
  The number of bytes of the first encoded code point, 0 where the string does not start with a
  valid encoding (the library then reports \<^verbatim>\<open>RuneError\<close> and width 1).
\<close>

definition second_lo :: "nat \<Rightarrow> nat" where
  "second_lo n = (if n = 224 then 160 else if n = 240 then 144 else 128)"

definition second_hi :: "nat \<Rightarrow> nat" where
  "second_hi n = (if n = 237 then 159 else if n = 244 then 143 else 191)"

fun rune_len :: "string \<Rightarrow> nat" where
  "rune_len [] = 0"
| "rune_len (c # cs) =
     (let n = byte c in
      if n < 128 then 1
      else if 194 \<le> n \<and> n \<le> 223 then
        (case cs of d # _ \<Rightarrow> if in_range d 128 191 then 2 else 0 | _ \<Rightarrow> 0)
      else if 224 \<le> n \<and> n \<le> 239 then
        (case cs of d # e # _ \<Rightarrow>
            if in_range d (second_lo n) (second_hi n) \<and> in_range e 128 191 then 3 else 0
         | _ \<Rightarrow> 0)
      else if 240 \<le> n \<and> n \<le> 244 then
        (case cs of d # e # f # _ \<Rightarrow>
            if in_range d (second_lo n) (second_hi n) \<and> in_range e 128 191 \<and> in_range f 128 191
            then 4 else 0
         | _ \<Rightarrow> 0)
      else 0)"

declare rune_len.simps(2) [simp del]

lemma rune_len_le: "rune_len s \<le> length s"
  by (cases s) (auto simp: rune_len.simps(2) Let_def split: list.splits)

lemma rune_len_ascii: "byte c < 128 \<Longrightarrow> rune_len (c # cs) = 1"
  by (simp add: rune_len.simps(2))

text \<open>Only the bytes of the code point matter.\<close>

lemma rune_len_take_append: "0 < rune_len s \<Longrightarrow> rune_len (take (rune_len s) s @ t) = rune_len s"
  by (cases s) (auto simp: rune_len.simps(2) Let_def split: list.splits if_splits)

function valid_utf8 :: "string \<Rightarrow> bool" where
  "valid_utf8 s \<longleftrightarrow> (if s = [] then True
     else if rune_len s = 0 then False else valid_utf8 (drop (rune_len s) s))"
  by pat_completeness auto
termination
  by (relation "measure length") auto

declare valid_utf8.simps [simp del]

lemma valid_utf8_Nil [simp]: "valid_utf8 []"
  by (simp add: valid_utf8.simps)

lemma valid_utf8_step:
  assumes "0 < rune_len s"
  shows "valid_utf8 (take (rune_len s) s @ t) = valid_utf8 t"
proof -
  let ?r = "take (rune_len s) s @ t"
  have len: "rune_len ?r = rune_len s" by (rule rune_len_take_append [OF assms])
  have "length (take (rune_len s) s) = rune_len s" using rune_len_le [of s] by simp
  then have "drop (rune_len s) ?r = t" by simp
  moreover have "?r \<noteq> []" using assms by (cases s) auto
  ultimately show ?thesis using assms by (subst valid_utf8.simps) (simp add: len)
qed

text \<open>The loop of \<^verbatim>\<open>strings.ToValidUTF8\<close>; a run of invalid bytes is replaced once.\<close>

function to_valid_loop :: "string \<Rightarrow> bool \<Rightarrow> string \<Rightarrow> string" where
  "to_valid_loop rep invalid s =
     (case s of
        [] \<Rightarrow> []
      | c # cs \<Rightarrow>
          if rune_len s = 0 then (if invalid then [] else rep) @ to_valid_loop rep True cs
          else take (rune_len s) s @ to_valid_loop rep False (drop (rune_len s) s))"
  by pat_completeness auto
termination
  by (relation "measure (\<lambda>(_, _, s). length s)") auto

declare to_valid_loop.simps [simp del]

definition ToValidUTF8 :: "string \<Rightarrow> string \<Rightarrow> string" where
  "ToValidUTF8 s rep = to_valid_loop rep False s"

lemma to_valid_loop_Nil [simp]: "to_valid_loop rep b [] = []"
  by (simp add: to_valid_loop.simps)

lemma to_valid_loop_bad:
  "rune_len (c # cs) = 0 \<Longrightarrow>
   to_valid_loop rep b (c # cs) = (if b then [] else rep) @ to_valid_loop rep True cs"
  by (subst to_valid_loop.simps) simp

lemma to_valid_loop_good:
  "0 < rune_len s \<Longrightarrow>
   to_valid_loop rep b s = take (rune_len s) s @ to_valid_loop rep False (drop (rune_len s) s)"
  by (subst to_valid_loop.simps) (auto split: list.split)

lemma to_valid_loop_drop:
  "valid_utf8 (to_valid_loop [] b s) \<and> length (to_valid_loop [] b s) \<le> length s"
proof (induction "[] :: string" b s rule: to_valid_loop.induct)
  case (1 b s)
  show ?case
  proof (cases s)
    case Nil
    then show ?thesis by simp
  next
    case (Cons c cs)
    show ?thesis
    proof (cases "rune_len s = 0")
      case True
      with Cons "1.hyps"(1) show ?thesis by (simp add: to_valid_loop_bad le_SucI)
    next
      case False
      let ?t = "to_valid_loop [] False (drop (rune_len s) s)"
      from False Cons "1.hyps"(2) have "valid_utf8 ?t" "length ?t \<le> length s - rune_len s"
        by simp_all
      with False rune_len_le [of s] show ?thesis
        by (simp add: to_valid_loop_good valid_utf8_step)
    qed
  qed
qed

lemma to_valid_loop_valid: "valid_utf8 s \<Longrightarrow> to_valid_loop rep b s = s"
proof (induction s arbitrary: b rule: valid_utf8.induct)
  case (1 s)
  show ?case
  proof (cases "s = []")
    case True
    then show ?thesis by simp
  next
    case False
    with 1 have "0 < rune_len s" "valid_utf8 (drop (rune_len s) s)"
      using valid_utf8.simps [of s] by (auto split: if_splits)
    with 1 False show ?thesis by (simp add: to_valid_loop_good)
  qed
qed

lemma ToValidUTF8_valid [simp]: "valid_utf8 (ToValidUTF8 s [])"
  by (simp add: ToValidUTF8_def to_valid_loop_drop)

lemma ToValidUTF8_length: "length (ToValidUTF8 s []) \<le> length s"
  by (simp add: ToValidUTF8_def to_valid_loop_drop)

lemma ToValidUTF8_id: "valid_utf8 s \<Longrightarrow> ToValidUTF8 s rep = s"
  by (simp add: ToValidUTF8_def to_valid_loop_valid)

lemma valid_utf8_append: "valid_utf8 s \<Longrightarrow> valid_utf8 (s @ t) = valid_utf8 t"
proof (induction s rule: valid_utf8.induct)
  case (1 s)
  show ?case
  proof (cases "s = []")
    case False
    with "1.prems" have r: "0 < rune_len s" "valid_utf8 (drop (rune_len s) s)"
      using valid_utf8.simps [of s] by (auto split: if_splits)
    have "valid_utf8 (s @ t) = valid_utf8 (take (rune_len s) s @ (drop (rune_len s) s @ t))"
      by (metis append_assoc append_take_drop_id)
    also have "\<dots> = valid_utf8 (drop (rune_len s) s @ t)" by (rule valid_utf8_step [OF r(1)])
    finally show ?thesis using "1.IH" False r by simp
  qed simp
qed

lemma to_valid_loop_valid_rep: "valid_utf8 rep \<Longrightarrow> valid_utf8 (to_valid_loop rep b s)"
proof (induction rep b s rule: to_valid_loop.induct)
  case (1 rep b s)
  show ?case
  proof (cases s)
    case (Cons c cs)
    show ?thesis
    proof (cases "rune_len s = 0")
      case True
      with Cons "1.IH"(1) "1.prems" show ?thesis by (simp add: to_valid_loop_bad valid_utf8_append)
    next
      case False
      with Cons "1.IH"(2) "1.prems" show ?thesis by (simp add: to_valid_loop_good valid_utf8_step)
    qed
  qed simp
qed

lemma ToValidUTF8_valid_rep: "valid_utf8 rep \<Longrightarrow> valid_utf8 (ToValidUTF8 s rep)"
  by (simp add: ToValidUTF8_def to_valid_loop_valid_rep)

lemma valid_utf8_ascii: "list_all is_ascii s \<Longrightarrow> valid_utf8 s"
proof (induction s)
  case Nil
  then show ?case by simp
next
  case (Cons c cs)
  then have "rune_len (c # cs) = 1" by (simp add: rune_len_ascii is_ascii_def)
  with Cons show ?case by (subst valid_utf8.simps) simp
qed

section \<open>White space\<close>

text \<open>
  \<^verbatim>\<open>strings.TrimSpace\<close> drops leading and trailing \<^verbatim>\<open>unicode.IsSpace\<close> code points: the
  ASCII ones, and the UTF-8 encodings of U+0085, U+00A0, U+1680, U+2000 to U+200A, U+2028,
  U+2029, U+202F, U+205F and U+3000.
\<close>

definition ascii_space :: "char \<Rightarrow> bool" where
  "ascii_space c \<longleftrightarrow> byte c \<in> {9, 10, 11, 12, 13, 32}"

definition bytes :: "nat list \<Rightarrow> string" where
  "bytes ns = map char_of ns"

definition wide_spaces :: "string list" where
  "wide_spaces =
     map bytes ([[194, 133], [194, 160], [225, 154, 128]]
       @ map (\<lambda>k. [226, 128, k]) [128, 129, 130, 131, 132, 133, 134, 135, 136, 137, 138, 168, 169, 175]
       @ [[226, 129, 159], [227, 128, 128]])"

definition lead_space :: "string \<Rightarrow> nat" where
  "lead_space s =
     (case s of [] \<Rightarrow> 0
      | c # cs \<Rightarrow> if ascii_space c then 1
          else case find (\<lambda>w. HasPrefix s w) wide_spaces of None \<Rightarrow> 0 | Some w \<Rightarrow> length w)"

definition trail_space :: "string \<Rightarrow> nat" where
  "trail_space s =
     (if s = [] then 0 else if ascii_space (last s) then 1
      else case find (\<lambda>w. HasSuffix s w) wide_spaces of None \<Rightarrow> 0 | Some w \<Rightarrow> length w)"

function trim_left :: "string \<Rightarrow> string" where
  "trim_left s = (if s = [] \<or> lead_space s = 0 then s else trim_left (drop (lead_space s) s))"
  by pat_completeness auto
termination
  by (relation "measure length") auto

function trim_right :: "string \<Rightarrow> string" where
  "trim_right s =
     (if s = [] \<or> trail_space s = 0 then s else trim_right (take (length s - trail_space s) s))"
  by pat_completeness auto
termination
  by (relation "measure length") auto

declare trim_left.simps [simp del] trim_right.simps [simp del]

definition TrimSpace :: "string \<Rightarrow> string" where
  "TrimSpace s = trim_right (trim_left s)"

lemma trim_left_Nil [simp]: "trim_left [] = []"
  by (simp add: trim_left.simps)

lemma trim_right_Nil [simp]: "trim_right [] = []"
  by (simp add: trim_right.simps)

lemma TrimSpace_Nil [simp]: "TrimSpace [] = []"
  by (simp add: TrimSpace_def)

lemma trim_left_suffix: "\<exists>p. s = p @ trim_left s"
proof (induction s rule: trim_left.induct)
  case (1 s)
  show ?case
  proof (cases "s = [] \<or> lead_space s = 0")
    case True
    then show ?thesis by (simp add: trim_left.simps [of s])
  next
    case False
    with 1 obtain p where p: "drop (lead_space s) s = p @ trim_left (drop (lead_space s) s)" by blast
    have "s = take (lead_space s) s @ drop (lead_space s) s" by simp
    also have "\<dots> = (take (lead_space s) s @ p) @ trim_left (drop (lead_space s) s)"
      using p by simp
    finally show ?thesis using False by (metis trim_left.simps)
  qed
qed

lemma trim_right_prefix: "\<exists>p. s = trim_right s @ p"
proof (induction s rule: trim_right.induct)
  case (1 s)
  let ?k = "length s - trail_space s"
  show ?case
  proof (cases "s = [] \<or> trail_space s = 0")
    case True
    then show ?thesis by (simp add: trim_right.simps [of s])
  next
    case False
    with 1 obtain p where p: "take ?k s = trim_right (take ?k s) @ p" by blast
    have "s = take ?k s @ drop ?k s" by simp
    also have "\<dots> = trim_right (take ?k s) @ (p @ drop ?k s)"
      by (subst p) (rule append_assoc)
    finally show ?thesis using False by (metis trim_right.simps)
  qed
qed

lemma trim_left_sub: "length (trim_left s) \<le> length s \<and> set (trim_left s) \<subseteq> set s"
proof -
  obtain p where p: "s = p @ trim_left s" using trim_left_suffix by blast
  have "length s = length (p @ trim_left s)" "set s = set (p @ trim_left s)"
    by (rule arg_cong [OF p])+
  then show ?thesis by simp
qed

lemma trim_right_sub: "length (trim_right s) \<le> length s \<and> set (trim_right s) \<subseteq> set s"
proof -
  obtain p where p: "s = trim_right s @ p" using trim_right_prefix by blast
  have "length s = length (trim_right s @ p)" "set s = set (trim_right s @ p)"
    by (rule arg_cong [OF p])+
  then show ?thesis by simp
qed

lemma TrimSpace_length: "length (TrimSpace s) \<le> length s"
  using trim_left_sub [of s] trim_right_sub [of "trim_left s"] by (simp add: TrimSpace_def)

lemma TrimSpace_set: "set (TrimSpace s) \<subseteq> set s"
  using trim_left_sub [of s] trim_right_sub [of "trim_left s"] by (auto simp: TrimSpace_def)

text \<open>Trimming twice is trimming once.\<close>

lemma trim_left_done: "trim_left s = [] \<or> lead_space (trim_left s) = 0"
proof (induction s rule: trim_left.induct)
  case (1 s)
  then show ?case by (cases "s = [] \<or> lead_space s = 0") (auto simp: trim_left.simps [of s])
qed

lemma trim_right_done: "trim_right s = [] \<or> trail_space (trim_right s) = 0"
proof (induction s rule: trim_right.induct)
  case (1 s)
  then show ?case by (cases "s = [] \<or> trail_space s = 0") (auto simp: trim_right.simps [of s])
qed

lemma lead_space_prefix:
  assumes "lead_space (s @ t) = 0" "s \<noteq> []"
  shows "lead_space s = 0"
proof -
  obtain c cs where s: "s = c # cs" using assms(2) by (cases s) auto
  have wide: "w \<noteq> []" if "w \<in> set wide_spaces" for w
    using that by (auto simp: wide_spaces_def bytes_def)
  have "find (\<lambda>w. HasPrefix s w) wide_spaces = None"
  proof (rule ccontr)
    assume "find (\<lambda>w. HasPrefix s w) wide_spaces \<noteq> None"
    then obtain w where w: "w \<in> set wide_spaces" "HasPrefix s w" by (auto dest!: find_SomeD)
    then have "HasPrefix (s @ t) w" by (auto simp: HasPrefix_iff)
    with w(1) obtain v where "find (\<lambda>w. HasPrefix (s @ t) w) wide_spaces = Some v"
      by (cases "find (\<lambda>w. HasPrefix (s @ t) w) wide_spaces") (auto simp: find_None_iff)
    with assms(1) wide show False
      by (auto simp: lead_space_def s split: if_splits dest!: find_SomeD)
  qed
  with assms(1) show ?thesis by (simp add: lead_space_def s split: if_splits)
qed

lemma TrimSpace_idem [simp]: "TrimSpace (TrimSpace s) = TrimSpace s"
proof -
  let ?l = "trim_left s" and ?r = "trim_right (trim_left s)"
  obtain p where p: "?l = ?r @ p" using trim_right_prefix by blast
  have "trim_left ?r = ?r"
  proof (cases "?r = []")
    case False
    then have "lead_space (?r @ p) = 0" using trim_left_done [of s] p by (metis Nil_is_append_conv)
    then have "lead_space ?r = 0" using False by (rule lead_space_prefix)
    then show ?thesis by (simp add: trim_left.simps [of ?r])
  qed simp
  moreover have "trim_right ?r = ?r"
    using trim_right_done [of ?l] by (auto simp: trim_right.simps [of ?r])
  ultimately show ?thesis by (simp add: TrimSpace_def)
qed

lemma TrimSpace_same: "lead_space s = 0 \<Longrightarrow> trail_space s = 0 \<Longrightarrow> TrimSpace s = s"
  by (simp add: TrimSpace_def trim_left.simps [of s] trim_right.simps [of s])

section \<open>Decimal numbers\<close>

definition digit :: "nat \<Rightarrow> char" where
  "digit d = char_of (48 + d)"

function nat_dec :: "nat \<Rightarrow> string" where
  "nat_dec n = (if n < 10 then [digit n] else nat_dec (n div 10) @ [digit (n mod 10)])"
  by pat_completeness auto
termination
  by (relation "measure id") auto

declare nat_dec.simps [simp del]

definition Itoa :: "int \<Rightarrow> string" where
  "Itoa n = (if n < 0 then CHR ''-'' # nat_dec (nat (- n)) else nat_dec (nat n))"

definition is_digit :: "char \<Rightarrow> bool" where
  "is_digit c \<longleftrightarrow> 48 \<le> byte c \<and> byte c \<le> 57"

fun dec_value :: "nat \<Rightarrow> string \<Rightarrow> nat option" where
  "dec_value acc [] = Some acc"
| "dec_value acc (c # cs) =
     (if is_digit c then dec_value (10 * acc + (byte c - 48)) cs else None)"

text \<open>
  \<^verbatim>\<open>strconv.Atoi\<close> and \<^verbatim>\<open>strconv.ParseInt(s, 10, 64)\<close>: an optional sign, at least one digit,
  only digits, and a value that fits 64 bits; every other string is an error.
\<close>

definition Atoi :: "string \<Rightarrow> int option" where
  "Atoi s =
     (let neg = (case s of c # _ \<Rightarrow> c = CHR ''-'' | [] \<Rightarrow> False);
          ds = (case s of c # cs \<Rightarrow> if c = CHR ''-'' \<or> c = CHR ''+'' then cs else s | [] \<Rightarrow> s)
      in if ds = [] then None
         else case dec_value 0 ds of
             None \<Rightarrow> None
           | Some n \<Rightarrow>
               if neg then (if n \<le> 2 ^ 63 then Some (- int n) else None)
               else (if n < 2 ^ 63 then Some (int n) else None))"

lemma byte_digit: "d < 10 \<Longrightarrow> byte (digit d) = 48 + d"
  by (simp add: digit_def)

lemma is_digit_digit: "d < 10 \<Longrightarrow> is_digit (digit d)"
  by (simp add: is_digit_def byte_digit)

lemma dec_value_append:
  "dec_value acc (s @ t) = (case dec_value acc s of None \<Rightarrow> None | Some n \<Rightarrow> dec_value n t)"
  by (induction acc s rule: dec_value.induct) auto

lemma dec_value_nat_dec: "dec_value 0 (nat_dec n) = Some n"
proof (induction n rule: nat_dec.induct)
  case (1 n)
  then show ?case
    by (subst nat_dec.simps) (auto simp: dec_value_append is_digit_digit byte_digit)
qed

lemma nat_dec_digits: "c \<in> set (nat_dec n) \<Longrightarrow> is_digit c"
proof (induction n rule: nat_dec.induct)
  case (1 n)
  then show ?case
    by (subst (asm) (2) nat_dec.simps) (auto simp: is_digit_digit split: if_splits)
qed

lemma nat_dec_not_Nil [simp]: "nat_dec n \<noteq> []"
  by (subst nat_dec.simps) simp

lemma nat_dec_hd: "\<exists>c cs. nat_dec n = c # cs \<and> c \<noteq> CHR ''-'' \<and> c \<noteq> CHR ''+''"
proof -
  obtain c cs where eq: "nat_dec n = c # cs" by (cases "nat_dec n") auto
  then have "is_digit c" using nat_dec_digits [of c n] by simp
  then have "c \<noteq> CHR ''-'' \<and> c \<noteq> CHR ''+''" by (auto simp: is_digit_def byte_def)
  with eq show ?thesis by blast
qed

text \<open>Printing and reading back a 64-bit integer.\<close>

lemma Atoi_Itoa: "- (2 ^ 63) \<le> n \<Longrightarrow> n < 2 ^ 63 \<Longrightarrow> Atoi (Itoa n) = Some n"
proof -
  assume b: "- (2 ^ 63) \<le> n" "n < 2 ^ 63"
  show ?thesis
  proof (cases "n < 0")
    case True
    then have "nat (- n) \<le> 2 ^ 63" using b by (simp add: nat_le_iff)
    with True show ?thesis by (simp add: Itoa_def Atoi_def dec_value_nat_dec Let_def)
  next
    case False
    obtain c cs where c: "nat_dec (nat n) = c # cs" "c \<noteq> CHR ''-''" "c \<noteq> CHR ''+''"
      using nat_dec_hd by blast
    from False b have "nat n < 2 ^ 63" by (simp add: nat_less_iff)
    with False c dec_value_nat_dec [of "nat n"] show ?thesis
      by (simp add: Itoa_def Atoi_def Let_def)
  qed
qed

lemma Atoi_range: "Atoi s = Some n \<Longrightarrow> - (2 ^ 63) \<le> n \<and> n < 2 ^ 63"
  by (auto simp: Atoi_def Let_def split: option.splits if_splits)

section \<open>64-bit arithmetic\<close>

text \<open>The wrap-around of \<^verbatim>\<open>int\<close> and the division that truncates towards zero.\<close>

definition wrap64 :: "int \<Rightarrow> int" where
  "wrap64 n = (n + 2 ^ 63) mod 2 ^ 64 - 2 ^ 63"

definition quot :: "int \<Rightarrow> int \<Rightarrow> int" where
  "quot a b = sgn a * sgn b * (abs a div abs b)"

lemma wrap64_id: "- (2 ^ 63) \<le> n \<Longrightarrow> n < 2 ^ 63 \<Longrightarrow> wrap64 n = n"
  by (simp add: wrap64_def)

lemma wrap64_range: "- (2 ^ 63) \<le> wrap64 n \<and> wrap64 n < 2 ^ 63"
  by (simp add: wrap64_def)

lemma quot_nonneg: "0 \<le> a \<Longrightarrow> 0 < b \<Longrightarrow> quot a b = a div b"
  by (cases "a = 0") (simp_all add: quot_def)

section \<open>Hexadecimal\<close>

text \<open>\<^verbatim>\<open>fmt.Sprintf("%x")\<close> on a byte.\<close>

definition hex_digit :: "nat \<Rightarrow> char" where
  "hex_digit n = ''0123456789abcdef'' ! n"

definition hex_byte :: "char \<Rightarrow> string" where
  "hex_byte c = [hex_digit (of_char c div 16), hex_digit (of_char c mod 16)]"

end
