(* ===== verification/Config.thy ===== *)
theory Config
  imports Complex_Main GoText
begin

text \<open>
  The configuration record of \<^verbatim>\<open>internal/app/config.go\<close>. Durations are nanoseconds. A
  \<^verbatim>\<open>float64\<close> is a rational, an infinity or not a number.
\<close>

datatype float64 = FNaN | FInf bool | FFin rat

text \<open>The comparison \<^verbatim>\<open>f <= 0\<close>, false for not a number.\<close>

definition le_zero :: "float64 \<Rightarrow> bool" where
  "le_zero f = (case f of FNaN \<Rightarrow> False | FInf positive \<Rightarrow> \<not> positive | FFin x \<Rightarrow> x \<le> 0)"

definition defaultRateLimitRPS :: int where "defaultRateLimitRPS = 10"
definition defaultRateLimitBurst :: int where "defaultRateLimitBurst = 50"

record config =
  AutoTLSEnabled :: bool
  AutoTLSWebEnabled :: bool
  AutoTLSSMTPEnabled :: bool
  WebDomain :: string
  HTTPSAddr :: string
  HTTPSTLSCertFile :: string
  HTTPSTLSKeyFile :: string
  ACMEEmail :: string
  ACMEAcceptTOS :: bool
  ACMEStaging :: bool
  ACMEDebug :: bool
  ACMECacheDir :: string
  AdminEnabled :: bool
  AdminAddr :: string
  AnalyticsEnabled :: bool
  AnalyticsEventTTL :: int
  AnalyticsMaxStorageBytes :: int
  MailDomain :: string
  DataDir :: string
  SMTPAddr :: string
  SMTPTLSCertFile :: string
  SMTPTLSKeyFile :: string
  HTTPAddr :: string
  MetricsAddr :: string
  MessageTTL :: int
  MaxMessageBytes :: int
  MaxStorageBytes :: int
  MaxSMTPConnections :: int
  MaxSMTPConnectionsPerIP :: int
  MaxSMTPRecipients :: int
  MaxHTTPRequests :: int
  MetricsEnabled :: bool
  HTTPAccessLogMode :: string
  HTTPLogHeaders :: "string list"
  HTTPRateLimitRPS :: float64
  HTTPRateLimitBurst :: int
  HTTPRateLimitIPHeader :: string

text \<open>A small configuration, for the concrete instances of the theorems.\<close>

definition example_config :: config where
  "example_config = \<lparr>AutoTLSEnabled = False, AutoTLSWebEnabled = False, AutoTLSSMTPEnabled = False,
     WebDomain = ''t.io'', HTTPSAddr = '':8443'', HTTPSTLSCertFile = [], HTTPSTLSKeyFile = [],
     ACMEEmail = [], ACMEAcceptTOS = False, ACMEStaging = False, ACMEDebug = False,
     ACMECacheDir = ''/data/acme'', AdminEnabled = False, AdminAddr = ''127.0.0.1:8081'',
     AnalyticsEnabled = False, AnalyticsEventTTL = 720 * 3600 * 1000000000,
     AnalyticsMaxStorageBytes = 1073741824, MailDomain = ''t.io'', DataDir = ''/data'',
     SMTPAddr = '':25'', SMTPTLSCertFile = [], SMTPTLSKeyFile = [], HTTPAddr = '':8080'',
     MetricsAddr = ''127.0.0.1:9090'', MessageTTL = 3600 * 1000000000, MaxMessageBytes = 16,
     MaxStorageBytes = 20, MaxSMTPConnections = 2, MaxSMTPConnectionsPerIP = 1,
     MaxSMTPRecipients = 2, MaxHTTPRequests = 2, MetricsEnabled = False,
     HTTPAccessLogMode = ''errors'', HTTPLogHeaders = [''User-Agent''],
     HTTPRateLimitRPS = FFin 10, HTTPRateLimitBurst = 20, HTTPRateLimitIPHeader = []\<rparr>"

end
