(* ===== verification/Address.thy ===== *)
theory Address
  imports GoText
begin

text \<open>
  Recipient addresses (\<^verbatim>\<open>internal/app/smtp.go\<close>): \<open>normalizeRecipient\<close> canonicalises the
  domain and keeps the local part, \<open>accepts\<close> is the domain test of \<^verbatim>\<open>RCPT TO\<close>. Both cut at
  the last at sign.
\<close>

definition normalizeRecipient :: "unicode \<Rightarrow> string \<Rightarrow> string" where
  "normalizeRecipient u address =
     (case LastIndex address CHR ''@'' of
        Some at \<Rightarrow> take (Suc at) address @ ToLower u (drop (Suc at) address)
      | None \<Rightarrow> address)"

fun containsRecipient :: "string list \<Rightarrow> string \<Rightarrow> bool" where
  "containsRecipient [] address = False"
| "containsRecipient (r # rs) address = (if r = address then True else containsRecipient rs address)"

definition accepts :: "unicode \<Rightarrow> string \<Rightarrow> string \<Rightarrow> bool" where
  "accepts u mailDomain address =
     (case LastIndex address CHR ''@'' of
        Some at \<Rightarrow> 0 < at \<and> EqualFold u (drop (Suc at) address) mailDomain
      | None \<Rightarrow> False)"

lemma containsRecipient_iff [simp]: "containsRecipient rs a \<longleftrightarrow> a \<in> set rs"
  by (induction rs) auto

text \<open>The functions on an address written as local part, at sign and domain.\<close>

lemma address_cases:
  obtains l d where "a = l @ CHR ''@'' # d" "CHR ''@'' \<notin> set d"
  | "CHR ''@'' \<notin> set a"
  by (metis split_list_last)

lemma normalizeRecipient_at:
  "CHR ''@'' \<notin> set d \<Longrightarrow>
   normalizeRecipient u (l @ CHR ''@'' # d) = l @ CHR ''@'' # ToLower u d"
  by (simp add: normalizeRecipient_def LastIndex_append_notin)

lemma normalizeRecipient_no_at: "CHR ''@'' \<notin> set a \<Longrightarrow> normalizeRecipient u a = a"
  using LastIndex_None_iff [of a "CHR ''@''"] by (simp add: normalizeRecipient_def)

lemma accepts_at:
  "CHR ''@'' \<notin> set d \<Longrightarrow>
   accepts u md (l @ CHR ''@'' # d) \<longleftrightarrow> l \<noteq> [] \<and> EqualFold u d md"
  by (simp add: accepts_def LastIndex_append_notin)

lemma accepts_no_at: "CHR ''@'' \<notin> set a \<Longrightarrow> \<not> accepts u md a"
  using LastIndex_None_iff [of a "CHR ''@''"] by (simp add: accepts_def)

lemma normalizeRecipient_idem_lemma:
  assumes "unicode_ok u"
  shows "normalizeRecipient u (normalizeRecipient u a) = normalizeRecipient u a"
proof (cases a rule: address_cases)
  case (1 l d)
  then show ?thesis
    using ToLower_no_at [OF assms, of d]
    by (simp add: normalizeRecipient_at ToLower_idem [OF assms])
next
  case 2
  then show ?thesis by (simp add: normalizeRecipient_no_at)
qed

lemma ascii_no_at_lower:
  "list_all is_ascii d \<Longrightarrow> CHR ''@'' \<notin> set d \<Longrightarrow> CHR ''@'' \<notin> set (map ascii_lower d)"
  by (metis ascii_lower_at imageE list.set_map)

lemma append_at_inject:
  "CHR ''@'' \<notin> set d \<Longrightarrow> CHR ''@'' \<notin> set e \<Longrightarrow>
   l @ CHR ''@'' # d = k @ CHR ''@'' # e \<longleftrightarrow> l = k \<and> d = e"
  by (metis LastIndex_append_notin append_eq_append_conv list.inject option.inject)

section \<open>Properties\<close>

text \<open>
  Which addresses share an inbox: two addresses with ASCII domains normalise to the same
  recipient exactly when their local parts are identical (case included) and their domains are
  equal up to ASCII case.
\<close>

lemma normalizeRecipient_same_inbox:
  assumes "CHR ''@'' \<notin> set d" "CHR ''@'' \<notin> set e" "list_all is_ascii d" "list_all is_ascii e"
  shows "normalizeRecipient u (l @ CHR ''@'' # d) = normalizeRecipient u (k @ CHR ''@'' # e)
     \<longleftrightarrow> l = k \<and> EqualFold u d e"
  using assms
    append_at_inject [OF ascii_no_at_lower ascii_no_at_lower, of d e l k]
  by (simp add: normalizeRecipient_at ToLower_ascii EqualFold_def)

end
