(* ===== verification/GoPath.thy ===== *)
theory GoPath
  imports GoStrings
begin

text \<open>
  \<^verbatim>\<open>filepath.Clean\<close> and \<^verbatim>\<open>filepath.Join\<close> on Unix paths: the components of the path are
  pushed on a stack, a dot is skipped and a double dot pops a name. Cleaning is idempotent, so
  two spellings of a path are compared by cleaning both.
\<close>

fun clean_parts :: "bool \<Rightarrow> string list \<Rightarrow> string list \<Rightarrow> string list" where
  "clean_parts rooted st [] = rev st"
| "clean_parts rooted st (c # cs) =
     (if c = [] \<or> c = ''.'' then clean_parts rooted st cs
      else if c = ''..'' then
        (case st of
           [] \<Rightarrow> clean_parts rooted (if rooted then [] else [c]) cs
         | t # ts \<Rightarrow> if t = ''..'' then clean_parts rooted (c # st) cs
                   else clean_parts rooted ts cs)
      else clean_parts rooted (c # st) cs)"

definition is_rooted :: "string \<Rightarrow> bool" where
  "is_rooted p = HasPrefix p ''/''"

definition filepath_Clean :: "string \<Rightarrow> string" where
  "filepath_Clean p =
     (let cs = clean_parts (is_rooted p) [] (Split p CHR ''/'')
      in if is_rooted p then CHR ''/'' # Join cs CHR ''/''
         else if cs = [] then ''.'' else Join cs CHR ''/'')"

text \<open>\<^verbatim>\<open>filepath.Join(dir, name)\<close> for a non-empty name.\<close>

definition filepath_Join :: "string \<Rightarrow> string \<Rightarrow> string" where
  "filepath_Join dir name =
     filepath_Clean (if dir = [] then name else dir @ CHR ''/'' # name)"

section \<open>Cleaning twice\<close>

definition good_part :: "string \<Rightarrow> bool" where
  "good_part c \<longleftrightarrow> c \<noteq> [] \<and> c \<noteq> ''.'' \<and> CHR ''/'' \<notin> set c"

text \<open>A stack, top first: names above double dots, and no double dot below the root.\<close>

fun good_stack :: "bool \<Rightarrow> string list \<Rightarrow> bool" where
  "good_stack rooted [] = True"
| "good_stack rooted (c # cs) =
     (good_part c \<and> good_stack rooted cs \<and>
      (c = ''..'' \<longrightarrow> \<not> rooted \<and> (\<forall>d \<in> set cs. d = ''..'')))"

lemma clean_parts_good:
  "good_stack rooted st \<Longrightarrow> (\<And>c. c \<in> set cs \<Longrightarrow> CHR ''/'' \<notin> set c) \<Longrightarrow>
   good_stack rooted (rev (clean_parts rooted st cs))"
proof (induction rooted st cs rule: clean_parts.induct)
  case (1 rooted st)
  then show ?case by simp
next
  case (2 rooted st c cs)
  then show ?case
    by (auto simp: good_part_def split: list.splits)
qed

lemma good_stack_append: "good_stack rooted (xs @ ys) \<Longrightarrow> good_stack rooted ys"
  by (induction xs) auto

lemma clean_parts_stable:
  "good_stack rooted (rev cs @ st) \<Longrightarrow> clean_parts rooted st cs = rev st @ cs"
proof (induction cs arbitrary: st)
  case Nil
  then show ?case by simp
next
  case (Cons c cs)
  then have g: "good_stack rooted (c # st)"
    using good_stack_append [of rooted "rev cs" "c # st"] by simp
  have IH: "clean_parts rooted (c # st) cs = rev (c # st) @ cs"
    using Cons by simp
  show ?case
  proof (cases "c = ''..''")
    case True
    with g have "\<not> rooted" "\<forall>d \<in> set st. d = ''..''" by auto
    with True IH show ?thesis by (cases st) auto
  next
    case False
    with g IH show ?thesis by (simp add: good_part_def)
  qed
qed

lemma clean_parts_skip: "clean_parts rooted st ([] # cs) = clean_parts rooted st cs"
  by simp

lemma good_stack_parts: "good_stack rooted st \<Longrightarrow> c \<in> set st \<Longrightarrow> good_part c"
  by (induction st) auto

lemma Join_not_rooted:
  assumes "cs \<noteq> []" and "\<And>c. c \<in> set cs \<Longrightarrow> good_part c"
  shows "\<not> is_rooted (Join cs CHR ''/'')"
proof -
  from assms obtain c ds where cs: "cs = c # ds" and c: "good_part c"
    by (cases cs) auto
  from c obtain x xs where x: "c = x # xs" "x \<noteq> CHR ''/''"
    by (cases c) (auto simp: good_part_def)
  show ?thesis
    by (cases ds) (auto simp: cs x is_rooted_def HasPrefix_def)
qed

lemma filepath_Clean_idem: "filepath_Clean (filepath_Clean p) = filepath_Clean p"
proof -
  let ?r = "is_rooted p" and ?sl = "CHR ''/''"
  let ?cs = "clean_parts ?r [] (Split p ?sl)"
  have good: "good_stack ?r (rev ?cs)"
    by (rule clean_parts_good) (auto dest: Split_parts)
  then have stable: "clean_parts ?r [] ?cs = ?cs"
    using clean_parts_stable [of ?r ?cs "[]"] by simp
  have parts: "good_part c" if "c \<in> set ?cs" for c
    using good_stack_parts [OF good] that by simp
  have split: "?cs \<noteq> [] \<Longrightarrow> Split (Join ?cs ?sl) ?sl = ?cs"
    using parts by (intro Split_Join) (auto simp: good_part_def)
  show ?thesis
  proof (cases ?r)
    case True
    have rooted: "is_rooted (?sl # Join ?cs ?sl)" by (simp add: is_rooted_def HasPrefix_def)
    have "clean_parts True [] (Split (?sl # Join ?cs ?sl) ?sl) = ?cs"
      using split stable True by (cases "?cs = []") auto
    with True rooted show ?thesis by (simp add: filepath_Clean_def Let_def)
  next
    case False
    show ?thesis
    proof (cases "?cs = []")
      case True
      with False show ?thesis
        by (simp add: filepath_Clean_def Let_def is_rooted_def HasPrefix_def)
    next
      case cs: False
      have "\<not> is_rooted (Join ?cs ?sl)" using cs parts by (rule Join_not_rooted)
      with cs False split stable show ?thesis by (simp add: filepath_Clean_def Let_def)
    qed
  qed
qed

lemma filepath_Clean_Join [simp]: "filepath_Clean (filepath_Join d n) = filepath_Join d n"
  by (simp add: filepath_Join_def filepath_Clean_idem)

text \<open>Joining a plain name to a clean directory other than the current one or the root.\<close>

lemma clean_parts_append_good:
  "good_part c \<Longrightarrow> c \<noteq> ''..'' \<Longrightarrow>
   clean_parts rooted st (cs @ [c]) = clean_parts rooted st cs @ [c]"
  by (induction rooted st cs rule: clean_parts.induct)
    (auto simp: good_part_def split: list.splits)

lemma Split_snoc: "CHR ''/'' \<notin> set n \<Longrightarrow> Split (d @ CHR ''/'' # n) CHR ''/'' = Split d CHR ''/'' @ [n]"
  by (induction d) (auto simp: Split_no_sep split: list.splits)

lemma Join_snoc: "cs \<noteq> [] \<Longrightarrow> Join (cs @ [c]) x = Join cs x @ x # c"
  by (induction cs x rule: Join.induct) auto

lemma Join_inj_snoc: "Join (cs @ [c]) x = Join (cs @ [d]) x \<Longrightarrow> c = d"
  by (cases "cs = []") (auto simp: Join_snoc)

lemma filepath_Join_inj:
  assumes "good_part n" "n \<noteq> ''..''" "good_part m" "m \<noteq> ''..''"
    and "filepath_Join d n = filepath_Join d m"
  shows "n = m"
proof -
  define p where "p k = (if d = [] then k else d @ CHR ''/'' # k)" for k :: string
  have rooted: "is_rooted (p k) = is_rooted d" if "good_part k" for k
    using that by (cases k; cases d) (auto simp: p_def is_rooted_def HasPrefix_def good_part_def)
  define cs where "cs = (if d = [] then [] else clean_parts (is_rooted d) [] (Split d CHR ''/''))"
  have parts: "clean_parts (is_rooted (p k)) [] (Split (p k) CHR ''/'') = cs @ [k]"
    if k: "good_part k" "k \<noteq> ''..''" for k
    using k rooted [OF k(1)]
    by (auto simp: cs_def p_def good_part_def Split_no_sep Split_snoc clean_parts_append_good
        split: if_splits)
  have "filepath_Join d k =
      (if is_rooted d then CHR ''/'' # Join (cs @ [k]) CHR ''/'' else Join (cs @ [k]) CHR ''/'')"
    if "good_part k" "k \<noteq> ''..''" for k
    using that parts [of k] rooted [of k]
    by (simp add: filepath_Join_def filepath_Clean_def Let_def p_def [symmetric] split: if_splits)
  then show ?thesis using assms Join_inj_snoc by (metis list.inject)
qed

end
