(* ===== verification/StoreOps.thy ===== *)
theory StoreOps
  imports StoreDb Config Address GoPath
begin

text \<open>
  The store of \<^verbatim>\<open>internal/app/store.go\<close>: its state, the calls that leave the process (system
  calls, SQL statements, transactions), the deletion queue, and the removal of messages by expiry
  and by eviction. The operations are total functions on the state; a loop of the source is a
  recursive function with its termination proof.

  What SMTP readers and the dashboard never observe is left out: Prometheus counters and log
  lines, which no code reads back.
\<close>

section \<open>State\<close>

text \<open>
  The header library (\<^verbatim>\<open>net/mail\<close>, \<^verbatim>\<open>mime\<close>) the store asks for the subject and the
  sender: \<open>ReadMessage\<close> gives the header lookup and the body, \<open>DecodeHeader\<close> decodes encoded
  words.
\<close>

record maillib =
  ReadMessage :: "string \<Rightarrow> ((string \<Rightarrow> string) \<times> string) option"
  DecodeHeader :: "string \<Rightarrow> string option"

record message =
  ID :: string
  Recipient :: string
  From :: string
  Subject :: string
  Received :: time
  ExpiresAt :: time
  Size :: int
  Body :: string

record store = env +
  uni :: unicode
  mlib :: maillib
  cfg :: config
  msgDir :: string
  sdb :: db
  disk :: "(string \<times> string) list"
  subdirs :: "string list"
  storedBytes :: int
  storedMessages :: int
  storageFault :: "goerr option"
  pendingCursor :: string
  cleanupErrorCount :: nat
  lastCleanup :: "time option"

record cleanupStats =
  Expired :: nat
  ExpiredBytes :: int
  Evicted :: nat
  EvictedBytes :: int

definition no_stats :: cleanupStats where
  "no_stats = \<lparr>Expired = 0, ExpiredBytes = 0, Evicted = 0, EvictedBytes = 0\<rparr>"

section \<open>Calls that leave the process\<close>

text \<open>A call that may fail: its next fault, if any, is the error it returns.\<close>

definition ext :: "store \<Rightarrow> goerr option \<times> store" where
  "ext s = (map_option ErrExternal (shd (faults s)), s\<lparr>faults := stl (faults s)\<rparr>)"

definition now :: "store \<Rightarrow> time \<times> store" where
  "now s = (shd (clock s), s\<lparr>clock := stl (clock s)\<rparr>)"

definition rand_read :: "store \<Rightarrow> string \<times> store" where
  "rand_read s = (shd (rands s), s\<lparr>rands := stl (rands s)\<rparr>)"

definition exec :: "(db \<Rightarrow> db result) \<Rightarrow> store \<Rightarrow> goerr option \<times> store" where
  "exec stmt s =
     (case ext s of
        (Some e, s1) \<Rightarrow> (Some e, s1)
      | (None, s1) \<Rightarrow>
          (case stmt (sdb s1) of
             Inl e \<Rightarrow> (Some e, s1)
           | Inr d \<Rightarrow> (None, s1\<lparr>sdb := d\<rparr>)))"

definition query :: "(db \<Rightarrow> 'a result) \<Rightarrow> store \<Rightarrow> 'a result \<times> store" where
  "query q s =
     (case ext s of
        (Some e, s1) \<Rightarrow> (Inl e, s1)
      | (None, s1) \<Rightarrow> (q (sdb s1), s1))"

text \<open>A query read row by row: the statement can fail, and so can the iteration.\<close>

definition query_rows :: "(db \<Rightarrow> 'a result) \<Rightarrow> store \<Rightarrow> 'a result \<times> store" where
  "query_rows q s =
     (case query q s of
        (Inl e, s1) \<Rightarrow> (Inl e, s1)
      | (Inr rows, s1) \<Rightarrow> (case ext s1 of (Some e, s2) \<Rightarrow> (Inl e, s2) | (None, s2) \<Rightarrow> (Inr rows, s2)))"

text \<open>
  \<^verbatim>\<open>inTx\<close>: the tables changed by the body are kept only if the body and the commit succeed.
\<close>

definition inTx :: "(store \<Rightarrow> 'a result \<times> store) \<Rightarrow> store \<Rightarrow> 'a result \<times> store" where
  "inTx f s =
     (case ext s of
        (Some e, s1) \<Rightarrow> (Inl e, s1)
      | (None, s1) \<Rightarrow>
          (case f s1 of
             (Inl e, s2) \<Rightarrow> (Inl e, s2\<lparr>sdb := sdb s\<rparr>)
           | (Inr x, s2) \<Rightarrow>
               (case ext s2 of
                  (Some e, s3) \<Rightarrow> (Inl e, s3\<lparr>sdb := sdb s\<rparr>)
                | (None, s3) \<Rightarrow> (Inr x, s3))))"

text \<open>Files: reading, writing and removing a path of the message directory.\<close>

definition content_of :: "store \<Rightarrow> string \<Rightarrow> string option" where
  "content_of s p = map_of (disk s) p"

definition disk_put :: "string \<Rightarrow> string \<Rightarrow> store \<Rightarrow> store" where
  "disk_put p c s = s\<lparr>disk := (p, c) # filter (\<lambda>f. fst f \<noteq> p) (disk s)\<rparr>"

definition disk_del :: "string \<Rightarrow> store \<Rightarrow> store" where
  "disk_del p s = s\<lparr>disk := filter (\<lambda>f. fst f \<noteq> p) (disk s)\<rparr>"

definition removeFile :: "string \<Rightarrow> store \<Rightarrow> goerr option \<times> store" where
  "removeFile p s =
     (case ext s of
        (Some e, s1) \<Rightarrow> (Some e, s1)
      | (None, s1) \<Rightarrow>
          (case content_of s1 p of
             None \<Rightarrow> (Some ErrNotExist, s1)
           | Some c \<Rightarrow> (None, disk_del p s1)))"

text \<open>\<^verbatim>\<open>err != nil \&\& !os.IsNotExist(err)\<close>\<close>

definition remove_failed :: "goerr option \<Rightarrow> bool" where
  "remove_failed r = (case r of None \<Rightarrow> False | Some e \<Rightarrow> e \<noteq> ErrNotExist)"

definition os_Stat :: "string \<Rightarrow> store \<Rightarrow> int result \<times> store" where
  "os_Stat p s =
     (case ext s of
        (Some e, s1) \<Rightarrow> (Inl e, s1)
      | (None, s1) \<Rightarrow>
          (case content_of s1 p of None \<Rightarrow> (Inl ErrNotExist, s1) | Some c \<Rightarrow> (Inr (int (length c)), s1)))"

definition syncDirectory :: "store \<Rightarrow> goerr option \<times> store" where
  "syncDirectory s =
     (case ext s of
        (Some e, s1) \<Rightarrow> (Some e, s1)
      | (None, s1) \<Rightarrow> ext s1)"

section \<open>The deletion queue\<close>

definition cleanupBatchSize :: nat where
  "cleanupBatchSize = 256"

text \<open>The unlink loop: the paths removed, the bytes they held and the first failure.\<close>

fun unlink_all :: "(string \<times> int) list \<Rightarrow> store \<Rightarrow> (string list \<times> int \<times> goerr option) \<times> store" where
  "unlink_all [] s = (([], 0, None), s)"
| "unlink_all ((p, n) # rs) s =
     (case removeFile p s of
        (r, s1) \<Rightarrow>
          (case unlink_all rs s1 of
             ((removed, reclaimed, firstErr), s2) \<Rightarrow>
               if remove_failed r then ((removed, reclaimed, r), s2)
               else ((p # removed, n + reclaimed, firstErr), s2)))"

fun delete_pending_all :: "string list \<Rightarrow> store \<Rightarrow> unit result \<times> store" where
  "delete_pending_all [] s = (Inr (), s)"
| "delete_pending_all (p # ps) s =
     (case exec (sql_delete_pending p) s of
        (Some e, s1) \<Rightarrow> (Inl e, s1)
      | (None, s1) \<Rightarrow> delete_pending_all ps s1)"

definition last_path :: "(string \<times> int) list \<Rightarrow> string" where
  "last_path rs = (if rs = [] then [] else fst (last rs))"

definition drainPendingBatchLocked ::
    "string \<Rightarrow> store \<Rightarrow> (string \<times> nat \<times> goerr option) \<times> store" where
  "drainPendingBatchLocked cursor s =
     (case query_rows (sql_pending_batch cursor cleanupBatchSize) s of
        (Inl e, s1) \<Rightarrow> (([], 0, Some e), s1)
      | (Inr rows, s1) \<Rightarrow>
          (case unlink_all rows s1 of
             ((removed, reclaimed, firstErr), s2) \<Rightarrow>
               (case (if removed = [] then (Inr (), s2)
                      else case syncDirectory s2 of
                          (Some e, s3) \<Rightarrow> (Inl e, s3)
                        | (None, s3) \<Rightarrow> inTx (delete_pending_all removed) s3) of
                  (Inl e, s4) \<Rightarrow> (([], 0, Some e), s4)
                | (Inr _, s4) \<Rightarrow>
                    ((last_path rows, length rows, firstErr),
                     s4\<lparr>storedBytes := storedBytes s4 - reclaimed\<rparr>))))"

definition drainPendingLocked :: "store \<Rightarrow> goerr option \<times> store" where
  "drainPendingLocked s =
     (case drainPendingBatchLocked (pendingCursor s) s of
        ((next, count, err), s1) \<Rightarrow>
          (let s2 = (if next \<noteq> [] then s1\<lparr>pendingCursor := next\<rparr> else s1);
               s3 = (if count < cleanupBatchSize then s2\<lparr>pendingCursor := []\<rparr> else s2)
           in (err, s3)))"

section \<open>Storage accounting\<close>

definition loadStorageUsage :: "store \<Rightarrow> goerr option \<times> store" where
  "loadStorageUsage s =
     (case query (\<lambda>d. Inr (sum_blobs d + sum_pending d)) s of
        (Inl e, s1) \<Rightarrow> (Some e, s1)
      | (Inr n, s1) \<Rightarrow>
          (case query (\<lambda>d. Inr (int (length (t_messages d)))) (s1\<lparr>storedBytes := n\<rparr>) of
             (Inl e, s2) \<Rightarrow> (Some e, s2)
           | (Inr k, s2) \<Rightarrow> (None, s2\<lparr>storedMessages := k\<rparr>)))"

definition discardFileLocked :: "string \<Rightarrow> int \<Rightarrow> store \<Rightarrow> store" where
  "discardFileLocked path n s =
     (case exec (sql_insert_ignore_pending path n) s of
        (Some _, s1) \<Rightarrow>
          (case removeFile path s1 of
             (r, s2) \<Rightarrow>
               (let s3 = (if remove_failed r
                          then s2\<lparr>storedBytes := storedBytes s2 + n, storageFault := r\<rparr> else s2)
                in snd (syncDirectory s3)))
      | (None, s1) \<Rightarrow>
          (case loadStorageUsage s1 of
             (Some e, s2) \<Rightarrow> s2\<lparr>storageFault := Some e\<rparr>
           | (None, s2) \<Rightarrow> snd (drainPendingLocked s2)))"

section \<open>Removing messages\<close>

definition deleteMessageTx :: "string \<Rightarrow> string \<Rightarrow> store \<Rightarrow> (int \<times> string) result \<times> store" where
  "deleteMessageTx i blobID s =
     (case exec (sql_delete_message i) s of
        (Some e, s1) \<Rightarrow> (Inl e, s1)
      | (None, s1) \<Rightarrow>
          (case query (sql_select_blob blobID) s1 of
             (Inl e, s2) \<Rightarrow> (Inl e, s2)
           | (Inr b, s2) \<Rightarrow>
               if b_refs b \<le> 1 then
                 (case exec (sql_insert_pending (b_path b) (b_size b)) s2 of
                    (Some e, s3) \<Rightarrow> (Inl e, s3)
                  | (None, s3) \<Rightarrow>
                      (case exec (sql_delete_blob blobID) s3 of
                         (Some e, s4) \<Rightarrow> (Inl e, s4)
                       | (None, s4) \<Rightarrow> (Inr (b_size b, b_path b), s4)))
               else
                 (case exec (sql_decr_ref blobID) s2 of
                    (Some e, s3) \<Rightarrow> (Inl e, s3)
                  | (None, s3) \<Rightarrow> (Inr (0, []), s3))))"

text \<open>
  One round of the eviction loop's choice: an expired message as long as there is one, then the
  oldest. The flag says whether the choice is an expired one.
\<close>

definition evict_pick ::
    "int \<Rightarrow> string \<Rightarrow> bool \<Rightarrow> store \<Rightarrow> (bool \<times> string \<times> string) result \<times> store" where
  "evict_pick before protected expiredRemain s =
     (case (if expiredRemain then query (sql_oldest_expired before protected) s
            else (Inl ErrNoRows, s)) of
        (Inr (i, b), s1) \<Rightarrow> (Inr (True, i, b), s1)
      | (Inl e, s1) \<Rightarrow>
          if e = ErrNoRows then
            (case query (sql_oldest protected) s1 of
               (Inr (i, b), s2) \<Rightarrow> (Inr (False, i, b), s2)
             | (Inl e', s2) \<Rightarrow> (Inl (if e' = ErrNoRows then ErrLimitExhausted else e'), s2))
          else (Inl e, s1))"

definition count_removed :: "bool \<Rightarrow> int \<Rightarrow> cleanupStats \<Rightarrow> cleanupStats" where
  "count_removed expired released st =
     (if expired
      then st\<lparr>Expired := Suc (Expired st), ExpiredBytes := ExpiredBytes st + released\<rparr>
      else st\<lparr>Evicted := Suc (Evicted st), EvictedBytes := EvictedBytes st + released\<rparr>)"

text \<open>
  The loop of \<^verbatim>\<open>evictTx\<close>. Every round deletes a message of the table, which is why the loop
  ends; the fact is proved first, for the termination proof.
\<close>

lemma ext_frame:
  assumes "ext s = (r, s')"
  obtains f where "s' = s\<lparr>faults := f\<rparr>" "r = map_option ErrExternal (shd (faults s))"
    "f = stl (faults s)"
  using assms by (auto simp: ext_def)

lemma exec_cases:
  assumes "exec stmt s = (r, s')"
  obtains (err) e f where "r = Some e" "s' = s\<lparr>faults := f\<rparr>"
  | (ok) f d where "r = None" "stmt (sdb s) = Inr d" "s' = s\<lparr>faults := f, sdb := d\<rparr>"
  using assms by (auto simp: exec_def ext_def split: option.splits sum.splits)

lemma query_cases:
  assumes "query q s = (r, s')"
  obtains (err) e f where "r = Inl e" "s' = s\<lparr>faults := f\<rparr>"
  | (ok) f x where "r = Inr x" "q (sdb s) = Inr x" "s' = s\<lparr>faults := f\<rparr>"
  using assms by (cases r) (auto simp: query_def ext_def split: option.splits)

lemma query_rows_cases:
  assumes "query_rows q s = (r, s')"
  obtains (err) e f where "r = Inl e" "s' = s\<lparr>faults := f\<rparr>"
  | (ok) f x where "r = Inr x" "q (sdb s) = Inr x" "s' = s\<lparr>faults := f\<rparr>"
  using assms
  by (cases r) (auto simp: query_rows_def ext_def split: option.splits sum.splits prod.splits
      elim!: query_cases)

lemmas sql_defs = sql_delete_message_def sql_select_blob_def sql_insert_pending_def
  sql_delete_blob_def sql_decr_ref_def sql_insert_blob_def sql_insert_message_def
  sql_insert_ignore_pending_def sql_delete_pending_def

text \<open>
  What an operation inside a transaction leaves unchanged: everything but the tables and the
  stream of faults.
\<close>

definition but_db :: "store \<Rightarrow> store" where
  "but_db s = s\<lparr>faults := sconst None, sdb := empty_db\<rparr>"

lemma but_db_fields:
  assumes "but_db s = but_db t"
  shows "disk s = disk t" "cfg s = cfg t" "uni s = uni t" "mlib s = mlib t" "msgDir s = msgDir t"
    "subdirs s = subdirs t" "storedBytes s = storedBytes t" "storedMessages s = storedMessages t"
    "storageFault s = storageFault t" "pendingCursor s = pendingCursor t" "clock s = clock t"
    "rands s = rands t" "cleanupErrorCount s = cleanupErrorCount t" "lastCleanup s = lastCleanup t"
  using arg_cong [OF assms, of disk] arg_cong [OF assms, of cfg] arg_cong [OF assms, of uni]
    arg_cong [OF assms, of mlib] arg_cong [OF assms, of msgDir] arg_cong [OF assms, of subdirs]
    arg_cong [OF assms, of storedBytes] arg_cong [OF assms, of storedMessages]
    arg_cong [OF assms, of storageFault] arg_cong [OF assms, of pendingCursor]
    arg_cong [OF assms, of clock] arg_cong [OF assms, of rands]
    arg_cong [OF assms, of cleanupErrorCount] arg_cong [OF assms, of lastCleanup]
  by (simp_all add: but_db_def)

lemma but_db_update [simp]:
  "but_db (s\<lparr>faults := f\<rparr>) = but_db s" "but_db (s\<lparr>sdb := d\<rparr>) = but_db s"
  by (simp_all add: but_db_def)

lemma deleteMessageTx_frame:
  assumes "deleteMessageTx i b s = (r, s')"
  shows "but_db s' = but_db s"
  using assms
  by (auto simp: deleteMessageTx_def exec_def query_def ext_def sql_defs
      split: option.splits sum.splits if_splits)

lemma deleteMessageTx_ok:
  assumes "deleteMessageTx i b s = (Inr (n, p), s')"
  shows "drop_ref i b (sdb s) = Inr (n, p, sdb s')"
  using assms
  by (auto simp: deleteMessageTx_def exec_def query_def ext_def sql_defs drop_ref_def Let_def
      pending_paths_def split: option.splits sum.splits if_splits)

end
