(* ===== verification/StoreEvict.thy ===== *)
theory StoreEvict
  imports StoreOps
begin

text \<open>
  Eviction (\<^verbatim>\<open>evictTx\<close>) and expiry (\<^verbatim>\<open>cleanupBatchLocked\<close>, \<^verbatim>\<open>Cleanup\<close>). The abstract
  specification of eviction is the relation \<open>evicts\<close>: a sequence of removals, each of the message
  the policy names. The loop refines it.
\<close>

section \<open>Operations\<close>

lemma sql_oldest_expired_mem:
  "sql_oldest_expired before protected d = Inr (i, b) \<Longrightarrow>
   \<exists>m \<in> set (t_messages d). m_id m = i \<and> m_blob m = b"
  by (auto simp: sql_oldest_expired_def split: list.splits dest!: sort_key_hd_mem)

lemma sql_oldest_mem:
  "sql_oldest protected d = Inr (i, b) \<Longrightarrow>
   \<exists>m \<in> set (t_messages d). m_id m = i \<and> m_blob m = b"
  by (auto simp: sql_oldest_def split: list.splits dest!: sort_key_hd_mem)

lemma evict_pick_frame:
  assumes "evict_pick before protected er s = (r, s')"
  shows "sdb s' = sdb s \<and> but_db s' = but_db s"
  using assms
  by (auto simp: evict_pick_def query_def ext_def split: option.splits sum.splits if_splits prod.splits)

lemma evict_pick_ok:
  assumes "evict_pick before protected er s = (Inr (x, i, b), s')"
  shows "if x then er \<and> sql_oldest_expired before protected (sdb s) = Inr (i, b)
         else sql_oldest protected (sdb s) = Inr (i, b) \<and>
           (er \<longrightarrow> sql_oldest_expired before protected (sdb s) = Inl ErrNoRows)"
  using assms
  by (auto simp: evict_pick_def query_def ext_def split: option.splits sum.splits if_splits prod.splits)

lemma evict_round_smaller:
  assumes "evict_pick before protected er s = (Inr (x, i, b), s1)"
    and "deleteMessageTx i b s1 = (Inr (n, p), s2)"
  shows "length (t_messages (sdb s2)) < length (t_messages (sdb s))"
proof -
  have same: "sdb s1 = sdb s" using evict_pick_frame [OF assms(1)] by simp
  obtain m where m: "m \<in> set (t_messages (sdb s))" "m_id m = i"
    using evict_pick_ok [OF assms(1)] by (auto split: if_splits dest: sql_oldest_expired_mem sql_oldest_mem)
  have "t_messages (sdb s2) = filter (\<lambda>m. m_id m \<noteq> i) (t_messages (sdb s))"
    using drop_ref_messages [OF deleteMessageTx_ok [OF assms(2)]] same by simp
  then show ?thesis using m by (simp add: length_filter_less)
qed

function evict_loop ::
    "int \<Rightarrow> string \<Rightarrow> int \<Rightarrow> bool \<Rightarrow> int \<Rightarrow> cleanupStats \<Rightarrow> store \<Rightarrow> cleanupStats result \<times> store" where
  "evict_loop before protected limit expiredRemain projected stats s =
     (if projected \<le> limit then (Inr stats, s)
      else case evict_pick before protected expiredRemain s of
          (Inl e, s1) \<Rightarrow> (Inl e, s1)
        | (Inr (expired, i, b), s1) \<Rightarrow>
            (case deleteMessageTx i b s1 of
               (Inl e, s2) \<Rightarrow> (Inl e, s2)
             | (Inr (released, _), s2) \<Rightarrow>
                 evict_loop before protected limit expired (projected - released)
                   (count_removed expired released stats) s2))"
  by pat_completeness auto
termination
  by (relation "measure (\<lambda>(_, _, _, _, _, _, s). length (t_messages (sdb s)))")
    (auto intro: evict_round_smaller [OF sym sym])

declare evict_loop.simps [simp del]

definition evictTx :: "string \<Rightarrow> int \<Rightarrow> store \<Rightarrow> cleanupStats result \<times> store" where
  "evictTx protected addedBytes s =
     (case now s of
        (t, s1) \<Rightarrow>
          evict_loop (time_Unix t) protected (MaxStorageBytes (cfg s)) True
            (storedBytes s + addedBytes) no_stats s1)"

fun delete_all ::
    "(string \<times> string) list \<Rightarrow> cleanupStats \<Rightarrow> store \<Rightarrow> cleanupStats result \<times> store" where
  "delete_all [] st s = (Inr st, s)"
| "delete_all ((i, b) # rs) st s =
     (case deleteMessageTx i b s of
        (Inl e, s1) \<Rightarrow> (Inl e, s1)
      | (Inr (released, _), s1) \<Rightarrow> delete_all rs (count_removed True released st) s1)"

definition cleanup_tx :: "int \<Rightarrow> store \<Rightarrow> cleanupStats result \<times> store" where
  "cleanup_tx before s =
     (case query_rows (sql_expired_batch before cleanupBatchSize) s of
        (Inl e, s1) \<Rightarrow> (Inl e, s1)
      | (Inr rows, s1) \<Rightarrow> delete_all rows no_stats s1)"

definition cleanupBatchLocked :: "int \<Rightarrow> store \<Rightarrow> (cleanupStats \<times> goerr option) \<times> store" where
  "cleanupBatchLocked before s =
     (case inTx (cleanup_tx before) s of
        (Inl e, s1) \<Rightarrow> ((no_stats, Some e), s1)
      | (Inr batch, s1) \<Rightarrow>
          (case drainPendingLocked (s1\<lparr>storedMessages := storedMessages s1 - int (Expired batch)\<rparr>) of
             (err, s2) \<Rightarrow> ((batch, err), s2)))"

text \<open>
  The body of the loop of \<^verbatim>\<open>Cleanup\<close>, run under the writer lock. The flag tells whether the
  loop goes on.
\<close>

definition cleanup_iteration :: "int \<Rightarrow> store \<Rightarrow> (bool \<times> goerr option) \<times> store" where
  "cleanup_iteration before s =
     (case cleanupBatchLocked before s of
        ((batch, err), s1) \<Rightarrow>
          (case now s1 of
             (t, s2) \<Rightarrow>
               (let s3 = s2\<lparr>lastCleanup := Some t\<rparr> in
                case err of
                  Some e \<Rightarrow> ((False, Some e), s3\<lparr>cleanupErrorCount := Suc (cleanupErrorCount s3)\<rparr>)
                | None \<Rightarrow> ((\<not> Expired batch < cleanupBatchSize, None), s3))))"

section \<open>What the operations leave unchanged\<close>

lemma evict_loop_frame:
  "evict_loop before protected limit er projected stats s = (r, s') \<Longrightarrow> but_db s' = but_db s"
proof (induction before protected limit er projected stats s arbitrary: s' rule: evict_loop.induct)
  case (1 before protected limit er projected stats s)
  then show ?case
    using evict_loop.simps [of before protected limit er projected stats s]
    by (auto split: if_splits prod.splits sum.splits dest!: evict_pick_frame deleteMessageTx_frame)
qed

section \<open>The eviction policy\<close>

text \<open>
  The message the policy removes next. With the flag: an expired one, of the earliest expiry.
  Without: no expired one is left, and it is one of the earliest received. Messages of the
  protected blob are never chosen.
\<close>

definition victim :: "int \<Rightarrow> string \<Rightarrow> db \<Rightarrow> bool \<Rightarrow> msg_row \<Rightarrow> bool" where
  "victim before protected d expired m \<longleftrightarrow>
     m \<in> set (t_messages d) \<and> m_blob m \<noteq> protected \<and>
     (if expired
      then m_expires m \<le> before \<and>
        (\<forall>k \<in> set (t_messages d). m_blob k \<noteq> protected \<and> m_expires k \<le> before \<longrightarrow> m_expires m \<le> m_expires k)
      else (\<forall>k \<in> set (t_messages d). m_blob k \<noteq> protected \<longrightarrow> before < m_expires k \<and> m_received m \<le> m_received k))"

inductive evicts ::
    "int \<Rightarrow> string \<Rightarrow> int \<Rightarrow> int \<Rightarrow> db \<Rightarrow> (bool \<times> msg_row) list \<Rightarrow> int \<Rightarrow> db \<Rightarrow> bool"
  for before protected limit where
  stop: "projected \<le> limit \<Longrightarrow> evicts before protected limit projected d [] projected d"
| evict: "limit < projected \<Longrightarrow> victim before protected d x m \<Longrightarrow>
     drop_ref (m_id m) (m_blob m) d = Inr (n, p, d1) \<Longrightarrow>
     evicts before protected limit (projected - n) d1 ms final d2 \<Longrightarrow>
     evicts before protected limit projected d ((x, m) # ms) final d2"

inductive_cases evicts_NilE: "evicts before protected limit projected d [] final d'"
inductive_cases evicts_ConsE: "evicts before protected limit projected d (v # ms) final d'"

definition none_expired :: "int \<Rightarrow> string \<Rightarrow> db \<Rightarrow> bool" where
  "none_expired before protected d \<longleftrightarrow>
     (\<forall>k \<in> set (t_messages d). m_blob k \<noteq> protected \<longrightarrow> before < m_expires k)"

lemma sql_oldest_expired_none:
  "sql_oldest_expired before protected d = Inl ErrNoRows \<Longrightarrow> none_expired before protected d"
  by (auto simp: sql_oldest_expired_def none_expired_def filter_empty_conv not_le split: list.splits)

lemma sql_oldest_expired_victim:
  assumes "sql_oldest_expired before protected d = Inr (i, b)"
  obtains m where "victim before protected d True m" "m_id m = i" "m_blob m = b"
proof -
  let ?xs = "filter (\<lambda>m. m_expires m \<le> before \<and> m_blob m \<noteq> protected) (t_messages d)"
  obtain m ms where m: "sort_key m_expires ?xs = m # ms" "m_id m = i" "m_blob m = b"
    using assms by (auto simp: sql_oldest_expired_def split: list.splits)
  have "m \<in> set ?xs" by (rule sort_key_hd_mem [OF m(1)])
  then have "victim before protected d True m"
    using sort_key_hd_min [OF m(1)] by (auto simp: victim_def)
  with m that show ?thesis by blast
qed

lemma sql_oldest_victim:
  assumes "sql_oldest protected d = Inr (i, b)" "none_expired before protected d"
  obtains m where "victim before protected d False m" "m_id m = i" "m_blob m = b"
proof -
  let ?xs = "filter (\<lambda>m. m_blob m \<noteq> protected) (t_messages d)"
  obtain m ms where m: "sort_key m_received ?xs = m # ms" "m_id m = i" "m_blob m = b"
    using assms by (auto simp: sql_oldest_def split: list.splits)
  have "m \<in> set ?xs" by (rule sort_key_hd_mem [OF m(1)])
  then have "victim before protected d False m"
    using sort_key_hd_min [OF m(1)] assms(2) by (auto simp: victim_def none_expired_def)
  with m that show ?thesis by blast
qed

lemma evict_pick_victim:
  assumes "evict_pick before protected er s = (Inr (x, i, b), s')"
    and "\<not> er \<Longrightarrow> none_expired before protected (sdb s)"
  obtains m where "victim before protected (sdb s) x m" "m_id m = i" "m_blob m = b"
    "\<not> x \<Longrightarrow> none_expired before protected (sdb s)"
proof (cases x)
  case True
  then show ?thesis using evict_pick_ok [OF assms(1)] sql_oldest_expired_victim that by metis
next
  case False
  then have ne: "none_expired before protected (sdb s)"
    using evict_pick_ok [OF assms(1)] assms(2) sql_oldest_expired_none by metis
  with False show ?thesis
    using evict_pick_ok [OF assms(1)] sql_oldest_victim [OF _ ne] that by metis
qed

lemma none_expired_drop_ref:
  "none_expired before protected d \<Longrightarrow> drop_ref i b d = Inr (n, p, d') \<Longrightarrow>
   none_expired before protected d'"
  by (auto simp: none_expired_def dest: drop_ref_messages)

text \<open>The loop implements the policy and counts what it removed.\<close>

definition counted :: "(bool \<times> msg_row) list \<Rightarrow> cleanupStats \<Rightarrow> cleanupStats \<Rightarrow> bool" where
  "counted ms st st' \<longleftrightarrow>
     Expired st' = Expired st + length (filter fst ms) \<and>
     Evicted st' = Evicted st + length (filter (\<lambda>v. \<not> fst v) ms)"

lemma evict_loop_evicts:
  "evict_loop before protected limit er projected st s = (Inr st', s') \<Longrightarrow>
   (\<not> er \<Longrightarrow> none_expired before protected (sdb s)) \<Longrightarrow>
   \<exists>ms final. evicts before protected limit projected (sdb s) ms final (sdb s') \<and> counted ms st st'"
proof (induction before protected limit er projected st s rule: evict_loop.induct)
  case (1 before protected limit er projected st s)
  show ?case
  proof (cases "projected \<le> limit")
    case True
    with "1.prems" show ?thesis
      by (intro exI [of _ "[]"]) (auto simp: evict_loop.simps counted_def intro: evicts.stop)
  next
    case False
    with "1.prems"(1) obtain x i b s1 n q s2 where
        pick: "evict_pick before protected er s = (Inr (x, i, b), s1)"
      and del: "deleteMessageTx i b s1 = (Inr (n, q), s2)"
      and rec: "evict_loop before protected limit x (projected - n) (count_removed x n st) s2 = (Inr st', s')"
      using evict_loop.simps [of before protected limit er projected st s]
      by (auto split: prod.splits sum.splits)
    obtain m where m: "victim before protected (sdb s) x m" "m_id m = i" "m_blob m = b"
        "\<not> x \<Longrightarrow> none_expired before protected (sdb s)"
      using evict_pick_victim [OF pick "1.prems"(2)] by blast
    have drop: "drop_ref (m_id m) (m_blob m) (sdb s) = Inr (n, q, sdb s2)"
      using deleteMessageTx_ok [OF del] evict_pick_frame [OF pick] m by simp
    obtain ms final where ms:
        "evicts before protected limit (projected - n) (sdb s2) ms final (sdb s')"
        "counted ms (count_removed x n st) st'"
      using "1.IH" [OF False pick [symmetric] refl refl refl del [symmetric] refl refl rec]
        none_expired_drop_ref [OF m(4) drop] by blast
    have "evicts before protected limit projected (sdb s) ((x, m) # ms) final (sdb s')"
      using False m(1) drop ms(1) by (intro evicts.evict) auto
    moreover have "counted ((x, m) # ms) st st'"
      using ms(2) by (auto simp: counted_def count_removed_def split: if_splits)
    ultimately show ?thesis by blast
  qed
qed

section \<open>What eviction does\<close>

lemma evicts_post:
  "evicts before protected limit projected d ms final d' \<Longrightarrow> db_ok d \<Longrightarrow>
   drop_ref_post d (projected - final) d' \<and> final \<le> limit"
proof (induction rule: evicts.induct)
  case (stop projected d)
  then show ?case by (simp add: drop_ref_post_def)
next
  case (evict projected d x m n p d1 ms final d2)
  have "m \<in> set (t_messages d)" using evict.hyps(2) by (simp add: victim_def)
  with evict.hyps(3) evict.prems have post: "drop_ref_post d n d1"
    by (auto elim: drop_ref_ok)
  then have "db_ok d1" by (simp add: drop_ref_post_def)
  with evict.IH post show ?case by (auto simp: drop_ref_post_def)
qed

lemma evicts_messages:
  "evicts before protected limit projected d ms final d' \<Longrightarrow>
   t_messages d' = filter (\<lambda>k. m_id k \<notin> m_id ` snd ` set ms) (t_messages d)"
  by (induction rule: evicts.induct) (auto simp: filter_filter dest!: drop_ref_messages intro: filter_cong)

lemma evicts_victims:
  "evicts before protected limit projected d ms final d' \<Longrightarrow> (x, m) \<in> set ms \<Longrightarrow>
   m \<in> set (t_messages d) \<and> m_blob m \<noteq> protected \<and> (x \<longrightarrow> m_expires m \<le> before)"
  by (induction arbitrary: x m rule: evicts.induct)
    (auto simp: victim_def dest!: drop_ref_messages split: if_splits)

lemma evicts_live_victims:
  "evicts before protected limit projected d ms final d' \<Longrightarrow> (False, m) \<in> set ms \<Longrightarrow>
   k \<in> set (t_messages d') \<Longrightarrow> m_blob k \<noteq> protected \<Longrightarrow>
   before < m_expires k \<and> m_received m \<le> m_received k"
proof (induction arbitrary: m rule: evicts.induct)
  case (stop projected d)
  then show ?case by simp
next
  case (evict projected d x v n p d1 ms final d2)
  have "k \<in> set (t_messages d)"
    using evict.prems(2) evicts_messages [OF evict.hyps(4)] drop_ref_messages [OF evict.hyps(3)] by simp
  with evict show ?case by (auto simp: victim_def)
qed

end
