(* ===== verification/StoreQueue.thy ===== *)
theory StoreQueue
  imports StoreOps
begin

text \<open>
  The deletion queue. The invariant of the whole store is stated here, and that draining the queue
  keeps it whatever fails: a file leaves the queue only when it is gone, and its bytes stay charged
  until then.
\<close>

section \<open>The invariant of the store\<close>

definition files_ok :: "store \<Rightarrow> bool" where
  "files_ok s \<longleftrightarrow> (\<forall>b \<in> set (t_blobs (sdb s)).
     \<exists>c. content_of s (b_path b) = Some c \<and> int (length c) = b_size b)"

definition accounted :: "store \<Rightarrow> bool" where
  "accounted s \<longleftrightarrow>
     storedBytes s = sum_blobs (sdb s) + sum_pending (sdb s) \<and>
     storedMessages s = int (length (t_messages (sdb s)))"

text \<open>
  The counters agree with the tables unless a storage fault is recorded, which blocks every save
  until the next start.
\<close>

definition store_inv :: "store \<Rightarrow> bool" where
  "store_inv s \<longleftrightarrow> db_ok (sdb s) \<and> files_ok s \<and> (storageFault s = None \<longrightarrow> accounted s)"

text \<open>The files no table knows about.\<close>

definition uncovered :: "store \<Rightarrow> string set" where
  "uncovered s = {p. content_of s p \<noteq> None} - (blob_paths (sdb s) \<union> pending_paths (sdb s))"

text \<open>What no operation of the store changes.\<close>

definition fixed :: "store \<Rightarrow> config \<times> unicode \<times> maillib \<times> string \<times> string list" where
  "fixed s = (cfg s, uni s, mlib s, msgDir s, subdirs s)"

lemma fixed_fields:
  assumes "fixed s = fixed t"
  shows "cfg s = cfg t" "uni s = uni t" "mlib s = mlib t" "msgDir s = msgDir t" "subdirs s = subdirs t"
  using assms by (simp_all add: fixed_def)

section \<open>Files\<close>

lemma map_of_filter_key: "map_of (filter (\<lambda>f. fst f \<noteq> p) xs) q = (if q = p then None else map_of xs q)"
  by (induction xs) auto

lemma content_disk_put [simp]: "content_of (disk_put p c s) q = (if q = p then Some c else content_of s q)"
  by (auto simp: content_of_def disk_put_def map_of_filter_key)

lemma content_disk_del [simp]: "content_of (disk_del p s) q = (if q = p then None else content_of s q)"
  by (simp add: content_of_def disk_del_def map_of_filter_key)

lemma content_of_cong: "disk s = disk t \<Longrightarrow> content_of s = content_of t"
  by (simp add: content_of_def fun_eq_iff)

text \<open>Everything but the files and the faults.\<close>

definition but_disk :: "store \<Rightarrow> store" where
  "but_disk s = s\<lparr>faults := sconst None, disk := []\<rparr>"

lemma but_disk_fields:
  assumes "but_disk s = but_disk t"
  shows "sdb s = sdb t" "fixed s = fixed t" "storedBytes s = storedBytes t"
    "storedMessages s = storedMessages t" "storageFault s = storageFault t"
    "pendingCursor s = pendingCursor t" "clock s = clock t" "rands s = rands t"
    "cleanupErrorCount s = cleanupErrorCount t" "lastCleanup s = lastCleanup t"
  using arg_cong [OF assms, of sdb] arg_cong [OF assms, of fixed]
    arg_cong [OF assms, of storedBytes] arg_cong [OF assms, of storedMessages]
    arg_cong [OF assms, of storageFault] arg_cong [OF assms, of pendingCursor]
    arg_cong [OF assms, of clock] arg_cong [OF assms, of rands]
    arg_cong [OF assms, of cleanupErrorCount] arg_cong [OF assms, of lastCleanup]
  by (simp_all add: but_disk_def fixed_def)

lemma but_disk_update [simp]:
  "but_disk (s\<lparr>faults := f\<rparr>) = but_disk s" "but_disk (s\<lparr>disk := d\<rparr>) = but_disk s"
  by (simp_all add: but_disk_def)

lemma content_of_update [simp]:
  "content_of (s\<lparr>faults := f\<rparr>) = content_of s" "content_of (s\<lparr>sdb := d\<rparr>) = content_of s"
  "content_of (s\<lparr>storedBytes := n\<rparr>) = content_of s" "content_of (s\<lparr>storedMessages := n\<rparr>) = content_of s"
  "content_of (s\<lparr>pendingCursor := q\<rparr>) = content_of s" "content_of (s\<lparr>storageFault := e\<rparr>) = content_of s"
  "content_of (s\<lparr>clock := k\<rparr>) = content_of s" "content_of (s\<lparr>rands := w\<rparr>) = content_of s"
  "content_of (s\<lparr>lastCleanup := l\<rparr>) = content_of s"
  "content_of (s\<lparr>cleanupErrorCount := x\<rparr>) = content_of s"
  by (simp_all add: content_of_def fun_eq_iff)

lemma removeFile_cases:
  assumes "removeFile p s = (r, s')"
  shows "but_disk s' = but_disk s"
    "remove_failed r \<Longrightarrow> content_of s' = content_of s"
    "\<not> remove_failed r \<Longrightarrow> content_of s' q = (if q = p then None else content_of s q)"
  using assms
  by (auto simp: removeFile_def ext_def remove_failed_def disk_del_def content_of_def map_of_filter_key
      split: option.splits)

lemma syncDirectory_frame:
  obtains f where "snd (syncDirectory s) = s\<lparr>faults := f\<rparr>"
  by (cases "shd (faults s)") (auto simp: syncDirectory_def ext_def)

lemma unlink_all_spec:
  "unlink_all rows s = ((removed, reclaimed, err), s') \<Longrightarrow>
   but_disk s' = but_disk s \<and> set removed \<subseteq> fst ` set rows \<and>
   (\<forall>q. content_of s' q = (if q \<in> set removed then None else content_of s q)) \<and>
   (distinct (map fst rows) \<longrightarrow>
      reclaimed = sum_list (map snd (filter (\<lambda>r. fst r \<in> set removed) rows)))"
proof (induction rows arbitrary: s removed reclaimed err s')
  case Nil
  then show ?case by simp
next
  case (Cons row rows)
  obtain p n where row: "row = (p, n)" by (cases row)
  obtain r s1 where r: "removeFile p s = (r, s1)" by fastforce
  obtain rem rec e s2 where u: "unlink_all rows s1 = ((rem, rec, e), s2)"
    by (cases "unlink_all rows s1") auto
  note IH = Cons.IH [OF u]
  note rf = removeFile_cases [OF r]
  have other: "filter (\<lambda>x. fst x = p \<or> fst x \<in> set rem) rows = filter (\<lambda>x. fst x \<in> set rem) rows"
    if "p \<notin> fst ` set rows"
    using that by (force intro: filter_cong)
  have notin: "p \<notin> set rem" if "p \<notin> fst ` set rows" using that IH by auto
  show ?case
  proof (cases "remove_failed r")
    case True
    with Cons.prems row r u have "removed = rem" "reclaimed = rec" "s' = s2" by auto
    with True IH rf row notin show ?thesis by auto
  next
    case False
    with Cons.prems row r u have "removed = p # rem" "reclaimed = n + rec" "s' = s2" by auto
    with False IH rf row other show ?thesis by auto
  qed
qed

section \<open>Transactions\<close>

lemma inTx_cases:
  assumes "inTx f s = (r, s')"
  obtains (begin_failed) e g where "r = Inl e" "s' = s\<lparr>faults := g\<rparr>"
  | (rolled_back) e g x s2 h where "r = Inl e" "f (s\<lparr>faults := g\<rparr>) = (x, s2)"
      "s' = s2\<lparr>faults := h, sdb := sdb s\<rparr>"
  | (committed) g x s2 h where "r = Inr x" "f (s\<lparr>faults := g\<rparr>) = (Inr x, s2)"
      "s' = s2\<lparr>faults := h\<rparr>"
proof -
  obtain r1 s1 where e1: "ext s = (r1, s1)" by fastforce
  obtain g where s1: "s1 = s\<lparr>faults := g\<rparr>" using ext_frame [OF e1] by metis
  show ?thesis
  proof (cases r1)
    case (Some e)
    with assms e1 s1 begin_failed [of e g] show ?thesis by (auto simp: inTx_def)
  next
    case None
    obtain r2 s2 where f: "f s1 = (r2, s2)" by fastforce
    show ?thesis
    proof (cases r2)
      case (Inl e)
      with assms e1 None f s1 rolled_back [of e g "Inl e" s2 "faults s2"] show ?thesis
        by (simp add: inTx_def)
    next
      case (Inr x)
      obtain r3 s3 where e3: "ext s2 = (r3, s3)" by fastforce
      obtain h where s3: "s3 = s2\<lparr>faults := h\<rparr>" using ext_frame [OF e3] by metis
      show ?thesis
        using assms e1 None f s1 Inr e3 s3 rolled_back [of _ g "Inr x" s2 h] committed [of x g s2 h]
        by (cases r3) (auto simp: inTx_def)
    qed
  qed
qed

lemma delete_pending_all_spec:
  "delete_pending_all ps s = (r, s') \<Longrightarrow> but_db s' = but_db s \<and>
   (r = Inr () \<longrightarrow> sdb s' = (sdb s)\<lparr>t_pending := filter (\<lambda>x. fst x \<notin> set ps) (t_pending (sdb s))\<rparr>)"
proof (induction ps arbitrary: s)
  case Nil
  then show ?case by (auto simp: but_db_def)
next
  case (Cons p ps)
  then show ?case
    by (fastforce split: prod.splits option.splits elim!: exec_cases
        simp: sql_delete_pending_def filter_filter conj_commute)
qed

section \<open>Draining\<close>

text \<open>
  What draining may change, whatever fails: rows leave the queue only for files that are gone, and
  the stored bytes shrink by exactly their sizes.
\<close>

definition drains :: "store \<Rightarrow> store \<Rightarrow> bool" where
  "drains s s' \<longleftrightarrow>
     fixed s' = fixed s \<and> clock s' = clock s \<and> rands s' = rands s \<and>
     storedMessages s' = storedMessages s \<and> storageFault s' = storageFault s \<and>
     cleanupErrorCount s' = cleanupErrorCount s \<and> lastCleanup s' = lastCleanup s \<and>
     t_messages (sdb s') = t_messages (sdb s) \<and> t_blobs (sdb s') = t_blobs (sdb s) \<and>
     set (t_pending (sdb s')) \<subseteq> set (t_pending (sdb s)) \<and>
     db_ok (sdb s') \<and>
     storedBytes s' = storedBytes s - (sum_pending (sdb s) - sum_pending (sdb s')) \<and>
     (\<forall>q. content_of s' q = content_of s q \<or>
        content_of s' q = None \<and> q \<in> pending_paths (sdb s)) \<and>
     (\<forall>q \<in> pending_paths (sdb s) - pending_paths (sdb s'). content_of s' q = None)"

lemma drains_content: "drains s s' \<Longrightarrow>
   content_of s' q = content_of s q \<or> content_of s' q = None \<and> q \<in> pending_paths (sdb s)"
  by (simp add: drains_def)

lemma drains_gone: "drains s s' \<Longrightarrow> q \<in> pending_paths (sdb s) \<Longrightarrow> q \<notin> pending_paths (sdb s') \<Longrightarrow>
   content_of s' q = None"
  by (simp add: drains_def)

lemma db_ok_shrink_pending:
  "db_ok d \<Longrightarrow> db_ok (d\<lparr>t_pending := filter P (t_pending d)\<rparr>)"
  by (auto simp: db_ok_def blob_paths_def pending_paths_def refs_of_def)

lemma sum_pending_filter:
  assumes "distinct (map fst (t_pending d))" "set rows \<subseteq> set (t_pending d)" "distinct rows"
    "set removed \<subseteq> fst ` set rows"
  shows "sum_pending (d\<lparr>t_pending := filter (\<lambda>x. fst x \<notin> set removed) (t_pending d)\<rparr>)
     = sum_pending d - sum_list (map snd (filter (\<lambda>x. fst x \<in> set removed) rows))"
proof -
  let ?in = "\<lambda>x. fst x \<in> set removed"
  have "set (filter ?in rows) = set (filter ?in (t_pending d))"
  proof
    show "set (filter ?in (t_pending d)) \<subseteq> set (filter ?in rows)"
    proof
      fix x assume x: "x \<in> set (filter ?in (t_pending d))"
      then obtain y where y: "y \<in> set rows" "fst y = fst x" using assms(4) by auto
      have "y = x"
        by (rule distinct_key_unique [OF assms(1) _ _ y(2)]) (use x y(1) assms(2) in auto)
      with x y show "x \<in> set (filter ?in rows)" by simp
    qed
  qed (use assms(2) in auto)
  moreover have "distinct (t_pending d)" using assms(1) by (simp add: distinct_map)
  ultimately have "sum_list (map snd (filter ?in rows)) = sum_list (map snd (filter ?in (t_pending d)))"
    using assms(3) by (simp add: sum_list_distinct_conv_sum_set)
  then show ?thesis
    using sum_list_filter_split [of snd "t_pending d" ?in] by (simp add: sum_pending_def)
qed

lemma pending_batch_spec:
  assumes "db_ok d"
  shows "set (take n (sort_key fst (filter P (t_pending d)))) \<subseteq> set (t_pending d)"
    "distinct (take n (sort_key fst (filter P (t_pending d))))"
    "distinct (map fst (take n (sort_key fst (filter P (t_pending d)))))"
proof -
  let ?xs = "sort_key fst (filter P (t_pending d))"
  have "set ?xs \<subseteq> set (t_pending d)" by auto
  moreover have d: "distinct (map fst ?xs)"
  proof -
    have "distinct (filter P (t_pending d))" "inj_on fst (set (filter P (t_pending d)))"
      using db_ok_keys(4) [OF assms] by (auto simp: distinct_map inj_on_def)
    then show ?thesis by (simp add: distinct_map)
  qed
  ultimately show "set (take n ?xs) \<subseteq> set (t_pending d)"
    "distinct (take n ?xs)" "distinct (map fst (take n ?xs))"
    using set_take_subset [of n ?xs] by (auto simp: distinct_map take_map [symmetric] intro: inj_on_subset)
qed

lemma drainPendingBatchLocked_drains:
  assumes ok: "db_ok (sdb s)" and d: "drainPendingBatchLocked cursor s = (res, s')"
  shows "drains s s' \<and> pendingCursor s' = pendingCursor s"
proof -
  have refl: "drains s (s\<lparr>faults := f\<rparr>)" for f
    using ok by (auto simp: drains_def fixed_def)
  obtain r1 s1 where q: "query_rows (sql_pending_batch cursor cleanupBatchSize) s = (r1, s1)" by fastforce
  from q show ?thesis
  proof (cases rule: query_rows_cases)
    case (err e f)
    with d q refl [of f] show ?thesis by (auto simp: drainPendingBatchLocked_def)
  next
    case (ok f rows)
    have rows: "set rows \<subseteq> set (t_pending (sdb s))" "distinct rows" "distinct (map fst rows)"
      using ok(2) pending_batch_spec [OF assms(1)] by (auto simp: sql_pending_batch_def)
    obtain removed reclaimed fe s2 where u: "unlink_all rows s1 = ((removed, reclaimed, fe), s2)"
      by (cases "unlink_all rows s1") auto
    note us = unlink_all_spec [OF u]
    note fs = but_disk_fields [OF conjunct1 [OF us]]
    have removed: "set removed \<subseteq> pending_paths (sdb s)"
      using us rows(1) by (force simp: pending_paths_def)
    have content: "content_of s2 q = (if q \<in> set removed then None else content_of s q)" for q
      using us ok(3) by simp
    define sy where "sy = (if removed = [] then (Inr (), s2)
                      else case syncDirectory s2 of
                          (Some e, s3) \<Rightarrow> (Inl e, s3)
                        | (None, s3) \<Rightarrow> inTx (delete_pending_all removed) s3)"
    obtain r4 s4 where r4: "sy = (r4, s4)" by fastforce
    have b4: "but_db s4 = but_db s2 \<and>
      (case r4 of Inl _ \<Rightarrow> sdb s4 = sdb s2
        | Inr _ \<Rightarrow> sdb s4 = (sdb s2)\<lparr>t_pending := filter (\<lambda>x. fst x \<notin> set removed) (t_pending (sdb s2))\<rparr>)"
    proof (cases "removed = []")
      case True
      with r4 show ?thesis by (auto simp: sy_def)
    next
      case False
      obtain re s3 where sd: "syncDirectory s2 = (re, s3)" by fastforce
      then have s3: "but_db s3 = but_db s2" "sdb s3 = sdb s2"
        by (auto simp: syncDirectory_def ext_def split: option.splits)
      show ?thesis
      proof (cases re)
        case (Some e)
        with False r4 sd s3 show ?thesis by (auto simp: sy_def)
      next
        case None
        with False r4 sd have t: "inTx (delete_pending_all removed) s3 = (r4, s4)" by (simp add: sy_def)
        from t show ?thesis
          by (cases rule: inTx_cases) (use s3 delete_pending_all_spec in fastforce)+
      qed
    qed
    note f4 = but_db_fields [OF conjunct1 [OF b4]]
    have c4: "content_of s4 = content_of s2" by (rule content_of_cong) (rule f4)
    have fx4: "fixed s4 = fixed s" using f4 fs(2) ok(3) by (simp add: fixed_def)
    show ?thesis
    proof (cases r4)
      case (Inl e)
      with d q ok u r4 have s': "s' = s4"
        by (auto simp: drainPendingBatchLocked_def sy_def split: if_splits)
      show ?thesis
        using Inl b4 f4 fs fx4 c4 content removed assms(1) ok(3) unfolding s'
        by (auto simp: drains_def)
    next
      case (Inr x)
      with d q ok u r4 have s': "s' = s4\<lparr>storedBytes := storedBytes s4 - reclaimed\<rparr>"
        by (auto simp: drainPendingBatchLocked_def sy_def split: if_splits)
      have sdb': "sdb s' = (sdb s)\<lparr>t_pending := filter (\<lambda>x. fst x \<notin> set removed) (t_pending (sdb s))\<rparr>"
        using Inr b4 fs(1) ok(3) by (simp add: s')
      have sum: "sum_pending (sdb s') = sum_pending (sdb s) - reclaimed"
        using sum_pending_filter [OF db_ok_keys(4) [OF assms(1)] rows(1,2)] us rows(3)
        unfolding sdb' by auto
      have gone: "content_of s' q = None" if "q \<in> pending_paths (sdb s)" "q \<notin> pending_paths (sdb s')" for q
      proof -
        have "q \<in> set removed" using that by (auto simp: sdb' pending_paths_def)
        then show ?thesis using content c4 by (simp add: s')
      qed
      have keep: "content_of s' q = content_of s q \<or> content_of s' q = None \<and> q \<in> pending_paths (sdb s)"
        for q using content c4 removed by (auto simp: s')
      have "fixed s' = fixed s" using fx4 by (simp add: s' fixed_def)
      then show ?thesis
        using sum gone keep f4 fs ok(3) db_ok_shrink_pending [OF assms(1)]
        by (auto simp: drains_def sdb') (auto simp: s')
    qed
  qed
qed

section \<open>Upkeep: work on files that never touches mail\<close>

text \<open>
  The effect of every operation that only works off files: no message and no blob row changes, the
  file of every blob keeps its content, no file gets out of the books, and a storage fault stays.
\<close>

definition upkeep :: "store \<Rightarrow> store \<Rightarrow> bool" where
  "upkeep s s' \<longleftrightarrow>
     fixed s' = fixed s \<and>
     t_messages (sdb s') = t_messages (sdb s) \<and> t_blobs (sdb s') = t_blobs (sdb s) \<and>
     (\<forall>q \<in> blob_paths (sdb s). content_of s' q = content_of s q) \<and>
     uncovered s' \<subseteq> uncovered s \<and>
     (storageFault s \<noteq> None \<longrightarrow> storageFault s' \<noteq> None)"

lemma upkeep_refl [simp]: "upkeep s s"
  by (simp add: upkeep_def)

lemma upkeep_trans: "upkeep s t \<Longrightarrow> upkeep t u \<Longrightarrow> upkeep s u"
  by (auto simp: upkeep_def blob_paths_def)

lemma upkeep_files_ok: "upkeep s s' \<Longrightarrow> files_ok s \<Longrightarrow> files_ok s'"
  by (simp add: upkeep_def files_ok_def blob_paths_def)

lemma drains_upkeep:
  assumes "db_ok (sdb s)" "drains s s'"
  shows "upkeep s s'"
proof -
  have "content_of s' q = content_of s q" if "q \<in> blob_paths (sdb s)" for q
    using drains_content [OF assms(2)] db_ok_disjoint [OF assms(1) that] by blast
  moreover have "uncovered s' \<subseteq> uncovered s"
  proof
    fix q assume q: "q \<in> uncovered s'"
    then have "content_of s' q \<noteq> None" "q \<notin> pending_paths (sdb s')" by (auto simp: uncovered_def)
    moreover from this have "q \<notin> pending_paths (sdb s)"
      using drains_gone [OF assms(2), of q] by (metis (no_types))
    moreover have "content_of s q \<noteq> None"
      using drains_content [OF assms(2), of q] calculation(1) by (metis (no_types))
    ultimately show "q \<in> uncovered s"
      using q assms(2) by (simp add: uncovered_def drains_def blob_paths_def)
  qed
  ultimately show ?thesis using assms(2) by (simp add: upkeep_def drains_def)
qed

lemma drains_accounted: "drains s s' \<Longrightarrow> accounted s \<Longrightarrow> accounted s'"
  by (simp add: drains_def accounted_def sum_blobs_def)

lemma drains_inv:
  assumes "store_inv s" "drains s s'"
  shows "store_inv s'"
  using assms drains_upkeep [OF _ assms(2)] upkeep_files_ok [of s s'] drains_accounted [OF assms(2)]
  by (auto simp: store_inv_def drains_def)

lemma drains_same_cursor: "drains s s' \<Longrightarrow> drains s (s'\<lparr>pendingCursor := c\<rparr>)"
  by (simp add: drains_def fixed_def)

lemma drainPendingLocked_drains:
  assumes "db_ok (sdb s)" "drainPendingLocked s = (r, s')"
  shows "drains s s'"
proof -
  obtain n c e s1 where b: "drainPendingBatchLocked (pendingCursor s) s = ((n, c, e), s1)"
    by (cases "drainPendingBatchLocked (pendingCursor s) s") auto
  have "drains s s1" using drainPendingBatchLocked_drains [OF assms(1) b] by simp
  with assms(2) b show ?thesis
    by (auto simp: drainPendingLocked_def Let_def intro: drains_same_cursor split: if_splits)
qed

section \<open>Accounting and discarding\<close>

text \<open>Everything but the two counters and the faults.\<close>

definition but_counts :: "store \<Rightarrow> store" where
  "but_counts s = s\<lparr>faults := sconst None, storedBytes := 0, storedMessages := 0\<rparr>"

lemma but_counts_fields:
  assumes "but_counts s = but_counts t"
  shows "sdb s = sdb t" "fixed s = fixed t" "content_of s = content_of t"
    "storageFault s = storageFault t" "clock s = clock t" "rands s = rands t"
    "lastCleanup s = lastCleanup t" "cleanupErrorCount s = cleanupErrorCount t"
    "pendingCursor s = pendingCursor t"
  using arg_cong [OF assms, of sdb] arg_cong [OF assms, of fixed] arg_cong [OF assms, of content_of]
    arg_cong [OF assms, of storageFault] arg_cong [OF assms, of clock] arg_cong [OF assms, of rands]
    arg_cong [OF assms, of lastCleanup] arg_cong [OF assms, of cleanupErrorCount]
    arg_cong [OF assms, of pendingCursor]
  by (simp_all add: but_counts_def fixed_def)

lemma loadStorageUsage_spec:
  assumes "loadStorageUsage s = (r, s')"
  shows "but_counts s' = but_counts s" "r = None \<Longrightarrow> accounted s'"
  using assms
  by (auto simp: loadStorageUsage_def query_def ext_def but_counts_def accounted_def
      split: option.splits sum.splits)

lemma refs_of_pending [simp]: "refs_of i (d\<lparr>t_pending := q\<rparr>) = refs_of i d"
  by (simp add: refs_of_def)

lemma db_ok_add_pending:
  assumes "db_ok d" "p \<notin> blob_paths d" "0 \<le> n" "sql_insert_ignore_pending p n d = Inr d'"
  shows "db_ok d'" "t_messages d' = t_messages d" "t_blobs d' = t_blobs d"
    "pending_paths d' = insert p (pending_paths d)"
  using assms
proof -
  have *: "d' = d \<and> p \<in> pending_paths d \<or>
      d' = d\<lparr>t_pending := t_pending d @ [(p, n)]\<rparr> \<and> p \<notin> pending_paths d"
    using assms(4) by (auto simp: sql_insert_ignore_pending_def pending_paths_def split: if_splits)
  then show "t_messages d' = t_messages d" "t_blobs d' = t_blobs d"
    "pending_paths d' = insert p (pending_paths d)"
    by (auto simp: pending_paths_def)
  have "db_ok (d\<lparr>t_pending := t_pending d @ [(p, n)]\<rparr>)" if "p \<notin> pending_paths d"
    using assms(1-3) that
    by (auto simp: db_ok_def blob_paths_def pending_paths_def Int_insert_right)
  with * assms(1) show "db_ok d'" by auto
qed

text \<open>
  Discarding a file that no blob owns: afterwards it is queued, or gone, or a storage fault is
  recorded.
\<close>

lemma discardFileLocked_spec:
  assumes inv: "store_inv s" and p: "p \<notin> blob_paths (sdb s)" and n: "0 \<le> n"
  defines "s' \<equiv> discardFileLocked p n s"
  shows "store_inv s' \<and> upkeep s s' \<and> clock s' = clock s \<and> rands s' = rands s \<and>
    (p \<in> uncovered s' \<longrightarrow> storageFault s' \<noteq> None)"
proof -
  have ok: "db_ok (sdb s)" "files_ok s" using inv by (auto simp: store_inv_def)
  obtain r1 s1 where e: "exec (sql_insert_ignore_pending p n) s = (r1, s1)" by fastforce
  from e show ?thesis
  proof (cases rule: exec_cases)
    case (err er f)
    obtain r2 s2 where r: "removeFile p s1 = (r2, s2)" by fastforce
    define s3 where "s3 = (if remove_failed r2
        then s2\<lparr>storedBytes := storedBytes s2 + n, storageFault := r2\<rparr> else s2)"
    obtain f' where s': "s' = s3\<lparr>faults := f'\<rparr>"
      using e err r syncDirectory_frame [of s3] that
      by (auto simp: s'_def discardFileLocked_def Let_def simp flip: s3_def)
    note rf = removeFile_cases [OF r]
    note fs = but_disk_fields [OF rf(1)]
    show ?thesis
    proof (cases "remove_failed r2")
      case True
      with rf(2) fs err inv s' s3_def show ?thesis
        by (auto simp: store_inv_def files_ok_def upkeep_def uncovered_def fixed_def remove_failed_def
            split: option.splits)
    next
      case False
      then have c: "content_of s' q = (if q = p then None else content_of s q)" for q
        using rf(3) s' s3_def err by simp
      then have "\<forall>q \<in> blob_paths (sdb s). content_of s' q = content_of s q" using p by auto
      then show ?thesis
        using False fs err inv s' s3_def c
        by (auto simp: store_inv_def files_ok_def upkeep_def uncovered_def fixed_def accounted_def
            blob_paths_def)
    qed
  next
    case (ok f d)
    note add = db_ok_add_pending [OF \<open>db_ok (sdb s)\<close> p n ok(2)]
    have up1: "upkeep s s1"
      using add(2-4) ok(3) by (auto simp: upkeep_def uncovered_def fixed_def blob_paths_def)
    have p1: "p \<notin> uncovered s1" using add(4) ok(3) by (simp add: uncovered_def)
    obtain r2 s2 where l: "loadStorageUsage s1 = (r2, s2)" by fastforce
    note lf = but_counts_fields [OF loadStorageUsage_spec(1) [OF l]]
    have up2: "upkeep s s2"
      using up1 lf by (simp add: upkeep_def uncovered_def)
    have p2: "p \<notin> uncovered s2" using p1 lf by (simp add: uncovered_def)
    have cr: "clock s2 = clock s" "rands s2 = rands s" using lf ok(3) by simp_all
    have db2: "db_ok (sdb s2)" using add(1) lf ok(3) by simp
    show ?thesis
    proof (cases r2)
      case (Some x)
      then have s': "s' = s2\<lparr>storageFault := Some x\<rparr>"
        using e ok l by (simp add: s'_def discardFileLocked_def)
      show ?thesis
        using up2 p2 db2 cr upkeep_files_ok [OF up2 \<open>files_ok s\<close>] unfolding s'
        by (simp add: store_inv_def upkeep_def uncovered_def fixed_def files_ok_def)
    next
      case None
      obtain r3 where d: "drainPendingLocked s2 = (r3, s')"
        using e ok l None by (cases "drainPendingLocked s2") (simp add: s'_def discardFileLocked_def)
      note dr = drainPendingLocked_drains [OF db2 d]
      have "store_inv s2"
        using db2 upkeep_files_ok [OF up2 \<open>files_ok s\<close>] loadStorageUsage_spec(2) [OF l None]
        by (simp add: store_inv_def)
      then have "store_inv s'" by (rule drains_inv [OF _ dr])
      moreover have up3: "upkeep s2 s'" by (rule drains_upkeep [OF db2 dr])
      moreover have "p \<notin> uncovered s'" using up3 p2 by (auto simp: upkeep_def)
      moreover have "clock s' = clock s" "rands s' = rands s" using dr cr by (auto simp: drains_def)
      ultimately show ?thesis using upkeep_trans [OF up2 up3] by simp
    qed
  qed
qed

end
