(* ===== verification/StoreSave.thy ===== *)
theory StoreSave
  imports StoreEvict StoreQueue GoText
begin

text \<open>
  \<^verbatim>\<open>Store.Save\<close>: one file for the message, one row per recipient, eviction in the same
  transaction. The handler is cut where the code is: the checks before the writer lock, the checks
  under it, the staging of the file, the transaction and what follows the commit. The theorems hold
  for every pattern of failing system calls and SQL statements.

  The clock is read where the value is used, not where it only feeds a duration metric.
\<close>

section \<open>Names and headers\<close>

text \<open>\<^verbatim>\<open>newID\<close>: the random source of \<^verbatim>\<open>crypto/rand\<close> does not fail.\<close>

definition newID :: "store \<Rightarrow> string \<times> store" where
  "newID s = (case rand_read s of (b, s1) \<Rightarrow> (concat (map hex_byte b), s1))"

definition mailDetails :: "maillib \<Rightarrow> string \<Rightarrow> string \<Rightarrow> string \<times> string" where
  "mailDetails ml raw fallback =
     (case ReadMessage ml raw of
        None \<Rightarrow> (''(no subject)'', fallback)
      | Some (hdr, _) \<Rightarrow>
          (let subject = (case DecodeHeader ml (hdr ''Subject'') of
                            None \<Rightarrow> ''(no subject)''
                          | Some x \<Rightarrow> if x = [] then ''(no subject)'' else x);
               from = (case DecodeHeader ml (hdr ''From'') of
                         None \<Rightarrow> fallback
                       | Some x \<Rightarrow> if x = [] then fallback else x)
           in (subject, from)))"

text \<open>The loop that normalises and deduplicates the recipients.\<close>

fun normalize_recipients ::
    "unicode \<Rightarrow> string list \<Rightarrow> (string \<Rightarrow> bool) \<Rightarrow> string list \<Rightarrow> string list" where
  "normalize_recipients u [] seen normalized = normalized"
| "normalize_recipients u (r # rs) seen normalized =
     (let recipient = normalizeRecipient u r in
      if seen recipient then normalize_recipients u rs seen normalized
      else normalize_recipients u rs (seen(recipient := True)) (normalized @ [recipient]))"

section \<open>The temporary file\<close>

definition os_join :: "string \<Rightarrow> string \<Rightarrow> string" where
  "os_join dir name = (if HasSuffix dir ''/'' then dir @ name else dir @ CHR ''/'' # name)"

definition nextRandom :: "string \<Rightarrow> string" where
  "nextRandom r = nat_dec (foldl (\<lambda>a c. 256 * a + of_char c) 0 r mod 2 ^ 32)"

text \<open>
  \<^verbatim>\<open>os.CreateTemp\<close>: an exclusive create under a random name, with up to ten thousand names
  tried when one is taken.
\<close>

fun create_temp_try :: "nat \<Rightarrow> string \<Rightarrow> string \<Rightarrow> store \<Rightarrow> string result \<times> store" where
  "create_temp_try 0 dir prefix s = (Inl ErrExist, s)"
| "create_temp_try (Suc k) dir prefix s =
     (case rand_read s of
        (r, s1) \<Rightarrow>
          (let name = os_join dir (prefix @ nextRandom r) in
           case ext s1 of
             (Some e, s2) \<Rightarrow> (Inl e, s2)
           | (None, s2) \<Rightarrow>
               if content_of s2 name \<noteq> None then create_temp_try k dir prefix s2
               else (Inr name, disk_put name [] s2)))"

definition os_CreateTemp :: "string \<Rightarrow> string \<Rightarrow> store \<Rightarrow> string result \<times> store" where
  "os_CreateTemp dir prefix s = create_temp_try 10000 dir prefix s"

text \<open>A write that fails has written a prefix; how long a prefix is part of the fault.\<close>

definition file_write :: "string \<Rightarrow> string \<Rightarrow> store \<Rightarrow> goerr option \<times> store" where
  "file_write name raw s =
     (case shd (faults s) of
        None \<Rightarrow> (None, disk_put name raw (snd (ext s)))
      | Some k \<Rightarrow> (Some (ErrExternal k), disk_put name (take k raw) (snd (ext s))))"

text \<open>Write, chmod, sync and close: the first error is reported, the file is closed always.\<close>

definition write_temp :: "string \<Rightarrow> string \<Rightarrow> store \<Rightarrow> goerr option \<times> store" where
  "write_temp name raw s =
     (case file_write name raw s of
        (err, s1) \<Rightarrow>
          (case (if err = None then ext s1 else (err, s1)) of
             (err, s2) \<Rightarrow>
               (case (if err = None then ext s2 else (err, s2)) of
                  (err, s3) \<Rightarrow>
                    (case ext s3 of
                       (closeErr, s4) \<Rightarrow> ((if err = None then closeErr else err), s4)))))"

definition os_Rename :: "string \<Rightarrow> string \<Rightarrow> store \<Rightarrow> goerr option \<times> store" where
  "os_Rename old new s =
     (case ext s of
        (Some e, s1) \<Rightarrow> (Some e, s1)
      | (None, s1) \<Rightarrow>
          (case content_of s1 old of
             None \<Rightarrow> (Some ErrNotExist, s1)
           | Some c \<Rightarrow> (None, disk_put new c (disk_del old s1))))"

text \<open>The deferred clean-up of the temporary file.\<close>

definition discard_temp :: "string \<Rightarrow> store \<Rightarrow> store" where
  "discard_temp tmpName s =
     (case removeFile tmpName s of
        (r, s1) \<Rightarrow>
          if remove_failed r then
            (case os_Stat tmpName s1 of
               (Inl _, s2) \<Rightarrow> s2
             | (Inr n, s2) \<Rightarrow> discardFileLocked tmpName n s2)
          else s1)"

section \<open>Save\<close>

fun insert_messages ::
    "string list \<Rightarrow> string \<Rightarrow> string \<Rightarrow> time \<Rightarrow> time \<Rightarrow> int \<Rightarrow> string \<Rightarrow> store \<Rightarrow>
     message list result \<times> store" where
  "insert_messages [] from subject t texp sz blobID s = (Inr [], s)"
| "insert_messages (r # rs) from subject t texp sz blobID s =
     (case newID s of
        (i, s1) \<Rightarrow>
          (let m = \<lparr>ID = i, Recipient = r, From = from, Subject = subject, Received = t,
                    ExpiresAt = texp, Size = sz, Body = []\<rparr> in
           case exec (sql_insert_message
                  \<lparr>m_id = i, m_recipient = r, m_sender = from, m_subject = subject,
                   m_received = time_Unix t, m_expires = time_Unix texp, m_size = sz,
                   m_blob = blobID\<rparr>) s1 of
             (Some e, s2) \<Rightarrow> (Inl e, s2)
           | (None, s2) \<Rightarrow>
               (case insert_messages rs from subject t texp sz blobID s2 of
                  (Inl e, s3) \<Rightarrow> (Inl e, s3)
                | (Inr ms, s3) \<Rightarrow> (Inr (m # ms), s3))))"

definition save_tx ::
    "string list \<Rightarrow> string \<Rightarrow> string \<Rightarrow> time \<Rightarrow> string \<Rightarrow> string \<Rightarrow> int \<Rightarrow> store \<Rightarrow>
     (message list \<times> cleanupStats) result \<times> store" where
  "save_tx recipients from subject t blobID path sz s =
     (case exec (sql_insert_blob
            \<lparr>b_id = blobID, b_path = path, b_size = sz, b_refs = int (length recipients)\<rparr>) s of
        (Some e, s1) \<Rightarrow> (Inl e, s1)
      | (None, s1) \<Rightarrow>
          (case insert_messages recipients from subject t (t + MessageTTL (cfg s)) sz blobID s1 of
             (Inl e, s2) \<Rightarrow> (Inl e, s2)
           | (Inr ms, s2) \<Rightarrow>
               (case evictTx blobID sz s2 of
                  (Inl e, s3) \<Rightarrow> (Inl e, s3)
                | (Inr stats, s3) \<Rightarrow> (Inr (ms, stats), s3))))"

definition note_cleanup_error :: "goerr option \<Rightarrow> store \<Rightarrow> store" where
  "note_cleanup_error err s =
     (if err \<noteq> None then s\<lparr>cleanupErrorCount := Suc (cleanupErrorCount s)\<rparr> else s)"

definition save_commit ::
    "string list \<Rightarrow> string \<Rightarrow> string \<Rightarrow> time \<Rightarrow> string \<Rightarrow> string \<Rightarrow> int \<Rightarrow> store \<Rightarrow>
     message list result \<times> store" where
  "save_commit recipients from subject t blobID path sz s =
     (case inTx (save_tx recipients from subject t blobID path sz) s of
        (Inl e, s1) \<Rightarrow> (Inl e, discardFileLocked path sz s1)
      | (Inr (ms, stats), s1) \<Rightarrow>
          (let s2 = s1\<lparr>storedBytes := storedBytes s1 + sz,
                      storedMessages := storedMessages s1
                        + (int (length recipients) - int (Evicted stats) - int (Expired stats))\<rparr>;
               s3 = (if 0 < Evicted stats \<or> 0 < Expired stats
                     then (case now s2 of (t', s') \<Rightarrow> s'\<lparr>lastCleanup := Some t'\<rparr>) else s2)
           in case drainPendingLocked s3 of
                (err, s4) \<Rightarrow> (Inr ms, note_cleanup_error err s4)))"

definition save_staged ::
    "string list \<Rightarrow> string \<Rightarrow> string \<Rightarrow> time \<Rightarrow> string \<Rightarrow> string \<Rightarrow> string \<Rightarrow> string \<Rightarrow> store \<Rightarrow>
     message list result \<times> store" where
  "save_staged recipients from subject t blobID path tmpName raw s =
     (case write_temp tmpName raw s of
        (Some e, s1) \<Rightarrow> (Inl e, s1)
      | (None, s1) \<Rightarrow>
          (case os_Rename tmpName path s1 of
             (Some e, s2) \<Rightarrow> (Inl e, s2)
           | (None, s2) \<Rightarrow>
               (case syncDirectory s2 of
                  (Some e, s3) \<Rightarrow> (Inl e, discardFileLocked path (int (length raw)) s3)
                | (None, s3) \<Rightarrow>
                    save_commit recipients from subject t blobID path (int (length raw)) s3)))"

definition blob_path :: "string \<Rightarrow> string \<Rightarrow> string" where
  "blob_path dir blobID = filepath_Join dir (blobID @ ''.eml'')"

definition save_file :: "string list \<Rightarrow> string \<Rightarrow> string \<Rightarrow> store \<Rightarrow> message list result \<times> store" where
  "save_file recipients sender raw s =
     (case now s of
        (t, s1) \<Rightarrow>
          (case mailDetails (mlib s1) raw sender of
             (subject, from) \<Rightarrow>
               (case newID s1 of
                  (blobID, s2) \<Rightarrow>
                    (case os_CreateTemp (msgDir s2) ''.incoming-'' s2 of
                       (Inl e, s3) \<Rightarrow> (Inl e, s3)
                     | (Inr tmpName, s3) \<Rightarrow>
                         (case save_staged recipients from subject t blobID
                                 (blob_path (msgDir s2) blobID) tmpName raw s3 of
                            (r, s4) \<Rightarrow> (r, discard_temp tmpName s4))))))"

definition save_locked :: "string list \<Rightarrow> string \<Rightarrow> string \<Rightarrow> store \<Rightarrow> message list result \<times> store" where
  "save_locked recipients sender raw s =
     (case drainPendingLocked s of
        (err, s1) \<Rightarrow>
          (let s2 = note_cleanup_error err s1 in
           if storedBytes s2 > MaxStorageBytes (cfg s2) then (Inl ErrAboveLimit, s2)
           else case query (\<lambda>d. Inr (sum_pending d)) s2 of
               (Inl e, s3) \<Rightarrow> (Inl e, s3)
             | (Inr pendingBytes, s3) \<Rightarrow>
                 if pendingBytes + int (length raw) > MaxStorageBytes (cfg s3)
                 then (Inl ErrPendingExhausted, s3)
                 else save_file recipients sender raw s3))"

definition Save :: "string list \<Rightarrow> string \<Rightarrow> string \<Rightarrow> store \<Rightarrow> message list result \<times> store" where
  "Save recipients sender raw s =
     (let rs = normalize_recipients (uni s) recipients (\<lambda>_. False) [] in
      if rs = [] then (Inl ErrNoRecipients, s)
      else if int (length raw) > MaxMessageBytes (cfg s) then (Inl (ErrMessageLimit (MaxMessageBytes (cfg s))), s)
      else if int (length raw) > MaxStorageBytes (cfg s) then (Inl (ErrStorageLimit (MaxStorageBytes (cfg s))), s)
      else case storageFault s of
          Some e \<Rightarrow> (Inl (ErrRecoveryRequired e), s)
        | None \<Rightarrow> save_locked rs sender raw s)"

end
