(* ===== verification/StoreDelivery.thy ===== *)
theory StoreDelivery
  imports StoreSave
begin

text \<open>
  What \<^verbatim>\<open>Store.Save\<close> does, stage by stage, for every pattern of failures; the properties of
  the whole handler are in \<open>StoreProps\<close>.
\<close>

section \<open>Recipients\<close>

lemma normalize_recipients_spec:
  "(\<And>x. seen x \<longleftrightarrow> x \<in> set acc) \<Longrightarrow> distinct acc \<Longrightarrow>
   distinct (normalize_recipients u rs seen acc) \<and>
   set (normalize_recipients u rs seen acc) = set acc \<union> normalizeRecipient u ` set rs"
  by (induction u rs seen acc rule: normalize_recipients.induct) (auto simp: Let_def)

lemmas normalize_recipients_all = normalize_recipients_spec [of "\<lambda>_. False" "[]", simplified]

section \<open>Files under construction\<close>

text \<open>Only the named files, the clock, the random source and the faults change.\<close>

definition touches :: "string set \<Rightarrow> store \<Rightarrow> store \<Rightarrow> bool" where
  "touches P s s' \<longleftrightarrow>
     sdb s' = sdb s \<and> fixed s' = fixed s \<and> storedBytes s' = storedBytes s \<and>
     storedMessages s' = storedMessages s \<and> storageFault s' = storageFault s \<and>
     pendingCursor s' = pendingCursor s \<and>
     (\<forall>q. q \<notin> P \<longrightarrow> content_of s' q = content_of s q)"

lemma touches_trans: "touches P s t \<Longrightarrow> touches Q t u \<Longrightarrow> touches (P \<union> Q) s u"
  by (simp add: touches_def)

lemma touches_mono: "touches P s t \<Longrightarrow> P \<subseteq> Q \<Longrightarrow> touches Q s t"
  by (auto simp: touches_def)

lemma touches_same [simp]:
  "touches P s s" "touches P s (s\<lparr>faults := f\<rparr>)" "touches P s (s\<lparr>rands := r\<rparr>)"
  "touches P s (s\<lparr>clock := c\<rparr>)" "touches P s (s\<lparr>rands := r, faults := f\<rparr>)"
  "touches P s (s\<lparr>cleanupErrorCount := n\<rparr>)"
  by (simp_all add: touches_def fixed_def)

lemma touches_files:
  assumes "touches P s s'" "store_inv s" "P \<inter> blob_paths (sdb s) = {}"
  shows "store_inv s'" "\<And>q. q \<in> blob_paths (sdb s) \<Longrightarrow> content_of s' q = content_of s q"
proof -
  show keep: "\<And>q. q \<in> blob_paths (sdb s) \<Longrightarrow> content_of s' q = content_of s q"
    using assms(1,3) by (auto simp: touches_def)
  have "files_ok s'"
    using assms(1,2) keep by (simp add: store_inv_def files_ok_def touches_def blob_paths_def)
  then show "store_inv s'"
    using assms(1,2) by (simp add: store_inv_def touches_def accounted_def)
qed

lemma disk_put_fields [simp]:
  "sdb (disk_put n c s) = sdb s" "fixed (disk_put n c s) = fixed s"
  "storedBytes (disk_put n c s) = storedBytes s" "storedMessages (disk_put n c s) = storedMessages s"
  "storageFault (disk_put n c s) = storageFault s" "pendingCursor (disk_put n c s) = pendingCursor s"
  "clock (disk_put n c s) = clock s" "rands (disk_put n c s) = rands s"
  "faults (disk_put n c s) = faults s"
  by (simp_all add: disk_put_def fixed_def)

lemma disk_del_fields [simp]:
  "sdb (disk_del n s) = sdb s" "fixed (disk_del n s) = fixed s"
  "storedBytes (disk_del n s) = storedBytes s" "storedMessages (disk_del n s) = storedMessages s"
  "storageFault (disk_del n s) = storageFault s" "pendingCursor (disk_del n s) = pendingCursor s"
  "clock (disk_del n s) = clock s" "rands (disk_del n s) = rands s"
  by (simp_all add: disk_del_def fixed_def)

lemma fixed_update [simp]:
  "fixed (s\<lparr>faults := f\<rparr>) = fixed s" "fixed (s\<lparr>rands := r\<rparr>) = fixed s" "fixed (s\<lparr>clock := c\<rparr>) = fixed s"
  "fixed (s\<lparr>sdb := d\<rparr>) = fixed s" "fixed (s\<lparr>storedBytes := n\<rparr>) = fixed s"
  "fixed (s\<lparr>storedMessages := n\<rparr>) = fixed s" "fixed (s\<lparr>lastCleanup := l\<rparr>) = fixed s"
  "fixed (s\<lparr>cleanupErrorCount := k\<rparr>) = fixed s" "fixed (s\<lparr>pendingCursor := p\<rparr>) = fixed s"
  "fixed (s\<lparr>storageFault := e\<rparr>) = fixed s"
  by (simp_all add: fixed_def)

lemma create_temp_try_spec:
  "create_temp_try k dir prefix s = (r, s') \<Longrightarrow> clock s' = clock s \<and>
   (case r of
      Inl _ \<Rightarrow> touches {} s s'
    | Inr n \<Rightarrow> touches {n} s s' \<and> content_of s n = None \<and>
        (\<exists>j. n = os_join dir (prefix @ nat_dec j)))"
proof (induction k dir prefix s rule: create_temp_try.induct)
  case (1 dir prefix s)
  then show ?case by auto
next
  case (2 k dir prefix s)
  define s1 where "s1 = s\<lparr>rands := stl (rands s)\<rparr>"
  define n where "n = os_join dir (prefix @ nextRandom (shd (rands s)))"
  have rr: "rand_read s = (shd (rands s), s1)" by (simp add: rand_read_def s1_def)
  show ?case
  proof (cases "shd (faults s)")
    case (Some e)
    then show ?thesis using "2.prems" rr by (auto simp: Let_def ext_def s1_def)
  next
    case None
    define s2 where "s2 = s1\<lparr>faults := stl (faults s)\<rparr>"
    have e: "ext s1 = (None, s2)" using None by (simp add: ext_def s1_def s2_def)
    have t2: "touches {} s s2" by (simp add: s1_def s2_def touches_def)
    show ?thesis
    proof (cases "content_of s2 n")
      case None
      then have "r = Inr n" "s' = disk_put n [] s2"
        using "2.prems" rr e by (auto simp: n_def Let_def)
      then show ?thesis using None t2
        by (auto simp: touches_def n_def nextRandom_def s1_def s2_def)
    next
      case (Some c)
      then have rec: "create_temp_try k dir prefix s2 = (r, s')"
        using "2.prems" rr e by (auto simp: n_def Let_def)
      from Some have "content_of s2 (os_join dir (prefix @ nextRandom (shd (rands s)))) \<noteq> None"
        by (simp add: n_def)
      note IH = "2.IH" [OF rr [symmetric] refl e [symmetric] refl this rec]
      have "clock s2 = clock s" "content_of s2 = content_of s" by (auto simp: s1_def s2_def)
      with IH t2 show ?thesis
        by (auto split: sum.splits dest: touches_trans [OF t2])
    qed
  qed
qed

lemma write_temp_spec:
  assumes "write_temp n raw s = (r, s')"
  shows "touches {n} s s'" "clock s' = clock s" "r = None \<Longrightarrow> content_of s' n = Some raw"
  using assms
  by (auto simp: write_temp_def file_write_def ext_def touches_def split: option.splits if_splits)

lemma os_Rename_spec:
  assumes "os_Rename old new s = (r, s')"
  shows "r \<noteq> None \<Longrightarrow> touches {} s s'" "clock s' = clock s"
    "r = None \<Longrightarrow> touches {old, new} s s' \<and> content_of s old \<noteq> None \<and>
       content_of s' new = content_of s old \<and> (old \<noteq> new \<longrightarrow> content_of s' old = None)"
  using assms by (auto simp: os_Rename_def ext_def touches_def split: option.splits)

lemma syncDirectory_touches:
  assumes "syncDirectory s = (r, s')"
  shows "touches {} s s'" "clock s' = clock s" "content_of s' = content_of s"
  using assms by (auto simp: syncDirectory_def ext_def split: option.splits)

lemma os_Stat_touches:
  assumes "os_Stat p s = (r, s')"
  shows "touches {} s s'" "content_of s' = content_of s" "r = Inr n \<Longrightarrow> 0 \<le> n"
  using assms by (auto simp: os_Stat_def ext_def split: option.splits)

lemma touches_upkeep:
  assumes "touches P s s'" "P \<inter> blob_paths (sdb s) = {}" "\<And>q. q \<in> P \<Longrightarrow> q \<in> uncovered s' \<Longrightarrow> q \<in> uncovered s"
  shows "upkeep s s'"
  unfolding upkeep_def
proof (intro conjI ballI)
  show "content_of s' q = content_of s q" if "q \<in> blob_paths (sdb s)" for q
    using assms(1,2) that by (auto simp: touches_def)
  show "uncovered s' \<subseteq> uncovered s"
  proof
    fix q assume "q \<in> uncovered s'"
    then show "q \<in> uncovered s"
      using assms(1,3) by (cases "q \<in> P") (auto simp: touches_def uncovered_def)
  qed
qed (use assms(1) in \<open>auto simp: touches_def\<close>)

text \<open>The deferred clean-up only ever removes the temporary file or accounts for it.\<close>

lemma discard_temp_spec:
  assumes inv: "store_inv s" and p: "p \<notin> blob_paths (sdb s)"
  shows "store_inv (discard_temp p s) \<and> upkeep s (discard_temp p s)"
proof -
  obtain r s1 where r: "removeFile p s = (r, s1)" by fastforce
  note rf = removeFile_cases [OF r]
  have t1: "touches {p} s s1"
    using but_disk_fields [OF rf(1)] rf(2,3) by (auto simp: touches_def) metis
  have u1: "upkeep s s1"
  proof (rule touches_upkeep [OF t1])
    show "q \<in> uncovered s" if "q \<in> {p}" "q \<in> uncovered s1" for q
      using that rf(2,3) t1 by (cases "remove_failed r") (auto simp: uncovered_def touches_def)
  qed (use p in auto)
  note i1 = touches_files(1) [OF t1 inv] 
  show ?thesis
  proof (cases "remove_failed r")
    case False
    with r i1 u1 p show ?thesis by (simp add: discard_temp_def)
  next
    case True
    obtain x s2 where x: "os_Stat p s1 = (x, s2)" by fastforce
    note st = os_Stat_touches [OF x]
    have i2: "store_inv s2" using touches_files(1) [OF st(1)] i1 p by simp
    have u2: "upkeep s s2" using upkeep_trans [OF u1 touches_upkeep [OF st(1)]] by simp
    show ?thesis
    proof (cases x)
      case (Inl e)
      with True r x i2 u2 show ?thesis by (simp add: discard_temp_def)
    next
      case (Inr n)
      have "p \<notin> blob_paths (sdb s2)" using p u2 by (simp add: upkeep_def blob_paths_def)
      from discardFileLocked_spec [OF i2 this st(3) [OF Inr]] Inr True r x u2 show ?thesis
        by (auto simp: discard_temp_def intro: upkeep_trans)
    qed
  qed
qed

section \<open>The transaction\<close>

text \<open>Everything a transaction of \<^verbatim>\<open>Save\<close> leaves alone: tables, clock and random source apart.\<close>

definition but_tx :: "store \<Rightarrow> store" where
  "but_tx s = (but_db s)\<lparr>clock := sconst 0, rands := sconst []\<rparr>"

lemma but_tx_fields:
  assumes "but_tx s = but_tx t"
  shows "content_of s = content_of t" "fixed s = fixed t" "storedBytes s = storedBytes t"
    "storedMessages s = storedMessages t" "storageFault s = storageFault t" "pendingCursor s = pendingCursor t"
  using arg_cong [OF assms, of content_of] arg_cong [OF assms, of fixed]
    arg_cong [OF assms, of storedBytes] arg_cong [OF assms, of storedMessages]
    arg_cong [OF assms, of storageFault] arg_cong [OF assms, of pendingCursor]
  by (simp_all add: but_tx_def but_db_def)

lemma but_tx_update [simp]:
  "but_tx (s\<lparr>faults := f\<rparr>) = but_tx s" "but_tx (s\<lparr>sdb := d\<rparr>) = but_tx s"
  "but_tx (s\<lparr>clock := c\<rparr>) = but_tx s" "but_tx (s\<lparr>rands := r\<rparr>) = but_tx s"
  by (simp_all add: but_tx_def but_db_def)

lemma but_tx_but_db: "but_db s = but_db t \<Longrightarrow> but_tx s = but_tx t"
  by (simp add: but_tx_def)

lemma exec_frame: "exec stmt s = (r, s') \<Longrightarrow> but_db s' = but_db s"
  by (auto elim!: exec_cases)

lemma newID_frame: "newID s = (i, s') \<Longrightarrow> s' = s\<lparr>rands := stl (rands s)\<rparr>"
  by (simp add: newID_def rand_read_def)

lemma insert_messages_frame:
  "insert_messages rs from subject t texp sz b s = (r, s') \<Longrightarrow> but_tx s' = but_tx s \<and> clock s' = clock s"
proof (induction rs "from" subject t texp sz b s arbitrary: r s' rule: insert_messages.induct)
  case (1 sdr subject t texp sz b s)
  then show ?case by simp
next
  case (2 rcpt rs sdr subject t texp sz b s)
  then show ?case
    by (fastforce simp: Let_def split: prod.splits option.splits sum.splits
        dest!: newID_frame elim!: exec_cases)
qed

text \<open>The row that stands for a message returned to the caller.\<close>

definition row_of :: "string \<Rightarrow> message \<Rightarrow> msg_row" where
  "row_of b m = \<lparr>m_id = ID m, m_recipient = Recipient m, m_sender = From m, m_subject = Subject m,
     m_received = time_Unix (Received m), m_expires = time_Unix (ExpiresAt m), m_size = Size m,
     m_blob = b\<rparr>"

lemma row_of_fields [simp]:
  "m_id (row_of b m) = ID m" "m_blob (row_of b m) = b" "m_recipient (row_of b m) = Recipient m"
  "m_size (row_of b m) = Size m"
  "m_expires (row_of b m) = time_Unix (ExpiresAt m)" "m_received (row_of b m) = time_Unix (Received m)"
  by (simp_all add: row_of_def)

definition stamped :: "string \<Rightarrow> string \<Rightarrow> time \<Rightarrow> time \<Rightarrow> int \<Rightarrow> message \<Rightarrow> bool" where
  "stamped from subject t texp sz m \<longleftrightarrow>
     From m = from \<and> Subject m = subject \<and> Received m = t \<and> ExpiresAt m = texp \<and> Size m = sz \<and> Body m = []"

lemma insert_messages_ok:
  "insert_messages rs from subject t texp sz b s = (Inr ms, s') \<Longrightarrow>
   map Recipient ms = rs \<and> list_all (stamped from subject t texp sz) ms \<and>
   sdb s' = (sdb s)\<lparr>t_messages := t_messages (sdb s) @ map (row_of b) ms\<rparr> \<and>
   distinct (map ID ms) \<and> set (map ID ms) \<inter> set (map m_id (t_messages (sdb s))) = {}"
proof (induction rs "from" subject t texp sz b s arbitrary: ms s' rule: insert_messages.induct)
  case (1 sdr subject t texp sz b s)
  then show ?case by simp
next
  case (2 r rs sdr subject t texp sz b s)
  obtain i s1 where i: "newID s = (i, s1)" by fastforce
  define m where "m = \<lparr>ID = i, Recipient = r, From = sdr, Subject = subject, Received = t,
                    ExpiresAt = texp, Size = sz, Body = []\<rparr>"
  obtain x s2 where x: "exec (sql_insert_message (row_of b m)) s1 = (x, s2)" by fastforce
  have step: "insert_messages (r # rs) sdr subject t texp sz b s =
      (case x of Some e \<Rightarrow> (Inl e, s2)
       | None \<Rightarrow> (case insert_messages rs sdr subject t texp sz b s2 of
                  (Inl e, s3) \<Rightarrow> (Inl e, s3)
                | (Inr ms, s3) \<Rightarrow> (Inr (m # ms), s3)))"
    using i x by (simp add: Let_def m_def row_of_def split: option.split sum.split prod.split)
  from "2.prems" [unfolded step] obtain ms' where x0: "x = None"
    and rec: "insert_messages rs sdr subject t texp sz b s2 = (Inr ms', s')" and ms: "ms = m # ms'"
    by (auto split: option.splits prod.splits sum.splits)
  have fresh: "i \<notin> set (map m_id (t_messages (sdb s)))"
    and s2: "sdb s2 = (sdb s)\<lparr>t_messages := t_messages (sdb s) @ [row_of b m]\<rparr>"
    using x x0 newID_frame [OF i]
    by (auto simp: sql_insert_message_def m_def elim!: exec_cases split: if_splits)
  have x': "exec (sql_insert_message \<lparr>m_id = i, m_recipient = r, m_sender = sdr, m_subject = subject,
      m_received = time_Unix t, m_expires = time_Unix texp, m_size = sz, m_blob = b\<rparr>) s1 = (None, s2)"
    using x x0 by (simp add: m_def row_of_def)
  note IH = "2.IH" [OF i [symmetric] refl x' [symmetric] refl rec]
  show ?case using IH fresh by (auto simp: ms s2 m_def stamped_def)
qed

lemma evictTx_frame: "evictTx b sz s = (r, s') \<Longrightarrow> but_tx s' = but_tx s"
  by (auto simp: evictTx_def now_def dest!: evict_loop_frame but_tx_but_db)

lemma evictTx_ok:
  assumes "evictTx b sz s = (Inr st, s')"
  obtains evs final where
    "evicts (time_Unix (shd (clock s))) b (MaxStorageBytes (cfg s)) (storedBytes s + sz) (sdb s) evs final (sdb s')"
    "counted evs no_stats st"
proof -
  have "evict_loop (time_Unix (shd (clock s))) b (MaxStorageBytes (cfg s)) True (storedBytes s + sz)
      no_stats (s\<lparr>clock := stl (clock s)\<rparr>) = (Inr st, s')"
    using assms by (simp add: evictTx_def now_def)
  from evict_loop_evicts [OF this] that show ?thesis by auto
qed

lemma save_tx_frame:
  assumes "save_tx rs from subject t b path sz s = (r, s')"
  shows "but_tx s' = but_tx s"
proof -
  obtain x s1 where x: "exec (sql_insert_blob
      \<lparr>b_id = b, b_path = path, b_size = sz, b_refs = int (length rs)\<rparr>) s = (x, s1)" by fastforce
  obtain y s2 where y: "insert_messages rs from subject t (t + MessageTTL (cfg s)) sz b s1 = (y, s2)"
    by fastforce
  have 1: "but_tx s1 = but_tx s" using exec_frame [OF x] by (rule but_tx_but_db)
  have 2: "but_tx s2 = but_tx s" using insert_messages_frame [OF y] 1 by simp
  show ?thesis using assms x y 1 2
    by (auto simp: save_tx_def split: option.splits sum.splits prod.splits dest!: evictTx_frame)
qed

text \<open>The tables after the inserts of a delivery.\<close>

definition with_delivery :: "blob_row \<Rightarrow> message list \<Rightarrow> db \<Rightarrow> db" where
  "with_delivery b ms d = d\<lparr>t_blobs := t_blobs d @ [b],
     t_messages := t_messages d @ map (row_of (b_id b)) ms\<rparr>"

lemma save_tx_ok:
  assumes "save_tx rs from subject t i path sz s = (Inr (ms, st), s')"
  defines "b \<equiv> \<lparr>b_id = i, b_path = path, b_size = sz, b_refs = int (length rs)\<rparr>"
  obtains evs final where
    "map Recipient ms = rs" "list_all (stamped from subject t (t + MessageTTL (cfg s)) sz) ms"
    "distinct (map ID ms)" "set (map ID ms) \<inter> set (map m_id (t_messages (sdb s))) = {}"
    "i \<notin> set (map b_id (t_blobs (sdb s)))"
    "evicts (time_Unix (shd (clock s))) i (MaxStorageBytes (cfg s)) (storedBytes s + sz)
       (with_delivery b ms (sdb s)) evs final (sdb s')"
    "counted evs no_stats st"
proof -
  from assms(1) obtain s1 s2 where
    x: "exec (sql_insert_blob b) s = (None, s1)" and
    y: "insert_messages rs from subject t (t + MessageTTL (cfg s)) sz i s1 = (Inr ms, s2)" and
    z: "evictTx i sz s2 = (Inr st, s')"
    by (auto simp: save_tx_def b_def split: option.splits sum.splits prod.splits)
  have fresh: "i \<notin> set (map b_id (t_blobs (sdb s)))"
    and s1: "sdb s1 = (sdb s)\<lparr>t_blobs := t_blobs (sdb s) @ [b]\<rparr>" "clock s1 = clock s"
    using x by (auto simp: sql_insert_blob_def b_def elim!: exec_cases split: if_splits)
  note ins = insert_messages_ok [OF y]
  have "but_tx s2 = but_tx s"
    using insert_messages_frame [OF y] but_tx_but_db [OF exec_frame [OF x]] by simp
  note f2 = but_tx_fields [OF this]
  have c2: "clock s2 = clock s" using insert_messages_frame [OF y] s1 by simp
  have d2: "sdb s2 = with_delivery b ms (sdb s)"
    using ins s1 by (simp add: with_delivery_def b_def)
  show ?thesis
    by (rule evictTx_ok [OF z]) (rule that, use ins s1 fresh f2 c2 d2 fixed_fields(1) [OF f2(2)] in auto)
qed

end
