(* ===== verification/StoreProps.thy ===== *)
theory StoreProps
  imports StoreDelivery
begin

text \<open>
  The properties of \<^verbatim>\<open>Store.Save\<close>: it keeps the invariant of the store whatever fails, a
  refused delivery leaves all mail as it was, an accepted one is stored for every recipient within
  the cap, and what it removes is what the eviction policy names.
\<close>

section \<open>A delivery on the tables\<close>

lemma evicts_length:
  "evicts before protected limit projected d evs final d' \<Longrightarrow> db_ok d \<Longrightarrow>
   length (t_messages d') + length evs = length (t_messages d)"
proof (induction rule: evicts.induct)
  case (stop projected d)
  then show ?case by simp
next
  case (evict projected d x m n p d1 ms final d2)
  have m: "m \<in> set (t_messages d)" using evict.hyps(2) by (simp add: victim_def)
  with evict.hyps(3) evict.prems have "db_ok d1"
    by (auto elim: drop_ref_ok simp: drop_ref_post_def)
  moreover have "length (t_messages d1) = length (t_messages d) - 1"
    using drop_ref_messages [OF evict.hyps(3)] length_remove_key [OF db_ok_keys(1) [OF evict.prems] m]
    by simp
  ultimately show ?case using evict.IH m by (cases "t_messages d") auto
qed

lemma evicts_fits: "evicts before protected limit projected d evs final d' \<Longrightarrow> projected \<le> limit \<Longrightarrow> evs = []"
  by (erule evicts.cases) auto

definition by_policy :: "int \<Rightarrow> string \<Rightarrow> db \<Rightarrow> db \<Rightarrow> bool \<times> msg_row \<Rightarrow> bool" where
  "by_policy before i d d' v \<longleftrightarrow>
     (case v of (x, m) \<Rightarrow>
        m \<in> set (t_messages d) \<and>
        (if x then m_expires m \<le> before
         else \<forall>k \<in> set (t_messages d'). m_blob k \<noteq> i \<longrightarrow> before < m_expires k \<and> m_received m \<le> m_received k))"

definition delivered ::
    "int \<Rightarrow> int \<Rightarrow> blob_row \<Rightarrow> message list \<Rightarrow> db \<Rightarrow> (bool \<times> msg_row) list \<Rightarrow> db \<Rightarrow> bool" where
  "delivered before limit b ms d evs d' \<longleftrightarrow>
     db_ok d' \<and> b_id b \<notin> set (map b_id (t_blobs d)) \<and>
     set (map (row_of (b_id b)) ms) \<subseteq> set (t_messages d') \<and>
     set (t_messages d') = {k \<in> set (t_messages d). m_id k \<notin> m_id ` snd ` set evs} \<union> set (map (row_of (b_id b)) ms) \<and>
     (b_id b, b_path b, b_size b) \<in> blob_keys d' \<and>
     blob_keys d' \<subseteq> insert (b_id b, b_path b, b_size b) (blob_keys d) \<and>
     blob_paths d' \<union> pending_paths d' = insert (b_path b) (blob_paths d \<union> pending_paths d) \<and>
     sum_blobs d' + sum_pending d \<le> limit \<and>
     sum_blobs d' + sum_pending d' = sum_blobs d + sum_pending d + b_size b \<and>
     length (t_messages d') + length evs = length (t_messages d) + length ms \<and>
     (\<forall>v \<in> set evs. by_policy before (b_id b) d d' v) \<and>
     (sum_blobs d + sum_pending d + b_size b \<le> limit \<longrightarrow> evs = [])"

lemma with_delivery_ok:
  assumes "db_ok d" "ms \<noteq> []" "distinct (map ID ms)"
    "set (map ID ms) \<inter> set (map m_id (t_messages d)) = {}" "b_id b \<notin> set (map b_id (t_blobs d))"
    "b_path b \<notin> blob_paths d" "b_path b \<notin> pending_paths d" "b_refs b = int (length ms)" "0 \<le> b_size b"
  shows "db_ok (with_delivery b ms d)"
  unfolding with_delivery_def
  by (rule db_ok_insert) (use assms in \<open>auto simp: comp_def\<close>)

lemma delivery_delivered:
  assumes ok: "db_ok d" and ms: "ms \<noteq> []" "distinct (map ID ms)"
    and fresh: "set (map ID ms) \<inter> set (map m_id (t_messages d)) = {}" "b_id b \<notin> set (map b_id (t_blobs d))"
      "b_path b \<notin> blob_paths d" "b_path b \<notin> pending_paths d"
    and b: "b_refs b = int (length ms)" "0 \<le> b_size b"
    and ev: "evicts before (b_id b) limit (sum_blobs d + sum_pending d + b_size b) (with_delivery b ms d) evs final d'"
  shows "delivered before limit b ms d evs d'"
proof -
  let ?rows = "map (row_of (b_id b)) ms" and ?d1 = "with_delivery b ms d"
  have ok1: "db_ok ?d1" by (rule with_delivery_ok) (use assms in auto)
  note post = evicts_post [OF ev ok1, unfolded drop_ref_post_def]
  have victims: "m \<in> set (t_messages d) \<and> (x \<longrightarrow> m_expires m \<le> before)" if "(x, m) \<in> set evs" for x m
    using evicts_victims [OF ev that] by (auto simp: with_delivery_def)
  have keep: "ID k \<notin> m_id ` snd ` set evs" if "k \<in> set ms" for k
    using victims fresh(1) that by fastforce
  have msgs: "set (t_messages d') = {k \<in> set (t_messages d). m_id k \<notin> m_id ` snd ` set evs} \<union> set ?rows"
    using evicts_messages [OF ev] keep by (auto simp: with_delivery_def)
  have "(b_id b, b_path b, b_size b) \<in> blob_keys d'"
  proof -
    obtain k where k: "k \<in> set ms" using ms(1) by (cases ms) auto
    then have "row_of (b_id b) k \<in> set (t_messages d')" using msgs by auto
    from db_ok_msg_blob [OF _ this] post obtain b' where b': "b' \<in> set (t_blobs d')" "b_id b' = b_id b"
      by (metis (no_types, lifting) imageE row_of_fields(2))
    then have "(b_id b, b_path b', b_size b') \<in> blob_keys ?d1" using post by (force simp: blob_keys_def)
    then have "b_path b' = b_path b \<and> b_size b' = b_size b"
      using fresh(2) by (force simp: blob_keys_def with_delivery_def)
    with b' show ?thesis unfolding blob_keys_def by (metis (no_types, lifting) image_eqI)
  qed
  moreover have "blob_keys ?d1 = insert (b_id b, b_path b, b_size b) (blob_keys d)"
    by (auto simp: blob_keys_def with_delivery_def)
  moreover have "blob_paths ?d1 = insert (b_path b) (blob_paths d)" "pending_paths ?d1 = pending_paths d"
    "sum_blobs ?d1 = sum_blobs d + b_size b" "sum_pending ?d1 = sum_pending d"
    by (auto simp: blob_paths_def pending_paths_def with_delivery_def sum_blobs_def sum_pending_def)
  moreover have "by_policy before (b_id b) d d' v" if "v \<in> set evs" for v
  proof -
    obtain x m where v: "v = (x, m)" by (cases v)
    show ?thesis
      using that victims [of x m] evicts_live_victims [OF ev, of m] by (auto simp: by_policy_def v)
  qed
  moreover have "length (t_messages d') + length evs = length (t_messages d) + length ms"
    using evicts_length [OF ev ok1] by (simp add: with_delivery_def)
  ultimately show ?thesis
    using post msgs fresh(2) evicts_fits [OF ev] by (auto simp: delivered_def)
qed

lemma blob_paths_keys: "blob_paths d = (\<lambda>(i, p, n). p) ` blob_keys d"
  by (force simp: blob_paths_def blob_keys_def)

lemma delivered_paths:
  assumes "delivered before limit b ms d evs d'"
  shows "b_path b \<in> blob_paths d'" "blob_paths d' \<subseteq> insert (b_path b) (blob_paths d)"
proof -
  have k: "(b_id b, b_path b, b_size b) \<in> blob_keys d'"
    "blob_keys d' \<subseteq> insert (b_id b, b_path b, b_size b) (blob_keys d)"
    using assms by (simp_all add: delivered_def)
  show "b_path b \<in> blob_paths d'" unfolding blob_paths_keys by (rule image_eqI [OF _ k(1)]) simp
  show "blob_paths d' \<subseteq> insert (b_path b) (blob_paths d)"
    using image_mono [OF k(2), of "\<lambda>(i, p, n). p"] by (simp add: blob_paths_keys)
qed

section \<open>What a save may leave behind\<close>

definition mail_same :: "store \<Rightarrow> store \<Rightarrow> bool" where
  "mail_same s s' \<longleftrightarrow> fixed s' = fixed s \<and>
     t_messages (sdb s') = t_messages (sdb s) \<and> t_blobs (sdb s') = t_blobs (sdb s) \<and>
     (\<forall>q \<in> blob_paths (sdb s). content_of s' q = content_of s q)"

lemma mail_same_trans: "mail_same s t \<Longrightarrow> mail_same t u \<Longrightarrow> mail_same s u"
  by (simp add: mail_same_def blob_paths_def)

lemma upkeep_mail_same: "upkeep s s' \<Longrightarrow> mail_same s s'"
  by (simp add: upkeep_def mail_same_def)

lemma touches_mail_same: "touches P s s' \<Longrightarrow> P \<inter> blob_paths (sdb s) = {} \<Longrightarrow> mail_same s s'"
  by (auto simp: touches_def mail_same_def)

lemma touches_uncovered: "touches P s s' \<Longrightarrow> uncovered s' \<subseteq> uncovered s \<union> P"
  by (auto simp: touches_def uncovered_def)

text \<open>A refused delivery: all mail as before; only the temporary file can be left over silently.\<close>

definition refused :: "string \<Rightarrow> string \<Rightarrow> store \<Rightarrow> store \<Rightarrow> bool" where
  "refused tmp path s s' \<longleftrightarrow>
     store_inv s' \<and> mail_same s s' \<and> uncovered s' \<subseteq> uncovered s \<union> {tmp, path} \<and>
     (path \<in> uncovered s' \<longrightarrow> storageFault s' \<noteq> None)"

text \<open>An accepted delivery.\<close>

definition accepted ::
    "string \<Rightarrow> int \<Rightarrow> blob_row \<Rightarrow> string \<Rightarrow> message list \<Rightarrow> store \<Rightarrow> store \<Rightarrow> bool" where
  "accepted tmp before b raw ms s s' \<longleftrightarrow>
     store_inv s' \<and> fixed s' = fixed s \<and> content_of s' (b_path b) = Some raw \<and>
     (\<forall>q \<in> blob_paths (sdb s'). q \<noteq> b_path b \<longrightarrow> content_of s' q = content_of s q) \<and>
     uncovered s' \<subseteq> uncovered s \<union> {tmp} \<and>
     (\<exists>evs d'. delivered before (MaxStorageBytes (cfg s)) b ms (sdb s) evs d' \<and>
        t_messages (sdb s') = t_messages d' \<and> t_blobs (sdb s') = t_blobs d')"

lemma refused_upkeep: "refused tmp path s t \<Longrightarrow> upkeep t u \<Longrightarrow> store_inv u \<Longrightarrow> refused tmp path s u"
  using upkeep_mail_same [of t u] mail_same_trans [of s t u]
  by (auto simp: refused_def upkeep_def)

lemma accepted_upkeep:
  assumes "accepted tmp before b raw ms s t" "upkeep t u" "store_inv u"
  shows "accepted tmp before b raw ms s u"
proof -
  obtain evs d' where d: "delivered before (MaxStorageBytes (cfg s)) b ms (sdb s) evs d'"
    "t_messages (sdb t) = t_messages d'" "t_blobs (sdb t) = t_blobs d'"
    using assms(1) by (auto simp: accepted_def)
  have "b_path b \<in> blob_paths (sdb t)"
    using delivered_paths(1) [OF d(1)] d(3) by (simp add: blob_paths_def)
  moreover have "blob_paths (sdb u) = blob_paths (sdb t)"
    using assms(2) by (simp add: upkeep_def blob_paths_def)
  ultimately show ?thesis
    using assms d unfolding accepted_def upkeep_def by auto
qed

section \<open>The stages of a save\<close>

lemma inTx_save_tx:
  assumes "inTx (save_tx rs from subject t i path sz) s = (r, s')"
  shows "but_tx s' = but_tx s" "r = Inl e \<Longrightarrow> sdb s' = sdb s"
proof -
  from assms show "but_tx s' = but_tx s"
    by (cases rule: inTx_cases) (auto dest!: save_tx_frame)
  from assms show "r = Inl e \<Longrightarrow> sdb s' = sdb s"
    by (cases rule: inTx_cases) auto
qed

lemma inTx_save_tx_ok:
  assumes "inTx (save_tx rs from subject t i path sz) s = (Inr (ms, st), s')"
  obtains f s2 where "save_tx rs from subject t i path sz (s\<lparr>faults := f\<rparr>) = (Inr (ms, st), s2)"
    "sdb s' = sdb s2"
  using assms by (cases rule: inTx_cases) auto

text \<open>The state a commit leaves, before the queue is drained.\<close>

lemma commit_state:
  assumes inv: "store_inv s" "storageFault s = None"
    and path: "path \<notin> blob_paths (sdb s)" "path \<notin> pending_paths (sdb s)" "content_of s path = Some raw"
    and rs: "rs \<noteq> []"
    and tx: "inTx (save_tx rs from subject t i path (int (length raw))) s = (Inr (ms, st), s1)"
  defines "b \<equiv> \<lparr>b_id = i, b_path = path, b_size = int (length raw), b_refs = int (length rs)\<rparr>"
    and "u \<equiv> s1\<lparr>storedBytes := storedBytes s1 + int (length raw),
               storedMessages := storedMessages s1
                 + (int (length rs) - int (Evicted st) - int (Expired st))\<rparr>"
  shows "accepted tmp (time_Unix (shd (clock s))) b raw ms s u \<and> map Recipient ms = rs \<and>
    list_all (stamped from subject t (t + MessageTTL (cfg s)) (int (length raw))) ms"
proof -
  obtain f s2 where s2: "save_tx rs from subject t i path (int (length raw)) (s\<lparr>faults := f\<rparr>) = (Inr (ms, st), s2)"
    "sdb s1 = sdb s2" by (rule inTx_save_tx_ok [OF tx])
  note f1 = but_tx_fields [OF inTx_save_tx(1) [OF tx]]
  have ok: "db_ok (sdb s)" "files_ok s" and acc: "accounted s" using inv by (auto simp: store_inv_def)
  obtain evs final where m: "map Recipient ms = rs"
      "list_all (stamped from subject t (t + MessageTTL (cfg s)) (int (length raw))) ms"
    and ids: "distinct (map ID ms)" "set (map ID ms) \<inter> set (map m_id (t_messages (sdb s))) = {}"
      "i \<notin> set (map b_id (t_blobs (sdb s)))"
    and ev: "evicts (time_Unix (shd (clock s))) i (MaxStorageBytes (cfg s)) (storedBytes s + int (length raw))
         (with_delivery b ms (sdb s)) evs final (sdb s1)"
    and cnt: "counted evs no_stats st"
    by (rule save_tx_ok [OF s2(1)]) (auto simp: b_def s2(2))
  have len: "length ms = length rs" using m(1) by (metis length_map)
  have "delivered (time_Unix (shd (clock s))) (MaxStorageBytes (cfg s)) b ms (sdb s) evs (sdb s1)"
    by (rule delivery_delivered) (use ok ids path rs len ev acc in \<open>auto simp: b_def accounted_def\<close>)
  note del = this [unfolded delivered_def]
  have files: "files_ok u"
    unfolding files_ok_def
  proof
    fix b' assume "b' \<in> set (t_blobs (sdb u))"
    then have "(b_id b', b_path b', b_size b') \<in> blob_keys (sdb s1)"
      by (auto simp: u_def blob_keys_def)
    then have "(b_id b', b_path b', b_size b') \<in> insert (b_id b, b_path b, b_size b) (blob_keys (sdb s))"
      using del by blast
    then show "\<exists>c. content_of u (b_path b') = Some c \<and> int (length c) = b_size b'"
      using \<open>files_ok s\<close> path(3) f1(1) by (auto simp: files_ok_def blob_keys_def b_def u_def)
  qed
  have "length (filter fst evs) + length (filter (\<lambda>v. \<not> fst v) evs) = length evs"
    by (rule sum_length_filter_compl)
  then have "accounted u"
    using del acc f1(3,4) cnt len
    by (simp add: accounted_def u_def counted_def no_stats_def b_def)
  moreover have unc: "uncovered u \<subseteq> uncovered s"
    using del f1(1) by (auto simp: uncovered_def u_def b_def)
  ultimately have "accepted tmp (time_Unix (shd (clock s))) b raw ms s u"
    using del files f1 path(3) \<open>delivered _ _ _ _ _ _ _\<close>
    unfolding accepted_def store_inv_def by (auto simp: u_def b_def)
  with m show ?thesis by simp
qed

lemma cleanup_error_upkeep: "store_inv s \<Longrightarrow> store_inv (note_cleanup_error e s) \<and> upkeep s (note_cleanup_error e s)"
  by (auto simp: note_cleanup_error_def store_inv_def upkeep_def uncovered_def files_ok_def accounted_def)

lemma lastCleanup_upkeep:
  "store_inv s \<Longrightarrow> store_inv (s\<lparr>clock := c, lastCleanup := l\<rparr>) \<and> upkeep s (s\<lparr>clock := c, lastCleanup := l\<rparr>)"
  by (auto simp: store_inv_def upkeep_def uncovered_def files_ok_def accounted_def)

lemma drainPendingLocked_upkeep:
  assumes "store_inv s" "drainPendingLocked s = (e, s')"
  shows "store_inv s' \<and> upkeep s s'"
proof -
  have ok: "db_ok (sdb s)" using assms(1) by (simp add: store_inv_def)
  note d = drainPendingLocked_drains [OF ok assms(2)]
  show ?thesis using drains_inv [OF assms(1) d] drains_upkeep [OF ok d] by simp
qed

lemma save_commit_spec:
  assumes inv: "store_inv s" "storageFault s = None"
    and path: "path \<notin> blob_paths (sdb s)" "path \<notin> pending_paths (sdb s)" "content_of s path = Some raw"
    and rs: "rs \<noteq> []"
    and c: "save_commit rs from subject t i path (int (length raw)) s = (r, s')"
  shows "case r of
      Inl e \<Rightarrow> store_inv s' \<and> upkeep s s' \<and> (path \<in> uncovered s' \<longrightarrow> storageFault s' \<noteq> None)
    | Inr ms \<Rightarrow> accepted tmp (time_Unix (shd (clock s)))
        \<lparr>b_id = i, b_path = path, b_size = int (length raw), b_refs = int (length rs)\<rparr> raw ms s s' \<and>
        map Recipient ms = rs \<and>
        list_all (stamped from subject t (t + MessageTTL (cfg s)) (int (length raw))) ms"
proof -
  obtain x s1 where x: "inTx (save_tx rs from subject t i path (int (length raw))) s = (x, s1)" by fastforce
  note f1 = but_tx_fields [OF inTx_save_tx(1) [OF x]]
  show ?thesis
  proof (cases x)
    case (Inl e)
    then have r: "r = Inl e" "s' = discardFileLocked path (int (length raw)) s1"
      using c x by (auto simp: save_commit_def)
    have t1: "touches {} s s1" using f1 inTx_save_tx(2) [OF x Inl] by (simp add: touches_def)
    have i1: "store_inv s1" using touches_files(1) [OF t1 inv(1)] by simp
    have "path \<notin> blob_paths (sdb s1)" using path(1) t1 by (simp add: touches_def)
    from discardFileLocked_spec [OF i1 this] have
      "store_inv s' \<and> upkeep s1 s' \<and> (path \<in> uncovered s' \<longrightarrow> storageFault s' \<noteq> None)"
      by (simp add: r(2))
    with r(1) touches_upkeep [OF t1] show ?thesis by (auto intro: upkeep_trans)
  next
    case (Inr y)
    obtain ms st where y: "y = (ms, st)" by (cases y)
    define u where "u = s1\<lparr>storedBytes := storedBytes s1 + int (length raw),
               storedMessages := storedMessages s1
                 + (int (length rs) - int (Evicted st) - int (Expired st))\<rparr>"
    note acc = commit_state [OF inv path rs x [unfolded Inr y], folded u_def, of tmp]
    define v where "v = (if 0 < Evicted st \<or> 0 < Expired st
                     then (case now u of (t', s') \<Rightarrow> s'\<lparr>lastCleanup := Some t'\<rparr>) else u)"
    have iu: "store_inv u" using acc by (simp add: accepted_def)
    have v: "store_inv v" "upkeep u v" using lastCleanup_upkeep [OF iu] iu by (auto simp: v_def now_def)
    obtain e w where w: "drainPendingLocked v = (e, w)" by fastforce
    note dw = drainPendingLocked_upkeep [OF v(1) w]
    note ce = cleanup_error_upkeep [OF conjunct1 [OF dw], of e]
    have "save_commit rs from subject t i path (int (length raw)) s = (Inr ms, note_cleanup_error e w)"
      unfolding save_commit_def x Inr y prod.case sum.case Let_def u_def [symmetric] v_def [symmetric] w
      by (rule refl)
    with c have r: "r = Inr ms" "s' = note_cleanup_error e w" by simp_all
    have "upkeep u s'" using v(2) dw ce r(2) by (blast intro: upkeep_trans)
    with acc accepted_upkeep [of tmp _ _ raw ms s u s'] ce r show ?thesis by auto
  qed
qed

text \<open>The conditions on the two file names of a save.\<close>

definition staging_ok :: "string \<Rightarrow> string \<Rightarrow> store \<Rightarrow> bool" where
  "staging_ok tmp path s \<longleftrightarrow>
     store_inv s \<and> storageFault s = None \<and> tmp \<notin> blob_paths (sdb s) \<and> tmp \<noteq> path \<and>
     path \<notin> blob_paths (sdb s) \<and> path \<notin> pending_paths (sdb s)"

lemma staging_ok_touches:
  assumes "staging_ok tmp path s" "touches P s s'" "P \<subseteq> {tmp, path}"
  shows "staging_ok tmp path s'" "mail_same s s'" "store_inv s'" "uncovered s' \<subseteq> uncovered s \<union> P"
proof -
  have P: "P \<inter> blob_paths (sdb s) = {}" using assms(1,3) by (auto simp: staging_ok_def)
  show i: "store_inv s'" using touches_files(1) [OF assms(2) _ P] assms(1) by (simp add: staging_ok_def)
  show "staging_ok tmp path s'" using assms(1,2) i by (simp add: staging_ok_def touches_def)
  show "mail_same s s'" by (rule touches_mail_same [OF assms(2) P])
  show "uncovered s' \<subseteq> uncovered s \<union> P" by (rule touches_uncovered [OF assms(2)])
qed

lemma accepted_touches:
  assumes "accepted tmp before b raw ms t u" "touches {tmp, b_path b} s t"
    "tmp \<notin> blob_paths (sdb s)"
  shows "accepted tmp before b raw ms s u"
proof -
  have db: "sdb t = sdb s" and fx: "fixed t = fixed s" using assms(2) by (auto simp: touches_def)
  obtain evs d' where d: "delivered before (MaxStorageBytes (cfg t)) b ms (sdb t) evs d'"
    "t_messages (sdb u) = t_messages d'" "t_blobs (sdb u) = t_blobs d'"
    using assms(1) by (auto simp: accepted_def)
  have b: "b_path b \<in> blob_paths (sdb u)"
    using delivered_paths(1) [OF d(1)] d(3) by (simp add: blob_paths_def)
  have same: "content_of u q = content_of s q" if "q \<in> blob_paths (sdb u)" "q \<noteq> b_path b" for q
  proof -
    have "content_of u q = content_of t q" using assms(1) that by (simp add: accepted_def)
    moreover have "q \<in> blob_paths (sdb s)"
    proof -
      have "q \<in> blob_paths d'" using that d(3) by (simp add: blob_paths_def)
      then show ?thesis using delivered_paths(2) [OF d(1)] that(2) db by auto
    qed
    ultimately show ?thesis using assms(2,3) that(2) by (auto simp: touches_def)
  qed
  have "b_path b \<notin> uncovered u" using b by (simp add: uncovered_def)
  then have "uncovered u \<subseteq> uncovered s \<union> {tmp}"
    using assms(1) touches_uncovered [OF assms(2)] unfolding accepted_def by blast
  then show ?thesis
    using assms(1) same d db fixed_fields(1) [OF fx] fx unfolding accepted_def by auto
qed

lemma save_staged_spec:
  assumes ok: "staging_ok tmp path s" and fresh: "content_of s path = None" and rs: "rs \<noteq> []"
    and sv: "save_staged rs from subject t i path tmp raw s = (r, s')"
  shows "case r of
      Inl e \<Rightarrow> refused tmp path s s'
    | Inr ms \<Rightarrow> accepted tmp (time_Unix (shd (clock s)))
        \<lparr>b_id = i, b_path = path, b_size = int (length raw), b_refs = int (length rs)\<rparr> raw ms s s' \<and>
        map Recipient ms = rs \<and>
        list_all (stamped from subject t (t + MessageTTL (cfg s)) (int (length raw))) ms"
proof -
  have ne: "tmp \<noteq> path" using ok by (simp add: staging_ok_def)
  have no_path: "path \<notin> uncovered x" if "content_of x path = None" for x
    using that by (simp add: uncovered_def)
  obtain e1 s1 where w: "write_temp tmp raw s = (e1, s1)" by fastforce
  note w' = write_temp_spec [OF w]
  note k1 = staging_ok_touches [OF ok w'(1)]
  obtain e2 s2 where n: "os_Rename tmp path s1 = (e2, s2)" by fastforce
  note n' = os_Rename_spec [OF n]
  obtain e3 s3 where y: "syncDirectory s2 = (e3, s3)" by fastforce
  note y' = syncDirectory_touches [OF y]
  have c1: "content_of s1 path = None" using w'(1) ne fresh by (auto simp: touches_def)
  have r1: "refused tmp path s s1" using k1 no_path [OF c1] by (auto simp: refused_def)
  show ?thesis
  proof (cases "e1 = None \<and> e2 = None")
    case False
    have "refused tmp path s s2" if "e2 \<noteq> None"
    proof -
      note k2 = staging_ok_touches [OF k1(1) n'(1) [OF that]]
      have "content_of s2 path = None" using n'(1) [OF that] c1 by (simp add: touches_def)
      with k1 k2 no_path show ?thesis by (auto simp: refused_def dest: mail_same_trans)
    qed
    with False sv w n r1 show ?thesis by (auto simp: save_staged_def split: option.splits)
  next
    case True
    note rn = n'(3) [OF conjunct2 [OF True]]
    have t12: "touches {tmp, path} s s3"
      using touches_trans [OF touches_trans [OF w'(1) conjunct1 [OF rn]] y'(1)]
      by (simp add: insert_commute)
    note k3 = staging_ok_touches [OF ok t12]
    have c3: "content_of s3 path = Some raw" "content_of s3 tmp = None"
      using rn w'(3) True y'(3) ne by auto
    have p3: "path \<notin> blob_paths (sdb s3)" "path \<notin> pending_paths (sdb s3)" "store_inv s3" "storageFault s3 = None"
      using k3 by (auto simp: staging_ok_def)
    have clk: "clock s3 = clock s" "cfg s3 = cfg s"
      using w'(2) n'(2) y'(2) t12 by (auto simp: touches_def fixed_def)
    have refuse: "refused tmp path s s'"
      if "store_inv s' \<and> upkeep s3 s' \<and> (path \<in> uncovered s' \<longrightarrow> storageFault s' \<noteq> None)"
      using that k3 upkeep_mail_same [of s3 s'] mail_same_trans [of s s3 s']
      by (auto simp: refused_def upkeep_def)
    show ?thesis
    proof (cases e3)
      case (Some e)
      then have r: "r = Inl e" "s' = discardFileLocked path (int (length raw)) s3"
        using sv w n y True by (auto simp: save_staged_def)
      show ?thesis
        using discardFileLocked_spec [OF p3(3,1), of "int (length raw)"] refuse by (simp add: r)
    next
      case None
      then have cm: "save_commit rs from subject t i path (int (length raw)) s3 = (r, s')"
        using sv w n y True by (auto simp: save_staged_def)
      note sc = save_commit_spec [OF p3(3,4,1,2) c3(1) rs cm, of tmp]
      have "tmp \<notin> blob_paths (sdb s)" using ok by (simp add: staging_ok_def)
      with sc refuse t12 accepted_touches [of tmp _ _ raw _ s3 s' s] clk
      show ?thesis by (auto split: sum.splits)
    qed
  qed
qed

section \<open>File names\<close>

lemma filepath_Join_suffix:
  assumes "good_part n" "n \<noteq> ''..''"
  obtains pre where "filepath_Join d n = pre @ n"
proof -
  have sl: "CHR ''/'' \<notin> set n" using assms(1) by (simp add: good_part_def)
  define p where "p = (if d = [] then n else d @ CHR ''/'' # n)"
  obtain cs where cs: "clean_parts (is_rooted p) [] (Split p CHR ''/'') = cs @ [n]"
  proof (cases "d = []")
    case True
    with clean_parts_append_good [OF assms, of "is_rooted p" "[]" "[]"] sl show ?thesis
      by (intro that [of "[]"]) (simp add: p_def Split_no_sep)
  next
    case False
    with clean_parts_append_good [OF assms, of "is_rooted p" "[]" "Split d CHR ''/''"] Split_snoc [OF sl, of d]
    show ?thesis by (intro that) (simp add: p_def)
  qed
  obtain pre where pre: "Join (cs @ [n]) CHR ''/'' = pre @ n"
    by (cases "cs = []") (auto simp: Join_snoc)
  show ?thesis
  proof (cases "is_rooted p")
    case True
    show ?thesis
      by (rule that [of "CHR ''/'' # pre"])
        (use True cs pre in \<open>simp add: filepath_Join_def p_def [symmetric] filepath_Clean_def Let_def\<close>)
  next
    case False
    show ?thesis
      by (rule that [of pre])
        (use False cs pre assms(1) in \<open>simp add: filepath_Join_def p_def [symmetric] filepath_Clean_def Let_def\<close>)
  qed
qed

lemma hex_digit_no_slash: "n < 16 \<Longrightarrow> hex_digit n \<noteq> CHR ''/''"
proof -
  assume "n < 16"
  then have "hex_digit n \<in> set ''0123456789abcdef''"
    unfolding hex_digit_def by (intro nth_mem) simp
  then show ?thesis by auto
qed

lemma hex_no_slash: "CHR ''/'' \<notin> set (concat (map hex_byte b))"
proof -
  have "of_char c div 16 < (16::nat)" "of_char c mod 16 < (16::nat)" for c :: char
    using nat_of_char_less_256 [of c] by (simp_all add: less_mult_imp_div_less)
  then have "hex_digit (of_char c div 16) \<noteq> CHR ''/''" "hex_digit (of_char c mod 16) \<noteq> CHR ''/''"
    for c :: char by (simp_all add: hex_digit_no_slash)
  then have "CHR ''/'' \<notin> set (hex_byte c)" for c by (simp add: hex_byte_def eq_commute)
  then show ?thesis by auto
qed

lemma blob_path_last: "CHR ''/'' \<notin> set i \<Longrightarrow> blob_path dir i \<noteq> [] \<and> last (blob_path dir i) = CHR ''l''"
proof -
  assume "CHR ''/'' \<notin> set i"
  moreover have short: "i @ ''.eml'' \<noteq> x" if "length x \<le> 2" for x using that by auto
  ultimately have "good_part (i @ ''.eml'')" using short [of "''.''"] by (simp add: good_part_def)
  moreover have "i @ ''.eml'' \<noteq> ''..''" by (rule short) simp
  ultimately obtain pre where "filepath_Join dir (i @ ''.eml'') = pre @ i @ ''.eml''"
    by (rule filepath_Join_suffix)
  then show ?thesis by (simp add: blob_path_def)
qed

definition incoming_name :: "store \<Rightarrow> string \<Rightarrow> bool" where
  "incoming_name s p \<longleftrightarrow> (\<exists>j. p = os_join (msgDir s) (''.incoming-'' @ nat_dec j))"

lemma incoming_not_blob:
  assumes "incoming_name s tmp" "CHR ''/'' \<notin> set i"
  shows "tmp \<noteq> blob_path dir i"
proof -
  obtain j where "tmp = os_join (msgDir s) (''.incoming-'' @ nat_dec j)"
    using assms(1) by (auto simp: incoming_name_def)
  then have "last tmp = last (nat_dec j)" by (simp add: os_join_def)
  then have "is_digit (last tmp)" using nat_dec_digits [of "last (nat_dec j)" j] by simp
  moreover have "\<not> is_digit (CHR ''l'')" by code_simp
  ultimately show ?thesis using blob_path_last [OF assms(2), of dir] by auto
qed

section \<open>The whole handler\<close>

definition next_id :: "store \<Rightarrow> string" where
  "next_id s = concat (map hex_byte (shd (rands s)))"

text \<open>
  The random name drawn for the file is new: no file and no queued deletion has it. The code relies
  on the 128 random bits of \<^verbatim>\<open>newID\<close> for that.
\<close>

definition fresh_blob :: "store \<Rightarrow> bool" where
  "fresh_blob s \<longleftrightarrow>
     (let p = blob_path (msgDir s) (next_id s) in content_of s p = None \<and> p \<notin> pending_paths (sdb s))"

definition new_blob :: "store \<Rightarrow> string list \<Rightarrow> string \<Rightarrow> blob_row" where
  "new_blob s rs raw = \<lparr>b_id = next_id s, b_path = blob_path (msgDir s) (next_id s),
     b_size = int (length raw), b_refs = int (length rs)\<rparr>"

lemma save_file_spec:
  assumes inv: "store_inv s" "storageFault s = None" and fresh: "fresh_blob s" and rs: "rs \<noteq> []"
    and sv: "save_file rs sender raw s = (r, s')"
  shows "\<exists>tmp. incoming_name s tmp \<and> (case r of
      Inl e \<Rightarrow> refused tmp (blob_path (msgDir s) (next_id s)) s s'
    | Inr ms \<Rightarrow> accepted tmp (time_Unix (shd (stl (clock s)))) (new_blob s rs raw) raw ms s s' \<and>
        map Recipient ms = rs \<and>
        list_all (case mailDetails (mlib s) raw sender of (subject, from) \<Rightarrow>
          stamped from subject (shd (clock s)) (shd (clock s) + MessageTTL (cfg s)) (int (length raw))) ms)"
proof -
  let ?path = "blob_path (msgDir s) (next_id s)"
  define s2 where "s2 = s\<lparr>clock := stl (clock s), rands := stl (rands s)\<rparr>"
  have t2: "touches {} s s2" by (simp add: s2_def touches_def)
  obtain subject sdr where md: "mailDetails (mlib s) raw sender = (subject, sdr)" by fastforce
  obtain x s3 where ct: "os_CreateTemp (msgDir s) ''.incoming-'' s2 = (x, s3)" by fastforce
  note c = create_temp_try_spec [OF ct [unfolded os_CreateTemp_def]]
  have fr: "content_of s ?path = None" "?path \<notin> pending_paths (sdb s)"
    using fresh by (auto simp: fresh_blob_def Let_def)
  have bp: "q \<notin> blob_paths (sdb s)" if "content_of s q = None" for q
    using that inv(1) by (force simp: store_inv_def files_ok_def blob_paths_def)
  show ?thesis
  proof (cases x)
    case (Inl e)
    then have r: "r = Inl e" "s' = s3"
      using sv md ct by (auto simp: save_file_def now_def newID_def rand_read_def s2_def)
    have t3: "touches {} s s3" using touches_trans [OF t2, of "{}" s3] c Inl by simp
    have "content_of s3 ?path = None" using t3 fr(1) by (simp add: touches_def)
    then have "refused tmp ?path s s'" for tmp
      using touches_files(1) [OF t3 inv(1)] touches_mail_same [OF t3] touches_uncovered [OF t3] r(2)
      by (auto simp: refused_def uncovered_def)
    then show ?thesis using r(1) by (auto simp: incoming_name_def)
  next
    case (Inr tmp)
    have t3: "touches {tmp} s s3" using touches_trans [OF t2, of "{tmp}" s3] c Inr by simp
    have tmp: "content_of s tmp = None" "incoming_name s tmp" "clock s3 = stl (clock s)"
      using c Inr by (auto simp: incoming_name_def s2_def)
    have ne: "tmp \<noteq> ?path" by (rule incoming_not_blob [OF tmp(2)]) (unfold next_id_def, rule hex_no_slash)
    have ok: "staging_ok tmp ?path s" using inv fr ne bp tmp(1) by (simp add: staging_ok_def)
    note k3 = staging_ok_touches [OF ok t3, simplified]
    obtain y s4 where st: "save_staged rs sdr subject (shd (clock s)) (next_id s) ?path tmp raw s3 = (y, s4)"
      by fastforce
    have r: "r = y" "s' = discard_temp tmp s4"
      using sv md ct Inr st by (auto simp: save_file_def now_def newID_def rand_read_def s2_def next_id_def)
    have fr3: "content_of s3 ?path = None" using t3 ne fr(1) by (auto simp: touches_def)
    have cfg3: "cfg s3 = cfg s" using t3 by (simp add: touches_def fixed_def)
    note ss = save_staged_spec [OF k3(1) fr3 rs st]
    show ?thesis
    proof (cases y)
      case (Inl e)
      have rf: "refused tmp ?path s3 s4" using ss Inl by simp
      have "tmp \<notin> blob_paths (sdb s4)"
        using rf k3(1) by (simp add: refused_def mail_same_def blob_paths_def staging_ok_def)
      then have "refused tmp ?path s3 s'"
        using refused_upkeep [OF rf] discard_temp_spec [of s4 tmp] rf r(2) by (simp add: refused_def)
      then have "refused tmp ?path s s'"
        using k3(2,4) mail_same_trans [of s s3 s'] by (auto simp: refused_def)
      then show ?thesis using tmp(2) r(1) Inl by auto
    next
      case (Inr ms)
      have ac: "accepted tmp (time_Unix (shd (stl (clock s)))) (new_blob s rs raw) raw ms s3 s4"
        using ss Inr tmp(3) by (simp add: new_blob_def)
      obtain evs d' where d: "delivered (time_Unix (shd (stl (clock s)))) (MaxStorageBytes (cfg s3))
          (new_blob s rs raw) ms (sdb s3) evs d'" "t_blobs (sdb s4) = t_blobs d'"
        using ac by (auto simp: accepted_def)
      have "tmp \<notin> blob_paths (sdb s4)"
        using delivered_paths(2) [OF d(1)] d(2) k3(1) ne
        by (auto simp: blob_paths_def staging_ok_def new_blob_def)
      then have "accepted tmp (time_Unix (shd (stl (clock s)))) (new_blob s rs raw) raw ms s3 s'"
        using accepted_upkeep [OF ac] discard_temp_spec [of s4 tmp] ac r(2) by (simp add: accepted_def)
      then have "accepted tmp (time_Unix (shd (stl (clock s)))) (new_blob s rs raw) raw ms s s'"
        by (rule accepted_touches [OF _ touches_mono [OF t3] bp [OF tmp(1)]]) simp
      then show ?thesis using tmp(2) r(1) Inr ss md cfg3 by (intro exI [of _ tmp]) auto
    qed
  qed
qed

end
