(* ===== verification/StoreContract.thy ===== *)
theory StoreContract
  imports StoreProps
begin

text \<open>
  The contract of \<^verbatim>\<open>Store.Save\<close>, as its callers see it.
\<close>

section \<open>The state a save starts from\<close>

text \<open>The retry of pending deletions at the start of a save only shrinks the queue.\<close>

definition settles :: "store \<Rightarrow> store \<Rightarrow> bool" where
  "settles s s0 \<longleftrightarrow>
     store_inv s0 \<and> upkeep s s0 \<and> clock s0 = clock s \<and> rands s0 = rands s \<and>
     storageFault s0 = storageFault s \<and> storedBytes s0 \<le> storedBytes s \<and>
     pending_paths (sdb s0) \<subseteq> pending_paths (sdb s) \<and>
     (\<forall>q. content_of s q = None \<longrightarrow> content_of s0 q = None)"

lemma sum_pending_mono:
  assumes "db_ok d" "db_ok d'" "set (t_pending d') \<subseteq> set (t_pending d)"
  shows "sum_pending d' \<le> sum_pending d"
proof -
  have "distinct (t_pending d)" "distinct (t_pending d')"
    using db_ok_keys(4) [OF assms(1)] db_ok_keys(4) [OF assms(2)] by (auto simp: distinct_map)
  then have "sum_pending d = sum snd (set (t_pending d))" "sum_pending d' = sum snd (set (t_pending d'))"
    by (simp_all add: sum_pending_def sum_list_distinct_conv_sum_set)
  moreover have "sum snd (set (t_pending d')) \<le> sum snd (set (t_pending d))"
    by (rule sum_mono2) (use assms(3) db_ok_pending_size [OF assms(1)] in auto)
  ultimately show ?thesis by simp
qed

lemma drain_settles:
  assumes inv: "store_inv s" and d: "drainPendingLocked s = (e, s1)"
  shows "settles s (note_cleanup_error e s1)"
proof -
  have ok: "db_ok (sdb s)" using inv by (simp add: store_inv_def)
  note dr = drainPendingLocked_drains [OF ok d]
  note up = drainPendingLocked_upkeep [OF inv d]
  note ce = cleanup_error_upkeep [OF conjunct1 [OF up], of e]
  have ok1: "db_ok (sdb s1)" and sub: "set (t_pending (sdb s1)) \<subseteq> set (t_pending (sdb s))"
    and bytes: "storedBytes s1 = storedBytes s - (sum_pending (sdb s) - sum_pending (sdb s1))"
    using dr by (auto simp: drains_def)
  have "storedBytes s1 \<le> storedBytes s"
    using bytes sum_pending_mono [OF ok ok1 sub] by simp
  moreover have "content_of s1 q = None" if "content_of s q = None" for q
    using drains_content [OF dr, of q] that by auto
  moreover have "pending_paths (sdb s1) \<subseteq> pending_paths (sdb s)"
    using sub by (auto simp: pending_paths_def)
  moreover have "upkeep s (note_cleanup_error e s1)" using up ce by (blast intro: upkeep_trans)
  ultimately show ?thesis
    using ce dr by (auto simp: settles_def note_cleanup_error_def drains_def)
qed

lemma settles_faults: "settles s t \<Longrightarrow> settles s (t\<lparr>faults := f\<rparr>)"
  by (auto simp: settles_def store_inv_def files_ok_def accounted_def upkeep_def uncovered_def)

lemma settles_fresh:
  assumes "settles s t" "fresh_blob s"
  shows "fresh_blob t" "next_id t = next_id s" "msgDir t = msgDir s" "cfg t = cfg s" "mlib t = mlib s"
proof -
  show *: "next_id t = next_id s" "msgDir t = msgDir s" "cfg t = cfg s" "mlib t = mlib s"
    using assms(1) fixed_fields [of t s] by (auto simp: settles_def next_id_def upkeep_def)
  show "fresh_blob t"
    using assms(1,2) unfolding settles_def fresh_blob_def Let_def * by blast
qed

section \<open>The contract\<close>

definition saved ::
    "string list \<Rightarrow> string \<Rightarrow> string \<Rightarrow> message list \<Rightarrow> store \<Rightarrow> store \<Rightarrow> bool" where
  "saved recipients sender raw ms s s' \<longleftrightarrow>
     (\<exists>tmp s0. settles s s0 \<and> storedBytes s0 \<le> MaxStorageBytes (cfg s) \<and> incoming_name s tmp \<and>
        accepted tmp (time_Unix (shd (stl (clock s)))) (new_blob s (map Recipient ms) raw) raw ms s0 s') \<and>
     map Recipient ms = normalize_recipients (uni s) recipients (\<lambda>_. False) [] \<and>
     list_all (case mailDetails (mlib s) raw sender of (subject, from) \<Rightarrow>
       stamped from subject (shd (clock s)) (shd (clock s) + MessageTTL (cfg s)) (int (length raw))) ms"

definition not_saved :: "store \<Rightarrow> store \<Rightarrow> bool" where
  "not_saved s s' \<longleftrightarrow>
     store_inv s' \<and> mail_same s s' \<and>
     (\<exists>tmp. incoming_name s tmp \<and> uncovered s' \<subseteq> uncovered s \<union> {tmp, blob_path (msgDir s) (next_id s)}) \<and>
     (blob_path (msgDir s) (next_id s) \<in> uncovered s' \<longrightarrow> storageFault s' \<noteq> None)"

lemma not_saved_settles:
  assumes "settles s s0" "fresh_blob s"
  shows "not_saved s s0"
proof -
  have "content_of s0 (blob_path (msgDir s) (next_id s)) = None"
    using assms unfolding settles_def fresh_blob_def Let_def by blast
  moreover have "mail_same s s0" "uncovered s0 \<subseteq> uncovered s" "store_inv s0"
    using assms(1) upkeep_mail_same [of s s0] by (auto simp: settles_def upkeep_def)
  ultimately show ?thesis
    unfolding not_saved_def incoming_name_def by (auto simp: uncovered_def)
qed

lemma not_saved_refused:
  assumes "settles s s0" "fresh_blob s" "incoming_name s tmp"
    "refused tmp (blob_path (msgDir s) (next_id s)) s0 s'"
  shows "not_saved s s'"
proof -
  have "mail_same s s0" "uncovered s0 \<subseteq> uncovered s"
    using assms(1) upkeep_mail_same [of s s0] by (auto simp: settles_def upkeep_def)
  with assms(3,4) mail_same_trans [of s s0 s'] show ?thesis
    unfolding not_saved_def refused_def by blast
qed

lemma save_locked_spec:
  assumes inv: "store_inv s" "storageFault s = None" and fresh: "fresh_blob s" and rs: "rs \<noteq> []"
    and sv: "save_locked rs sender raw s = (r, s')"
  shows "case r of Inl e \<Rightarrow> not_saved s s'
    | Inr ms \<Rightarrow> (\<exists>tmp s0. settles s s0 \<and> storedBytes s0 \<le> MaxStorageBytes (cfg s) \<and> incoming_name s tmp \<and>
        accepted tmp (time_Unix (shd (stl (clock s)))) (new_blob s rs raw) raw ms s0 s') \<and>
        map Recipient ms = rs \<and>
        list_all (case mailDetails (mlib s) raw sender of (subject, from) \<Rightarrow>
          stamped from subject (shd (clock s)) (shd (clock s) + MessageTTL (cfg s)) (int (length raw))) ms"
proof -
  obtain e s1 where d: "drainPendingLocked s = (e, s1)" by fastforce
  define s2 where "s2 = note_cleanup_error e s1"
  have st: "settles s s2" unfolding s2_def by (rule drain_settles [OF inv(1) d])
  note fs = settles_fresh [OF st fresh]
  obtain q s3 where q: "query (\<lambda>d. Inr (sum_pending d)) s2 = (q, s3)" by fastforce
  obtain f where s3: "s3 = s2\<lparr>faults := f\<rparr>" using q by (cases rule: query_cases) auto
  have st3: "settles s s3" unfolding s3 by (rule settles_faults [OF st])
  note fs3 = settles_fresh [OF st3 fresh]
  have sv': "save_locked rs sender raw s =
      (if storedBytes s2 > MaxStorageBytes (cfg s2) then (Inl ErrAboveLimit, s2)
       else case q of Inl e \<Rightarrow> (Inl e, s3)
         | Inr pendingBytes \<Rightarrow>
             if pendingBytes + int (length raw) > MaxStorageBytes (cfg s3) then (Inl ErrPendingExhausted, s3)
             else save_file rs sender raw s3)"
    unfolding save_locked_def d prod.case Let_def s2_def [symmetric] q by (simp split: sum.split)
  show ?thesis
  proof (cases "\<exists>n. storedBytes s2 \<le> MaxStorageBytes (cfg s2) \<and> q = Inr n \<and>
      n + int (length raw) \<le> MaxStorageBytes (cfg s3)")
    case False
    then have "\<exists>e. r = Inl e \<and> (s' = s2 \<or> s' = s3)"
      using sv unfolding sv' by (auto split: sum.splits if_splits)
    then show ?thesis using not_saved_settles [OF st fresh] not_saved_settles [OF st3 fresh] by auto
  next
    case True
    then have cap: "storedBytes s3 \<le> MaxStorageBytes (cfg s)" using fs s3 by auto
    from True have "save_file rs sender raw s3 = (r, s')" using sv unfolding sv' by auto
    moreover have "store_inv s3" "storageFault s3 = None" using st3 inv(2) by (auto simp: settles_def)
    ultimately obtain tmp where tmp: "incoming_name s3 tmp" and r: "case r of
      Inl e \<Rightarrow> refused tmp (blob_path (msgDir s3) (next_id s3)) s3 s'
    | Inr ms \<Rightarrow> accepted tmp (time_Unix (shd (stl (clock s3)))) (new_blob s3 rs raw) raw ms s3 s' \<and>
        map Recipient ms = rs \<and>
        list_all (case mailDetails (mlib s3) raw sender of (subject, from) \<Rightarrow>
          stamped from subject (shd (clock s3)) (shd (clock s3) + MessageTTL (cfg s3)) (int (length raw))) ms"
      using save_file_spec [OF _ _ fs3(1) rs] by blast
    have tmp': "incoming_name s tmp" using tmp fs3 by (simp add: incoming_name_def)
    have same: "new_blob s3 rs raw = new_blob s rs raw" "clock s3 = clock s"
      using fs3 st3 by (simp_all add: new_blob_def settles_def)
    show ?thesis
    proof (cases r)
      case (Inl e)
      with r not_saved_refused [OF st3 fresh tmp'] fs3 show ?thesis by simp
    next
      case (Inr ms)
      with r fs3 st3 tmp' cap same show ?thesis by auto
    qed
  qed
qed

theorem Save_contract:
  assumes inv: "store_inv s" and fresh: "fresh_blob s"
    and sv: "Save recipients sender raw s = (r, s')"
  shows "case r of Inl e \<Rightarrow> not_saved s s' | Inr ms \<Rightarrow> saved recipients sender raw ms s s'"
proof -
  let ?rs = "normalize_recipients (uni s) recipients (\<lambda>_. False) []"
  have "settles s s" using inv by (simp add: settles_def)
  note same = not_saved_settles [OF this fresh]
  show ?thesis
  proof (cases "storageFault s = None \<and> ?rs \<noteq> [] \<and> int (length raw) \<le> MaxMessageBytes (cfg s)
      \<and> int (length raw) \<le> MaxStorageBytes (cfg s)")
    case False
    then have "\<exists>e. r = Inl e \<and> s' = s"
      using sv by (auto simp: Save_def Let_def split: if_splits option.splits)
    then show ?thesis using same by auto
  next
    case True
    then have "save_locked ?rs sender raw s = (r, s')" using sv by (simp add: Save_def Let_def)
    from save_locked_spec [OF inv _ fresh _ this] True show ?thesis
      by (auto simp: saved_def split: sum.splits)
  qed
qed

end
