(* ===== verification/StoreQuiet.thy ===== *)
theory StoreQuiet
  imports StoreContract
begin

text \<open>
  The store when nothing outside fails: every operation then returns its result, which is what the
  theorems on liveness rest on.
\<close>

definition quiet :: "store \<Rightarrow> bool" where
  "quiet s \<longleftrightarrow> faults s = sconst None"

lemma quiet_update [simp]:
  "quiet (s\<lparr>sdb := d\<rparr>) = quiet s" "quiet (s\<lparr>clock := c\<rparr>) = quiet s" "quiet (s\<lparr>rands := r\<rparr>) = quiet s"
  "quiet (s\<lparr>storedBytes := n\<rparr>) = quiet s" "quiet (s\<lparr>storedMessages := n\<rparr>) = quiet s"
  "quiet (s\<lparr>pendingCursor := p\<rparr>) = quiet s" "quiet (s\<lparr>lastCleanup := l\<rparr>) = quiet s"
  "quiet (s\<lparr>cleanupErrorCount := k\<rparr>) = quiet s" "quiet (s\<lparr>disk := x\<rparr>) = quiet s"
  by (simp_all add: quiet_def)

lemma quiet_disk [simp]: "quiet (disk_put p c s) = quiet s" "quiet (disk_del p s) = quiet s"
  by (simp_all add: disk_put_def disk_del_def)

lemma ext_quiet [simp]: "quiet s \<Longrightarrow> ext s = (None, s)"
  by (cases s) (simp add: ext_def quiet_def)

lemma exec_quiet [simp]:
  "quiet s \<Longrightarrow> exec stmt s = (case stmt (sdb s) of Inl e \<Rightarrow> (Some e, s) | Inr d \<Rightarrow> (None, s\<lparr>sdb := d\<rparr>))"
  by (simp add: exec_def)

lemma query_quiet [simp]: "quiet s \<Longrightarrow> query q s = (q (sdb s), s)"
  by (simp add: query_def)

lemma query_rows_quiet [simp]: "quiet s \<Longrightarrow> query_rows q s = (q (sdb s), s)"
  by (simp add: query_rows_def split: sum.split)

lemma syncDirectory_quiet [simp]: "quiet s \<Longrightarrow> syncDirectory s = (None, s)"
  by (simp add: syncDirectory_def)

lemma inTx_quiet:
  assumes "quiet s" "f s = (Inr x, s')" "quiet s'"
  shows "inTx f s = (Inr x, s')"
  using assms by (simp add: inTx_def)

lemma removeFile_quiet:
  assumes "quiet s" "removeFile p s = (r, s')"
  shows "\<not> remove_failed r" "quiet s'"
  using assms by (auto simp: removeFile_def remove_failed_def split: option.splits)

lemma unlink_all_quiet:
  "quiet s \<Longrightarrow> unlink_all rows s = ((removed, reclaimed, e), s') \<Longrightarrow>
   removed = map fst rows \<and> e = None \<and> quiet s'"
proof (induction rows arbitrary: s removed reclaimed e s')
  case Nil
  then show ?case by simp
next
  case (Cons row rows)
  obtain p n where row: "row = (p, n)" by (cases row)
  obtain r s1 where r: "removeFile p s = (r, s1)" by fastforce
  obtain rem rec e2 s2 where u: "unlink_all rows s1 = ((rem, rec, e2), s2)"
    by (cases "unlink_all rows s1") auto
  note rq = removeFile_quiet [OF Cons.prems(1) r]
  show ?case using Cons.IH [OF rq(2) u] Cons.prems(2) rq row r u by simp
qed

lemma delete_pending_all_quiet:
  "quiet s \<Longrightarrow> delete_pending_all ps s =
   (Inr (), s\<lparr>sdb := (sdb s)\<lparr>t_pending := filter (\<lambda>x. fst x \<notin> set ps) (t_pending (sdb s))\<rparr>\<rparr>)"
  by (induction ps arbitrary: s) (auto simp: sql_delete_pending_def conj_commute)

lemma drainPendingBatchLocked_quiet:
  fixes cursor :: string
  assumes "quiet s"
  defines "rows \<equiv> take cleanupBatchSize (sort_key fst (filter (\<lambda>r. cursor < fst r) (t_pending (sdb s))))"
  shows "\<exists>s'. drainPendingBatchLocked cursor s = ((last_path rows, length rows, None), s') \<and> quiet s' \<and>
    t_pending (sdb s') = filter (\<lambda>x. fst x \<notin> fst ` set rows) (t_pending (sdb s))"
proof -
  obtain removed reclaimed e s2 where u: "unlink_all rows s = ((removed, reclaimed, e), s2)"
    by (cases "unlink_all rows s") auto
  note uq = unlink_all_quiet [OF assms(1) u]
  have db2: "sdb s2 = sdb s" using unlink_all_spec [OF u] but_disk_fields(1) by blast
  have q: "query_rows (sql_pending_batch cursor cleanupBatchSize) s = (Inr rows, s)"
    using assms(1) by (simp add: sql_pending_batch_def rows_def)
  let ?d = "(sdb s)\<lparr>t_pending := filter (\<lambda>x. fst x \<notin> set (map fst rows)) (t_pending (sdb s))\<rparr>"
  have tx: "inTx (delete_pending_all (map fst rows)) s2 = (Inr (), s2\<lparr>sdb := ?d\<rparr>)"
    by (rule inTx_quiet) (use uq db2 in \<open>simp_all add: delete_pending_all_quiet\<close>)
  show ?thesis
  proof (cases "rows = []")
    case True
    then have "drainPendingBatchLocked cursor s =
        ((last_path rows, length rows, None), s\<lparr>storedBytes := storedBytes s\<rparr>)"
      using q by (simp add: drainPendingBatchLocked_def)
    with True assms(1) show ?thesis by simp
  next
    case False
    then have "drainPendingBatchLocked cursor s = ((last_path rows, length rows, None),
        s2\<lparr>sdb := ?d, storedBytes := storedBytes s2 - reclaimed\<rparr>)"
      using uq u q tx by (simp add: drainPendingBatchLocked_def)
    then show ?thesis using uq by auto
  qed
qed

lemma drainPendingLocked_quiet:
  assumes "quiet s"
  obtains s' where "drainPendingLocked s = (None, s')" "quiet s'"
  using drainPendingBatchLocked_quiet [OF assms, of "pendingCursor s"] that
  by (auto simp: drainPendingLocked_def Let_def split: if_splits)

lemma deleteMessageTx_quiet:
  assumes "quiet s" "db_ok (sdb s)" "m \<in> set (t_messages (sdb s))"
  obtains n p d' where "deleteMessageTx (m_id m) (m_blob m) s = (Inr (n, p), s\<lparr>sdb := d'\<rparr>)"
    "drop_ref (m_id m) (m_blob m) (sdb s) = Inr (n, p, d')" "drop_ref_post (sdb s) n d'"
proof -
  obtain n p d' where d: "drop_ref (m_id m) (m_blob m) (sdb s) = Inr (n, p, d')" "drop_ref_post (sdb s) n d'"
    by (rule drop_ref_ok [OF assms(2,3)])
  then have "deleteMessageTx (m_id m) (m_blob m) s = (Inr (n, p), s\<lparr>sdb := d'\<rparr>)"
    using assms(1)
    by (auto simp: drop_ref_def deleteMessageTx_def Let_def sql_defs pending_paths_def
        split: option.splits if_splits)
  with d that show ?thesis by blast
qed

end
