(* ===== verification/StoreExample.thy ===== *)
theory StoreExample
  imports StoreContract
begin

text \<open>
  Concrete stores for the instances of the theorems: an empty one, and one that already holds a
  message of sixteen bytes, both with a storage cap of twenty bytes. A delivery of five bytes to
  the empty one is accepted as it is; a delivery to the full one evicts the old message.
\<close>

definition example_lib :: maillib where
  "example_lib = \<lparr>ReadMessage = (\<lambda>_. None), DecodeHeader = Some\<rparr>"

definition empty_store :: store where
  "empty_store = \<lparr>faults = sconst None, clock = sconst 0, rands = sconst [CHR 0x0A],
     uni = plain_unicode, mlib = example_lib, cfg = example_config, msgDir = ''/d'', sdb = empty_db,
     disk = [], subdirs = [], storedBytes = 0, storedMessages = 0, storageFault = None,
     pendingCursor = [], cleanupErrorCount = 0, lastCleanup = None\<rparr>"

definition old_row :: msg_row where
  "old_row = \<lparr>m_id = ''m'', m_recipient = ''b@t.io'', m_sender = ''y'', m_subject = ''s'',
     m_received = 0, m_expires = 3600, m_size = 16, m_blob = ''o''\<rparr>"

definition full_store :: store where
  "full_store = empty_store\<lparr>
     sdb := \<lparr>t_blobs = [\<lparr>b_id = ''o'', b_path = ''/d/o.eml'', b_size = 16, b_refs = 1\<rparr>],
            t_messages = [old_row], t_pending = []\<rparr>,
     disk := [(''/d/o.eml'', ''0123456789abcdef'')], storedBytes := 16, storedMessages := 1\<rparr>"

text \<open>A store whose disk and database fail on every call.\<close>

definition failing_store :: store where
  "failing_store = full_store\<lparr>faults := sconst (Some 3)\<rparr>"

lemmas io_defs = ext_def now_def rand_read_def exec_def query_def query_rows_def inTx_def syncDirectory_def
  removeFile_def remove_failed_def os_Stat_def os_Rename_def file_write_def write_temp_def
  disk_put_def disk_del_def content_of_def

lemma example_names:
  "normalizeRecipient plain_unicode ''A@t.io'' = ''A@t.io''" "digit (Suc 0) = CHR ''1''" "digit 0 = CHR ''0''"
  "hex_byte (CHR 0x0A) = ''0a''" "blob_path ''/d'' ''0a'' = ''/d/0a.eml''"
  by code_simp+

lemma temp_name_ex: "os_join ''/d'' (''.incoming-'' @ nextRandom [CHR 0x0A]) = ''/d/.incoming-10''"
  by (simp add: nextRandom_def os_join_def HasSuffix_def nat_dec.simps example_names)

lemma example_stores_ok:
  "store_inv empty_store" "store_inv full_store" "store_inv failing_store"
  "fresh_blob empty_store" "fresh_blob full_store" "fresh_blob failing_store"
  by (simp_all add: store_inv_def db_ok_def files_ok_def accounted_def fresh_blob_def next_id_def
      example_names empty_store_def full_store_def failing_store_def empty_db_def content_of_def
      sum_blobs_def sum_pending_def blob_paths_def pending_paths_def refs_of_def old_row_def)

lemma drain_empty_queue:
  assumes "faults s = sconst None" "t_pending (sdb s) = []"
  shows "drainPendingLocked s = (None, s\<lparr>pendingCursor := []\<rparr>)"
  using assms
  by (simp add: drainPendingLocked_def drainPendingBatchLocked_def query_rows_def query_def ext_def
    sql_pending_batch_def last_path_def cleanupBatchSize_def)

lemma create_temp_ex:
  assumes "faults s = sconst None" "rands s = sconst [CHR 0x0A]" "content_of s ''/d/.incoming-10'' = None"
  shows "os_CreateTemp ''/d'' ''.incoming-'' s = (Inr ''/d/.incoming-10'', disk_put ''/d/.incoming-10'' [] s)"
proof -
  have "(10000::nat) = Suc 9999" by simp
  then have "os_CreateTemp ''/d'' ''.incoming-'' s = create_temp_try (Suc 9999) ''/d'' ''.incoming-'' s"
    unfolding os_CreateTemp_def by (rule arg_cong)
  also have "\<dots> = (Inr ''/d/.incoming-10'', disk_put ''/d/.incoming-10'' [] s)"
    unfolding create_temp_try.simps rand_read_def ext_def Let_def prod.case
    using assms temp_name_ex by (simp add: content_of_def disk_put_def)
  finally show ?thesis .
qed

definition example_message :: message where
  "example_message = \<lparr>ID = ''0a'', Recipient = ''A@t.io'', From = ''x'', Subject = ''(no subject)'',
     Received = 0, ExpiresAt = 3600000000000, Size = 5, Body = []\<rparr>"

lemmas save_eval = Save_def save_locked_def save_file_def save_staged_def save_commit_def save_tx_def
  note_cleanup_error_def newID_def mailDetails_def example_lib_def example_config_def
  sql_insert_blob_def sql_insert_message_def evictTx_def evict_loop.simps no_stats_def
  discard_temp_def

lemma Save_empty_ex:
  "\<exists>s'. Save [''A@t.io''] ''x'' ''hello'' empty_store = (Inr [example_message], s') \<and>
     faults s' = sconst None \<and> clock s' = sconst 0"
  by (simp add: save_eval io_defs Let_def empty_store_def empty_db_def drain_empty_queue
      sum_pending_def create_temp_ex example_names example_message_def)

lemma drop_old_ex:
  assumes "faults s = sconst None" "sdb s = d"
    "t_blobs d = [\<lparr>b_id = ''o'', b_path = ''/d/o.eml'', b_size = 16, b_refs = 1\<rparr>, b]" "b_id b \<noteq> ''o''"
    "t_messages d = [old_row, m]" "m_id m \<noteq> ''m''" "t_pending d = []"
  shows "deleteMessageTx ''m'' ''o'' s = (Inr (16, ''/d/o.eml''),
    s\<lparr>sdb := d\<lparr>t_blobs := [b], t_messages := [m], t_pending := [(''/d/o.eml'', 16)]\<rparr>\<rparr>)"
  using assms by (simp add: deleteMessageTx_def exec_def query_def ext_def sql_defs old_row_def)

lemma Save_full_ex:
  "\<exists>s'. Save [''A@t.io''] ''x'' ''hello'' full_store = (Inr [example_message], s') \<and>
     map m_id (t_messages (sdb s')) = [''0a'']"
  by (simp add: save_eval io_defs Let_def full_store_def empty_store_def drain_empty_queue
      sum_pending_def create_temp_ex example_names example_message_def
      evict_pick_def sql_oldest_expired_def sql_oldest_def old_row_def time_Unix_def
      deleteMessageTx_def sql_defs count_removed_def
      drainPendingLocked_def drainPendingBatchLocked_def sql_pending_batch_def cleanupBatchSize_def last_path_def)

lemma Save_failing_ex:
  "\<exists>s'. Save [''A@t.io''] ''x'' ''hello'' failing_store = (Inl (ErrExternal 3), s')"
  by (simp add: save_eval io_defs Let_def failing_store_def full_store_def empty_store_def
      drainPendingLocked_def drainPendingBatchLocked_def cleanupBatchSize_def sum_pending_def example_names)

end
