(* ===== verification/StoreCleanup.thy ===== *)
theory StoreCleanup
  imports StoreQuiet StoreExample
begin

text \<open>
  Expiry: \<^verbatim>\<open>Cleanup\<close> deletes expired messages in batches of 256, one transaction each,
  and releases the writer lock in between. The loop ends because every full batch deletes messages.
  A run that returns no error has removed the expired messages and nothing else.
\<close>

section \<open>One batch\<close>

lemma delete_all_messages:
  "delete_all rows st s = (Inr st', s') \<Longrightarrow>
   t_messages (sdb s') = filter (\<lambda>m. m_id m \<notin> fst ` set rows) (t_messages (sdb s)) \<and>
   Expired st' = Expired st + length rows"
proof (induction rows st s rule: delete_all.induct)
  case (1 st s)
  then show ?case by simp
next
  case (2 i b rs st s)
  then obtain n p s1 where d: "deleteMessageTx i b s = (Inr (n, p), s1)"
    and rec: "delete_all rs (count_removed True n st) s1 = (Inr st', s')"
    by (auto split: prod.splits sum.splits)
  note IH = "2.IH" [OF d [symmetric] refl refl rec]
  show ?case
    using IH drop_ref_messages [OF deleteMessageTx_ok [OF d]]
    by (auto simp: filter_filter count_removed_def intro: filter_cong)
qed

lemma delete_all_frame: "delete_all rows st s = (r, s') \<Longrightarrow> but_db s' = but_db s"
proof (induction rows st s rule: delete_all.induct)
  case (1 st s)
  then show ?case by simp
next
  case (2 i b rs st s)
  then show ?case by (auto split: prod.splits sum.splits dest!: deleteMessageTx_frame)
qed

lemma drop_ref_post_trans:
  "drop_ref_post d n d1 \<Longrightarrow> drop_ref_post d1 k d2 \<Longrightarrow> drop_ref_post d (n + k) d2"
  by (auto simp: drop_ref_post_def)

lemma drop_ref_post_refl: "db_ok d \<Longrightarrow> drop_ref_post d 0 d"
  by (simp add: drop_ref_post_def)

definition stored_rows :: "(string \<times> string) list \<Rightarrow> db \<Rightarrow> bool" where
  "stored_rows rows d \<longleftrightarrow> distinct (map fst rows) \<and>
     (\<forall>(i, b) \<in> set rows. \<exists>m \<in> set (t_messages d). m_id m = i \<and> m_blob m = b)"

lemma stored_rows_Cons:
  assumes "stored_rows ((i, b) # rs) d" "drop_ref i b d = Inr (n, p, d')"
  shows "stored_rows rs d'"
proof -
  have "\<exists>m \<in> set (t_messages d'). m_id m = j \<and> m_blob m = c" if jc: "(j, c) \<in> set rs" for j c
  proof -
    have "j \<noteq> i" using assms(1) jc by (force simp: stored_rows_def)
    moreover obtain m where "m \<in> set (t_messages d)" "m_id m = j" "m_blob m = c"
      using assms(1) jc by (auto simp: stored_rows_def)
    ultimately show ?thesis using drop_ref_messages [OF assms(2)] by auto
  qed
  with assms(1) show ?thesis by (auto simp: stored_rows_def)
qed

lemma delete_all_post:
  "delete_all rows st s = (Inr st', s') \<Longrightarrow> db_ok (sdb s) \<Longrightarrow> stored_rows rows (sdb s) \<Longrightarrow>
   \<exists>n. drop_ref_post (sdb s) n (sdb s')"
proof (induction rows st s rule: delete_all.induct)
  case (1 st s)
  then show ?case using drop_ref_post_refl by auto
next
  case (2 i b rs st s)
  then obtain n p s1 where d: "deleteMessageTx i b s = (Inr (n, p), s1)"
    and rec: "delete_all rs (count_removed True n st) s1 = (Inr st', s')"
    by (auto split: prod.splits sum.splits)
  note dr = deleteMessageTx_ok [OF d]
  obtain m where m: "m \<in> set (t_messages (sdb s))" "m_id m = i" "m_blob m = b"
    using "2.prems"(3) by (auto simp: stored_rows_def)
  have post: "drop_ref_post (sdb s) n (sdb s1)"
    using drop_ref_ok [OF "2.prems"(2) m(1)] m dr by auto
  then have "db_ok (sdb s1)" by (simp add: drop_ref_post_def)
  from "2.IH" [OF d [symmetric] refl refl rec this stored_rows_Cons [OF "2.prems"(3) dr]]
  show ?case using drop_ref_post_trans [OF post] by blast
qed

lemma expired_batch_stored:
  assumes "db_ok d" "sql_expired_batch before n d = Inr rows"
  shows "stored_rows rows d" "\<forall>m \<in> set (t_messages d). m_id m \<in> fst ` set rows \<longrightarrow> m_expires m \<le> before"
    "length rows = min n (length (filter (\<lambda>m. m_expires m \<le> before) (t_messages d)))"
proof -
  let ?xs = "filter (\<lambda>m. m_expires m \<le> before) (t_messages d)"
  let ?ys = "take n (sort_key m_expires ?xs)"
  have rows: "rows = map (\<lambda>m. (m_id m, m_blob m)) ?ys" using assms(2) by (simp add: sql_expired_batch_def)
  have sub: "set ?ys \<subseteq> set ?xs" using set_take_subset [of n "sort_key m_expires ?xs"] by simp
  have ids: "distinct (map m_id (t_messages d))" by (rule db_ok_keys(1) [OF assms(1)])
  then have "inj_on m_id (set ?ys)" "distinct ?xs"
    using sub by (auto simp: distinct_map intro: inj_on_subset)
  then have "distinct (map m_id ?ys)" by (simp add: distinct_map)
  then show "stored_rows rows d" using sub by (auto simp: stored_rows_def rows comp_def)
  show "\<forall>m \<in> set (t_messages d). m_id m \<in> fst ` set rows \<longrightarrow> m_expires m \<le> before"
  proof (intro ballI impI)
    fix m assume m: "m \<in> set (t_messages d)" "m_id m \<in> fst ` set rows"
    then obtain k where k: "k \<in> set ?ys" "m_id k = m_id m" by (auto simp: rows)
    then have "k \<in> set ?xs" using sub by blast
    with k distinct_key_unique [OF ids, of k m] m show "m_expires m \<le> before" by auto
  qed
  show "length rows = min n (length ?xs)" by (simp add: rows)
qed

lemma drainPendingBatchLocked_messages:
  assumes "drainPendingBatchLocked cursor s = (r, s')"
  shows "t_messages (sdb s') = t_messages (sdb s) \<and> t_blobs (sdb s') = t_blobs (sdb s)"
proof -
  obtain r1 s1 where q: "query_rows (sql_pending_batch cursor cleanupBatchSize) s = (r1, s1)" by fastforce
  obtain f where s1: "s1 = s\<lparr>faults := f\<rparr>" using q by (cases rule: query_rows_cases) auto
  show ?thesis
  proof (cases r1)
    case (Inl e)
    with assms q s1 show ?thesis by (auto simp: drainPendingBatchLocked_def)
  next
    case (Inr rows)
    obtain removed reclaimed fe s2 where u: "unlink_all rows s1 = ((removed, reclaimed, fe), s2)"
      by (cases "unlink_all rows s1") auto
    have s2: "sdb s2 = sdb s" using unlink_all_spec [OF u] but_disk_fields(1) [of s2 s1] s1 by auto
    have tx: "t_messages (sdb s4) = t_messages (sdb s3) \<and> t_blobs (sdb s4) = t_blobs (sdb s3)"
      if "inTx (delete_pending_all removed) s3 = (x, s4)" for x s3 s4
      using that by (cases rule: inTx_cases) (auto dest!: delete_pending_all_spec)
    have sy: "sdb s3 = sdb s2" if "syncDirectory s2 = (x, s3)" for x s3
      using syncDirectory_touches(1) [OF that] by (simp add: touches_def)
    show ?thesis
      using assms q Inr u s2
      by (auto simp: drainPendingBatchLocked_def split: if_splits prod.splits option.splits sum.splits
          dest!: tx sy)
  qed
qed

lemma drainPendingLocked_messages:
  assumes "drainPendingLocked s = (r, s')"
  shows "t_messages (sdb s') = t_messages (sdb s)"
  using assms
  by (auto simp: drainPendingLocked_def Let_def split: prod.splits if_splits
      dest!: drainPendingBatchLocked_messages)

section \<open>The loop\<close>

lemma cleanup_batch_committed:
  assumes "inTx (cleanup_tx before) s = (Inr st, s')"
  obtains f g rows s2 where "sql_expired_batch before cleanupBatchSize (sdb s) = Inr rows"
    "delete_all rows no_stats (s\<lparr>faults := f\<rparr>) = (Inr st, s2)" "s' = s2\<lparr>faults := g\<rparr>"
  using assms
proof (cases rule: inTx_cases)
  case (committed g x s2 h)
  then have c: "cleanup_tx before (s\<lparr>faults := g\<rparr>) = (Inr st, s2)" by simp
  then obtain rows s3 where q: "query_rows (sql_expired_batch before cleanupBatchSize) (s\<lparr>faults := g\<rparr>) = (Inr rows, s3)"
    and d: "delete_all rows no_stats s3 = (Inr st, s2)"
    by (auto simp: cleanup_tx_def split: prod.splits sum.splits)
  from q obtain f where "s3 = s\<lparr>faults := f\<rparr>" "sql_expired_batch before cleanupBatchSize (sdb s) = Inr rows"
    by (cases rule: query_rows_cases) auto
  with d committed(3) that show ?thesis by blast
qed auto

lemma cleanup_iteration_smaller:
  assumes "cleanup_iteration before s = ((True, e), s')"
  shows "length (t_messages (sdb s')) < length (t_messages (sdb s))"
proof -
  obtain st err s1 where b: "cleanupBatchLocked before s = ((st, err), s1)"
    by (cases "cleanupBatchLocked before s") auto
  with assms have full: "err = None" "\<not> Expired st < cleanupBatchSize" "sdb s' = sdb s1"
    by (auto simp: cleanup_iteration_def now_def Let_def split: option.splits)
  obtain s2 where tx: "inTx (cleanup_tx before) s = (Inr st, s2)"
    and dr: "drainPendingLocked (s2\<lparr>storedMessages := storedMessages s2 - int (Expired st)\<rparr>) = (None, s1)"
    using b full(1) by (auto simp: cleanupBatchLocked_def split: prod.splits sum.splits)
  obtain f g rows s3 where rows: "sql_expired_batch before cleanupBatchSize (sdb s) = Inr rows"
    "delete_all rows no_stats (s\<lparr>faults := f\<rparr>) = (Inr st, s3)" "s2 = s3\<lparr>faults := g\<rparr>"
    by (rule cleanup_batch_committed [OF tx])
  note del = delete_all_messages [OF rows(2)]
  have "length rows \<noteq> 0" using del full(2) by (auto simp: no_stats_def cleanupBatchSize_def)
  then obtain i bl rs where r: "rows = (i, bl) # rs" by (cases rows) auto
  have "(i, bl) \<in> (\<lambda>m. (m_id m, m_blob m)) ` set (t_messages (sdb s))"
    using rows(1) r set_take_subset [of cleanupBatchSize
        "sort_key m_expires (filter (\<lambda>m. m_expires m \<le> before) (t_messages (sdb s)))"]
    by (auto simp: sql_expired_batch_def dest: arg_cong [of _ _ set])
  then obtain m where "m \<in> set (t_messages (sdb s))" "m_id m \<in> fst ` set rows" using r by auto
  then have "length (filter (\<lambda>m. m_id m \<notin> fst ` set rows) (t_messages (sdb s))) < length (t_messages (sdb s))"
    by (intro length_filter_less) auto
  then show ?thesis
    using del drainPendingLocked_messages [OF dr] rows(3) full(3) by simp
qed

function cleanup_loop :: "int \<Rightarrow> store \<Rightarrow> goerr option \<times> store" where
  "cleanup_loop before s =
     (case cleanup_iteration before s of
        ((again, err), s1) \<Rightarrow> if again then cleanup_loop before s1 else (err, s1))"
  by pat_completeness auto
termination
  by (relation "measure (\<lambda>(_, s). length (t_messages (sdb s)))")
    (auto intro: cleanup_iteration_smaller [OF sym])

declare cleanup_loop.simps [simp del]

definition Cleanup :: "store \<Rightarrow> goerr option \<times> store" where
  "Cleanup s = (case now s of (t, s1) \<Rightarrow> cleanup_loop (time_Unix t) s1)"

text \<open>The locked variants used where the caller already holds the writer lock.\<close>

definition add_stats :: "cleanupStats \<Rightarrow> cleanupStats \<Rightarrow> cleanupStats" where
  "add_stats a b = \<lparr>Expired = Expired a + Expired b, ExpiredBytes = ExpiredBytes a + ExpiredBytes b,
     Evicted = Evicted a + Evicted b, EvictedBytes = EvictedBytes a + EvictedBytes b\<rparr>"

lemma cleanupBatchLocked_smaller:
  assumes "cleanupBatchLocked before s = ((st, None), s')" "\<not> Expired st < cleanupBatchSize"
  shows "length (t_messages (sdb s')) < length (t_messages (sdb s))"
proof -
  have "\<exists>s''. cleanup_iteration before s = ((True, None), s'') \<and> sdb s'' = sdb s'"
    using assms by (simp add: cleanup_iteration_def now_def)
  then show ?thesis using cleanup_iteration_smaller by force
qed

function cleanupLocked :: "int \<Rightarrow> cleanupStats \<Rightarrow> store \<Rightarrow> (cleanupStats \<times> goerr option) \<times> store" where
  "cleanupLocked before stats s =
     (case cleanupBatchLocked before s of
        ((batch, err), s1) \<Rightarrow>
          (let stats' = stats\<lparr>Expired := Expired stats + Expired batch,
                             ExpiredBytes := ExpiredBytes stats + ExpiredBytes batch\<rparr> in
           case err of
             Some e \<Rightarrow> ((stats', Some e), s1)
           | None \<Rightarrow> if Expired batch < cleanupBatchSize then ((stats', None), s1)
                    else cleanupLocked before stats' s1))"
  by pat_completeness auto
termination
  by (relation "measure (\<lambda>(_, _, s). length (t_messages (sdb s)))")
    (auto intro: cleanupBatchLocked_smaller [OF sym])

declare cleanupLocked.simps [simp del]

definition enforceLimitLocked :: "string \<Rightarrow> store \<Rightarrow> (cleanupStats \<times> goerr option) \<times> store" where
  "enforceLimitLocked protectedBlobID s =
     (case now s of
        (t, s1) \<Rightarrow>
          (case cleanupLocked (time_Unix t) no_stats s1 of
             ((stats, Some e), s2) \<Rightarrow> ((stats, Some e), s2)
           | ((stats, None), s2) \<Rightarrow>
               (case inTx (evictTx protectedBlobID 0) s2 of
                  (Inl e, s3) \<Rightarrow> ((stats, Some e), s3)
                | (Inr evicted, s3) \<Rightarrow>
                    (case drainPendingLocked (s3\<lparr>storedMessages :=
                             storedMessages s3 - int (Evicted evicted + Expired evicted)\<rparr>) of
                       (err, s4) \<Rightarrow> ((add_stats stats evicted, err), s4)))))"

section \<open>What a cleanup may change\<close>

definition sweeps :: "int \<Rightarrow> store \<Rightarrow> store \<Rightarrow> bool" where
  "sweeps before s s' \<longleftrightarrow>
     store_inv s' \<and> fixed s' = fixed s \<and>
     set (t_messages (sdb s')) \<subseteq> set (t_messages (sdb s)) \<and>
     (\<forall>m \<in> set (t_messages (sdb s)). before < m_expires m \<longrightarrow> m \<in> set (t_messages (sdb s'))) \<and>
     blob_paths (sdb s') \<subseteq> blob_paths (sdb s) \<and> blob_keys (sdb s') \<subseteq> blob_keys (sdb s) \<and>
     (\<forall>q \<in> blob_paths (sdb s'). content_of s' q = content_of s q) \<and>
     uncovered s' \<subseteq> uncovered s"

lemma sweeps_refl: "store_inv s \<Longrightarrow> sweeps before s s"
  by (simp add: sweeps_def)

lemma sweeps_trans: "sweeps before s t \<Longrightarrow> sweeps before t u \<Longrightarrow> sweeps before s u"
  unfolding sweeps_def by (intro conjI ballI impI) (auto dest: subsetD)

lemma upkeep_sweeps: "store_inv s' \<Longrightarrow> upkeep s s' \<Longrightarrow> sweeps before s s'"
  by (simp add: sweeps_def upkeep_def blob_paths_def blob_keys_def)

lemma drop_ref_post_keys: "drop_ref_post d n d' \<Longrightarrow> blob_keys d' \<subseteq> blob_keys d"
  by (simp add: drop_ref_post_def)

lemma drop_ref_post_paths: "drop_ref_post d n d' \<Longrightarrow> blob_paths d' \<subseteq> blob_paths d"
  by (simp add: drop_ref_post_def blob_paths_keys image_mono)

lemma stored_rows_length:
  assumes ok: "db_ok d" and rows: "stored_rows rows d"
  shows "length (filter (\<lambda>m. m_id m \<in> fst ` set rows) (t_messages d)) = length rows"
proof -
  have "distinct (t_messages d)" "inj_on m_id (set (t_messages d))"
    using db_ok_keys(1) [OF ok] by (auto simp: distinct_map)
  then have "length (filter (\<lambda>m. m_id m \<in> fst ` set rows) (t_messages d))
      = card (m_id ` {m \<in> set (t_messages d). m_id m \<in> fst ` set rows})"
    by (subst card_image) (auto simp: distinct_card [symmetric] intro: inj_on_subset)
  also have "m_id ` {m \<in> set (t_messages d). m_id m \<in> fst ` set rows} = fst ` set rows"
    using rows by (force simp: stored_rows_def)
  also have "card (fst ` set rows) = length rows"
    using rows distinct_card [of "map fst rows"] by (simp add: stored_rows_def)
  finally show ?thesis .
qed

text \<open>The commit of a batch, before the queue is drained.\<close>

lemma cleanup_commit_sweeps:
  assumes inv: "store_inv s" and tx: "inTx (cleanup_tx before) s = (Inr st, s')"
  defines "u \<equiv> s'\<lparr>storedMessages := storedMessages s' - int (Expired st)\<rparr>"
  shows "sweeps before s u \<and>
    (Expired st < cleanupBatchSize \<longrightarrow> (\<forall>m \<in> set (t_messages (sdb u)). before < m_expires m))"
proof -
  have ok: "db_ok (sdb s)" using inv by (simp add: store_inv_def)
  obtain f g rows s2 where rows: "sql_expired_batch before cleanupBatchSize (sdb s) = Inr rows"
    "delete_all rows no_stats (s\<lparr>faults := f\<rparr>) = (Inr st, s2)" "s' = s2\<lparr>faults := g\<rparr>"
    by (rule cleanup_batch_committed [OF tx])
  note eb = expired_batch_stored [OF ok rows(1)]
  note msgs = delete_all_messages [OF rows(2)]
  note fr = but_db_fields [OF delete_all_frame [OF rows(2)]]
  obtain n where post: "drop_ref_post (sdb s) n (sdb s2)"
    using delete_all_post [OF rows(2)] ok eb(1) by auto
  have cont: "content_of u = content_of s" using fr(1) rows(3) by (simp add: u_def content_of_def fun_eq_iff)
  have db: "sdb u = sdb s2" by (simp add: u_def rows(3))
  have files: "files_ok u"
  proof -
    have "(b_id b, b_path b, b_size b) \<in> blob_keys (sdb s)" if "b \<in> set (t_blobs (sdb s2))" for b
      using that post by (force simp: drop_ref_post_def blob_keys_def)
    then show ?thesis using inv unfolding store_inv_def files_ok_def cont db by (force simp: blob_keys_def)
  qed
  note len = stored_rows_length [OF ok eb(1)]
  have "accounted u" if "storageFault u = None"
  proof -
    have "accounted s" using that inv fr rows(3) by (simp add: store_inv_def u_def)
    moreover have "length (t_messages (sdb s)) = length rows + length (t_messages (sdb s2))"
      using msgs len sum_length_filter_compl [of "\<lambda>m. m_id m \<in> fst ` set rows" "t_messages (sdb s)"] by simp
    ultimately show ?thesis
      using post fr msgs rows(3) by (simp add: accounted_def u_def drop_ref_post_def no_stats_def)
  qed
  then have inv': "store_inv u" using files post db by (simp add: store_inv_def drop_ref_post_def)
  have unc: "uncovered u \<subseteq> uncovered s"
    using post cont db by (auto simp: uncovered_def drop_ref_post_def)
  have "sweeps before s u"
    using inv' unc cont msgs eb(2) drop_ref_post_paths [OF post] drop_ref_post_keys [OF post] fr rows(3)
    by (auto simp: sweeps_def db fixed_def u_def)
  moreover have "before < m_expires m"
    if few: "Expired st < cleanupBatchSize" and m: "m \<in> set (t_messages (sdb u))" for m
  proof (rule ccontr)
    assume "\<not> before < m_expires m"
    moreover have m': "m \<in> set (t_messages (sdb s))" "m_id m \<notin> fst ` set rows" using m msgs db by auto
    ultimately have "m \<in> set (filter (\<lambda>m. m_expires m \<le> before) (t_messages (sdb s)))" by simp
    moreover have "take cleanupBatchSize (sort_key m_expires (filter (\<lambda>m. m_expires m \<le> before) (t_messages (sdb s))))
        = sort_key m_expires (filter (\<lambda>m. m_expires m \<le> before) (t_messages (sdb s)))"
      using few msgs eb(3) by (simp add: no_stats_def)
    ultimately have "m_id m \<in> fst ` set rows"
      using rows(1) by (auto simp: sql_expired_batch_def image_iff)
    with m'(2) show False by contradiction
  qed
  ultimately show ?thesis by blast
qed

lemma inTx_cleanup_failed:
  assumes "inTx (cleanup_tx before) s = (Inl e, s')"
  shows "touches {} s s'"
proof -
  have fr: "but_db t' = but_db t" if "cleanup_tx before t = (x, t')" for x t t'
    using that by (auto simp: cleanup_tx_def split: prod.splits sum.splits dest!: delete_all_frame
        elim!: query_rows_cases)
  have "but_db s' = but_db s \<and> sdb s' = sdb s"
    using assms by (cases rule: inTx_cases) (auto dest!: fr)
  then show ?thesis
    using but_db_fields [of s' s] by (simp add: touches_def fixed_def content_of_def)
qed

lemma touches_sweeps: "touches {} s s' \<Longrightarrow> store_inv s \<Longrightarrow> sweeps before s s'"
  using touches_files(1) [of "{}" s s'] touches_upkeep [of "{}" s s'] upkeep_sweeps by auto

lemma cleanupBatchLocked_sweeps:
  assumes inv: "store_inv s" and b: "cleanupBatchLocked before s = ((st, err), s')"
  shows "sweeps before s s' \<and> (err = None \<and> Expired st < cleanupBatchSize \<longrightarrow>
    (\<forall>m \<in> set (t_messages (sdb s')). before < m_expires m))"
proof -
  obtain r s1 where tx: "inTx (cleanup_tx before) s = (r, s1)" by fastforce
  show ?thesis
  proof (cases r)
    case (Inl e)
    with b tx touches_sweeps [OF inTx_cleanup_failed inv] show ?thesis
      by (auto simp: cleanupBatchLocked_def)
  next
    case (Inr x)
    let ?u = "s1\<lparr>storedMessages := storedMessages s1 - int (Expired x)\<rparr>"
    have sw: "sweeps before s ?u" using cleanup_commit_sweeps [OF inv tx [unfolded Inr]] by blast
    have dr: "drainPendingLocked ?u = (err, s')" "x = st"
      using b tx Inr by (auto simp: cleanupBatchLocked_def split: prod.splits)
    have inv': "store_inv ?u" using sw by (simp add: sweeps_def)
    have "sweeps before ?u s'"
      using drainPendingLocked_upkeep [OF inv' dr(1)] upkeep_sweeps by blast
    with sw cleanup_commit_sweeps [OF inv tx [unfolded Inr]] drainPendingLocked_messages [OF dr(1)] dr(2)
    show ?thesis by (auto intro: sweeps_trans)
  qed
qed

lemma cleanup_iteration_sweeps:
  assumes inv: "store_inv s" and i: "cleanup_iteration before s = ((again, err), s')"
  shows "sweeps before s s' \<and> (err = None \<and> \<not> again \<longrightarrow> (\<forall>m \<in> set (t_messages (sdb s')). before < m_expires m))"
proof -
  obtain st e s1 where b: "cleanupBatchLocked before s = ((st, e), s1)"
    by (cases "cleanupBatchLocked before s") auto
  note sw = cleanupBatchLocked_sweeps [OF inv b]
  have "store_inv s1" using sw by (simp add: sweeps_def)
  note inv1 = this
  obtain c l k where s': "s' = s1\<lparr>clock := c, lastCleanup := l\<rparr> \<or>
      s' = s1\<lparr>clock := c, lastCleanup := l, cleanupErrorCount := k\<rparr>"
    using i b by (auto simp: cleanup_iteration_def now_def Let_def split: option.splits)
  have "touches {} s1 s'" using s' by (auto simp: touches_def)
  then have "sweeps before s1 s'" by (rule touches_sweeps [OF _ inv1])
  moreover have "sdb s' = sdb s1" using s' by auto
  moreover have "err = e \<and> (err = None \<longrightarrow> again = (\<not> Expired st < cleanupBatchSize))"
    using i b by (auto simp: cleanup_iteration_def now_def Let_def split: option.splits)
  ultimately show ?thesis using sw by (auto intro: sweeps_trans)
qed

lemma cleanup_loop_sweeps:
  "cleanup_loop before s = (err, s') \<Longrightarrow> store_inv s \<Longrightarrow>
   sweeps before s s' \<and> (err = None \<longrightarrow> (\<forall>m \<in> set (t_messages (sdb s')). before < m_expires m))"
proof (induction before s rule: cleanup_loop.induct)
  case (1 before s)
  obtain again e s1 where i: "cleanup_iteration before s = ((again, e), s1)"
    by (cases "cleanup_iteration before s") auto
  note sw = cleanup_iteration_sweeps [OF "1.prems"(2) i]
  show ?case
  proof (cases again)
    case False
    with "1.prems"(1) i sw show ?thesis by (auto simp: cleanup_loop.simps [of before s])
  next
    case True
    then have rec: "cleanup_loop before s1 = (err, s')"
      using "1.prems"(1) i by (simp add: cleanup_loop.simps [of before s])
    have "store_inv s1" using sw by (simp add: sweeps_def)
    from "1.IH" [OF i [symmetric] refl True rec this] sw show ?thesis by (blast intro: sweeps_trans)
  qed
qed

section \<open>Without failures\<close>

lemma delete_all_quiet:
  "quiet s \<Longrightarrow> db_ok (sdb s) \<Longrightarrow> stored_rows rows (sdb s) \<Longrightarrow>
   \<exists>st' d'. delete_all rows st s = (Inr st', s\<lparr>sdb := d'\<rparr>)"
proof (induction rows st s rule: delete_all.induct)
  case (1 st s)
  have "s = s\<lparr>sdb := sdb s\<rparr>" by simp
  then show ?case by (metis delete_all.simps(1))
next
  case (2 i b rs st s)
  obtain m where m: "m \<in> set (t_messages (sdb s))" "m_id m = i" "m_blob m = b"
    using "2.prems"(3) by (auto simp: stored_rows_def)
  obtain n p d' where d: "deleteMessageTx i b s = (Inr (n, p), s\<lparr>sdb := d'\<rparr>)"
    "drop_ref i b (sdb s) = Inr (n, p, d')" "drop_ref_post (sdb s) n d'"
    using deleteMessageTx_quiet [OF "2.prems"(1,2) m(1)] m(2,3) by blast
  have "db_ok (sdb (s\<lparr>sdb := d'\<rparr>))" using d(3) by (simp add: drop_ref_post_def)
  moreover have "stored_rows rs (sdb (s\<lparr>sdb := d'\<rparr>))" using stored_rows_Cons [OF "2.prems"(3) d(2)] by simp
  ultimately show ?case
    using "2.IH" [OF d(1) [symmetric] refl refl] "2.prems"(1) d(1) by simp
qed

lemma cleanup_iteration_quiet:
  assumes "quiet s" "store_inv s"
  obtains again s' where "cleanup_iteration before s = ((again, None), s')" "quiet s'"
proof -
  have ok: "db_ok (sdb s)" using assms(2) by (simp add: store_inv_def)
  obtain rows where rows: "sql_expired_batch before cleanupBatchSize (sdb s) = Inr rows"
    by (simp add: sql_expired_batch_def)
  obtain st d' where "delete_all rows no_stats s = (Inr st, s\<lparr>sdb := d'\<rparr>)"
    using delete_all_quiet [OF assms(1) ok expired_batch_stored(1) [OF ok rows]] by blast
  then have "cleanup_tx before s = (Inr st, s\<lparr>sdb := d'\<rparr>)"
    using assms(1) rows by (simp add: cleanup_tx_def)
  then have tx: "inTx (cleanup_tx before) s = (Inr st, s\<lparr>sdb := d'\<rparr>)"
    using assms(1) by (intro inTx_quiet) simp_all
  obtain s2 where "drainPendingLocked (s\<lparr>sdb := d', storedMessages := storedMessages s - int (Expired st)\<rparr>)
      = (None, s2)" "quiet s2"
    by (rule drainPendingLocked_quiet [of "s\<lparr>sdb := d', storedMessages := storedMessages s - int (Expired st)\<rparr>"])
      (use assms(1) in simp)
  with tx that show ?thesis by (simp add: cleanup_iteration_def cleanupBatchLocked_def now_def)
qed

lemma cleanup_loop_quiet: "quiet s \<Longrightarrow> store_inv s \<Longrightarrow> fst (cleanup_loop before s) = None"
proof (induction before s rule: cleanup_loop.induct)
  case (1 before s)
  obtain again s1 where i: "cleanup_iteration before s = ((again, None), s1)" "quiet s1"
    by (rule cleanup_iteration_quiet [OF "1.prems"])
  have "store_inv s1" using cleanup_iteration_sweeps [OF "1.prems"(2) i(1)] by (simp add: sweeps_def)
  with "1.IH" [OF i(1) [symmetric] refl] i(2) show ?case
    by (auto simp: cleanup_loop.simps [of before s] i(1))
qed

section \<open>Properties\<close>

lemma Cleanup_sweeps:
  assumes "store_inv s" and "Cleanup s = (err, s')"
  shows "store_inv s' \<and> uncovered s' \<subseteq> uncovered s \<and>
    {m \<in> set (t_messages (sdb s)). time_Unix (shd (clock s)) < m_expires m} \<subseteq> set (t_messages (sdb s')) \<and>
    set (t_messages (sdb s')) \<subseteq> set (t_messages (sdb s)) \<and>
    (\<forall>q \<in> blob_paths (sdb s'). content_of s' q = content_of s q) \<and>
    (err = None \<longrightarrow> set (t_messages (sdb s')) = {m \<in> set (t_messages (sdb s)). time_Unix (shd (clock s)) < m_expires m})"
proof -
  let ?s = "s\<lparr>clock := stl (clock s)\<rparr>"
  have loop: "cleanup_loop (time_Unix (shd (clock s))) ?s = (err, s')" using assms(2) by (simp add: Cleanup_def now_def)
  have "store_inv ?s" using assms(1) touches_files(1) [of "{}" s ?s] by simp
  from cleanup_loop_sweeps [OF loop this] show ?thesis
    by (auto simp: sweeps_def uncovered_def)
qed

text \<open>
  C14. Whatever fails during it, a cleanup run keeps the store consistent, removes only messages
  that had expired when it started, leaves the files of the remaining ones as they are and lets no
  file out of the books; if it reports no error, no expired message is left.
\<close>

theorem Cleanup_removes_only_expired:
  assumes "store_inv s" and "Cleanup s = (err, s')"
  defines "before \<equiv> time_Unix (shd (clock s))"
  shows "store_inv s' \<and> uncovered s' \<subseteq> uncovered s \<and>
    {m \<in> set (t_messages (sdb s)). before < m_expires m} \<subseteq> set (t_messages (sdb s')) \<and>
    set (t_messages (sdb s')) \<subseteq> set (t_messages (sdb s)) \<and>
    (\<forall>q \<in> blob_paths (sdb s'). content_of s' q = content_of s q) \<and>
    (err = None \<longrightarrow> set (t_messages (sdb s')) = {m \<in> set (t_messages (sdb s)). before < m_expires m})"
  unfolding before_def by (rule Cleanup_sweeps [OF assms(1,2)])

theorem Cleanup_removes_only_expired_witness:
  "store_inv (snd (Cleanup full_store)) \<and>
   set (t_messages (sdb (snd (Cleanup full_store)))) \<subseteq> set (t_messages (sdb full_store))"
  using Cleanup_removes_only_expired [OF example_stores_ok(2) prod.collapse [symmetric]] by blast



end
