(* ===== verification/StoreTheorems.thy ===== *)
theory StoreTheorems
  imports StoreExample
begin

text \<open>
  The properties of \<^verbatim>\<open>Store.Save\<close>, each with a concrete instance.
\<close>

section \<open>What the contract says about an accepted delivery\<close>

lemma saved_delivered:
  assumes "saved recipients sender raw ms s s'"
  obtains tmp s0 evs d' where "settles s s0" "storedBytes s0 \<le> MaxStorageBytes (cfg s)"
    "accepted tmp (time_Unix (shd (stl (clock s)))) (new_blob s (map Recipient ms) raw) raw ms s0 s'"
    "delivered (time_Unix (shd (stl (clock s)))) (MaxStorageBytes (cfg s))
       (new_blob s (map Recipient ms) raw) ms (sdb s0) evs d'"
    "t_messages (sdb s') = t_messages d'" "t_blobs (sdb s') = t_blobs d'"
    "t_messages (sdb s0) = t_messages (sdb s)" "t_blobs (sdb s0) = t_blobs (sdb s)"
proof -
  obtain tmp s0 where a: "settles s s0" "storedBytes s0 \<le> MaxStorageBytes (cfg s)"
    "accepted tmp (time_Unix (shd (stl (clock s)))) (new_blob s (map Recipient ms) raw) raw ms s0 s'"
    using assms by (auto simp: saved_def)
  have "cfg s0 = cfg s" "t_messages (sdb s0) = t_messages (sdb s)" "t_blobs (sdb s0) = t_blobs (sdb s)"
    using a(1) fixed_fields(1) [of s0 s] by (auto simp: settles_def upkeep_def)
  moreover obtain evs d' where "delivered (time_Unix (shd (stl (clock s)))) (MaxStorageBytes (cfg s0))
       (new_blob s (map Recipient ms) raw) ms (sdb s0) evs d'"
      "t_messages (sdb s') = t_messages d'" "t_blobs (sdb s') = t_blobs d'"
    using a(3) by (auto simp: accepted_def)
  ultimately show ?thesis using a that by simp
qed

lemma Save_saved:
  "store_inv s \<Longrightarrow> fresh_blob s \<Longrightarrow> Save recipients sender raw s = (Inr ms, s') \<Longrightarrow>
   saved recipients sender raw ms s s'"
  using Save_contract by fastforce

lemma Save_not_saved:
  "store_inv s \<Longrightarrow> fresh_blob s \<Longrightarrow> Save recipients sender raw s = (Inl e, s') \<Longrightarrow> not_saved s s'"
  using Save_contract by fastforce

lemma saved_inv: "saved recipients sender raw ms s s' \<Longrightarrow> store_inv s'"
  by (elim saved_delivered) (simp add: accepted_def)

text \<open>The message has its row, and the file of the row's blob holds the given bytes.\<close>

definition row_stored :: "store \<Rightarrow> string \<Rightarrow> message \<Rightarrow> bool" where
  "row_stored s raw m \<longleftrightarrow> (\<exists>b \<in> set (t_blobs (sdb s)).
     row_of (b_id b) m \<in> set (t_messages (sdb s)) \<and> content_of s (b_path b) = Some raw)"

lemma saved_row_stored:
  assumes sv: "saved recipients sender raw ms s s'" and m: "m \<in> set ms"
  shows "row_stored s' raw m"
proof -
  let ?b = "new_blob s (map Recipient ms) raw"
  from sv obtain tmp s0 evs d' where a:
    "accepted tmp (time_Unix (shd (stl (clock s)))) ?b raw ms s0 s'"
    "delivered (time_Unix (shd (stl (clock s)))) (MaxStorageBytes (cfg s)) ?b ms (sdb s0) evs d'"
    "t_messages (sdb s') = t_messages d'" "t_blobs (sdb s') = t_blobs d'"
    by (rule saved_delivered)
  have "(b_id ?b, b_path ?b, b_size ?b) \<in> blob_keys d'" using a(2) by (simp add: delivered_def)
  then obtain b where b: "b \<in> set (t_blobs (sdb s'))" "b_id b = b_id ?b" "b_path b = b_path ?b"
    unfolding blob_keys_def a(4) [symmetric] by auto
  have "row_of (b_id b) m \<in> set (t_messages (sdb s'))"
    using a(2,3) m b(2) by (auto simp: delivered_def)
  moreover have "content_of s' (b_path b) = Some raw" using a(1) b(3) by (simp add: accepted_def)
  ultimately show ?thesis using b(1) unfolding row_stored_def by blast
qed

section \<open>Properties\<close>

text \<open>
  Whatever system call or SQL statement fails during a save, the store stays consistent: the
  tables agree with each other, every live message has its file of the recorded size, and the byte
  and message counters match the tables unless a storage fault has been recorded.
\<close>

lemma Save_keeps_invariant:
  assumes "store_inv s" and "fresh_blob s"
  shows "store_inv (snd (Save recipients sender raw s))"
proof (cases "Save recipients sender raw s")
  case (Pair r s')
  with Save_contract [OF assms Pair] saved_inv show ?thesis
    by (auto simp: not_saved_def split: sum.splits)
qed

text \<open>
  C1. A save that reports an error has not changed any mail: the message and blob tables are the
  same, so is the content of every stored file, and the only file it can leave outside the books
  without recording a storage fault is its temporary one.
\<close>

theorem Save_failure_atomic:
  assumes "store_inv s" and "fresh_blob s" and "Save recipients sender raw s = (Inl e, s')"
  shows "t_messages (sdb s') = t_messages (sdb s) \<and> t_blobs (sdb s') = t_blobs (sdb s) \<and>
    (\<forall>q \<in> blob_paths (sdb s). content_of s' q = content_of s q) \<and>
    (storageFault s' = None \<longrightarrow> (\<exists>tmp. incoming_name s tmp \<and> uncovered s' \<subseteq> insert tmp (uncovered s)))"
proof -
  have ns: "not_saved s s'" by (rule Save_not_saved [OF assms])
  then have "\<exists>tmp. incoming_name s tmp \<and> uncovered s' \<subseteq> insert tmp (uncovered s)" if "storageFault s' = None"
    using that unfolding not_saved_def by blast
  with ns show ?thesis by (simp add: not_saved_def mail_same_def)
qed

theorem Save_failure_atomic_witness:
  "\<exists>s'. Save [''A@t.io''] ''x'' ''hello'' failing_store = (Inl (ErrExternal 3), s') \<and>
     t_messages (sdb s') = t_messages (sdb failing_store)"
proof -
  obtain s' where s': "Save [''A@t.io''] ''x'' ''hello'' failing_store = (Inl (ErrExternal 3), s')"
    using Save_failing_ex by blast
  with Save_failure_atomic [OF example_stores_ok(3,6) s'] show ?thesis by blast
qed

text \<open>
  C2. An accepted message is stored for every recipient: the returned messages are for the
  normalised recipients without duplicates, in order; each has its row, with the sender and subject
  read from the header, the reception time and the expiry one time-to-live later; and the file
  behind it holds exactly the bytes received.
\<close>

theorem Save_success_stored:
  assumes "store_inv s" and "fresh_blob s" and "Save recipients sender raw s = (Inr ms, s')"
  shows "distinct (map Recipient ms) \<and>
    set (map Recipient ms) = normalizeRecipient (uni s) ` set recipients \<and>
    (\<forall>m \<in> set ms. row_stored s' raw m \<and>
       Received m = shd (clock s) \<and> ExpiresAt m = shd (clock s) + MessageTTL (cfg s) \<and>
       Size m = int (length raw) \<and> (Subject m, From m) = mailDetails (mlib s) raw sender)"
proof -
  have sv: "saved recipients sender raw ms s s'" by (rule Save_saved [OF assms])
  then have "distinct (map Recipient ms) \<and> set (map Recipient ms) = normalizeRecipient (uni s) ` set recipients"
    using normalize_recipients_all [of "uni s" recipients] by (simp add: saved_def)
  moreover have "row_stored s' raw m" if "m \<in> set ms" for m by (rule saved_row_stored [OF sv that])
  moreover have "Received m = shd (clock s) \<and> ExpiresAt m = shd (clock s) + MessageTTL (cfg s) \<and>
       Size m = int (length raw) \<and> (Subject m, From m) = mailDetails (mlib s) raw sender"
    if "m \<in> set ms" for m
    using sv that by (auto simp: saved_def list_all_iff stamped_def split: prod.splits)
  ultimately show ?thesis by blast
qed

theorem Save_success_stored_witness:
  "\<exists>s'. Save [''A@t.io''] ''x'' ''hello'' empty_store = (Inr [example_message], s') \<and>
     row_stored s' ''hello'' example_message"
proof -
  obtain s' where s': "Save [''A@t.io''] ''x'' ''hello'' empty_store = (Inr [example_message], s')"
    using Save_empty_ex by blast
  with Save_success_stored [OF example_stores_ok(1,4) s'] show ?thesis by simp
qed

text \<open>
  C6. The storage cap: after an accepted delivery the live mail and what was already queued for
  deletion before it fit the configured number of bytes together, so when the deletion queue is
  empty the whole store does.
\<close>

theorem Save_storage_cap:
  assumes "store_inv s" and "fresh_blob s" and "Save recipients sender raw s = (Inr ms, s')"
  shows "sum_blobs (sdb s') \<le> MaxStorageBytes (cfg s) \<and>
    (storageFault s' = None \<and> t_pending (sdb s') = [] \<longrightarrow> storedBytes s' \<le> MaxStorageBytes (cfg s))"
proof -
  have sv: "saved recipients sender raw ms s s'" by (rule Save_saved [OF assms])
  then obtain tmp s0 evs d' where a: "settles s s0"
      "delivered (time_Unix (shd (stl (clock s)))) (MaxStorageBytes (cfg s))
         (new_blob s (map Recipient ms) raw) ms (sdb s0) evs d'"
      "t_blobs (sdb s') = t_blobs d'"
    by (rule saved_delivered)
  have "db_ok (sdb s0)" using a(1) by (simp add: settles_def store_inv_def)
  then have "0 \<le> sum_pending (sdb s0)"
    unfolding sum_pending_def by (auto intro!: sum_list_nonneg_map dest: db_ok_pending_size)
  then have "sum_blobs (sdb s') \<le> MaxStorageBytes (cfg s)"
    using a(2,3) by (simp add: delivered_def sum_blobs_def)
  then show ?thesis
    using saved_inv [OF sv] by (simp add: store_inv_def accounted_def sum_pending_def)
qed

theorem Save_storage_cap_witness:
  "\<exists>s'. Save [''A@t.io''] ''x'' ''hello'' empty_store = (Inr [example_message], s') \<and>
     sum_blobs (sdb s') \<le> 20"
proof -
  obtain s' where s': "Save [''A@t.io''] ''x'' ''hello'' empty_store = (Inr [example_message], s')"
    using Save_empty_ex by blast
  with Save_storage_cap [OF example_stores_ok(1,4) s'] show ?thesis
    by (simp add: empty_store_def example_config_def)
qed

text \<open>
  C5. What a delivery removes is what the policy names: a message that was stored before is gone
  afterwards only if it had expired, or if no expired message is left among the older mail and every
  remaining older message was received no earlier. If the delivery fits, nothing is removed.
\<close>

theorem Save_eviction_policy:
  assumes "store_inv s" and "fresh_blob s" and "Save recipients sender raw s = (Inr ms, s')"
  defines "before \<equiv> time_Unix (shd (stl (clock s)))"
  shows "(\<forall>m \<in> set (t_messages (sdb s)) - set (t_messages (sdb s')).
       m_expires m \<le> before \<or>
       (\<forall>k \<in> set (t_messages (sdb s)) \<inter> set (t_messages (sdb s')).
          before < m_expires k \<and> m_received m \<le> m_received k)) \<and>
    (storageFault s = None \<and> storedBytes s + int (length raw) \<le> MaxStorageBytes (cfg s) \<longrightarrow>
       set (t_messages (sdb s)) \<subseteq> set (t_messages (sdb s')))"
proof -
  have sv: "saved recipients sender raw ms s s'" by (rule Save_saved [OF assms(1-3)])
  let ?b = "new_blob s (map Recipient ms) raw"
  from sv obtain tmp s0 evs d' where a: "settles s s0"
      "delivered before (MaxStorageBytes (cfg s)) ?b ms (sdb s0) evs d'"
      "t_messages (sdb s') = t_messages d'" "t_messages (sdb s0) = t_messages (sdb s)"
      "t_blobs (sdb s0) = t_blobs (sdb s)"
    unfolding before_def by (rule saved_delivered)
  have msgs: "set (t_messages (sdb s')) =
      {k \<in> set (t_messages (sdb s)). m_id k \<notin> m_id ` snd ` set evs} \<union> set (map (row_of (b_id ?b)) ms)"
    using a(2,3,4) by (simp add: delivered_def)
  have ok: "db_ok (sdb s)" using assms(1) by (simp add: store_inv_def)
  have other: "m_blob k \<noteq> b_id ?b" if "k \<in> set (t_messages (sdb s))" for k
    using db_ok_msg_blob [OF ok that] a(2,5) by (auto simp: delivered_def)
  have "\<forall>m \<in> set (t_messages (sdb s)) - set (t_messages (sdb s')).
       m_expires m \<le> before \<or>
       (\<forall>k \<in> set (t_messages (sdb s)) \<inter> set (t_messages (sdb s')).
          before < m_expires k \<and> m_received m \<le> m_received k)"
  proof
    fix m assume m: "m \<in> set (t_messages (sdb s)) - set (t_messages (sdb s'))"
    then have "m_id m \<in> m_id ` snd ` set evs" using msgs by auto
    then obtain x v where v: "(x, v) \<in> set evs" "m_id v = m_id m" by auto
    then have pol: "by_policy before (b_id ?b) (sdb s0) d' (x, v)" using a(2) by (auto simp: delivered_def)
    then have "v = m"
      using distinct_key_unique [OF db_ok_keys(1) [OF ok] _ _ v(2)] m a(4) by (simp add: by_policy_def)
    with pol show "m_expires m \<le> before \<or>
       (\<forall>k \<in> set (t_messages (sdb s)) \<inter> set (t_messages (sdb s')).
          before < m_expires k \<and> m_received m \<le> m_received k)"
      using other a(3) by (auto simp: by_policy_def split: if_splits)
  qed
  moreover have "set (t_messages (sdb s)) \<subseteq> set (t_messages (sdb s'))"
    if "storageFault s = None" "storedBytes s + int (length raw) \<le> MaxStorageBytes (cfg s)"
  proof -
    have "accounted s0" "storedBytes s0 \<le> storedBytes s"
      using a(1) that(1) by (auto simp: settles_def store_inv_def)
    then have "evs = []" using a(2) that(2) by (auto simp: delivered_def accounted_def new_blob_def)
    then show ?thesis using msgs by auto
  qed
  ultimately show ?thesis by blast
qed

theorem Save_eviction_policy_witness:
  "\<exists>s'. Save [''A@t.io''] ''x'' ''hello'' full_store = (Inr [example_message], s') \<and>
     old_row \<in> set (t_messages (sdb full_store)) - set (t_messages (sdb s')) \<and>
     (\<forall>k \<in> set (t_messages (sdb full_store)) \<inter> set (t_messages (sdb s')).
        0 < m_expires k \<and> m_received old_row \<le> m_received k)"
proof -
  obtain s' where s': "Save [''A@t.io''] ''x'' ''hello'' full_store = (Inr [example_message], s')"
    "map m_id (t_messages (sdb s')) = [''0a'']"
    using Save_full_ex by (elim exE conjE) (rule that)
  have gone: "old_row \<in> set (t_messages (sdb full_store)) - set (t_messages (sdb s'))"
  proof
    show "old_row \<in> set (t_messages (sdb full_store))" by (simp add: full_store_def)
    show "old_row \<notin> set (t_messages (sdb s'))"
    proof
      assume "old_row \<in> set (t_messages (sdb s'))"
      then have "m_id old_row \<in> set (map m_id (t_messages (sdb s')))" by simp
      then show False unfolding s'(2) by (simp add: old_row_def)
    qed
  qed
  have t: "time_Unix (shd (stl (clock full_store))) = 0"
    by (simp add: full_store_def empty_store_def time_Unix_def)
  have live: "\<not> m_expires old_row \<le> 0" by (simp add: old_row_def)
  have "m_expires old_row \<le> 0 \<or> (\<forall>k \<in> set (t_messages (sdb full_store)) \<inter> set (t_messages (sdb s')).
      0 < m_expires k \<and> m_received old_row \<le> m_received k)"
    by (rule bspec [OF conjunct1 [OF Save_eviction_policy [OF example_stores_ok(2,5) s'(1)]] gone, unfolded t])
  with live have "\<forall>k \<in> set (t_messages (sdb full_store)) \<inter> set (t_messages (sdb s')).
      0 < m_expires k \<and> m_received old_row \<le> m_received k" by (simp only: simp_thms)
  with gone s'(1) show ?thesis by blast
qed

end
