(* ===== verification/StoreLive.thy ===== *)
theory StoreLive
  imports StoreCleanup StoreTheorems
begin

text \<open>
  Liveness of \<^verbatim>\<open>Save\<close>: when no call fails and the identifiers drawn are new, a message
  within the limits is accepted. Eviction always finds enough room, because what it may not remove,
  the queued files and the incoming message, fits the cap by the checks made before.
\<close>

section \<open>Eviction finds room\<close>

lemma no_other_message_sum:
  assumes ok: "db_ok d" and none: "filter (\<lambda>m. m_blob m \<noteq> i) (t_messages d) = []"
    and z: "\<And>b. b \<in> set (t_blobs d) \<Longrightarrow> b_id b = i \<Longrightarrow> b_size b = z" "0 \<le> z"
  shows "sum_blobs d \<le> z"
proof -
  have all: "b_id b = i" if "b \<in> set (t_blobs d)" for b
  proof -
    have "refs_of (b_id b) d \<noteq> []" using db_ok_refs [OF ok that] by auto
    then show ?thesis using none by (auto simp: refs_of_def filter_empty_conv filter_eq_Cons_iff)
  qed
  have "card (set (map b_id (t_blobs d))) \<le> card {i}" by (rule card_mono) (use all in auto)
  then have "length (t_blobs d) \<le> 1" using distinct_card [OF db_ok_keys(2) [OF ok]] by simp
  then show ?thesis using z all by (cases "t_blobs d") (auto simp: sum_blobs_def)
qed

lemma evict_pick_quiet:
  assumes "quiet s" and "filter (\<lambda>m. m_blob m \<noteq> i) (t_messages (sdb s)) \<noteq> []"
  obtains x m where "evict_pick before i er s = (Inr (x, m_id m, m_blob m), s)"
    "m \<in> set (t_messages (sdb s))" "m_blob m \<noteq> i"
proof -
  let ?E = "filter (\<lambda>m. m_expires m \<le> before \<and> m_blob m \<noteq> i) (t_messages (sdb s))"
  let ?O = "filter (\<lambda>m. m_blob m \<noteq> i) (t_messages (sdb s))"
  obtain k ks where k: "sort_key m_received ?O = k # ks"
    using assms(2) by (cases "sort_key m_received ?O") auto
  have o: "k \<in> set ?O" by (rule sort_key_hd_mem [OF k])
  show ?thesis
  proof (cases "er \<and> ?E \<noteq> []")
    case True
    then obtain e es where e: "sort_key m_expires ?E = e # es"
      by (cases "sort_key m_expires ?E") auto
    have "e \<in> set ?E" by (rule sort_key_hd_mem [OF e])
    then show ?thesis
      using that [of True e] True e assms(1) by (simp add: evict_pick_def sql_oldest_expired_def)
  next
    case False
    then have "evict_pick before i er s = (Inr (False, m_id k, m_blob k), s)"
      using assms(1) k by (auto simp: evict_pick_def sql_oldest_expired_def sql_oldest_def)
    with o that [of False k] show ?thesis by simp
  qed
qed

lemma evict_loop_quiet:
  "quiet s \<Longrightarrow> db_ok (sdb s) \<Longrightarrow> projected = sum_blobs (sdb s) + K \<Longrightarrow> K + z \<le> limit \<Longrightarrow> 0 \<le> z \<Longrightarrow>
   (\<And>b. b \<in> set (t_blobs (sdb s)) \<Longrightarrow> b_id b = i \<Longrightarrow> b_size b = z) \<Longrightarrow>
   \<exists>st' d'. evict_loop before i limit er projected st s = (Inr st', s\<lparr>sdb := d'\<rparr>)"
proof (induction before i limit er projected st s rule: evict_loop.induct)
  case (1 before i limit er projected st s)
  show ?case
  proof (cases "projected \<le> limit")
    case True
    have "s = s\<lparr>sdb := sdb s\<rparr>" by simp
    with True show ?thesis by (metis evict_loop.simps)
  next
    case False
    have "sum_blobs (sdb s) \<le> z" if "filter (\<lambda>m. m_blob m \<noteq> i) (t_messages (sdb s)) = []"
      by (rule no_other_message_sum [OF "1.prems"(2) that _ "1.prems"(5)]) (rule "1.prems"(6))
    then have "filter (\<lambda>m. m_blob m \<noteq> i) (t_messages (sdb s)) \<noteq> []"
      using False "1.prems"(3,4) by linarith
    then obtain x m where pick: "evict_pick before i er s = (Inr (x, m_id m, m_blob m), s)"
      and m: "m \<in> set (t_messages (sdb s))" "m_blob m \<noteq> i"
      by (rule evict_pick_quiet [OF "1.prems"(1)])
    obtain n p d1 where d: "deleteMessageTx (m_id m) (m_blob m) s = (Inr (n, p), s\<lparr>sdb := d1\<rparr>)"
      "drop_ref (m_id m) (m_blob m) (sdb s) = Inr (n, p, d1)" "drop_ref_post (sdb s) n d1"
      by (rule deleteMessageTx_quiet [OF "1.prems"(1,2) m(1)])
    have "b_size b = z" if "b \<in> set (t_blobs d1)" "b_id b = i" for b
    proof -
      have "(b_id b, b_path b, b_size b) \<in> blob_keys (sdb s)"
        using that(1) d(3) by (auto simp: drop_ref_post_def blob_keys_def)
      then show ?thesis using "1.prems"(6) that(2) by (auto simp: blob_keys_def)
    qed
    then have "\<exists>st' d'. evict_loop before i limit x (projected - n) (count_removed x n st) (s\<lparr>sdb := d1\<rparr>)
        = (Inr st', s\<lparr>sdb := d1, sdb := d'\<rparr>)"
      using "1.IH" [OF False pick [symmetric] refl refl refl d(1) [symmetric] refl refl] "1.prems"(1,3,4,5) d(3)
      by (simp add: drop_ref_post_def)
    then show ?thesis using False pick d(1) by (simp add: evict_loop.simps [of before i limit er projected st s])
  qed
qed

section \<open>The inserts\<close>

definition ids_of :: "string stream \<Rightarrow> nat \<Rightarrow> string list" where
  "ids_of r n = map (\<lambda>b. concat (map hex_byte b)) (stake n r)"

lemma insert_messages_quiet:
  "quiet s \<Longrightarrow> distinct (ids_of (rands s) (length rs)) \<Longrightarrow>
   set (ids_of (rands s) (length rs)) \<inter> set (map m_id (t_messages (sdb s))) = {} \<Longrightarrow>
   \<exists>ms r d'. insert_messages rs from subject t texp sz b s = (Inr ms, s\<lparr>rands := r, sdb := d'\<rparr>)"
proof (induction rs arbitrary: s)
  case Nil
  have "s = s\<lparr>rands := rands s, sdb := sdb s\<rparr>" by simp
  then show ?case by (metis insert_messages.simps(1))
next
  case (Cons rcpt rs)
  let ?i = "concat (map hex_byte (shd (rands s)))"
  let ?m = "\<lparr>m_id = ?i, m_recipient = rcpt, m_sender = from, m_subject = subject,
     m_received = time_Unix t, m_expires = time_Unix texp, m_size = sz, m_blob = b\<rparr>"
  let ?s = "s\<lparr>rands := stl (rands s), sdb := (sdb s)\<lparr>t_messages := t_messages (sdb s) @ [?m]\<rparr>\<rparr>"
  have "\<exists>ms r d'. insert_messages rs from subject t texp sz b ?s = (Inr ms, ?s\<lparr>rands := r, sdb := d'\<rparr>)"
    by (rule Cons.IH) (use Cons.prems in \<open>auto simp: ids_of_def\<close>)
  moreover have "?i \<notin> set (map m_id (t_messages (sdb s)))" using Cons.prems(3) by (auto simp: ids_of_def)
  ultimately show ?case
    using Cons.prems(1)
    by (auto simp: newID_def rand_read_def sql_insert_message_def Let_def) (intro exI, rule refl)
qed

section \<open>Save\<close>

lemma save_tx_quiet:
  assumes q: "quiet s" and inv: "store_inv s" "storageFault s = None"
    and path: "path \<notin> blob_paths (sdb s)" "path \<notin> pending_paths (sdb s)"
    and i: "i \<notin> set (map b_id (t_blobs (sdb s)))" and rs: "rs \<noteq> []"
    and ids: "distinct (ids_of (rands s) (length rs))"
      "set (ids_of (rands s) (length rs)) \<inter> set (map m_id (t_messages (sdb s))) = {}"
    and room: "sum_pending (sdb s) + int n \<le> MaxStorageBytes (cfg s)"
  obtains x s' where "save_tx rs from subject t i path (int n) s = (Inr x, s')" "quiet s'"
proof -
  let ?b = "\<lparr>b_id = i, b_path = path, b_size = int n, b_refs = int (length rs)\<rparr>"
  let ?s1 = "s\<lparr>sdb := (sdb s)\<lparr>t_blobs := t_blobs (sdb s) @ [?b]\<rparr>\<rparr>"
  obtain ms r d' where ins: "insert_messages rs from subject t (t + MessageTTL (cfg s)) (int n) i ?s1
      = (Inr ms, s\<lparr>rands := r, sdb := d'\<rparr>)"
    using insert_messages_quiet [of ?s1 rs "from" subject t "t + MessageTTL (cfg s)" "int n" i] q ids by auto
  note io = insert_messages_ok [OF ins]
  have len: "length ms = length rs" using io by (metis length_map)
  have d': "d' = with_delivery ?b ms (sdb s)" using io by (simp add: with_delivery_def)
  have ok: "db_ok (sdb s)" "accounted s" using inv by (auto simp: store_inv_def)
  have ok': "db_ok d'"
    unfolding d' by (rule with_delivery_ok) (use ok io i path rs len in auto)
  let ?s2 = "s\<lparr>rands := r, sdb := d', clock := stl (clock s)\<rparr>"
  have "\<exists>st d2. evict_loop (time_Unix (shd (clock s))) i (MaxStorageBytes (cfg s)) True
      (storedBytes s + int n) no_stats ?s2 = (Inr st, ?s2\<lparr>sdb := d2\<rparr>)"
  proof (rule evict_loop_quiet [where K = "sum_pending (sdb s)" and z = "int n"])
    show "storedBytes s + int n = sum_blobs (sdb ?s2) + sum_pending (sdb s)"
      using ok(2) by (simp add: accounted_def d' with_delivery_def sum_blobs_def)
    show "b_size b = int n" if "b \<in> set (t_blobs (sdb ?s2))" "b_id b = i" for b
    proof -
      have "b = ?b" using that i by (auto simp: d' with_delivery_def)
      then show ?thesis by simp
    qed
  qed (use q ok' room in auto)
  then obtain st d2 where ev: "evictTx i (int n) (s\<lparr>rands := r, sdb := d'\<rparr>) = (Inr st, ?s2\<lparr>sdb := d2\<rparr>)"
    by (auto simp: evictTx_def now_def)
  have "exec (sql_insert_blob ?b) s = (None, ?s1)" using q i by (simp add: sql_insert_blob_def)
  with ins ev have "save_tx rs from subject t i path (int n) s = (Inr (ms, st), ?s2\<lparr>sdb := d2\<rparr>)"
    by (simp add: save_tx_def)
  with q that show ?thesis by simp
qed

lemma file_steps_quiet:
  assumes "quiet s"
  shows "write_temp tmp raw s = (None, disk_put tmp raw s)"
    "content_of s tmp = Some c \<Longrightarrow> os_Rename tmp path s = (None, disk_put path c (disk_del tmp s))"
  using assms ext_quiet [OF assms]
  by (simp_all add: write_temp_def file_write_def os_Rename_def) (simp add: quiet_def)

lemma save_commit_quiet:
  assumes q: "quiet s"
    and tx: "save_tx rs from subject t i path sz s = (Inr (ms, st), s1)" "quiet s1"
  shows "\<exists>s'. save_commit rs from subject t i path sz s = (Inr ms, s')"
proof -
  have "inTx (save_tx rs from subject t i path sz) s = (Inr (ms, st), s1)" 
    using inTx_quiet [of s "save_tx rs from subject t i path sz"] q tx by blast
  then show ?thesis by (simp add: save_commit_def Let_def split: prod.split)
qed

text \<open>
  The identifiers a delivery draws: the temporary name is free, the message identifiers are new.
\<close>

definition fresh_ids :: "nat \<Rightarrow> store \<Rightarrow> bool" where
  "fresh_ids n s \<longleftrightarrow>
     fresh_blob s \<and> next_id s \<notin> set (map b_id (t_blobs (sdb s))) \<and>
     content_of s (os_join (msgDir s) (''.incoming-'' @ nextRandom (shd (stl (rands s))))) = None \<and>
     distinct (ids_of (stl (stl (rands s))) n) \<and>
     set (ids_of (stl (stl (rands s))) n) \<inter> set (map m_id (t_messages (sdb s))) = {}"

lemma save_file_quiet:
  assumes q: "quiet s" and inv: "store_inv s" "storageFault s = None"
    and ids: "fresh_ids (length rs) s" and rs: "rs \<noteq> []"
    and room: "sum_pending (sdb s) + int (length raw) \<le> MaxStorageBytes (cfg s)"
  shows "\<exists>ms s'. save_file rs sender raw s = (Inr ms, s')"
proof -
  let ?path = "blob_path (msgDir s) (next_id s)"
  define tmp where "tmp = os_join (msgDir s) (''.incoming-'' @ nextRandom (shd (stl (rands s))))"
  let ?r = "stl (stl (rands s))"
  obtain subject sdr where md: "mailDetails (mlib s) raw sender = (subject, sdr)" by fastforce
  have inc: "incoming_name s tmp" by (auto simp: incoming_name_def nextRandom_def tmp_def)
  have ne: "tmp \<noteq> ?path" by (rule incoming_not_blob [OF inc]) (unfold next_id_def, rule hex_no_slash)
  have fr: "content_of s ?path = None" "?path \<notin> pending_paths (sdb s)" "content_of s tmp = None"
    using ids by (auto simp: fresh_ids_def fresh_blob_def Let_def tmp_def)
  have bp: "p \<notin> blob_paths (sdb s)" if "content_of s p = None" for p
    using that inv(1) by (force simp: store_inv_def files_ok_def blob_paths_def)
  define s3 where "s3 = disk_put tmp [] (s\<lparr>clock := stl (clock s), rands := ?r\<rparr>)"
  have q3: "quiet s3" using q by (simp add: s3_def)
  have ct: "os_CreateTemp (msgDir s) ''.incoming-'' (s\<lparr>clock := stl (clock s), rands := stl (rands s)\<rparr>) = (Inr tmp, s3)"
  proof -
    have "(10000::nat) = Suc 9999" by simp
    then show ?thesis
      unfolding os_CreateTemp_def using q fr(3)
      by (simp only: create_temp_try.simps rand_read_def Let_def prod.case) (simp add: s3_def tmp_def)
  qed
  define s5 where "s5 = disk_put ?path raw (disk_del tmp (disk_put tmp raw s3))"
  have q5: "quiet s5" using q3 by (simp add: s5_def)
  have t5: "touches {tmp, ?path} s s5" by (simp add: s5_def s3_def touches_def)
  have inv5: "store_inv s5" "storageFault s5 = None"
    using touches_files(1) [OF t5 inv(1)] t5 inv(2) bp [OF fr(1)] bp [OF fr(3)] by (auto simp: touches_def)
  have same: "sdb s5 = sdb s" "cfg s5 = cfg s" "rands s5 = ?r"
    using t5 by (auto simp: touches_def fixed_def s5_def s3_def)
  obtain x s6 where tx: "save_tx rs sdr subject (shd (clock s)) (next_id s) ?path (int (length raw)) s5 = (Inr x, s6)" "quiet s6"
    by (rule save_tx_quiet [OF q5 inv5, of ?path "next_id s" rs "length raw" sdr subject "shd (clock s)"])
      (use fr bp [OF fr(1)] rs ids room same in \<open>auto simp: fresh_ids_def\<close>)
  obtain ms st where x: "x = (ms, st)" by (cases x)
  obtain s7 where "save_commit rs sdr subject (shd (clock s)) (next_id s) ?path (int (length raw)) s5 = (Inr ms, s7)"
    using save_commit_quiet [OF q5 tx [unfolded x]] by blast
  then have "save_staged rs sdr subject (shd (clock s)) (next_id s) ?path tmp raw s3 = (Inr ms, s7)"
    using q5 file_steps_quiet(1) [OF q3, of tmp raw]
      file_steps_quiet(2) [of "disk_put tmp raw s3" tmp raw ?path] q3
    by (simp add: save_staged_def s5_def [symmetric])
  then show ?thesis
    using md ct by (simp add: save_file_def now_def newID_def rand_read_def next_id_def)
qed

lemma settles_fresh_ids:
  assumes st: "settles s t" and "fresh_ids n s"
  shows "fresh_ids n t"
proof -
  have f: "fresh_blob s" using assms(2) by (simp add: fresh_ids_def)
  note * = settles_fresh [OF st f]
  have "rands t = rands s" "t_blobs (sdb t) = t_blobs (sdb s)" "t_messages (sdb t) = t_messages (sdb s)"
    "\<forall>q. content_of s q = None \<longrightarrow> content_of t q = None"
    using st by (auto simp: settles_def upkeep_def)
  with assms(2) * show ?thesis by (simp add: fresh_ids_def)
qed

section \<open>Property\<close>

text \<open>
  C16. No message is turned away without need: when no call fails, no storage fault is recorded and
  the identifiers drawn are new, a delivery with at least one recipient, within the message limit
  and fitting the storage cap beside the files still queued for deletion, is accepted.
\<close>

theorem Save_succeeds:
  assumes "store_inv s" and "quiet s" and "storageFault s = None" and "recipients \<noteq> []"
    and "fresh_ids (length (normalize_recipients (uni s) recipients (\<lambda>_. False) [])) s"
    and "int (length raw) \<le> MaxMessageBytes (cfg s)" and "storedBytes s \<le> MaxStorageBytes (cfg s)"
    and "sum_pending (sdb s) + int (length raw) \<le> MaxStorageBytes (cfg s)"
  shows "\<exists>ms s'. Save recipients sender raw s = (Inr ms, s')"
proof -
  let ?rs = "normalize_recipients (uni s) recipients (\<lambda>_. False) []"
  have ok: "db_ok (sdb s)" using assms(1) by (simp add: store_inv_def)
  have "0 \<le> sum_pending (sdb s)"
    unfolding sum_pending_def by (rule sum_list_nonneg_map) (rule db_ok_pending_size [OF ok])
  then have raw: "int (length raw) \<le> MaxStorageBytes (cfg s)" using assms(8) by simp
  have rs: "?rs \<noteq> []"
  proof
    assume "?rs = []"
    then have "normalizeRecipient (uni s) ` set recipients = {}"
      using normalize_recipients_all [of "uni s" recipients] by simp
    then show False using assms(4) by simp
  qed
  obtain s1 where d: "drainPendingLocked s = (None, s1)" "quiet s1"
    by (rule drainPendingLocked_quiet [OF assms(2)])
  have st: "settles s s1" using drain_settles [OF assms(1) d(1)] by (simp add: note_cleanup_error_def)
  have fr: "fresh_ids (length ?rs) s1" by (rule settles_fresh_ids [OF st assms(5)])
  have cfg1: "cfg s1 = cfg s" using st fixed_fields(1) [of s1 s] by (simp add: settles_def upkeep_def)
  have bytes: "storedBytes s1 \<le> MaxStorageBytes (cfg s)" using st assms(7) by (simp add: settles_def)
  have "sum_pending (sdb s1) \<le> sum_pending (sdb s)"
    using drainPendingLocked_drains [OF ok d(1)] sum_pending_mono [OF ok, of "sdb s1"] by (simp add: drains_def)
  then have room: "sum_pending (sdb s1) + int (length raw) \<le> MaxStorageBytes (cfg s1)"
    using assms(8) cfg1 by simp
  have "\<exists>ms s'. save_file ?rs sender raw s1 = (Inr ms, s')"
    using save_file_quiet [OF d(2) _ _ fr rs room] st assms(3) by (simp add: settles_def)
  then show ?thesis
    using raw rs assms(3,6) d bytes room cfg1
    by (simp add: Save_def save_locked_def note_cleanup_error_def Let_def)
qed

theorem Save_succeeds_witness:
  "\<exists>ms s'. Save [''A@t.io''] ''x'' ''hello'' full_store = (Inr ms, s')"
proof (rule Save_succeeds [OF example_stores_ok(2)])
  have "normalize_recipients plain_unicode [''A@t.io''] (\<lambda>_. False) [] = [''A@t.io'']" by code_simp
  moreover have "uni full_store = plain_unicode" by (simp add: full_store_def empty_store_def)
  moreover have "content_of full_store (os_join ''/d'' (''.incoming-'' @ nextRandom [CHR 0x0A])) = None"
    unfolding temp_name_ex by (simp add: full_store_def content_of_def)
  ultimately show "fresh_ids (length (normalize_recipients (uni full_store) [''A@t.io''] (\<lambda>_. False) [])) full_store"
    using example_stores_ok(5)
    by (simp add: fresh_ids_def ids_of_def next_id_def example_names full_store_def empty_store_def old_row_def)
qed (simp_all add: full_store_def empty_store_def quiet_def sum_pending_def example_config_def)

end
