(* ===== verification/MailStore.thy ===== *)
theory MailStore
  imports Prelude
begin

text \<open>
  The interface between the mail store and its clients, the SMTP session and the HTTP handlers:
  what a client may rely on when it hands over a message or asks for one.
\<close>

text \<open>A store that takes a message for several addressees, for all of them or for none.\<close>

locale mail_store =
  fixes save :: "string list \<Rightarrow> string \<Rightarrow> string \<Rightarrow> 's \<Rightarrow> ('e + 'm list) \<times> 's"
    and ready :: "'s \<Rightarrow> bool"
    and canon :: "'s \<Rightarrow> string \<Rightarrow> string"
    and addressee :: "'m \<Rightarrow> string"
    and holds :: "'s \<Rightarrow> string \<Rightarrow> 'm \<Rightarrow> bool"
    and same_mail :: "'s \<Rightarrow> 's \<Rightarrow> bool"
  assumes save_all: "ready s \<Longrightarrow> save rs from raw s = (Inr ms, s') \<Longrightarrow>
      distinct (map addressee ms) \<and> set (map addressee ms) = canon s ` set rs \<and> (\<forall>m \<in> set ms. holds s' raw m)"
    and save_none: "ready s \<Longrightarrow> save rs from raw s = (Inl e, s') \<Longrightarrow> same_mail s s'"
begin

text \<open>A client that passes canonical addresses gets one message for each.\<close>

lemma delivered_each:
  assumes "ready s" "save rs from raw s = (Inr ms, s')" "\<forall>r \<in> set rs. canon s r = r"
  shows "set (map addressee ms) = set rs" "\<And>r. r \<in> set rs \<Longrightarrow> \<exists>m \<in> set ms. addressee m = r \<and> holds s' raw m"
proof -
  show *: "set (map addressee ms) = set rs"
    using save_all [OF assms(1,2)] assms(3) by force
  show "\<exists>m \<in> set ms. addressee m = r \<and> holds s' raw m" if "r \<in> set rs" for r
  proof -
    have "r \<in> set (map addressee ms)" using * that by blast
    then obtain m where "m \<in> set ms" "addressee m = r" by auto
    then show ?thesis using save_all [OF assms(1,2)] by blast
  qed
qed

lemma delivered_count:
  assumes "ready s" "save rs from raw s = (Inr ms, s')" "\<forall>r \<in> set rs. canon s r = r" "distinct rs"
  shows "length ms = length rs"
proof -
  have "distinct (map addressee ms)" using save_all [OF assms(1,2)] by blast
  then have "length ms = card (set (map addressee ms))" by (metis distinct_card length_map)
  with delivered_each(1) [OF assms(1-3)] assms(4) show ?thesis by (simp add: distinct_card)
qed

lemma all_or_nothing:
  assumes "ready s"
  shows "(\<exists>ms s'. save rs from raw s = (Inr ms, s') \<and> (\<forall>m \<in> set ms. holds s' raw m))
    \<or> (\<exists>e s'. save rs from raw s = (Inl e, s') \<and> same_mail s s')"
  using save_all [OF assms] save_none [OF assms] by (metis obj_sumE surj_pair)

end

text \<open>A store that gives back what it holds, while the message is readable.\<close>

locale readable_store = mail_store save ready canon addressee holds same_mail
  for save :: "string list \<Rightarrow> string \<Rightarrow> string \<Rightarrow> 's \<Rightarrow> ('e + 'm list) \<times> 's"
    and ready canon addressee holds same_mail +
  fixes get_raw :: "'i \<Rightarrow> 's \<Rightarrow> string option"
    and ident :: "'m \<Rightarrow> 'i"
    and readable :: "'s \<Rightarrow> 'm \<Rightarrow> bool"
  assumes get_held: "holds s raw m \<Longrightarrow> readable s m \<Longrightarrow> get_raw (ident m) s = Some raw"
begin

lemma read_back:
  assumes "ready s" "save rs from raw s = (Inr ms, s')" "\<forall>r \<in> set rs. canon s r = r" "r \<in> set rs"
  shows "\<exists>m \<in> set ms. addressee m = r \<and> (readable s' m \<longrightarrow> get_raw (ident m) s' = Some raw)"
  using delivered_each(2) [OF assms] get_held by blast

end

end
