(* ===== verification/StoreRead.thy ===== *)
theory StoreRead
  imports MailStore StoreTheorems
begin

text \<open>
  Reading the store: \<^verbatim>\<open>ListPageContext\<close>, \<^verbatim>\<open>GetContext\<close> and \<^verbatim>\<open>Status\<close>, with
  the round trip of a saved message and the exactness of pages.
\<close>

section \<open>Operations\<close>

text \<open>
  \<^verbatim>\<open>LIMIT l OFFSET o\<close> as SQLite reads it: a negative limit is no limit, a negative offset
  is none.
\<close>

definition limit_offset :: "int \<Rightarrow> int \<Rightarrow> 'a list \<Rightarrow> 'a list" where
  "limit_offset l off xs = (let ys = drop (nat off) xs in if l < 0 then ys else take (nat l) ys)"

text \<open>The unexpired messages of an inbox, latest first, the later row first on ties.\<close>

definition inbox_rows :: "string \<Rightarrow> int \<Rightarrow> db \<Rightarrow> msg_row list" where
  "inbox_rows recipient t d =
     rev (sort_key m_received (filter (\<lambda>m. m_recipient m = recipient \<and> t < m_expires m) (t_messages d)))"

definition sql_list :: "string \<Rightarrow> int \<Rightarrow> int \<Rightarrow> int \<Rightarrow> db \<Rightarrow> msg_row list result" where
  "sql_list recipient t l off d = Inr (limit_offset l off (inbox_rows recipient t d))"

definition message_of :: "string \<Rightarrow> msg_row \<Rightarrow> message" where
  "message_of body m = \<lparr>ID = m_id m, Recipient = m_recipient m, From = m_sender m, Subject = m_subject m,
     Received = unix_time (m_received m), ExpiresAt = unix_time (m_expires m), Size = m_size m,
     Body = body\<rparr>"

definition ListPageContext ::
    "string \<Rightarrow> int \<Rightarrow> int \<Rightarrow> store \<Rightarrow> (message list \<times> bool) result \<times> store" where
  "ListPageContext recipient limit offset s =
     (let r = normalizeRecipient (uni s) recipient in
      case now s of
        (t, s1) \<Rightarrow>
          (case query_rows (sql_list r (time_Unix t) (limit + 1) offset) s1 of
             (Inl e, s2) \<Rightarrow> (Inl e, s2)
           | (Inr rows, s2) \<Rightarrow>
               (let messages = map (message_of []) rows;
                    hasMore = limit < int (length messages)
                in if hasMore then
                     (if limit < 0 then (Inl ErrPanic, s2)
                      else (Inr (take (nat limit) messages, True), s2))
                   else (Inr (messages, False), s2))))"

definition ListPage :: "string \<Rightarrow> int \<Rightarrow> int \<Rightarrow> store \<Rightarrow> (message list \<times> bool) result \<times> store" where
  "ListPage recipient limit offset s = ListPageContext recipient limit offset s"

definition List_inbox :: "string \<Rightarrow> store \<Rightarrow> message list result \<times> store" where
  "List_inbox recipient s =
     (case ListPage recipient 100 0 s of
        (Inl e, s1) \<Rightarrow> (Inl e, s1)
      | (Inr (messages, _), s1) \<Rightarrow> (Inr messages, s1))"

text \<open>The join of a message with its blob.\<close>

definition sql_get :: "string \<Rightarrow> int \<Rightarrow> db \<Rightarrow> (msg_row \<times> string) result" where
  "sql_get i t d =
     (case find (\<lambda>m. m_id m = i \<and> t < m_expires m \<and> m_blob m \<in> set (map b_id (t_blobs d))) (t_messages d) of
        None \<Rightarrow> Inl ErrNoRows
      | Some m \<Rightarrow>
          (case find (\<lambda>b. b_id b = m_blob m) (t_blobs d) of
             None \<Rightarrow> Inl ErrNoRows
           | Some b \<Rightarrow> Inr (m, b_path b)))"

definition os_ReadFile :: "string \<Rightarrow> store \<Rightarrow> string result \<times> store" where
  "os_ReadFile p s =
     (case ext s of
        (Some e, s1) \<Rightarrow> (Inl e, s1)
      | (None, s1) \<Rightarrow>
          (case content_of s1 p of None \<Rightarrow> (Inl ErrNotExist, s1) | Some c \<Rightarrow> (Inr c, s1)))"

definition GetContext :: "string \<Rightarrow> store \<Rightarrow> message result \<times> store" where
  "GetContext i s =
     (case now s of
        (t, s1) \<Rightarrow>
          (case query (sql_get i (time_Unix t)) s1 of
             (Inl e, s2) \<Rightarrow> (Inl e, s2)
           | (Inr (m, path), s2) \<Rightarrow>
               (case os_ReadFile path s2 of
                  (Inl e, s3) \<Rightarrow> (Inl e, s3)
                | (Inr body, s3) \<Rightarrow> (Inr (message_of body m), s3))))"

definition Get :: "string \<Rightarrow> store \<Rightarrow> message result \<times> store" where
  "Get i s = GetContext i s"

record storeStatus =
  StoredBytes :: int
  StoredMessages :: int
  CleanupErrors :: nat
  LastCleanup :: "time option"

definition Status :: "store \<Rightarrow> storeStatus" where
  "Status s = \<lparr>StoredBytes = storedBytes s, StoredMessages = storedMessages s,
     CleanupErrors = cleanupErrorCount s, LastCleanup = lastCleanup s\<rparr>"

section \<open>Facts\<close>

text \<open>Reading changes nothing but the faults and the clock.\<close>

definition read_only :: "store \<Rightarrow> store \<Rightarrow> bool" where
  "read_only s s' \<longleftrightarrow> (\<exists>c f. s' = s\<lparr>clock := c, faults := f\<rparr>)"

lemma ListPageContext_read_only: "ListPageContext r l off s = (x, s') \<Longrightarrow> read_only s s'"
  by (auto simp: ListPageContext_def Let_def now_def read_only_def split: prod.splits sum.splits if_splits
      elim!: query_rows_cases)

lemma GetContext_read_only: "GetContext i s = (x, s') \<Longrightarrow> read_only s s'"
  by (auto simp: GetContext_def now_def query_def os_ReadFile_def ext_def read_only_def
      split: prod.splits sum.splits option.splits)

lemma inbox_rows_set [simp]:
  "set (inbox_rows r t d) = {m \<in> set (t_messages d). m_recipient m = r \<and> t < m_expires m}"
  by (auto simp: inbox_rows_def)

lemma inbox_rows_sorted: "sorted_wrt (\<lambda>a b. m_received b \<le> m_received a) (inbox_rows r t d)"
proof -
  have "sorted_wrt (\<lambda>a b. m_received a \<le> m_received b)
      (sort_key m_received (filter (\<lambda>m. m_recipient m = r \<and> t < m_expires m) (t_messages d)))"
    using sorted_sort_key [of m_received] by (simp add: sorted_map)
  then show ?thesis by (simp add: inbox_rows_def sorted_wrt_rev)
qed

lemma sql_get_Inr:
  assumes "db_ok d"
  shows "sql_get i t d = Inr (m, p) \<longleftrightarrow>
    m \<in> set (t_messages d) \<and> m_id m = i \<and> t < m_expires m \<and>
    (\<exists>b \<in> set (t_blobs d). b_id b = m_blob m \<and> b_path b = p)"
proof
  assume "sql_get i t d = Inr (m, p)"
  then show "m \<in> set (t_messages d) \<and> m_id m = i \<and> t < m_expires m \<and>
    (\<exists>b \<in> set (t_blobs d). b_id b = m_blob m \<and> b_path b = p)"
    by (auto simp: sql_get_def split: option.splits dest!: find_SomeD)
next
  assume r: "m \<in> set (t_messages d) \<and> m_id m = i \<and> t < m_expires m \<and>
    (\<exists>b \<in> set (t_blobs d). b_id b = m_blob m \<and> b_path b = p)"
  then obtain b where b: "b \<in> set (t_blobs d)" "b_id b = m_blob m" "b_path b = p" by blast
  let ?P = "\<lambda>m. m_id m = i \<and> t < m_expires m \<and> m_blob m \<in> set (map b_id (t_blobs d))"
  have "?P m" using r b by force
  with r have "find ?P (t_messages d) \<noteq> None" by (auto simp: find_None_iff)
  then obtain m' where m': "find ?P (t_messages d) = Some m'" by blast
  with r have "m' = m"
    using distinct_key_unique [OF db_ok_keys(1) [OF assms], of m' m] by (auto dest!: find_SomeD)
  moreover have "find (\<lambda>b. b_id b = m_blob m) (t_blobs d) = Some b"
    using b find_Some_iff_key [OF db_ok_keys(2) [OF assms], of "m_blob m" b] by simp
  ultimately show "sql_get i t d = Inr (m, p)" using m' b by (simp add: sql_get_def)
qed

section \<open>Properties\<close>

lemma ListPageContext_page:
  assumes "faults s = sconst None" and "0 \<le> limit" and "0 \<le> offset"
  shows "fst (ListPageContext recipient limit offset s) =
    (let rows = inbox_rows (normalizeRecipient (uni s) recipient) (time_Unix (shd (clock s))) (sdb s)
     in Inr (map (message_of []) (take (nat limit) (drop (nat offset) rows)),
             nat offset + nat limit < length rows))"
proof -
  define ys where "ys = drop (nat offset)
    (inbox_rows (normalizeRecipient (uni s) recipient) (time_Unix (shd (clock s))) (sdb s))"
  have "fst (ListPageContext recipient limit offset s) =
      Inr (map (message_of []) (take (nat limit) ys), nat limit < length ys)"
  proof (cases "nat limit < length ys")
    case True
    then have "limit < int (length ys)" "nat (limit + 1) = Suc (nat limit)"
      using assms(2) by linarith+
    with True assms show ?thesis
      by (simp add: ListPageContext_def Let_def now_def query_rows_def query_def ext_def sql_list_def
          limit_offset_def ys_def [symmetric] take_map min_def del: length_drop)
  next
    case False
    then have "take (nat (limit + 1)) ys = ys" "take (nat limit) ys = ys" "\<not> limit < int (length ys)"
      using assms(2) by auto
    with False assms show ?thesis
      by (simp add: ListPageContext_def Let_def now_def query_rows_def query_def ext_def sql_list_def
          limit_offset_def ys_def [symmetric] del: length_drop)
  qed
  then show ?thesis by (simp add: ys_def Let_def less_diff_conv add.commute)
qed



text \<open>A stored message is read back with its bytes; times come back in whole seconds.\<close>

lemma Get_row_stored:
  assumes "db_ok (sdb s)" and "row_stored s raw m" and "faults s = sconst None"
    and "time_Unix (shd (clock s)) < time_Unix (ExpiresAt m)"
  shows "fst (Get (ID m) s) =
    Inr (m\<lparr>Received := unix_time (time_Unix (Received m)), ExpiresAt := unix_time (time_Unix (ExpiresAt m)),
          Body := raw\<rparr>)"
proof -
  obtain b where b: "b \<in> set (t_blobs (sdb s))" "row_of (b_id b) m \<in> set (t_messages (sdb s))"
    "content_of s (b_path b) = Some raw"
    using assms(2) by (auto simp: row_stored_def)
  have "sql_get (ID m) (time_Unix (shd (clock s))) (sdb s) = Inr (row_of (b_id b) m, b_path b)"
    using b assms(4) unfolding sql_get_Inr [OF assms(1)] by auto
  then show ?thesis
    using assms(3) b(3)
    by (simp add: Get_def GetContext_def now_def query_def os_ReadFile_def ext_def content_of_def
        message_of_def row_of_def)
qed

section \<open>The store behind its interface\<close>

definition save_ready :: "store \<Rightarrow> bool" where
  "save_ready s \<longleftrightarrow> store_inv s \<and> fresh_blob s"

definition raw_of :: "string \<Rightarrow> store \<Rightarrow> string option" where
  "raw_of i s = (case fst (Get i s) of Inl _ \<Rightarrow> None | Inr m \<Rightarrow> Some (Body m))"

definition readable_now :: "store \<Rightarrow> message \<Rightarrow> bool" where
  "readable_now s m \<longleftrightarrow> db_ok (sdb s) \<and> faults s = sconst None \<and>
     time_Unix (shd (clock s)) < time_Unix (ExpiresAt m)"

lemma Save_all:
  assumes "save_ready s" "Save recipients sender raw s = (Inr ms, s')"
  shows "distinct (map Recipient ms) \<and> set (map Recipient ms) = normalizeRecipient (uni s) ` set recipients
    \<and> (\<forall>m \<in> set ms. row_stored s' raw m)"
proof -
  have sv: "saved recipients sender raw ms s s'" using Save_saved assms by (simp add: save_ready_def)
  then have "distinct (map Recipient ms) \<and> set (map Recipient ms) = normalizeRecipient (uni s) ` set recipients"
    using normalize_recipients_all [of "uni s" recipients] by (simp add: saved_def)
  with saved_row_stored [OF sv] show ?thesis by blast
qed

interpretation ms: mail_store Save save_ready "\<lambda>s. normalizeRecipient (uni s)" Recipient row_stored mail_same
proof unfold_locales
  show "mail_same s s'" if "save_ready s" "Save rs from raw s = (Inl e, s')" for s rs "from" raw e s'
    using Save_not_saved that by (simp add: save_ready_def not_saved_def)
qed (rule Save_all)

interpretation rs: readable_store Save save_ready "\<lambda>s. normalizeRecipient (uni s)" Recipient row_stored mail_same
  raw_of ID readable_now
  by unfold_locales (simp add: raw_of_def readable_now_def Get_row_stored)

section \<open>Reading after writing\<close>

text \<open>
  Round trip: after a message has been accepted, reading it by its identifier before it
  expires returns its recipient, sender and subject and exactly the bytes received.
\<close>

lemma Get_after_Save:
  assumes "store_inv s" and "fresh_blob s" and "Save recipients sender raw s = (Inr ms, s')"
    and "m \<in> set ms" and "faults s' = sconst None"
    and "time_Unix (shd (clock s')) < time_Unix (ExpiresAt m)"
  shows "fst (Get (ID m) s') =
    Inr (m\<lparr>Received := unix_time (time_Unix (Received m)), ExpiresAt := unix_time (time_Unix (ExpiresAt m)),
          Body := raw\<rparr>)"
proof -
  have sv: "saved recipients sender raw ms s s'" by (rule Save_saved [OF assms(1-3)])
  have "db_ok (sdb s')" using saved_inv [OF sv] by (simp add: store_inv_def)
  then show ?thesis using saved_row_stored [OF sv assms(4)] assms(5,6) by (rule Get_row_stored)
qed

end
