(* ===== verification/StoreOpen.thy ===== *)
theory StoreOpen
  imports StoreLive StoreRead
begin

text \<open>
  Opening the store: the schema migration, the recovery of files a crash left behind, and the drain
  of the whole deletion queue. What survives a restart is the database and the message directory;
  the counters, the storage fault and the queue cursor are rebuilt.
\<close>

section \<open>Draining the whole queue\<close>

lemma drainPendingBatchLocked_pending:
  assumes "drainPendingBatchLocked cursor s = ((next, count, e), s')"
  shows "\<exists>P. t_pending (sdb s') = filter P (t_pending (sdb s))"
    and "\<not> count < cleanupBatchSize \<Longrightarrow> cursor < next \<and> next \<in> fst ` set (t_pending (sdb s))"
proof -
  obtain r1 s1 where q: "query_rows (sql_pending_batch cursor cleanupBatchSize) s = (r1, s1)" by fastforce
  obtain f where s1: "s1 = s\<lparr>faults := f\<rparr>" using q by (cases rule: query_rows_cases) auto
  have all: "\<exists>P. t_pending (sdb s) = filter P (t_pending (sdb s))" by (rule exI [of _ "\<lambda>_. True"]) simp
  have "(\<exists>P. t_pending (sdb s') = filter P (t_pending (sdb s))) \<and>
    (\<not> count < cleanupBatchSize \<longrightarrow> cursor < next \<and> next \<in> fst ` set (t_pending (sdb s)))"
  proof (cases r1)
    case (Inl e)
    with assms q s1 all show ?thesis by (auto simp: drainPendingBatchLocked_def cleanupBatchSize_def)
  next
    case (Inr rows)
    have rows: "set rows \<subseteq> {r \<in> set (t_pending (sdb s)). cursor < fst r}"
      using q Inr set_take_subset [of cleanupBatchSize "sort_key fst (filter (\<lambda>r. cursor < fst r) (t_pending (sdb s)))"]
      by (cases rule: query_rows_cases) (auto simp: sql_pending_batch_def)
    obtain removed reclaimed fe s2 where u: "unlink_all rows s1 = ((removed, reclaimed, fe), s2)"
      by (cases "unlink_all rows s1") auto
    have s2: "sdb s2 = sdb s" using unlink_all_spec [OF u] but_disk_fields(1) [of s2 s1] s1 by auto
    have tx: "\<exists>P. t_pending (sdb s4) = filter P (t_pending (sdb s3))"
      if "inTx (delete_pending_all removed) s3 = (x, s4)" for x s3 s4
      using that
    proof (cases rule: inTx_cases)
      case (committed g x s2 h)
      with delete_pending_all_spec [OF committed(2)] show ?thesis by (cases x) auto
    qed (auto intro: exI [of _ "\<lambda>_. True"])
    have sy: "sdb s3 = sdb s2" if "syncDirectory s2 = (x, s3)" for x s3
      using syncDirectory_touches(1) [OF that] by (simp add: touches_def)
    have "\<exists>P. t_pending (sdb s') = filter P (t_pending (sdb s))"
      using assms q Inr u s2 all
      by (auto simp: drainPendingBatchLocked_def split: if_splits prod.splits option.splits sum.splits
          dest!: tx sy)
    moreover have "cursor < next \<and> next \<in> fst ` set (t_pending (sdb s))" if "\<not> count < cleanupBatchSize"
    proof -
      have c: "count = length rows" "next = last_path rows"
        using assms q Inr u that
        by (auto simp: drainPendingBatchLocked_def cleanupBatchSize_def
            split: if_splits prod.splits option.splits sum.splits)
      then have "rows \<noteq> []" using that by (auto simp: cleanupBatchSize_def)
      then have "last rows \<in> {r \<in> set (t_pending (sdb s)). cursor < fst r}" "next = fst (last rows)"
        using last_in_set rows c(2) by (auto simp: last_path_def)
      then show ?thesis by simp
    qed
    ultimately show ?thesis by blast
  qed
  then show "\<exists>P. t_pending (sdb s') = filter P (t_pending (sdb s))"
    "\<not> count < cleanupBatchSize \<Longrightarrow> cursor < next \<and> next \<in> fst ` set (t_pending (sdb s))" by auto
qed

lemma drain_all_smaller:
  assumes "drainPendingBatchLocked cursor s = ((next, count, e), s')" "\<not> count < cleanupBatchSize"
  shows "length (filter (\<lambda>r. next < fst r) (t_pending (sdb s')))
    < length (filter (\<lambda>r. cursor < fst r) (t_pending (sdb s)))"
proof -
  obtain P where P: "t_pending (sdb s') = filter P (t_pending (sdb s))"
    using drainPendingBatchLocked_pending(1) [OF assms(1)] by blast
  have n: "cursor < next" "next \<in> fst ` set (t_pending (sdb s))"
    using drainPendingBatchLocked_pending(2) [OF assms] by auto
  let ?c = "filter (\<lambda>r. cursor < fst r) (t_pending (sdb s))"
  have "filter (\<lambda>r. next < fst r) (t_pending (sdb s')) = filter (\<lambda>r. P r \<and> next < fst r) ?c"
    unfolding P using n(1) by (auto simp: filter_filter intro: filter_cong dest: less_trans)
  moreover obtain r where "r \<in> set ?c" "fst r = next" using n by auto
  then have "length (filter (\<lambda>r. P r \<and> next < fst r) ?c) < length ?c"
    by (intro length_filter_less) auto
  ultimately show ?thesis by simp
qed

function drain_all :: "string \<Rightarrow> goerr option \<Rightarrow> store \<Rightarrow> goerr option \<times> store" where
  "drain_all cursor firstErr s =
     (case drainPendingBatchLocked cursor s of
        ((next, count, err), s1) \<Rightarrow>
          (let firstErr' = (if firstErr = None then err else firstErr) in
           if err \<noteq> None \<and> next = [] then (firstErr', s1)
           else if count < cleanupBatchSize then (firstErr', s1)
           else drain_all next firstErr' s1))"
  by pat_completeness auto
termination
  by (relation "measure (\<lambda>(cursor, _, s). length (filter (\<lambda>r. cursor < fst r) (t_pending (sdb s))))")
    (auto intro: drain_all_smaller [OF sym])

declare drain_all.simps [simp del]

definition drainAllPendingLocked :: "store \<Rightarrow> goerr option \<times> store" where
  "drainAllPendingLocked s = drain_all [] None s"

lemma drain_all_upkeep:
  "drain_all cursor fe s = (r, s') \<Longrightarrow> store_inv s \<Longrightarrow> store_inv s' \<and> upkeep s s' \<and> storageFault s' = storageFault s"
proof (induction cursor fe s rule: drain_all.induct)
  case (1 cursor fe s)
  obtain n c e s1 where b: "drainPendingBatchLocked cursor s = ((n, c, e), s1)"
    by (cases "drainPendingBatchLocked cursor s") auto
  have ok: "db_ok (sdb s)" using "1.prems"(2) by (simp add: store_inv_def)
  note d = conjunct1 [OF drainPendingBatchLocked_drains [OF ok b]]
  have up: "store_inv s1" "upkeep s s1" "storageFault s1 = storageFault s"
    using drains_inv [OF "1.prems"(2) d] drains_upkeep [OF ok d] d by (auto simp: drains_def)
  let ?fe = "if fe = None then e else fe"
  show ?case
  proof (cases "(e \<noteq> None \<and> n = []) \<or> c < cleanupBatchSize")
    case True
    then have "s' = s1" using "1.prems"(1) b by (auto simp: drain_all.simps [of cursor fe s] Let_def split: if_splits)
    with up show ?thesis by simp
  next
    case False
    then have rec: "drain_all n ?fe s1 = (r, s')"
      using "1.prems"(1) b by (auto simp: drain_all.simps [of cursor fe s] Let_def)
    from "1.IH" [OF b [symmetric] refl refl refl _ _ rec up(1)] False up show ?thesis
      by (auto intro: upkeep_trans)
  qed
qed

section \<open>Recovery\<close>

text \<open>
  \<^verbatim>\<open>os.ReadDir\<close>: the files and subdirectories of the message directory, sorted by name.
\<close>

definition entry_name :: "string \<Rightarrow> string \<Rightarrow> string option" where
  "entry_name dir p =
     (let n = drop (length (os_join dir [])) p in
      if HasPrefix p (os_join dir []) \<and> good_part n \<and> n \<noteq> ''..'' then Some n else None)"

definition dir_entries :: "store \<Rightarrow> (string \<times> bool) list" where
  "dir_entries s =
     sort_key fst (List.map_filter (\<lambda>f. map_option (\<lambda>n. (n, False)) (entry_name (msgDir s) (fst f))) (disk s)
       @ map (\<lambda>n. (n, True)) (subdirs s))"

definition os_ReadDir :: "store \<Rightarrow> (string \<times> bool) list result \<times> store" where
  "os_ReadDir s =
     (case ext s of (Some e, s1) \<Rightarrow> (Inl e, s1) | (None, s1) \<Rightarrow> (Inr (dir_entries s1), s1))"

fun stat_all :: "string list \<Rightarrow> store \<Rightarrow> goerr option \<times> store" where
  "stat_all [] s = (None, s)"
| "stat_all (p # ps) s =
     (case os_Stat p s of
        (Inl e, s1) \<Rightarrow> (Some (ErrReferencedBlob p e), s1)
      | (Inr _, s1) \<Rightarrow> stat_all ps s1)"

fun queue_orphans :: "string set \<Rightarrow> (string \<times> bool) list \<Rightarrow> store \<Rightarrow> goerr option \<times> store" where
  "queue_orphans referenced [] s = (None, s)"
| "queue_orphans referenced ((name, isDir) # es) s =
     (if isDir \<or> (\<not> HasPrefix name ''.incoming-'' \<and> \<not> HasSuffix name ''.eml'')
      then queue_orphans referenced es s
      else
        (let path = filepath_Join (msgDir s) name in
         if filepath_Clean path \<in> referenced then queue_orphans referenced es s
         else case os_Stat path s of
             (Inl e, s1) \<Rightarrow> (Some e, s1)
           | (Inr n, s1) \<Rightarrow>
               (case exec (sql_insert_ignore_pending path n) s1 of
                  (Some e, s2) \<Rightarrow> (Some e, s2)
                | (None, s2) \<Rightarrow> queue_orphans referenced es s2)))"

definition sql_distinct_recipients :: "db \<Rightarrow> string list result" where
  "sql_distinct_recipients d = Inr (remdups (map m_recipient (t_messages d)))"

definition sql_update_recipient :: "string \<Rightarrow> string \<Rightarrow> db \<Rightarrow> db result" where
  "sql_update_recipient new old d =
     Inr (d\<lparr>t_messages := map (\<lambda>m. if m_recipient m = old then m\<lparr>m_recipient := new\<rparr> else m) (t_messages d)\<rparr>)"

fun update_recipients :: "unicode \<Rightarrow> string list \<Rightarrow> store \<Rightarrow> unit result \<times> store" where
  "update_recipients u [] s = (Inr (), s)"
| "update_recipients u (r # rs) s =
     (case exec (sql_update_recipient (normalizeRecipient u r) r) s of
        (Some e, s1) \<Rightarrow> (Inl e, s1)
      | (None, s1) \<Rightarrow> update_recipients u rs s1)"

definition normalizeStoredRecipients :: "store \<Rightarrow> goerr option \<times> store" where
  "normalizeStoredRecipients s =
     (case query_rows sql_distinct_recipients s of
        (Inl e, s1) \<Rightarrow> (Some e, s1)
      | (Inr all, s1) \<Rightarrow>
          (let recipients = filter (\<lambda>r. r \<noteq> normalizeRecipient (uni s) r) all in
           if recipients = [] then (None, s1)
           else case inTx (update_recipients (uni s) recipients) s1 of
               (Inl e, s2) \<Rightarrow> (Some e, s2)
             | (Inr _, s2) \<Rightarrow> (None, s2)))"

definition reconcileFiles :: "store \<Rightarrow> goerr option \<times> store" where
  "reconcileFiles s =
     (case normalizeStoredRecipients s of
        (Some e, s1) \<Rightarrow> (Some e, s1)
      | (None, s1) \<Rightarrow>
          (case query_rows (\<lambda>d. Inr (map b_path (t_blobs d))) s1 of
             (Inl e, s2) \<Rightarrow> (Some e, s2)
           | (Inr paths, s2) \<Rightarrow>
               (case stat_all paths s2 of
                  (Some e, s3) \<Rightarrow> (Some e, s3)
                | (None, s3) \<Rightarrow>
                    (case os_ReadDir s3 of
                       (Inl e, s4) \<Rightarrow> (Some e, s4)
                     | (Inr entries, s4) \<Rightarrow>
                         (case queue_orphans (set (map filepath_Clean paths)) entries s4 of
                            (Some e, s5) \<Rightarrow> (Some e, s5)
                          | (None, s5) \<Rightarrow>
                              (case loadStorageUsage s5 of
                                 (Some e, s6) \<Rightarrow> (Some e, s6)
                               | (None, s6) \<Rightarrow> (None, snd (drainAllPendingLocked s6))))))))"

section \<open>The schema\<close>

text \<open>
  What the database file holds before it is opened: no message table, the table of releases that
  kept one file per message (with or without a \<^verbatim>\<open>blob_id\<close> column), or the current tables.
\<close>

datatype schema = NoMessages | LegacyMessages bool "(msg_row \<times> string) list" | CurrentTables

definition sql_legacy_blobs :: "(msg_row \<times> string) list \<Rightarrow> db \<Rightarrow> db result" where
  "sql_legacy_blobs rows d =
     (if (\<exists>r \<in> set rows. m_id (fst r) \<in> set (map b_id (t_blobs d))) then Inl ErrConstraint
      else Inr (d\<lparr>t_blobs := t_blobs d @
        map (\<lambda>(m, p). \<lparr>b_id = m_id m, b_path = p, b_size = m_size m, b_refs = 1\<rparr>) rows\<rparr>))"

definition sql_legacy_messages :: "(msg_row \<times> string) list \<Rightarrow> db \<Rightarrow> db result" where
  "sql_legacy_messages rows d = Inr (d\<lparr>t_messages := map (\<lambda>(m, p). m\<lparr>m_blob := m_id m\<rparr>) rows\<rparr>)"

text \<open>A statement that changes the schema only.\<close>

definition sql_ddl :: "db \<Rightarrow> db result" where
  "sql_ddl d = Inr d"

definition migrate_tx :: "bool \<Rightarrow> (msg_row \<times> string) list \<Rightarrow> store \<Rightarrow> unit result \<times> store" where
  "migrate_tx hasBlobID rows s =
     (case exec sql_ddl s of
        (Some e, s1) \<Rightarrow> (Inl e, s1)
      | (None, s1) \<Rightarrow>
          (case query_rows (\<lambda>_. Inr hasBlobID) s1 of
             (Inl e, s2) \<Rightarrow> (Inl e, s2)
           | (Inr has, s2) \<Rightarrow>
               (case (if has then (None, s2) else exec sql_ddl s2) of
                  (Some e, s3) \<Rightarrow> (Inl e, s3)
                | (None, s3) \<Rightarrow>
                    (case exec (sql_legacy_blobs rows) s3 of
                       (Some e, s4) \<Rightarrow> (Inl e, s4)
                     | (None, s4) \<Rightarrow>
                         (case exec (sql_legacy_messages rows) s4 of
                            (Some e, s5) \<Rightarrow> (Inl e, s5)
                          | (None, s5) \<Rightarrow>
                              (case exec sql_ddl s5 of
                                 (Some e, s6) \<Rightarrow> (Inl e, s6)
                               | (None, s6) \<Rightarrow> (Inr (), s6)))))))"

definition tableExists :: "schema \<Rightarrow> store \<Rightarrow> bool result \<times> store" where
  "tableExists sch s = query (\<lambda>_. Inr (sch \<noteq> NoMessages)) s"

definition columnExists_path :: "schema \<Rightarrow> store \<Rightarrow> bool result \<times> store" where
  "columnExists_path sch s =
     query_rows (\<lambda>_. Inr (case sch of LegacyMessages _ _ \<Rightarrow> True | _ \<Rightarrow> False)) s"

definition migrateLegacySchema :: "schema \<Rightarrow> store \<Rightarrow> goerr option \<times> store" where
  "migrateLegacySchema sch s =
     (case tableExists sch s of
        (Inl e, s1) \<Rightarrow> (Some e, s1)
      | (Inr hasMessages, s1) \<Rightarrow>
          if \<not> hasMessages then (None, s1)
          else case columnExists_path sch s1 of
              (Inl e, s2) \<Rightarrow> (Some e, s2)
            | (Inr hasPath, s2) \<Rightarrow>
                (case sch of
                   LegacyMessages hasBlobID rows \<Rightarrow>
                     (case inTx (migrate_tx hasBlobID rows) s2 of
                        (Inl e, s3) \<Rightarrow> (Some e, s3)
                      | (Inr _, s3) \<Rightarrow> (None, s3))
                 | _ \<Rightarrow> (None, s2)))"

section \<open>OpenStore\<close>

fun exec_ddls :: "nat \<Rightarrow> store \<Rightarrow> goerr option \<times> store" where
  "exec_ddls 0 s = (None, s)"
| "exec_ddls (Suc n) s =
     (case exec sql_ddl s of (Some e, s1) \<Rightarrow> (Some e, s1) | (None, s1) \<Rightarrow> exec_ddls n s1)"

text \<open>
  The state of a process that has just started: what it keeps of \<open>w\<close> is the database and the disk.
\<close>

definition booted :: "string \<Rightarrow> config \<Rightarrow> store \<Rightarrow> store" where
  "booted dir c w = w\<lparr>msgDir := dir, cfg := c, storedBytes := 0, storedMessages := 0,
     storageFault := None, pendingCursor := [], cleanupErrorCount := 0, lastCleanup := None\<rparr>"

definition OpenStore :: "schema \<Rightarrow> string \<Rightarrow> config \<Rightarrow> store \<Rightarrow> goerr option \<times> store" where
  "OpenStore sch dir c w =
     (let s = booted dir c w in
      case ext s of
        (Some e, s1) \<Rightarrow> (Some e, s1)
      | (None, s1) \<Rightarrow>
          (case ext s1 of
             (Some e, s2) \<Rightarrow> (Some e, s2)
           | (None, s2) \<Rightarrow>
               (case migrateLegacySchema sch s2 of
                  (Some e, s3) \<Rightarrow> (Some e, s3)
                | (None, s3) \<Rightarrow>
                    (case exec_ddls 7 s3 of
                       (Some e, s4) \<Rightarrow> (Some e, s4)
                     | (None, s4) \<Rightarrow>
                         (case reconcileFiles s4 of
                            (Some e, s5) \<Rightarrow> (Some e, s5)
                          | (None, s5) \<Rightarrow> loadStorageUsage s5)))))"

section \<open>Recipients are normalised\<close>

definition renamed :: "(string \<Rightarrow> string) \<Rightarrow> db \<Rightarrow> db" where
  "renamed f d = d\<lparr>t_messages := map (\<lambda>m. m\<lparr>m_recipient := f (m_recipient m)\<rparr>) (t_messages d)\<rparr>"

lemma renamed_simps [simp]:
  "t_blobs (renamed f d) = t_blobs d" "t_pending (renamed f d) = t_pending d"
  "blob_paths (renamed f d) = blob_paths d" "pending_paths (renamed f d) = pending_paths d"
  "sum_blobs (renamed f d) = sum_blobs d" "sum_pending (renamed f d) = sum_pending d"
  by (simp_all add: renamed_def blob_paths_def pending_paths_def sum_blobs_def sum_pending_def)

lemma renamed_comp: "renamed g (renamed f d) = renamed (g \<circ> f) d"
  by (simp add: renamed_def comp_def)

lemma renamed_id: "(\<And>m. m \<in> set (t_messages d) \<Longrightarrow> f (m_recipient m) = m_recipient m) \<Longrightarrow> renamed f d = d"
  by (simp add: renamed_def map_idI)

lemma db_ok_renamed [simp]: "db_ok (renamed f d) = db_ok d"
  by (auto simp: db_ok_def renamed_def blob_paths_def pending_paths_def refs_of_def comp_def filter_map)

lemma sql_update_renamed:
  "sql_update_recipient new old d = Inr (renamed (\<lambda>r. if r = old then new else r) d)"
  by (auto simp: sql_update_recipient_def renamed_def)

lemma update_recipients_renamed:
  assumes idem: "\<And>r. normalizeRecipient u (normalizeRecipient u r) = normalizeRecipient u r"
  shows "\<forall>r \<in> set rs. r \<noteq> normalizeRecipient u r \<Longrightarrow> update_recipients u rs s = (x, s') \<Longrightarrow>
   but_db s' = but_db s \<and>
   (x = Inr () \<longrightarrow> sdb s' = renamed (\<lambda>r. if r \<in> set rs then normalizeRecipient u r else r) (sdb s))"
proof (induction rs arbitrary: s)
  case Nil
  then show ?case by (auto simp: renamed_id)
next
  case (Cons r rs)
  obtain e s1 where e: "exec (sql_update_recipient (normalizeRecipient u r) r) s = (e, s1)" by fastforce
  show ?case
  proof (cases e)
    case (Some er)
    with Cons.prems e exec_frame [OF e] show ?thesis by auto
  next
    case None
    then have s1: "sdb s1 = renamed (\<lambda>x. if x = r then normalizeRecipient u r else x) (sdb s)" "but_db s1 = but_db s"
      using e by (auto simp: sql_update_renamed elim!: exec_cases)
    have "update_recipients u rs s1 = (x, s')" using Cons.prems(2) e None by simp
    note IH = Cons.IH [OF _ this]
    have "(\<lambda>x. if x \<in> set rs then normalizeRecipient u x else x) \<circ> (\<lambda>x. if x = r then normalizeRecipient u r else x)
        = (\<lambda>x. if x \<in> set (r # rs) then normalizeRecipient u x else x)"
      using Cons.prems(1) idem by (auto simp: fun_eq_iff)
    with IH Cons.prems(1) s1 show ?thesis by (auto simp: renamed_comp)
  qed
qed

lemma normalizeStoredRecipients_spec:
  assumes idem: "\<And>r. normalizeRecipient (uni s) (normalizeRecipient (uni s) r) = normalizeRecipient (uni s) r"
    and n: "normalizeStoredRecipients s = (e, s')"
  shows "but_db s' = but_db s" "e = None \<Longrightarrow> sdb s' = renamed (normalizeRecipient (uni s)) (sdb s)"
proof -
  let ?N = "normalizeRecipient (uni s)"
  obtain q s1 where q: "query_rows sql_distinct_recipients s = (q, s1)" by fastforce
  have "but_db s' = but_db s \<and> (e = None \<longrightarrow> sdb s' = renamed ?N (sdb s))"
    using q
  proof (cases rule: query_rows_cases)
    case (err er f)
    with n q show ?thesis by (auto simp: normalizeStoredRecipients_def)
  next
    case (ok f all)
    let ?rs = "filter (\<lambda>r. r \<noteq> ?N r) all"
    have all: "set all = m_recipient ` set (t_messages (sdb s))"
      using ok(2) by (auto simp: sql_distinct_recipients_def)
    have upd: "renamed (\<lambda>r. if r \<in> set ?rs then ?N r else r) (sdb s) = renamed ?N (sdb s)"
      using all by (auto simp: renamed_def)
    show ?thesis
    proof (cases "?rs = []")
      case True
      then have "\<forall>m \<in> set (t_messages (sdb s)). ?N (m_recipient m) = m_recipient m"
        using all by (auto simp: filter_empty_conv)
      with True n q ok show ?thesis by (auto simp: normalizeStoredRecipients_def Let_def renamed_id)
    next
      case False
      obtain x s2 where x: "inTx (update_recipients (uni s) ?rs) s1 = (x, s2)" by fastforce
      then have s': "s' = s2 \<and> (e = None \<longleftrightarrow> (\<exists>y. x = Inr y))"
        using n q ok False by (auto simp: normalizeStoredRecipients_def Let_def split: sum.splits)
      have ne: "\<forall>r \<in> set ?rs. r \<noteq> ?N r" by auto
      from x show ?thesis
      proof (cases rule: inTx_cases)
        case (committed g y s3 h)
        with update_recipients_renamed [OF idem ne committed(2)] ok(3) s' upd show ?thesis by auto
      qed (use s' ok(3) update_recipients_renamed [OF idem ne] in \<open>auto dest!: update_recipients_renamed [OF idem ne]\<close>)
    qed
  qed
  then show "but_db s' = but_db s" "e = None \<Longrightarrow> sdb s' = renamed ?N (sdb s)" by auto
qed

end
