(* ===== verification/StoreRecovery.thy ===== *)
theory StoreRecovery
  imports StoreOpen
begin

text \<open>
  Recovery after a crash. A process can stop at any point of a save; what it leaves is a database
  whose tables are consistent, the files of its blobs, and possibly files no table knows about.
  Opening the store restores the invariant and puts every such file of the message directory on the
  deletion queue, without touching any mail.
\<close>

section \<open>The message directory\<close>

lemma filepath_Join_messages:
  assumes n: "good_part n" "n \<noteq> ''..''"
  shows "filepath_Join (filepath_Join d ''messages'') n = os_join (filepath_Join d ''messages'') n"
proof -
  let ?D = "filepath_Join d ''messages''"
  have m: "good_part ''messages''" "''messages'' \<noteq> ''..''" by (simp_all add: good_part_def)
  obtain pre where pre: "?D = pre @ ''messages''" by (rule filepath_Join_suffix [OF m])
  have sl: "CHR ''/'' \<notin> set n" using n(1) by (simp add: good_part_def)
  define cs where "cs = clean_parts (is_rooted ?D) [] (Split ?D CHR ''/'')"
  have D: "?D = (if is_rooted ?D then CHR ''/'' # Join cs CHR ''/''
                 else if cs = [] then ''.'' else Join cs CHR ''/'')"
    using filepath_Clean_Join [of d "''messages''"] unfolding filepath_Clean_def [of ?D] cs_def [symmetric] Let_def
    by simp
  have ne: "cs \<noteq> []"
  proof
    assume "cs = []"
    then have "?D = ''/'' \<or> ?D = ''.''" using D by (auto split: if_splits)
    then have "length ?D = 1" by auto
    then show False by (simp add: pre)
  qed
  have root: "is_rooted (?D @ CHR ''/'' # n) = is_rooted ?D"
    by (cases pre) (auto simp: is_rooted_def HasPrefix_def pre)
  have parts: "clean_parts (is_rooted ?D) [] (Split (?D @ CHR ''/'' # n) CHR ''/'') = cs @ [n]"
    by (simp add: Split_snoc [OF sl] clean_parts_append_good [OF n] cs_def)
  have "?D \<noteq> []" by (simp add: pre)
  then have "filepath_Join ?D n = filepath_Clean (?D @ CHR ''/'' # n)" by (simp only: filepath_Join_def [of ?D] if_False)
  also have "\<dots> = ?D @ CHR ''/'' # n"
  proof (cases "is_rooted ?D")
    case True
    then have "?D = CHR ''/'' # Join cs CHR ''/''" using D by (simp only: if_True)
    with True show ?thesis unfolding filepath_Clean_def root parts Let_def by (simp add: Join_snoc [OF ne])
  next
    case False
    then have "?D = Join cs CHR ''/''" using D ne by (simp only: if_False)
    with False show ?thesis unfolding filepath_Clean_def root parts Let_def by (simp add: Join_snoc [OF ne])
  qed
  also have "\<dots> = os_join ?D n" by (simp add: os_join_def pre HasSuffix_def)
  finally show ?thesis .
qed

section \<open>Each step of the recovery\<close>

lemma stat_all_touches: "stat_all ps s = (e, s') \<Longrightarrow> touches {} s s' \<and> content_of s' = content_of s"
proof (induction ps arbitrary: s)
  case Nil
  then show ?case by simp
next
  case (Cons p ps)
  obtain x s1 where x: "os_Stat p s = (x, s1)" by fastforce
  note st = os_Stat_touches [OF x]
  show ?case using Cons.prems Cons.IH [of s1] x st
    by (cases x) (auto dest: touches_trans [OF st(1)])
qed

text \<open>The orphans are queued; the files and the mail stay.\<close>

lemma queue_orphans_spec:
  "queue_orphans R es s = (e, s') \<Longrightarrow> db_ok (sdb s) \<Longrightarrow> (\<And>p. p \<in> blob_paths (sdb s) \<Longrightarrow> filepath_Clean p \<in> R) \<Longrightarrow>
   but_db s' = but_db s \<and> db_ok (sdb s') \<and> t_messages (sdb s') = t_messages (sdb s) \<and>
   t_blobs (sdb s') = t_blobs (sdb s) \<and> pending_paths (sdb s) \<subseteq> pending_paths (sdb s') \<and>
   (e = None \<longrightarrow> (\<forall>n. (n, False) \<in> set es \<and> (HasPrefix n ''.incoming-'' \<or> HasSuffix n ''.eml'') \<and>
      filepath_Join (msgDir s) n \<notin> R \<longrightarrow> filepath_Join (msgDir s) n \<in> pending_paths (sdb s')))"
proof (induction es arbitrary: s)
  case Nil
  then show ?case by simp
next
  case (Cons en es)
  obtain name isDir where en: "en = (name, isDir)" by (cases en)
  let ?skip = "isDir \<or> (\<not> HasPrefix name ''.incoming-'' \<and> \<not> HasSuffix name ''.eml'')"
  let ?p = "filepath_Join (msgDir s) name"
  show ?case
  proof (cases "?skip \<or> ?p \<in> R")
    case True
    then have rec: "queue_orphans R es s = (e, s')"
      using Cons.prems(1) en by (auto simp: Let_def split: if_splits)
    from Cons.IH [OF this Cons.prems(2,3)] True show ?thesis by (auto simp: en)
  next
    case False
    obtain x s1 where x: "os_Stat ?p s = (x, s1)" by fastforce
    note st = os_Stat_touches [OF x]
    have b1: "but_db s1 = but_db s" "sdb s1 = sdb s"
      using x by (auto simp: os_Stat_def ext_def split: option.splits)
    show ?thesis
    proof (cases x)
      case (Inl er)
      with Cons.prems False x b1 en show ?thesis by (auto simp: Let_def)
    next
      case (Inr n)
      obtain y s2 where y: "exec (sql_insert_ignore_pending ?p n) s1 = (y, s2)" by fastforce
      have "?p \<notin> blob_paths (sdb s)" using Cons.prems(3) [of ?p] False by auto
      note add = db_ok_add_pending [OF Cons.prems(2) this st(3) [OF Inr]]
      show ?thesis
      proof (cases y)
        case (Some er)
        have "but_db s2 = but_db s" "sdb s2 = sdb s" using y b1 Some by (auto elim!: exec_cases)
        moreover have "e = Some er" "s' = s2" using Cons.prems(1) False x Inr y Some en by (auto simp: Let_def)
        ultimately show ?thesis using Cons.prems(2) by simp
      next
        case None
        have s2: "sql_insert_ignore_pending ?p n (sdb s) = Inr (sdb s2)" "but_db s2 = but_db s"
          using y None b1 by (auto elim!: exec_cases)
        note add = add [OF s2(1)]
        have rec: "queue_orphans R es s2 = (e, s')"
          using Cons.prems(1) False x Inr y None en by (auto simp: Let_def split: if_splits)
        have dir: "msgDir s2 = msgDir s" using but_db_fields(5) [OF s2(2)] .
        have bp: "filepath_Clean p \<in> R" if "p \<in> blob_paths (sdb s2)" for p
          using Cons.prems(3) add(3) that by (simp add: blob_paths_def)
        from Cons.IH [OF rec add(1) bp] False add s2(2) dir show ?thesis by (auto simp: en)
      qed
    qed
  qed
qed

section \<open>Reconciliation\<close>

text \<open>The files of the message directory the service looks after.\<close>

definition mail_file :: "store \<Rightarrow> string \<Rightarrow> bool" where
  "mail_file s p \<longleftrightarrow> (\<exists>n. entry_name (msgDir s) p = Some n \<and> (HasPrefix n ''.incoming-'' \<or> HasSuffix n ''.eml''))"

lemma entry_name_Some:
  "entry_name dir p = Some n \<Longrightarrow> p = os_join dir n \<and> good_part n \<and> n \<noteq> ''..''"
  unfolding entry_name_def Let_def
  by (auto simp: HasPrefix_iff os_join_def split: if_splits)

lemma dir_entries_file:
  assumes "content_of s p \<noteq> None" "entry_name (msgDir s) p = Some n"
  shows "(n, False) \<in> set (dir_entries s)"
proof -
  obtain c where "(p, c) \<in> set (disk s)" using assms(1) map_of_SomeD [of "disk s" p] by (auto simp: content_of_def)
  then show ?thesis using assms(2) by (force simp: dir_entries_def List.map_filter_def)
qed

definition clean_dir :: "string \<Rightarrow> bool" where
  "clean_dir dir \<longleftrightarrow> (\<forall>n. good_part n \<and> n \<noteq> ''..'' \<longrightarrow> filepath_Join dir n = os_join dir n)"

text \<open>What recovery gives: the mail is that of before with normalised recipients.\<close>

definition recovered :: "store \<Rightarrow> store \<Rightarrow> bool" where
  "recovered w s \<longleftrightarrow>
     store_inv s \<and> storageFault s = None \<and>
     t_messages (sdb s) = t_messages (renamed (normalizeRecipient (uni w)) (sdb w)) \<and>
     t_blobs (sdb s) = t_blobs (sdb w) \<and>
     (\<forall>q \<in> blob_paths (sdb w). content_of s q = content_of w q) \<and>
     (\<forall>p \<in> uncovered s. \<not> mail_file s p)"

lemma reconcileFiles_recovers:
  assumes ok: "db_ok (sdb s)" "files_ok s" "storageFault s = None" and u: "unicode_ok (uni s)"
    and dir: "clean_dir (msgDir s)" and paths: "\<forall>p \<in> blob_paths (sdb s). filepath_Clean p = p"
    and rec: "reconcileFiles s = (None, s')"
  shows "recovered s s' \<and> fixed s' = fixed s"
proof -
  obtain s1 where n1: "normalizeStoredRecipients s = (None, s1)"
    using rec by (auto simp: reconcileFiles_def split: prod.splits option.splits)
  note n = normalizeStoredRecipients_spec [OF normalizeRecipient_idem_lemma [OF u] n1]
  obtain ps s2 where q: "query_rows (\<lambda>d. Inr (map b_path (t_blobs d))) s1 = (Inr ps, s2)"
    using rec n1 by (auto simp: reconcileFiles_def split: prod.splits sum.splits)
  have s2: "but_db s2 = but_db s" "sdb s2 = renamed (normalizeRecipient (uni s)) (sdb s)"
    "ps = map b_path (t_blobs (sdb s))"
    using q n by (auto elim!: query_rows_cases)
  obtain s3 where st: "stat_all ps s2 = (None, s3)"
    using rec n1 q by (auto simp: reconcileFiles_def split: prod.splits option.splits)
  note t3 = stat_all_touches [OF st]
  obtain es s4 where rd: "os_ReadDir s3 = (Inr es, s4)"
    using rec n1 q st by (auto simp: reconcileFiles_def split: prod.splits sum.splits)
  have s4: "touches {} s2 s4" "es = dir_entries s4"
    using rd t3 touches_trans [of "{}" s2 s3 "{}" s4]
    by (auto simp: os_ReadDir_def ext_def dir_entries_def split: option.splits)
  obtain s5 where qo: "queue_orphans (set (map filepath_Clean ps)) es s4 = (None, s5)"
    using rec n1 q st rd by (auto simp: reconcileFiles_def split: prod.splits option.splits)
  obtain s6 where l: "loadStorageUsage s5 = (None, s6)" and dr: "s' = snd (drainAllPendingLocked s6)"
    using rec n1 q st rd qo by (auto simp: reconcileFiles_def split: prod.splits option.splits)
  have db4: "sdb s4 = renamed (normalizeRecipient (uni s)) (sdb s)" using s4(1) s2(2) by (simp add: touches_def)
  have ok4: "db_ok (sdb s4)" using ok(1) db4 by simp
  have cont4: "content_of s4 = content_of s" "fixed s4 = fixed s" "storageFault s4 = None"
    using s4(1) but_db_fields [OF s2(1)] ok(3) by (auto simp: touches_def content_of_def fun_eq_iff fixed_def)
  have R: "filepath_Clean p \<in> set (map filepath_Clean ps)" if "p \<in> blob_paths (sdb s4)" for p
    using that by (auto simp: db4 s2(3) blob_paths_def)
  have R': "set (map filepath_Clean ps) = blob_paths (sdb s)"
    using paths by (auto simp: s2(3) blob_paths_def image_image)
  note o = queue_orphans_spec [OF qo ok4 R]
  note f5 = but_db_fields [OF conjunct1 [OF o]]
  note f6 = but_counts_fields [OF loadStorageUsage_spec(1) [OF l]]
  have cont6: "content_of s6 = content_of s" "fixed s6 = fixed s" "storageFault s6 = None" "sdb s6 = sdb s5"
    using f5 f6 cont4 by (auto simp: content_of_def fun_eq_iff fixed_def)
  have same6: "t_blobs (sdb s6) = t_blobs (sdb s)"
    "t_messages (sdb s6) = t_messages (renamed (normalizeRecipient (uni s)) (sdb s))"
    using o cont6(4) db4 by simp_all
  have inv6: "store_inv s6"
    using o cont6 same6 ok(2) loadStorageUsage_spec(2) [OF l] by (simp add: store_inv_def files_ok_def)
  have unc6: "\<not> mail_file s6 p" if p: "p \<in> uncovered s6" for p
  proof
    assume "mail_file s6 p"
    then obtain nm where nm: "entry_name (msgDir s4) p = Some nm" "HasPrefix nm ''.incoming-'' \<or> HasSuffix nm ''.eml''"
      using cont6(2) cont4(2) by (auto simp: mail_file_def fixed_def)
    have "(nm, False) \<in> set es"
      unfolding s4(2) by (rule dir_entries_file [OF _ nm(1)]) (use p cont6(1) cont4(1) in \<open>simp add: uncovered_def\<close>)
    moreover have "filepath_Join (msgDir s4) nm = p"
      using entry_name_Some [OF nm(1)] dir cont4(2) by (simp add: clean_dir_def fixed_def)
    ultimately have "p \<in> blob_paths (sdb s) \<or> p \<in> pending_paths (sdb s6)"
      using o nm(2) R' cont6(4) by auto
    then show False using p same6(1) by (auto simp: uncovered_def blob_paths_def)
  qed
  have up: "store_inv s' \<and> upkeep s6 s' \<and> storageFault s' = storageFault s6"
    using drain_all_upkeep [of "[]" None s6 "fst (drainAllPendingLocked s6)" s'] inv6 dr
    by (simp add: drainAllPendingLocked_def)
  have "msgDir s' = msgDir s6" using up fixed_fields(4) [of s' s6] by (simp add: upkeep_def)
  then have "\<forall>p \<in> uncovered s'. \<not> mail_file s' p"
    using up unc6 by (auto simp: upkeep_def mail_file_def)
  with up cont6 same6 show ?thesis by (auto simp: recovered_def upkeep_def blob_paths_def)
qed

lemma exec_ddls_touches: "exec_ddls n s = (e, s') \<Longrightarrow> touches {} s s'"
proof (induction n arbitrary: s)
  case 0
  then show ?case by simp
next
  case (Suc n)
  obtain x s1 where x: "exec sql_ddl s = (x, s1)" by fastforce
  then have "touches {} s s1" by (auto simp: sql_ddl_def touches_def elim!: exec_cases)
  with Suc x touches_trans [of "{}" s s1 "{}" s'] show ?case by (cases x) auto
qed

lemma migrate_current_touches: "migrateLegacySchema CurrentTables s = (e, s') \<Longrightarrow> touches {} s s'"
  by (auto simp: migrateLegacySchema_def tableExists_def columnExists_path_def query_def query_rows_def ext_def
      split: option.splits prod.splits sum.splits)

lemma touches_none: "touches {} s s' \<Longrightarrow> content_of s' = content_of s \<and> sdb s' = sdb s \<and> fixed s' = fixed s \<and>
   storageFault s' = storageFault s"
  by (auto simp: touches_def)

lemma booted_fields [simp]:
  "sdb (booted dir c w) = sdb w" "msgDir (booted dir c w) = dir" "uni (booted dir c w) = uni w"
  "storageFault (booted dir c w) = None" "content_of (booted dir c w) = content_of w"
  "cfg (booted dir c w) = c"
  by (simp_all add: booted_def content_of_def fun_eq_iff)

lemma OpenStore_recovered:
  assumes "db_ok (sdb w)" and "files_ok w" and "unicode_ok (uni w)"
    and "\<forall>p \<in> blob_paths (sdb w). filepath_Clean p = p"
    and "OpenStore CurrentTables (filepath_Join dataDir ''messages'') c w = (None, s)"
  shows "recovered w s \<and> uni s = uni w \<and> msgDir s = filepath_Join dataDir ''messages''"
proof -
  let ?b = "booted (filepath_Join dataDir ''messages'') c w"
  obtain s2 s3 s4 s5 where e: "ext (snd (ext ?b)) = (None, s2)" "migrateLegacySchema CurrentTables s2 = (None, s3)"
    "exec_ddls 7 s3 = (None, s4)" "reconcileFiles s4 = (None, s5)" "loadStorageUsage s5 = (None, s)"
    using assms(5) by (auto simp: OpenStore_def Let_def split: prod.splits option.splits)
  have "touches {} ?b s2" using e(1) by (auto simp: ext_def touches_def)
  from touches_trans [OF touches_trans [OF this migrate_current_touches [OF e(2)]] exec_ddls_touches [OF e(3)]]
  have t: "touches {} ?b s4" by simp
  note f = touches_none [OF t]
  have fx: "uni s4 = uni w" "msgDir s4 = filepath_Join dataDir ''messages''"
    using f fixed_fields(2,4) [of s4 ?b] by simp_all
  have cd: "clean_dir (filepath_Join dataDir ''messages'')"
    using filepath_Join_messages [of _ dataDir] by (auto simp: clean_dir_def)
  have r: "recovered s4 s5 \<and> fixed s5 = fixed s4"
    by (rule reconcileFiles_recovers [OF _ _ _ _ _ _ e(4)])
      (use assms f fx cd in \<open>auto simp: files_ok_def\<close>)
  note g = but_counts_fields [OF loadStorageUsage_spec(1) [OF e(5)]]
  have "accounted s" by (rule loadStorageUsage_spec(2) [OF e(5) refl])
  then show ?thesis
    using r g f fx fixed_fields(2,4) [OF g(2)] fixed_fields(2,4) [of s5 s4]
    by (auto simp: recovered_def store_inv_def files_ok_def uncovered_def mail_file_def)
qed

section \<open>Properties\<close>

text \<open>
  C9. Crash recovery: opening the store on consistent tables and whatever files a crash left gives
  a store that satisfies the invariant with no storage fault; no message is lost, every message file
  keeps its content, recipients are normalised, and every message or temporary file of the
  directory is either a live blob or on the deletion queue.
\<close>

theorem OpenStore_recovers:
  assumes "db_ok (sdb w)" and "files_ok w" and "unicode_ok (uni w)"
    and "\<forall>p \<in> blob_paths (sdb w). filepath_Clean p = p"
    and "OpenStore CurrentTables (filepath_Join dataDir ''messages'') c w = (None, s)"
  shows "recovered w s"
  using OpenStore_recovered [OF assms] by blast

text \<open>A crashed process: a message file and a temporary file outside the tables.\<close>

definition crashed_store :: store where
  "crashed_store = full_store\<lparr>
     sdb := (sdb full_store)\<lparr>t_blobs := [\<lparr>b_id = ''o'', b_path = ''/d/messages/o.eml'', b_size = 16, b_refs = 1\<rparr>]\<rparr>,
     disk := [(''/d/messages/o.eml'', ''0123456789abcdef''), (''/d/messages/.incoming-7'', ''he'')]\<rparr>"

lemma crashed_names:
  "filepath_Join ''/d'' ''messages'' = ''/d/messages''"
  "filepath_Join ''/d/messages'' ''.incoming-7'' = ''/d/messages/.incoming-7''"
  "filepath_Join ''/d/messages'' ''o.eml'' = ''/d/messages/o.eml''"
  "filepath_Clean ''/d/messages/o.eml'' = ''/d/messages/o.eml''"
  "filepath_Clean ''/d/messages/.incoming-7'' = ''/d/messages/.incoming-7''"
  "entry_name ''/d/messages'' ''/d/messages/o.eml'' = Some ''o.eml''"
  "entry_name ''/d/messages'' ''/d/messages/.incoming-7'' = Some ''.incoming-7''"
  "HasPrefix ''.incoming-7'' ''.incoming-''" "HasSuffix ''o.eml'' ''.eml''"
  "sort_key fst [(''o.eml'', False), (''.incoming-7'', False)] = [(''.incoming-7'', False), (''o.eml'', False)]"
  "normalizeRecipient plain_unicode ''b@t.io'' = ''b@t.io''"
  by code_simp+

lemma drain_all_quiet: "quiet s \<Longrightarrow> quiet (snd (drain_all cursor fe s))"
proof (induction cursor fe s rule: drain_all.induct)
  case (1 cursor fe s)
  obtain n c s1 where b: "drainPendingBatchLocked cursor s = ((n, c, None), s1)" "quiet s1"
    using drainPendingBatchLocked_quiet [OF "1.prems"] by blast
  with "1.IH" [OF b(1) [symmetric] refl refl refl] show ?case
    by (simp add: drain_all.simps [of cursor fe s] Let_def)
qed

lemma loadStorageUsage_quiet: "quiet s \<Longrightarrow> \<exists>s'. loadStorageUsage s = (None, s')"
  by (simp add: loadStorageUsage_def)

lemma crashed_opens:
  "\<exists>s. OpenStore CurrentTables ''/d/messages'' example_config crashed_store = (None, s)"
proof -
  let ?s = "booted ''/d/messages'' example_config crashed_store"
  have q: "quiet ?s" by (simp add: quiet_def booted_def crashed_store_def full_store_def empty_store_def)
  have ddl: "exec_ddls n s = (None, s)" if "quiet s" for n s
    using that by (induction n) (simp_all add: sql_ddl_def)
  have mig: "migrateLegacySchema CurrentTables ?s = (None, ?s)"
    using q by (simp add: migrateLegacySchema_def tableExists_def columnExists_path_def)
  have uni: "uni crashed_store = plain_unicode" and db: "map m_recipient (t_messages (sdb crashed_store)) = [''b@t.io'']"
    "map b_path (t_blobs (sdb crashed_store)) = [''/d/messages/o.eml'']" "t_pending (sdb crashed_store) = []"
    and disk: "disk ?s = [(''/d/messages/o.eml'', ''0123456789abcdef''), (''/d/messages/.incoming-7'', ''he'')]"
    "subdirs ?s = []"
    by (simp_all add: booted_def crashed_store_def full_store_def empty_store_def old_row_def)
  have n: "normalizeStoredRecipients ?s = (None, ?s)"
    using q by (simp add: normalizeStoredRecipients_def sql_distinct_recipients_def uni db crashed_names)
  have st: "stat_all [''/d/messages/o.eml''] ?s = (None, ?s)"
    using q disk by (simp add: os_Stat_def content_of_def del: booted_fields)
  have "dir_entries ?s = [(''.incoming-7'', False), (''o.eml'', False)]"
    using disk by (simp add: dir_entries_def List.map_filter_def crashed_names)
  then have rd: "os_ReadDir ?s = (Inr [(''.incoming-7'', False), (''o.eml'', False)], ?s)"
    using q by (simp add: os_ReadDir_def)
  have "os_Stat ''/d/messages/.incoming-7'' ?s = (Inr 2, ?s)"
    using q disk by (simp add: os_Stat_def content_of_def del: booted_fields)
  then have "\<exists>d. queue_orphans {''/d/messages/o.eml''} [(''.incoming-7'', False), (''o.eml'', False)] ?s
      = (None, ?s\<lparr>sdb := d\<rparr>)"
    using q db
    by (intro exI [of _ "(sdb crashed_store)\<lparr>t_pending := [(''/d/messages/.incoming-7'', 2)]\<rparr>"])
      (simp add: crashed_names Let_def sql_insert_ignore_pending_def)
  then obtain d where qo: "queue_orphans {''/d/messages/o.eml''} [(''.incoming-7'', False), (''o.eml'', False)] ?s
      = (None, ?s\<lparr>sdb := d\<rparr>)" ..
  have "\<exists>s'. quiet s' \<and> loadStorageUsage (?s\<lparr>sdb := d\<rparr>) = (None, s')"
    using q by (simp add: loadStorageUsage_def)
  then have "\<exists>s'. quiet s' \<and> reconcileFiles ?s = (None, snd (drainAllPendingLocked s'))"
    using q n st rd qo db by (auto simp: reconcileFiles_def crashed_names)
  then obtain s' where s': "quiet s'" "reconcileFiles ?s = (None, snd (drainAllPendingLocked s'))" by blast
  have "quiet (snd (drainAllPendingLocked s'))"
    using drain_all_quiet [OF s'(1)] by (simp add: drainAllPendingLocked_def)
  from loadStorageUsage_quiet [OF this] q mig ddl s'(2) show ?thesis
    by (simp add: OpenStore_def Let_def)
qed

theorem OpenStore_recovers_witness:
  "\<exists>s. OpenStore CurrentTables (filepath_Join ''/d'' ''messages'') example_config crashed_store = (None, s) \<and>
     recovered crashed_store s"
proof -
  obtain s where s: "OpenStore CurrentTables (filepath_Join ''/d'' ''messages'') example_config crashed_store = (None, s)"
    using crashed_opens that unfolding crashed_names by auto
  have "recovered crashed_store s"
    by (rule OpenStore_recovers [OF _ _ _ _ s])
      (simp_all add: crashed_store_def full_store_def empty_store_def old_row_def db_ok_def files_ok_def
        content_of_def blob_paths_def pending_paths_def refs_of_def crashed_names plain_unicode_ok)
  with s show ?thesis by (intro exI conjI)
qed

end
