(* ===== verification/StoreSteps.thy ===== *)
theory StoreSteps
  imports StoreRecovery
begin

text \<open>
  The life of a store as a sequence of steps: deliveries, cleanup batches and reads in any order
  (the writer lock makes each of them atomic with respect to the others), the outside world changing
  its mind about what fails, and restarts. Every reachable store satisfies the invariant.
\<close>

section \<open>Migration of the old schema\<close>

definition legacy_ok :: "(msg_row \<times> string) list \<Rightarrow> bool" where
  "legacy_ok rows \<longleftrightarrow> distinct (map (m_id \<circ> fst) rows) \<and> distinct (map snd rows) \<and>
     (\<forall>r \<in> set rows. 0 \<le> m_size (fst r))"

definition migrated :: "(msg_row \<times> string) list \<Rightarrow> db \<Rightarrow> db" where
  "migrated rows d = d\<lparr>
     t_blobs := t_blobs d @ map (\<lambda>(m, p). \<lparr>b_id = m_id m, b_path = p, b_size = m_size m, b_refs = 1\<rparr>) rows,
     t_messages := map (\<lambda>(m, p). m\<lparr>m_blob := m_id m\<rparr>) rows\<rparr>"

lemma migrate_tx_ok:
  assumes "migrate_tx hb rows s = (Inr (), s')"
  shows "sdb s' = migrated rows (sdb s)"
  using assms
  by (auto simp: migrate_tx_def sql_ddl_def sql_legacy_blobs_def sql_legacy_messages_def migrated_def
      exec_def query_rows_def query_def ext_def split: option.splits sum.splits prod.splits if_splits)

lemma filter_id_single:
  "distinct (map (m_id \<circ> fst) rows) \<Longrightarrow> r \<in> set rows \<Longrightarrow>
   filter (\<lambda>x. m_id (fst x) = m_id (fst r)) rows = [r]"
proof (induction rows)
  case Nil
  then show ?case by simp
next
  case (Cons a rows)
  show ?case
  proof (cases "r = a")
    case True
    have "m_id (fst x) \<noteq> m_id (fst a)" if "x \<in> set rows" for x
      using Cons.prems(1) that by (metis (no_types, lifting) comp_apply distinct.simps(2) image_eqI list.simps(9) set_map)
    then show ?thesis using True by (simp add: filter_empty_conv)
  next
    case False
    then have "r \<in> set rows" using Cons.prems(2) by simp
    moreover from this have "m_id (fst a) \<noteq> m_id (fst r)"
      using Cons.prems(1) by (metis (no_types, lifting) comp_apply distinct.simps(2) image_eqI list.simps(9) set_map)
    ultimately show ?thesis using Cons by simp
  qed
qed

lemma migrated_ok:
  assumes "legacy_ok rows" "t_blobs d = []" "t_pending d = []"
  shows "db_ok (migrated rows d)"
proof -
  have one: "length (refs_of (m_id (fst r)) (migrated rows d)) = 1" if "r \<in> set rows" for r
    using assms(1) that filter_id_single [of rows r]
    by (simp add: legacy_ok_def refs_of_def migrated_def filter_map comp_def case_prod_beta)
  show ?thesis
  proof (rule db_okI)
    show "b_refs b = int (length (refs_of (b_id b) (migrated rows d))) \<and> 0 < b_refs b"
      if b: "b \<in> set (t_blobs (migrated rows d))" for b
    proof -
      obtain r where "r \<in> set rows" "b_id b = m_id (fst r)" "b_refs b = 1"
        using b assms(2) by (auto simp: migrated_def)
      with one show ?thesis by simp
    qed
  next
    show "m_blob m \<in> b_id ` set (t_blobs (migrated rows d))" if "m \<in> set (t_messages (migrated rows d))" for m
      using that assms(2) by (force simp: migrated_def)
  qed (use assms in \<open>auto simp: legacy_ok_def migrated_def comp_def case_prod_beta pending_paths_def\<close>)
qed

text \<open>
  The upgrade of a database of the old releases: on success every message of the old table has
  a blob of its own, with its path, its size and one reference, and the tables are consistent; on
  failure the tables are as they were.
\<close>

lemma migrateLegacySchema_ok:
  assumes "legacy_ok rows" and "t_blobs (sdb s) = []" and "t_pending (sdb s) = []"
    and "migrateLegacySchema (LegacyMessages hasBlobID rows) s = (e, s')"
  shows "if e = None then db_ok (sdb s') \<and> map m_id (t_messages (sdb s')) = map (m_id \<circ> fst) rows \<and>
      (\<forall>(m, p) \<in> set rows. \<lparr>b_id = m_id m, b_path = p, b_size = m_size m, b_refs = 1\<rparr> \<in> set (t_blobs (sdb s')) \<and>
         m\<lparr>m_blob := m_id m\<rparr> \<in> set (t_messages (sdb s')))
    else sdb s' = sdb s"
proof -
  have tx: "if \<exists>y. r = Inr y then sdb s2 = migrated rows (sdb s1) else sdb s2 = sdb s1"
    if "inTx (migrate_tx hasBlobID rows) s1 = (r, s2)" for r s1 s2
    using that by (cases rule: inTx_cases) (auto dest!: migrate_tx_ok)
  have "if e = None then sdb s' = migrated rows (sdb s) else sdb s' = sdb s"
    using assms(4)
    by (auto simp: migrateLegacySchema_def tableExists_def columnExists_path_def
        split: prod.splits sum.splits if_splits elim!: query_cases query_rows_cases dest!: tx)
  then show ?thesis
    using migrated_ok [OF assms(1-3)] by (auto simp: migrated_def case_prod_beta image_iff comp_def split: if_splits)
qed

section \<open>Steps\<close>

inductive store_step :: "store \<Rightarrow> store \<Rightarrow> bool" where
  deliver: "fresh_blob s \<Longrightarrow> store_step s (snd (Save recipients sender raw s))"
| expire: "store_step s (snd (cleanup_iteration before s))"
| list_page: "store_step s (snd (ListPageContext recipient limit offset s))"
| get: "store_step s (snd (GetContext i s))"
| world: "store_step s (s\<lparr>faults := f, clock := c, rands := r\<rparr>)"
| restart: "OpenStore CurrentTables (msgDir s) c s = (None, s') \<Longrightarrow> store_step s s'"

text \<open>A store in its directory, with clean paths: what a restart needs beside the invariant.\<close>

definition housed :: "store \<Rightarrow> bool" where
  "housed s \<longleftrightarrow> store_inv s \<and> unicode_ok (uni s) \<and> (\<exists>d. msgDir s = filepath_Join d ''messages'') \<and>
     (\<forall>p \<in> blob_paths (sdb s). filepath_Clean p = p)"

lemma housed_frame:
  assumes "housed s" "store_inv s'" "fixed s' = fixed s" "blob_paths (sdb s') \<subseteq> blob_paths (sdb s)"
  shows "housed s'"
  using assms fixed_fields(2,4) [OF assms(3)] by (auto simp: housed_def)

lemma housed_touches: "housed s \<Longrightarrow> touches {} s s' \<Longrightarrow> housed s'"
  using housed_frame [of s s'] touches_files(1) [of "{}" s s'] by (auto simp: housed_def touches_def)

lemma read_only_touches: "read_only s s' \<Longrightarrow> touches {} s s'"
  by (auto simp: read_only_def touches_def)

lemma housed_saved:
  assumes h: "housed s" and sv: "saved recipients sender raw ms s s'"
  shows "housed s'"
proof -
  from sv obtain tmp s0 evs d' where a: "settles s s0"
      "accepted tmp (time_Unix (shd (stl (clock s)))) (new_blob s (map Recipient ms) raw) raw ms s0 s'"
      "delivered (time_Unix (shd (stl (clock s)))) (MaxStorageBytes (cfg s))
         (new_blob s (map Recipient ms) raw) ms (sdb s0) evs d'"
      "t_blobs (sdb s') = t_blobs d'" "t_blobs (sdb s0) = t_blobs (sdb s)"
    by (rule saved_delivered)
  have "fixed s' = fixed s" using a(1,2) by (simp add: accepted_def settles_def upkeep_def)
  moreover have "blob_paths (sdb s') \<subseteq> insert (blob_path (msgDir s) (next_id s)) (blob_paths (sdb s))"
    using delivered_paths(2) [OF a(3)] a(4,5) by (simp add: blob_paths_def new_blob_def)
  moreover have "filepath_Clean (blob_path (msgDir s) i) = blob_path (msgDir s) i" for i
    by (simp add: blob_path_def)
  ultimately show ?thesis
    using h saved_inv [OF sv] fixed_fields(2,4) [of s' s] by (auto simp: housed_def)
qed

lemma store_step_housed:
  assumes "store_step s s'" "housed s"
  shows "housed s'"
  using assms
proof (induction rule: store_step.induct)
  case (deliver s recipients sender raw)
  have inv: "store_inv s" using deliver.prems by (simp add: housed_def)
  obtain r s' where r: "Save recipients sender raw s = (r, s')" by fastforce
  show ?case
  proof (cases r)
    case (Inl e)
    have ns: "not_saved s s'" by (rule Save_not_saved [OF inv deliver.hyps r [unfolded Inl]])
    then have "blob_paths (sdb s') = blob_paths (sdb s)" by (simp add: not_saved_def mail_same_def blob_paths_def)
    with ns show ?thesis using housed_frame [OF deliver.prems, of s'] r by (simp add: not_saved_def mail_same_def)
  next
    case (Inr ms)
    from housed_saved [OF deliver.prems Save_saved [OF inv deliver.hyps r [unfolded Inr]]] r
    show ?thesis by simp
  qed
next
  case (expire s before)
  obtain a e s' where i: "cleanup_iteration before s = ((a, e), s')" by (cases "cleanup_iteration before s") auto
  have "sweeps before s s'" using cleanup_iteration_sweeps [OF _ i] expire by (simp add: housed_def)
  then show ?case using housed_frame [OF expire] i by (simp add: sweeps_def)
next
  case (list_page s recipient limit offset)
  then show ?case
    using housed_touches read_only_touches ListPageContext_read_only [OF prod.collapse [symmetric]] by blast
next
  case (get s i)
  then show ?case
    using housed_touches read_only_touches GetContext_read_only [OF prod.collapse [symmetric]] by blast
next
  case (world s f c r)
  then show ?case by (rule housed_touches) (simp add: touches_def)
next
  case (restart s c s')
  obtain d where d: "msgDir s = filepath_Join d ''messages''" using restart.prems by (auto simp: housed_def)
  have "db_ok (sdb s)" "files_ok s" "unicode_ok (uni s)" "\<forall>p \<in> blob_paths (sdb s). filepath_Clean p = p"
    using restart.prems by (auto simp: housed_def store_inv_def)
  note r = OpenStore_recovered [OF this restart.hyps [unfolded d]]
  then have "blob_paths (sdb s') = blob_paths (sdb s)" by (simp add: recovered_def blob_paths_def)
  with r restart.prems show ?case by (auto simp: housed_def recovered_def)
qed

inductive store_reachable :: "store \<Rightarrow> bool" where
  opened: "OpenStore CurrentTables (filepath_Join d ''messages'') c w = (None, s) \<Longrightarrow>
     sdb w = empty_db \<Longrightarrow> unicode_ok (uni w) \<Longrightarrow> store_reachable s"
| step: "store_reachable s \<Longrightarrow> store_step s s' \<Longrightarrow> store_reachable s'"

lemma reachable_housed: "store_reachable s \<Longrightarrow> housed s"
proof (induction rule: store_reachable.induct)
  case (opened d c w s)
  have "db_ok (sdb w)" "files_ok w" "\<forall>p \<in> blob_paths (sdb w). filepath_Clean p = p"
    using opened(2) db_ok_empty by (simp_all add: files_ok_def empty_db_def blob_paths_def)
  from OpenStore_recovered [OF this(1,2) opened(3) this(3) opened(1)] show ?case
    using opened(2,3) by (auto simp: housed_def recovered_def blob_paths_def empty_db_def)
next
  case (step s s')
  then show ?case using store_step_housed by blast
qed

text \<open>
  C4. Every store the service can reach, from a fresh database through any sequence of deliveries,
  cleanup batches, reads, failures of the outside world and restarts, satisfies the invariant; in
  particular every listed message has a file with its size.
\<close>

theorem store_reachable_inv:
  assumes "store_reachable s"
  shows "store_inv s \<and> (\<forall>m \<in> set (t_messages (sdb s)). \<exists>b \<in> set (t_blobs (sdb s)).
    b_id b = m_blob m \<and> (\<exists>c. content_of s (b_path b) = Some c \<and> int (length c) = b_size b))"
proof -
  have inv: "store_inv s" using reachable_housed [OF assms] by (simp add: housed_def)
  moreover have "\<exists>b \<in> set (t_blobs (sdb s)). b_id b = m_blob m \<and>
      (\<exists>c. content_of s (b_path b) = Some c \<and> int (length c) = b_size b)"
    if m: "m \<in> set (t_messages (sdb s))" for m
  proof -
    obtain b where "b \<in> set (t_blobs (sdb s))" "m_blob m = b_id b"
      using db_ok_msg_blob [OF _ m] inv by (auto simp: store_inv_def)
    with inv show ?thesis by (auto simp: store_inv_def files_ok_def)
  qed
  ultimately show ?thesis by blast
qed

lemma empty_opens_quiet: "\<exists>s. OpenStore CurrentTables dir c empty_store = (None, s) \<and> quiet s"
proof -
  let ?s = "booted dir c empty_store"
  have q: "quiet ?s" by (simp add: quiet_def booted_def empty_store_def)
  have ddl: "exec_ddls n s = (None, s)" if "quiet s" for n s
    using that by (induction n) (simp_all add: sql_ddl_def)
  have e: "sdb empty_store = empty_db" "dir_entries ?s = []"
    by (simp_all add: empty_store_def dir_entries_def booted_def List.map_filter_def)
  have "\<exists>s'. quiet s' \<and> reconcileFiles ?s = (None, snd (drainAllPendingLocked s'))"
    using q
    by (simp add: reconcileFiles_def normalizeStoredRecipients_def sql_distinct_recipients_def e empty_db_def
        os_ReadDir_def loadStorageUsage_def) (metis quiet_update(4,5))
  then obtain s' where s': "quiet s'" "reconcileFiles ?s = (None, snd (drainAllPendingLocked s'))" by blast
  have "quiet (snd (drainAllPendingLocked s'))"
    using drain_all_quiet [OF s'(1)] by (simp add: drainAllPendingLocked_def)
  then have "\<exists>s. loadStorageUsage (snd (drainAllPendingLocked s')) = (None, s) \<and> quiet s"
    by (simp add: loadStorageUsage_def)
  with q ddl s'(2) show ?thesis
    by (simp add: OpenStore_def Let_def migrateLegacySchema_def tableExists_def columnExists_path_def)
qed

lemma empty_opens: "\<exists>s. OpenStore CurrentTables ''/d/messages'' example_config empty_store = (None, s)"
  using empty_opens_quiet by blast

theorem store_reachable_inv_witness:
  "\<exists>s. OpenStore CurrentTables ''/d/messages'' example_config empty_store = (None, s) \<and>
     store_reachable (s\<lparr>faults := sconst (Some 0), clock := sconst 0, rands := sconst []\<rparr>) \<and>
     store_inv (s\<lparr>faults := sconst (Some 0), clock := sconst 0, rands := sconst []\<rparr>)"
proof -
  obtain s where s: "OpenStore CurrentTables ''/d/messages'' example_config empty_store = (None, s)"
    using empty_opens by (elim exE) (rule that)
  have "store_reachable s"
    by (rule store_reachable.opened [of "''/d''" example_config empty_store])
      (use s in \<open>simp_all add: crashed_names empty_store_def plain_unicode_ok\<close>)
  then have r: "store_reachable (s\<lparr>faults := sconst (Some 0), clock := sconst 0, rands := sconst []\<rparr>)"
    by (rule store_reachable.step [OF _ store_step.world])
  with store_reachable_inv [OF r] s show ?thesis by blast
qed

end
