(* ===== verification/StoreRefine.thy ===== *)
theory StoreRefine
  imports StoreSteps
begin

text \<open>
  The store as its users think of it: a set of letters, each with a recipient, a text and a time to
  live. Tables, blobs shared between recipients, files, queues and counters are its implementation. The
  abstract machine has one step per kind of operation; every step of the store is one of its steps.
\<close>

section \<open>The abstract mailbox\<close>

record letter =
  l_id :: string
  l_recipient :: string
  l_text :: string
  l_received :: int
  l_expires :: int

text \<open>
  A delivery adds one letter per recipient, all with the same text and times, under new identifiers;
  what it displaces has expired, or else all that stays is unexpired and not older. An expiry removes
  only expired letters. A restart may bring recipients into canonical form and does it once.
\<close>

inductive mailbox_step :: "letter set \<Rightarrow> letter set \<Rightarrow> bool" where
  deliver: "inj_on l_recipient new \<Longrightarrow> new \<noteq> {} \<Longrightarrow>
     \<forall>l \<in> new. l_text l = text \<and> l_received l = t \<and> l_expires l = e \<Longrightarrow>
     l_id ` new \<inter> l_id ` kept = {} \<Longrightarrow> kept \<subseteq> M \<Longrightarrow>
     \<forall>l \<in> M - kept. l_expires l \<le> before \<or> (\<forall>k \<in> kept. before < l_expires k \<and> l_received l \<le> l_received k) \<Longrightarrow>
     mailbox_step M (kept \<union> new)"
| expire: "M' \<subseteq> M \<Longrightarrow> \<forall>l \<in> M - M'. l_expires l \<le> before \<Longrightarrow> mailbox_step M M'"
| skip: "mailbox_step M M"
| canonical: "\<forall>r. f (f r) = f r \<Longrightarrow> mailbox_step M ((\<lambda>l. l\<lparr>l_recipient := f (l_recipient l)\<rparr>) ` M)"

section \<open>Abstraction\<close>

definition text_of :: "store \<Rightarrow> msg_row \<Rightarrow> string" where
  "text_of s m =
     (case find (\<lambda>b. b_id b = m_blob m) (t_blobs (sdb s)) of
        None \<Rightarrow> []
      | Some b \<Rightarrow> (case content_of s (b_path b) of None \<Rightarrow> [] | Some c \<Rightarrow> c))"

definition letter_of :: "store \<Rightarrow> msg_row \<Rightarrow> letter" where
  "letter_of s m = \<lparr>l_id = m_id m, l_recipient = m_recipient m, l_text = text_of s m, l_received = m_received m, l_expires = m_expires m\<rparr>"

definition mailbox :: "store \<Rightarrow> letter set" where
  "mailbox s = letter_of s ` set (t_messages (sdb s))"

lemma find_blob:
  assumes "db_ok d" "b \<in> set (t_blobs d)" "b_id b = i"
  shows "find (\<lambda>b. b_id b = i) (t_blobs d) = Some b"
proof -
  obtain b' where b': "find (\<lambda>b. b_id b = i) (t_blobs d) = Some b'"
    using assms(2,3) by (cases "find (\<lambda>b. b_id b = i) (t_blobs d)") (auto simp: find_None_iff)
  then have "b' \<in> set (t_blobs d)" "b_id b' = i" by (auto simp: find_Some_iff)
  then have "b' = b" using distinct_key_unique [OF db_ok_keys(2) [OF assms(1)]] assms(2,3) by metis
  with b' show ?thesis by simp
qed

lemma text_of_blob:
  assumes "db_ok (sdb s)" "b \<in> set (t_blobs (sdb s))" "b_id b = m_blob m" "content_of s (b_path b) = Some c"
  shows "text_of s m = c"
  using find_blob [OF assms(1-3)] assms(4) by (simp add: text_of_def)

lemma blob_keys_sub:
  "blob_keys d' \<subseteq> blob_keys d \<Longrightarrow> b \<in> set (t_blobs d') \<Longrightarrow> \<exists>b0 \<in> set (t_blobs d). b_id b0 = b_id b \<and> b_path b0 = b_path b"
  by (fastforce simp: blob_keys_def)

text \<open>The text of a message survives every change that keeps its blob and the blob's file.\<close>

lemma text_of_kept:
  assumes "store_inv s" "store_inv s'" "m \<in> set (t_messages (sdb s))" "m_blob m' = m_blob m" "m' \<in> set (t_messages (sdb s'))"
    and keys: "\<And>b. b \<in> set (t_blobs (sdb s')) \<Longrightarrow> b_id b = m_blob m \<Longrightarrow>
      \<exists>b0 \<in> set (t_blobs (sdb s)). b_id b0 = b_id b \<and> b_path b0 = b_path b"
    and cont: "\<And>b. b \<in> set (t_blobs (sdb s')) \<Longrightarrow> b_id b = m_blob m \<Longrightarrow> content_of s' (b_path b) = content_of s (b_path b)"
  shows "text_of s' m' = text_of s m"
proof -
  have ok: "db_ok (sdb s)" "db_ok (sdb s')" "files_ok s'" using assms(1,2) by (simp_all add: store_inv_def)
  obtain b where b: "b \<in> set (t_blobs (sdb s'))" "b_id b = m_blob m"
    using db_ok_msg_blob [OF ok(2) assms(5)] assms(4) by force
  obtain b0 where b0: "b0 \<in> set (t_blobs (sdb s))" "b_id b0 = b_id b" "b_path b0 = b_path b"
    using keys [OF b] by blast
  obtain c where c: "content_of s' (b_path b) = Some c" using ok(3) b(1) by (auto simp: files_ok_def)
  then have "text_of s' m' = c" using text_of_blob [OF ok(2) b(1)] b(2) assms(4) by simp
  moreover have "text_of s m = c" using text_of_blob [OF ok(1) b0(1)] b0(2,3) b(2) c cont [OF b] by simp
  ultimately show ?thesis by simp
qed

section \<open>Refinement\<close>

lemma mailbox_same:
  assumes "store_inv s" "store_inv s'" "t_messages (sdb s') = t_messages (sdb s)" "t_blobs (sdb s') = t_blobs (sdb s)"
    "\<forall>q \<in> blob_paths (sdb s). content_of s' q = content_of s q"
  shows "mailbox s' = mailbox s"
proof -
  have "text_of s' m = text_of s m" if "m \<in> set (t_messages (sdb s))" for m
    by (rule text_of_kept [OF assms(1,2) that]) (use assms(3-5) that in \<open>auto simp: blob_paths_def\<close>)
  then show ?thesis using assms(3) by (simp add: mailbox_def letter_of_def)
qed

lemma touches_mailbox: "store_inv s \<Longrightarrow> touches {} s s' \<Longrightarrow> mailbox s' = mailbox s"
  using touches_files(1) [of "{}" s s'] by (intro mailbox_same) (auto simp: touches_def)

lemma not_saved_mailbox: "store_inv s \<Longrightarrow> not_saved s s' \<Longrightarrow> mailbox s' = mailbox s"
  by (intro mailbox_same) (auto simp: not_saved_def mail_same_def)

lemma sweeps_mailbox:
  assumes "store_inv s" "sweeps before s s'"
  shows "mailbox_step (mailbox s) (mailbox s')"
proof -
  have "text_of s' m = text_of s m" if "m \<in> set (t_messages (sdb s'))" for m
  proof (rule text_of_kept [OF assms(1) _ _ refl that])
    show "\<exists>b0 \<in> set (t_blobs (sdb s)). b_id b0 = b_id b \<and> b_path b0 = b_path b" if "b \<in> set (t_blobs (sdb s'))" for b
      using blob_keys_sub [OF _ that] assms(2) by (simp add: sweeps_def)
  qed (use assms(2) that in \<open>auto simp: sweeps_def blob_paths_def\<close>)
  then have eq: "letter_of s' m = letter_of s m" if "m \<in> set (t_messages (sdb s'))" for m
    using that by (simp add: letter_of_def)
  have "mailbox s' \<subseteq> mailbox s" using assms(2) eq by (auto simp: mailbox_def sweeps_def)
  moreover have "\<forall>l \<in> mailbox s - mailbox s'. l_expires l \<le> before"
  proof
    fix l assume l: "l \<in> mailbox s - mailbox s'"
    then obtain m where m: "m \<in> set (t_messages (sdb s))" "l = letter_of s m" by (auto simp: mailbox_def)
    have "m \<notin> set (t_messages (sdb s'))" using l m eq by (auto simp: mailbox_def)
    then show "l_expires l \<le> before" using assms(2) m by (auto simp: sweeps_def letter_of_def not_less [symmetric])
  qed
  ultimately show ?thesis by (rule mailbox_step.expire)
qed

text \<open>An accepted delivery has a recipient: the new blob is referenced.\<close>

lemma saved_some:
  assumes "store_inv s" "saved recipients sender raw ms s s'"
  shows "ms \<noteq> []"
proof
  assume e: "ms = []"
  let ?b = "new_blob s (map Recipient ms) raw"
  from assms(2) obtain tmp s0 evs d' where "accepted tmp (time_Unix (shd (stl (clock s)))) ?b raw ms s0 s'" and a:
      "delivered (time_Unix (shd (stl (clock s)))) (MaxStorageBytes (cfg s)) ?b ms (sdb s0) evs d'"
      "t_messages (sdb s0) = t_messages (sdb s)" "t_blobs (sdb s0) = t_blobs (sdb s)"
    by (rule saved_delivered)
  have ok: "db_ok (sdb s)" "db_ok d'" using assms(1) a(1) by (simp_all add: store_inv_def delivered_def)
  have "(b_id ?b, b_path ?b, b_size ?b) \<in> blob_keys d'" using a(1) by (simp add: delivered_def)
  then obtain b where b: "b \<in> set (t_blobs d')" "b_id b = b_id ?b" by (auto simp: blob_keys_def)
  then have "refs_of (b_id b) d' \<noteq> []" using db_ok_refs [OF ok(2) b(1)] by auto
  then obtain m where "m \<in> set (t_messages d')" "m_blob m = b_id ?b" using b(2) by (auto simp: refs_of_def filter_empty_conv)
  then show False using db_ok_msg_blob [OF ok(1), of m] a e by (auto simp: delivered_def)
qed

lemma saved_mailbox:
  assumes "store_inv s" "saved recipients sender raw ms s s'"
  shows "mailbox_step (mailbox s) (mailbox s')"
proof -
  let ?b = "new_blob s (map Recipient ms) raw" and ?before = "time_Unix (shd (stl (clock s)))"
  from assms(2) obtain tmp s0 evs d' where a: "settles s s0" "accepted tmp ?before ?b raw ms s0 s'"
      "delivered ?before (MaxStorageBytes (cfg s)) ?b ms (sdb s0) evs d'" "t_messages (sdb s') = t_messages d'" "t_blobs (sdb s') = t_blobs d'"
      "t_messages (sdb s0) = t_messages (sdb s)" "t_blobs (sdb s0) = t_blobs (sdb s)"
    by (rule saved_delivered)
  have ok: "db_ok (sdb s)" "store_inv s'" using assms(1) saved_inv [OF assms(2)] by (simp_all add: store_inv_def)
  define kept where "kept = {k \<in> set (t_messages (sdb s)). m_id k \<notin> m_id ` snd ` set evs}"
  have msgs: "set (t_messages (sdb s')) = kept \<union> set (map (row_of (b_id ?b)) ms)"
    unfolding kept_def using a(3,4,6) by (simp add: delivered_def)
  have other: "m_blob k \<noteq> b_id ?b" if "k \<in> set (t_messages (sdb s))" for k
    using db_ok_msg_blob [OF ok(1) that] a(3,7) by (auto simp: delivered_def)
  have old: "letter_of s' k = letter_of s k" if "k \<in> kept" for k
  proof -
    have k: "k \<in> set (t_messages (sdb s))" using that by (simp add: kept_def)
    have sub: "blob_keys d' \<subseteq> insert (b_id ?b, b_path ?b, b_size ?b) (blob_keys (sdb s))"
      using a(3,7) by (simp add: delivered_def blob_keys_def)
    have "text_of s' k = text_of s k"
    proof (rule text_of_kept [OF assms(1) ok(2) k refl])
      show "k \<in> set (t_messages (sdb s'))" using msgs that by simp
    next
      fix b assume b: "b \<in> set (t_blobs (sdb s'))" "b_id b = m_blob k"
      then have "(b_id b, b_path b, b_size b) \<in> blob_keys d'" unfolding blob_keys_def a(5) [symmetric] by (intro imageI)
      then have "(b_id b, b_path b, b_size b) \<in> blob_keys (sdb s)" using sub other [OF k] b(2) by auto
      then show "\<exists>b0 \<in> set (t_blobs (sdb s)). b_id b0 = b_id b \<and> b_path b0 = b_path b"
        unfolding blob_keys_def by auto
      then have in_s: "b_path b \<in> blob_paths (sdb s)" "b_path b \<in> blob_paths (sdb s')" using b(1) unfolding blob_paths_def by (metis imageI set_map)+
      have nb: "b_path b \<noteq> b_path ?b"
      proof
        assume eq: "b_path b = b_path ?b"
        have "(b_id ?b, b_path ?b, b_size ?b) \<in> blob_keys d'" using a(3) by (simp add: delivered_def)
        then obtain b1 where "b1 \<in> set (t_blobs (sdb s'))" "b_id b1 = b_id ?b" "b_path b1 = b_path ?b"
          unfolding blob_keys_def a(5) [symmetric] by auto
        then have "b1 = b" using distinct_key_unique [OF db_ok_keys(3)] ok(2) b(1) eq by (metis store_inv_def)
        then show False using other [OF k] b(2) \<open>b_id b1 = b_id ?b\<close> by simp
      qed
      have "content_of s' (b_path b) = content_of s0 (b_path b)" using a(2) in_s(2) nb by (simp add: accepted_def)
      also have "\<dots> = content_of s (b_path b)" using a(1) in_s(1) by (simp add: settles_def upkeep_def)
      finally show "content_of s' (b_path b) = content_of s (b_path b)" .
    qed
    then show ?thesis by (simp add: letter_of_def)
  qed
  have new: "text_of s' (row_of (b_id ?b) m) = raw" if "m \<in> set ms" for m
  proof -
    have "(b_id ?b, b_path ?b, b_size ?b) \<in> blob_keys d'" using a(3) by (simp add: delivered_def)
    then obtain b1 where "b1 \<in> set (t_blobs (sdb s'))" "b_id b1 = b_id ?b" "b_path b1 = b_path ?b"
      unfolding blob_keys_def a(5) [symmetric] by auto
    then show ?thesis using text_of_blob [of s' b1 "row_of (b_id ?b) m" raw] ok(2) a(2) by (simp add: store_inv_def accepted_def)
  qed
  let ?new = "letter_of s' ` set (map (row_of (b_id ?b)) ms)"
  have "mailbox s' = letter_of s' ` kept \<union> ?new" unfolding mailbox_def msgs by (rule image_Un)
  also have "letter_of s' ` kept = letter_of s ` kept" using old by (rule image_cong [OF refl])
  finally have box: "mailbox s' = letter_of s ` kept \<union> ?new" .
  have recs: "distinct (map Recipient ms)" using assms(2) normalize_recipients_all [of "uni s" recipients] by (simp add: saved_def)
  have stamp: "\<exists>t e. \<forall>m \<in> set ms. Received m = t \<and> ExpiresAt m = e"
    using assms(2) by (auto simp: saved_def list_all_iff stamped_def split: prod.splits)
  then obtain t e where te: "\<And>m. m \<in> set ms \<Longrightarrow> Received m = t \<and> ExpiresAt m = e" by blast
  show ?thesis unfolding box
  proof (rule mailbox_step.deliver)
    show "inj_on l_recipient ?new" using recs by (auto simp: inj_on_def letter_of_def distinct_map)
    show "?new \<noteq> {}" using saved_some [OF assms] by simp
    show "\<forall>l \<in> ?new. l_text l = raw \<and> l_received l = time_Unix t \<and> l_expires l = time_Unix e"
      using te new by (auto simp: letter_of_def)
    show "l_id ` ?new \<inter> l_id ` letter_of s ` kept = {}"
    proof -
      have "row_of (b_id ?b) m \<noteq> k" if "m \<in> set ms" "k \<in> kept" for m k using other [of k] that by (auto simp: kept_def)
      moreover have "row_of (b_id ?b) m = k" if "m \<in> set ms" "k \<in> kept" "m_id (row_of (b_id ?b) m) = m_id k" for m k
        using distinct_key_unique [OF db_ok_keys(1), of "sdb s'"] ok(2) that msgs by (auto simp: store_inv_def)
      ultimately show ?thesis by (auto simp: letter_of_def)
    qed
    show "letter_of s ` kept \<subseteq> mailbox s" by (auto simp: mailbox_def kept_def)
    show "\<forall>l \<in> mailbox s - letter_of s ` kept. l_expires l \<le> ?before \<or>
        (\<forall>k \<in> letter_of s ` kept. ?before < l_expires k \<and> l_received l \<le> l_received k)"
    proof
      fix l assume "l \<in> mailbox s - letter_of s ` kept"
      then obtain m where m: "m \<in> set (t_messages (sdb s))" "m \<notin> kept" "l = letter_of s m" by (auto simp: mailbox_def)
      then obtain x v where v: "(x, v) \<in> set evs" "m_id v = m_id m" by (auto simp: kept_def)
      then have pol: "by_policy ?before (b_id ?b) (sdb s0) d' (x, v)" using a(3) by (auto simp: delivered_def)
      then have "v = m" using distinct_key_unique [OF db_ok_keys(1) [OF ok(1)] _ _ v(2)] m(1) a(6) by (simp add: by_policy_def)
      moreover have "k \<in> set (t_messages d')" "m_blob k \<noteq> b_id ?b" if "k \<in> kept" for k
        using that msgs a(4) other [of k] by (auto simp: kept_def)
      ultimately show "l_expires l \<le> ?before \<or> (\<forall>k \<in> letter_of s ` kept. ?before < l_expires k \<and> l_received l \<le> l_received k)"
        using pol m(3) by (auto simp: by_policy_def letter_of_def split: if_splits)
    qed
  qed
qed

lemma recovered_mailbox:
  assumes "store_inv s" "recovered s s'"
  shows "mailbox s' = (\<lambda>l. l\<lparr>l_recipient := normalizeRecipient (uni s) (l_recipient l)\<rparr>) ` mailbox s"
proof -
  let ?f = "\<lambda>m. m\<lparr>m_recipient := normalizeRecipient (uni s) (m_recipient m)\<rparr>"
  have r: "store_inv s'" "t_messages (sdb s') = map ?f (t_messages (sdb s))" "t_blobs (sdb s') = t_blobs (sdb s)"
      "\<forall>q \<in> blob_paths (sdb s). content_of s' q = content_of s q"
    using assms(2) by (simp_all add: recovered_def renamed_def)
  have "text_of s' (?f m) = text_of s m" if "m \<in> set (t_messages (sdb s))" for m
    by (rule text_of_kept [OF assms(1) r(1) that]) (use r that in \<open>auto simp: blob_paths_def\<close>)
  then show ?thesis unfolding mailbox_def r(2) by (auto simp: letter_of_def image_iff)
qed



end
