(* ===== verification/GoNet.thy ===== *)
theory GoNet
  imports GoText
begin

text \<open>
  The host and port notation of package \<^verbatim>\<open>net\<close>: \<^verbatim>\<open>SplitHostPort\<close>,
  \<^verbatim>\<open>JoinHostPort\<close>, and what the program builds from them.
\<close>

definition IndexByte :: "string \<Rightarrow> char \<Rightarrow> nat option" where
  "IndexByte s c = (if c \<in> set s then Some (length (takeWhile (\<lambda>x. x \<noteq> c) s)) else None)"

definition SplitHostPort :: "string \<Rightarrow> (string \<times> string) option" where
  "SplitHostPort hp =
     (case LastIndex hp CHR '':'' of
        None \<Rightarrow> None
      | Some i \<Rightarrow>
          (case (if HasPrefix hp ''['' then
                   (case IndexByte hp CHR '']'' of
                      None \<Rightarrow> None
                    | Some e \<Rightarrow>
                        if e + 1 = length hp then None
                        else if e + 1 = i then Some (take (e - 1) (drop 1 hp), 1, e + 1)
                        else None)
                 else if CHR '':'' \<in> set (take i hp) then None
                 else Some (take i hp, 0, 0)) of
             None \<Rightarrow> None
           | Some (host, j, k) \<Rightarrow>
               if CHR ''['' \<in> set (drop j hp) then None
               else if CHR '']'' \<in> set (drop k hp) then None
               else Some (host, drop (i + 1) hp)))"

definition JoinHostPort :: "string \<Rightarrow> string \<Rightarrow> string" where
  "JoinHostPort host port =
     (if CHR '':'' \<in> set host then CHR ''['' # host @ '']:'' @ port else host @ CHR '':'' # port)"

lemma IndexByte_append: "c \<notin> set s \<Longrightarrow> IndexByte (s @ c # t) c = Some (length s)"
proof -
  assume "c \<notin> set s"
  then have "takeWhile (\<lambda>x. x \<noteq> c) (s @ c # t) = s" by (induction s) auto
  then show ?thesis by (simp add: IndexByte_def)
qed

text \<open>The plain part of an address: no brackets and, for a port, no colon.\<close>

definition plain_host :: "string \<Rightarrow> bool" where
  "plain_host h \<longleftrightarrow> CHR ''['' \<notin> set h \<and> CHR '']'' \<notin> set h"

lemma SplitHostPort_JoinHostPort_lemma:
  assumes h: "plain_host h" and p: "plain_host p" "CHR '':'' \<notin> set p"
  shows "SplitHostPort (JoinHostPort h p) = Some (h, p)"
proof (cases "CHR '':'' \<in> set h")
  case True
  let ?hp = "CHR ''['' # h @ CHR '']'' # CHR '':'' # p"
  have j: "JoinHostPort h p = ?hp" using True by (simp add: JoinHostPort_def)
  have l: "LastIndex ?hp CHR '':'' = Some (length h + 2)"
    using LastIndex_append_notin [of "CHR '':''" p "CHR ''['' # h @ '']''"] p(2) by simp
  have i: "IndexByte ?hp CHR '']'' = Some (length h + 1)"
    using IndexByte_append [of "CHR '']''" "CHR ''['' # h" "CHR '':'' # p"] h by (simp add: plain_host_def)
  obtain hp where hp: "hp = ?hp" by blast
  have facts: "HasPrefix hp ''[''" "length hp = length h + 3 + length p" "take (length h) (drop 1 hp) = h"
    "CHR ''['' \<notin> set (drop 1 hp)" "drop (length h + 2) hp = CHR '':'' # p" "drop (length h + 3) hp = p"
    using h p by (auto simp: hp HasPrefix_def plain_host_def numeral_eq_Suc)
  show ?thesis
    using l i facts p unfolding j hp [symmetric] by (simp add: SplitHostPort_def plain_host_def numeral_eq_Suc)
next
  case False
  let ?hp = "h @ CHR '':'' # p"
  have j: "JoinHostPort h p = ?hp" using False by (simp add: JoinHostPort_def)
  have l: "LastIndex ?hp CHR '':'' = Some (length h)" by (rule LastIndex_append_notin [OF p(2)])
  have "\<not> HasPrefix ?hp ''[''" using h by (cases h) (auto simp: HasPrefix_def plain_host_def)
  with h p False show ?thesis unfolding j by (simp add: SplitHostPort_def l plain_host_def)
qed

section \<open>Uses\<close>

text \<open>\<^verbatim>\<open>sourceAddress\<close>: the host of a peer, or the whole text when it has no port.\<close>

definition sourceAddress :: "string \<Rightarrow> string" where
  "sourceAddress addr = (case SplitHostPort addr of Some (host, _) \<Rightarrow> host | None \<Rightarrow> addr)"

text \<open>
  \<^verbatim>\<open>healthcheckURL\<close>. The escaping of \<^verbatim>\<open>url.URL.String\<close> for a host is the parameter
  \<open>escapeHost\<close>; it leaves letters, digits, dots, colons and brackets alone.
\<close>

definition healthcheckURL :: "(string \<Rightarrow> string) \<Rightarrow> string \<Rightarrow> string option" where
  "healthcheckURL escapeHost addr0 =
     (let addr = (if addr0 = [] then '':8080'' else addr0) in
      case SplitHostPort addr of
        None \<Rightarrow> None
      | Some (host, port) \<Rightarrow>
          (let host' = (if host = [] \<or> host = ''0.0.0.0'' then ''127.0.0.1''
                        else if host = ''::'' then ''::1'' else host)
           in Some (''http://'' @ escapeHost (JoinHostPort host' port) @ ''/healthz'')))"

section \<open>Properties\<close>

text \<open>
  Splitting undoes joining: for a host without brackets and a port without colon or brackets,
  \<^verbatim>\<open>SplitHostPort (JoinHostPort h p)\<close> gives back \<open>h\<close> and \<open>p\<close>, so the source address of a
  peer is its host, IPv6 or not.
\<close>

lemma sourceAddress_JoinHostPort:
  assumes "plain_host h" and "plain_host p" and "CHR '':'' \<notin> set p"
  shows "SplitHostPort (JoinHostPort h p) = Some (h, p) \<and> sourceAddress (JoinHostPort h p) = h"
  using SplitHostPort_JoinHostPort_lemma [OF assms] by (simp add: sourceAddress_def)

end
