(* ===== verification/Admission.thy ===== *)
theory Admission
  imports GoNet Config
begin

text \<open>
  Admission control. Buffered channels used as semaphores, the interface \<open>slots\<close> they satisfy, and
  the admission of SMTP connections (\<^verbatim>\<open>smtpAdmissionListener.Accept\<close>,
  \<^verbatim>\<open>acquireSource\<close>, \<^verbatim>\<open>releaseSource\<close>, \<^verbatim>\<open>scheduleRejection\<close>,
  \<^verbatim>\<open>admittedSMTPConn.Close\<close>) as a step relation over the connections of a server.
\<close>

section \<open>Semaphores\<close>

text \<open>
  The contract of a counting semaphore, as its clients use it: taking a slot succeeds exactly when
  one is free, and a slot taken can be given back.
\<close>

locale slots =
  fixes acquire :: "'s \<Rightarrow> 's option" and give_back :: "'s \<Rightarrow> 's"
    and used :: "'s \<Rightarrow> nat" and limit :: "'s \<Rightarrow> nat"
  assumes acquire_None: "acquire s = None \<longleftrightarrow> limit s \<le> used s"
    and acquire_Some: "acquire s = Some s' \<Longrightarrow> used s' = Suc (used s) \<and> limit s' = limit s"
    and give_back_used: "0 < used s \<Longrightarrow> used (give_back s) = used s - 1 \<and> limit (give_back s) = limit s"
begin

text \<open>A client is a sequence of attempts (\<open>True\<close>) and returns (\<open>False\<close>, made only by a holder).\<close>

fun run :: "bool list \<Rightarrow> 's \<Rightarrow> 's" where
  "run [] s = s"
| "run (True # es) s = (case acquire s of None \<Rightarrow> run es s | Some s' \<Rightarrow> run es s')"
| "run (False # es) s = (if 0 < used s then run es (give_back s) else run es s)"

lemma run_limit: "limit (run es s) = limit s"
  by (induction es s rule: run.induct) (auto split: option.splits dest: acquire_Some simp: give_back_used)

lemma run_bounded: "used s \<le> limit s \<Longrightarrow> used (run es s) \<le> limit s"
proof (induction es s rule: run.induct)
  case (2 es s)
  then show ?case
  proof (cases "acquire s")
    case (Some s')
    have "\<not> limit s \<le> used s" using acquire_None [of s] Some by simp
    with 2 Some acquire_Some [OF Some] show ?thesis by simp
  qed simp
next
  case (3 es s)
  then show ?case using give_back_used [of s] by simp
qed simp

lemma free_slot: "used s < limit s \<Longrightarrow> \<exists>s'. acquire s = Some s' \<and> used s' \<le> limit s"
  using acquire_None [of s] acquire_Some [of s] by (cases "acquire s") auto

end

record chan =
  held :: nat
  capacity :: nat

definition make_chan :: "nat \<Rightarrow> chan" where
  "make_chan n = \<lparr>held = 0, capacity = n\<rparr>"

text \<open>A send in a \<^verbatim>\<open>select\<close> with a \<^verbatim>\<open>default\<close>, and the receive that undoes it.\<close>

definition try_send :: "chan \<Rightarrow> chan option" where
  "try_send c = (if held c < capacity c then Some (c\<lparr>held := Suc (held c)\<rparr>) else None)"

definition receive :: "chan \<Rightarrow> chan" where
  "receive c = c\<lparr>held := held c - 1\<rparr>"

interpretation sem: slots try_send receive held capacity
  by unfold_locales (auto simp: try_send_def receive_def split: if_splits)

section \<open>The SMTP listener\<close>

text \<open>An admitted connection: its source and whether its release has run.\<close>

record admittedConn =
  conn_source :: string
  released :: bool

record smtpAdmission =
  sessions :: chan
  rejects :: chan
  sources :: "string \<Rightarrow> int option"
  perIP :: int
  conns :: "admittedConn list"

definition maxConcurrentSMTPRejections :: nat where
  "maxConcurrentSMTPRejections = 16"

definition defaultMaxSMTPConnections :: int where
  "defaultMaxSMTPConnections = 100"

definition NewSMTPServer_admission :: "config \<Rightarrow> smtpAdmission" where
  "NewSMTPServer_admission c =
     (let limit = (if MaxSMTPConnections c = 0 then defaultMaxSMTPConnections else MaxSMTPConnections c)
      in \<lparr>sessions = make_chan (nat limit), rejects = make_chan maxConcurrentSMTPRejections,
          sources = Map.empty, perIP = MaxSMTPConnectionsPerIP c, conns = []\<rparr>)"

text \<open>A missing key of a Go map reads as zero.\<close>

definition source_count :: "smtpAdmission \<Rightarrow> string \<Rightarrow> int" where
  "source_count s src = (case sources s src of None \<Rightarrow> 0 | Some n \<Rightarrow> n)"

definition acquireSource :: "string \<Rightarrow> smtpAdmission \<Rightarrow> bool \<times> smtpAdmission" where
  "acquireSource src s =
     (if 0 < perIP s \<and> perIP s \<le> source_count s src then (False, s)
      else (True, s\<lparr>sources := (sources s)(src \<mapsto> source_count s src + 1)\<rparr>))"

definition releaseSource :: "string \<Rightarrow> smtpAdmission \<Rightarrow> smtpAdmission" where
  "releaseSource src s =
     (if source_count s src \<le> 1 then s\<lparr>sources := (sources s)(src := None)\<rparr>
      else s\<lparr>sources := (sources s)(src \<mapsto> source_count s src - 1)\<rparr>)"

text \<open>
  A refused connection either gets a 421 reply from a goroutine of its own (which holds a slot of
  \<^verbatim>\<open>rejects\<close> until it is done) or is closed at once.
\<close>

datatype outcome = Admitted | RejectedWithReply | RejectedSilently

definition scheduleRejection :: "smtpAdmission \<Rightarrow> outcome \<times> smtpAdmission" where
  "scheduleRejection s =
     (case try_send (rejects s) of
        Some r \<Rightarrow> (RejectedWithReply, s\<lparr>rejects := r\<rparr>)
      | None \<Rightarrow> (RejectedSilently, s))"

definition rejection_done :: "smtpAdmission \<Rightarrow> smtpAdmission" where
  "rejection_done s = s\<lparr>rejects := receive (rejects s)\<rparr>"

text \<open>One round of the loop of \<^verbatim>\<open>Accept\<close>, for a connection from the given remote address.\<close>

definition Accept :: "string \<Rightarrow> smtpAdmission \<Rightarrow> outcome \<times> smtpAdmission" where
  "Accept remote s =
     (case try_send (sessions s) of
        None \<Rightarrow> scheduleRejection s
      | Some c \<Rightarrow>
          (let s1 = s\<lparr>sessions := c\<rparr>; source = sourceAddress remote in
           case acquireSource source s1 of
             (False, s2) \<Rightarrow> scheduleRejection (s2\<lparr>sessions := receive (sessions s2)\<rparr>)
           | (True, s2) \<Rightarrow>
               (Admitted, s2\<lparr>conns := conns s2 @ [\<lparr>conn_source = source, released = False\<rparr>]\<rparr>)))"

text \<open>\<^verbatim>\<open>admittedSMTPConn.Close\<close> on the connection at an index: the release runs once.\<close>

definition Close :: "nat \<Rightarrow> smtpAdmission \<Rightarrow> smtpAdmission" where
  "Close i s =
     (if i < length (conns s) \<and> \<not> released (conns s ! i) then
        (let s1 = releaseSource (conn_source (conns s ! i)) s
         in s1\<lparr>sessions := receive (sessions s1),
               conns := (conns s1)[i := (conns s1 ! i)\<lparr>released := True\<rparr>]\<rparr>)
      else s)"

record smtpRuntime =
  ActiveConnections :: nat
  ConnectionLimit :: nat

definition RuntimeStatus :: "smtpAdmission \<Rightarrow> smtpRuntime" where
  "RuntimeStatus s = \<lparr>ActiveConnections = held (sessions s), ConnectionLimit = capacity (sessions s)\<rparr>"

inductive adm_step :: "smtpAdmission \<Rightarrow> smtpAdmission \<Rightarrow> bool" where
  accept: "adm_step s (snd (Accept remote s))"
| close: "adm_step s (Close i s)"
| reject_done: "0 < held (rejects s) \<Longrightarrow> adm_step s (rejection_done s)"

inductive adm_reachable :: "config \<Rightarrow> smtpAdmission \<Rightarrow> bool" for c where
  start: "adm_reachable c (NewSMTPServer_admission c)"
| step: "adm_reachable c s \<Longrightarrow> adm_step s s' \<Longrightarrow> adm_reachable c s'"

inductive_cases adm_stepE: "adm_step s s'"

section \<open>Invariant\<close>

definition open_conns :: "smtpAdmission \<Rightarrow> admittedConn list" where
  "open_conns s = filter (\<lambda>k. \<not> released k) (conns s)"

definition open_from :: "string \<Rightarrow> smtpAdmission \<Rightarrow> nat" where
  "open_from src s = length (filter (\<lambda>k. conn_source k = src) (open_conns s))"

definition adm_inv :: "smtpAdmission \<Rightarrow> bool" where
  "adm_inv s \<longleftrightarrow>
     held (sessions s) = length (open_conns s) \<and> held (sessions s) \<le> capacity (sessions s) \<and>
     held (rejects s) \<le> capacity (rejects s) \<and>
     (\<forall>src. sources s src = (if open_from src s = 0 then None else Some (int (open_from src s)))) \<and>
     (0 < perIP s \<longrightarrow> (\<forall>src. int (open_from src s) \<le> perIP s))"

lemma source_count_inv: "adm_inv s \<Longrightarrow> source_count s src = int (open_from src s)"
  by (simp add: adm_inv_def source_count_def)

lemma scheduleRejection_inv: "adm_inv s \<Longrightarrow> adm_inv (snd (scheduleRejection s))"
  by (auto simp: scheduleRejection_def try_send_def adm_inv_def open_conns_def open_from_def split: option.splits if_splits)

lemma Accept_cases:
  shows "Accept remote s =
    (if held (sessions s) < capacity (sessions s) \<and>
        \<not> (0 < perIP s \<and> perIP s \<le> source_count s (sourceAddress remote))
     then (Admitted, s\<lparr>sessions := (sessions s)\<lparr>held := Suc (held (sessions s))\<rparr>,
             sources := (sources s)(sourceAddress remote \<mapsto> source_count s (sourceAddress remote) + 1),
             conns := conns s @ [\<lparr>conn_source = sourceAddress remote, released = False\<rparr>]\<rparr>)
     else scheduleRejection s)"
  by (auto simp: Accept_def try_send_def receive_def acquireSource_def source_count_def Let_def)

lemma Accept_inv: "adm_inv s \<Longrightarrow> adm_inv (snd (Accept remote s))"
proof -
  assume inv: "adm_inv s"
  let ?src = "sourceAddress remote"
  show ?thesis
  proof (cases "held (sessions s) < capacity (sessions s) \<and> \<not> (0 < perIP s \<and> perIP s \<le> source_count s ?src)")
    case False
    then show ?thesis using scheduleRejection_inv [OF inv] by (simp only: Accept_cases if_False)
  next
    case True
    let ?s = "snd (Accept remote s)"
    have s: "?s = s\<lparr>sessions := (sessions s)\<lparr>held := Suc (held (sessions s))\<rparr>,
             sources := (sources s)(?src \<mapsto> source_count s ?src + 1),
             conns := conns s @ [\<lparr>conn_source = ?src, released = False\<rparr>]\<rparr>"
      using True by (simp add: Accept_cases)
    have o: "open_from x ?s = (if x = ?src then Suc (open_from x s) else open_from x s)" for x
      unfolding s by (simp add: open_from_def open_conns_def)
    have n: "length (open_conns ?s) = Suc (length (open_conns s))" unfolding s by (simp add: open_conns_def)
    show ?thesis
      using inv True source_count_inv [OF inv, of ?src] n o unfolding adm_inv_def
      by (auto simp: s)
  qed
qed

lemma Close_open:
  assumes "i < length (conns s)" "\<not> released (conns s ! i)"
  shows "length (open_conns (Close i s)) = length (open_conns s) - 1" "0 < length (open_conns s)"
    "open_from x (Close i s) = (if x = conn_source (conns s ! i) then open_from x s - 1 else open_from x s)"
    "0 < open_from (conn_source (conns s ! i)) s"
proof -
  obtain xs k ys where split: "conns s = xs @ k # ys" "length xs = i" "conns s ! i = k"
    using assms(1) id_take_nth_drop [OF assms(1)] by force
  have "conns (Close i s) = xs @ k\<lparr>released := True\<rparr> # ys"
    using assms split by (simp add: Close_def Let_def releaseSource_def list_update_append)
  then show "length (open_conns (Close i s)) = length (open_conns s) - 1" "0 < length (open_conns s)"
    "open_from x (Close i s) = (if x = conn_source (conns s ! i) then open_from x s - 1 else open_from x s)"
    "0 < open_from (conn_source (conns s ! i)) s"
    using assms(2) split(1,3) by (auto simp: open_conns_def open_from_def)
qed

lemma Close_inv:
  assumes inv: "adm_inv s"
  shows "adm_inv (Close i s)"
proof (cases "i < length (conns s) \<and> \<not> released (conns s ! i)")
  case False
  then have "Close i s = s" by (auto simp: Close_def)
  with inv show ?thesis by simp
next
  case True
  let ?src = "conn_source (conns s ! i)" and ?s = "Close i s"
  note o = Close_open [OF conjunct1 [OF True] conjunct2 [OF True]]
  have f: "sessions ?s = receive (sessions s)" "rejects ?s = rejects s" "perIP ?s = perIP s"
    using True by (simp_all add: Close_def Let_def releaseSource_def)
  have "sources ?s = (sources s)(?src := if source_count s ?src \<le> 1 then None else Some (source_count s ?src - 1))"
    using True by (simp add: Close_def Let_def releaseSource_def)
  then have src: "sources ?s x = (if open_from x ?s = 0 then None else Some (int (open_from x ?s)))" for x
    using inv source_count_inv [OF inv, of ?src] o(3,4) by (auto simp: adm_inv_def)
  have "int (open_from x ?s) \<le> perIP s" if "0 < perIP s" for x
    using inv that o(3) [of x] unfolding adm_inv_def
    by (metis (mono_tags, opaque_lifting) diff_le_self of_nat_mono order_trans)
  then show ?thesis
    using inv o(1,2) f src by (auto simp: adm_inv_def receive_def)
qed

lemma adm_step_inv: "adm_step s s' \<Longrightarrow> adm_inv s \<Longrightarrow> adm_inv s'"
proof (induction rule: adm_step.induct)
  case (reject_done s)
  then show ?case
    by (auto simp: rejection_done_def receive_def adm_inv_def open_conns_def open_from_def)
qed (simp_all add: Accept_inv Close_inv)

lemma adm_reachable_inv: "adm_reachable c s \<Longrightarrow> adm_inv s"
proof (induction rule: adm_reachable.induct)
  case start
  show ?case
    by (simp add: NewSMTPServer_admission_def adm_inv_def open_conns_def open_from_def make_chan_def Let_def)
next
  case (step s s')
  then show ?case using adm_step_inv by blast
qed

text \<open>The limits never change after the server is built.\<close>

lemma adm_step_limits:
  "adm_step s s' \<Longrightarrow> capacity (sessions s') = capacity (sessions s) \<and> perIP s' = perIP s"
  by (induction rule: adm_step.induct)
    (auto simp: Accept_cases scheduleRejection_def rejection_done_def Close_def releaseSource_def receive_def Let_def
      split: option.splits)

lemma adm_reachable_limits:
  "adm_reachable c s \<Longrightarrow>
   capacity (sessions s) = nat (if MaxSMTPConnections c = 0 then defaultMaxSMTPConnections else MaxSMTPConnections c) \<and>
   perIP s = MaxSMTPConnectionsPerIP c"
  by (induction rule: adm_reachable.induct)
    (auto simp: NewSMTPServer_admission_def make_chan_def Let_def dest!: adm_step_limits)

section \<open>Properties\<close>

text \<open>
  C12. The connection limits hold in every reachable state: no more connections are open than the
  global limit (100 if none is configured), none from one source than its limit when there is one,
  the counters agree exactly with the open connections, and no source without one is remembered.
\<close>

theorem smtp_connection_limits:
  assumes "adm_reachable c s"
  shows "length (open_conns s) \<le>
      nat (if MaxSMTPConnections c = 0 then defaultMaxSMTPConnections else MaxSMTPConnections c) \<and>
    ActiveConnections (RuntimeStatus s) = length (open_conns s) \<and>
    (0 < MaxSMTPConnectionsPerIP c \<longrightarrow> (\<forall>src. int (open_from src s) \<le> MaxSMTPConnectionsPerIP c)) \<and>
    (\<forall>src. sources s src = None \<longleftrightarrow> open_from src s = 0)"
  using adm_reachable_inv [OF assms] adm_reachable_limits [OF assms]
  by (auto simp: adm_inv_def RuntimeStatus_def)

theorem smtp_connection_limits_witness:
  "int (open_from ''1.2.3.4'' (snd (Accept ''1.2.3.4:99'' (snd (Accept ''1.2.3.4:98'' (NewSMTPServer_admission example_config))))))
     \<le> 1"
proof -
  have "adm_reachable example_config
      (snd (Accept ''1.2.3.4:99'' (snd (Accept ''1.2.3.4:98'' (NewSMTPServer_admission example_config)))))"
    by (intro adm_reachable.step [OF _ adm_step.accept] adm_reachable.start)
  from smtp_connection_limits [OF this] show ?thesis by (simp add: example_config_def)
qed

text \<open>
  A connection is admitted exactly when a global slot is free and its source is below its
  limit: nobody is refused while there is room, and a slot taken for a refused connection is given
  back.
\<close>

lemma Accept_iff_room:
  assumes "adm_reachable c s"
  shows "(fst (Accept remote s) = Admitted \<longleftrightarrow>
      length (open_conns s) < capacity (sessions s) \<and>
      (0 < perIP s \<longrightarrow> int (open_from (sourceAddress remote) s) < perIP s)) \<and>
    (fst (Accept remote s) \<noteq> Admitted \<longrightarrow>
      sessions (snd (Accept remote s)) = sessions s \<and> sources (snd (Accept remote s)) = sources s)"
proof -
  have inv: "adm_inv s" by (rule adm_reachable_inv [OF assms])
  have "fst (scheduleRejection s) \<noteq> Admitted"
    by (simp add: scheduleRejection_def split: option.split)
  moreover have "sessions (snd (scheduleRejection s)) = sessions s \<and> sources (snd (scheduleRejection s)) = sources s"
    by (simp add: scheduleRejection_def split: option.split)
  moreover have "held (sessions s) = length (open_conns s)" using inv by (simp add: adm_inv_def)
  ultimately show ?thesis
    using source_count_inv [OF inv, of "sourceAddress remote"] unfolding Accept_cases by auto
qed

text \<open>Closing a connection twice releases its slot once.\<close>

lemma Close_once: "Close i (Close i s) = Close i s"
proof (cases "i < length (conns s) \<and> \<not> released (conns s ! i)")
  case True
  then have "conns (Close i s) = (conns s)[i := (conns s ! i)\<lparr>released := True\<rparr>]"
    by (simp add: Close_def Let_def releaseSource_def)
  with True have "released (conns (Close i s) ! i)" by simp
  then show ?thesis by (simp add: Close_def [of i "Close i s"])
qed (auto simp: Close_def)

end
