(* ===== verification/Analytics.thy ===== *)
theory Analytics
  imports Config "HOL-Library.Product_Lexorder"
begin

text \<open>
  The analytics pipeline of \<^verbatim>\<open>internal/app/analytics.go\<close>: \<^verbatim>\<open>Record\<close> puts events on a
  bounded queue without waiting; one worker moves them to a batch and writes batches to three tables,
  retrying a failed batch a bounded number of times, pruning expired rows and evicting the oldest
  ones when the database grows over its budget. Every branch of the worker's \<^verbatim>\<open>select\<close> is one
  function on the state; calls that can fail consume faults as in the store.

  A size reading (\<^verbatim>\<open>usage\<close>: page counts of SQLite and the size of the write-ahead log) is an
  answer of the outside world, one element of \<open>readings\<close>.
\<close>

section \<open>State\<close>

record event =
  e_ID :: string
  e_Kind :: string
  e_Timestamp :: "time option" \<comment> \<open>\<open>None\<close> is the zero time\<close>
  e_Recipient :: string
  e_Sender :: string
  e_SenderDomain :: string
  e_IP :: string
  e_Size :: int
  e_UserAgent :: string
  e_Route :: string
  e_Method :: string
  e_Status :: int
  e_DurationKnown :: bool
  e_DurationMS :: rat
  e_MessageID :: string
  e_Polling :: bool

type_synonym arow = "string \<times> int \<times> event"

record analytics = env +
  readings :: "int stream"
  enabled :: bool
  eventTTL :: int
  maxStorage :: int
  queue :: "(event \<times> int) list"
  pendingCount :: int
  backlogSince :: int
  closed :: bool
  stopped :: bool
  connected :: bool
  batch :: "event list"
  attempts :: nat
  dropped :: nat
  writeErrors :: nat
  available :: bool
  lastIngested :: "time option"
  earlyEvicted :: nat
  storageBytes :: int
  earliestEvent :: "int option"
  hasTiming :: bool
  deliveries :: "arow list"
  http_requests :: "arow list"
  smtp_rejections :: "arow list"
  written :: "event list" \<comment> \<open>history variable: the events of the committed batches\<close>

definition analyticsQueueSize :: nat where "analyticsQueueSize = 4096"
definition analyticsBatchSize :: nat where "analyticsBatchSize = 128"
definition analyticsMaxAttempts :: nat where "analyticsMaxAttempts = 3"

section \<open>Calls\<close>

definition acall :: "analytics \<Rightarrow> bool \<times> analytics" where
  "acall a = (shd (faults a) = None, a\<lparr>faults := stl (faults a)\<rparr>)"

text \<open>A sequence of calls that stops at the first failure.\<close>

fun acalls :: "nat \<Rightarrow> analytics \<Rightarrow> bool \<times> analytics" where
  "acalls 0 a = (True, a)"
| "acalls (Suc n) a = (case acall a of (False, a1) \<Rightarrow> (False, a1) | (True, a1) \<Rightarrow> acalls n a1)"

definition anow :: "analytics \<Rightarrow> time \<times> analytics" where
  "anow a = (shd (clock a), a\<lparr>clock := stl (clock a)\<rparr>)"

definition UnixMilli :: "time \<Rightarrow> int" where
  "UnixMilli t = t div 1000000"

section \<open>Record\<close>

definition boundedAnalyticsString :: "string \<Rightarrow> nat \<Rightarrow> string" where
  "boundedAnalyticsString s n = ToValidUTF8 (if n < length s then take n s else s) []"

text \<open>The bound the callers of \<^verbatim>\<open>Record\<close> apply before (\<^verbatim>\<open>internal/app/http.go\<close>).\<close>

definition boundedEventString :: "string \<Rightarrow> nat \<Rightarrow> string" where
  "boundedEventString value limit = ToValidUTF8 (if limit < length value then take limit value else value) []"

definition a_drop :: "nat \<Rightarrow> analytics \<Rightarrow> analytics" where
  "a_drop n a = a\<lparr>dropped := dropped a + n\<rparr>"

definition bounded_event :: "event \<Rightarrow> event" where
  "bounded_event e = e\<lparr>
     e_Recipient := boundedAnalyticsString (e_Recipient e) 320,
     e_Sender := boundedAnalyticsString (e_Sender e) 320,
     e_SenderDomain := boundedAnalyticsString (e_SenderDomain e) 255,
     e_IP := boundedAnalyticsString (e_IP e) 64,
     e_UserAgent := boundedAnalyticsString (e_UserAgent e) 512,
     e_Route := boundedAnalyticsString (e_Route e) 128,
     e_Method := boundedAnalyticsString (e_Method e) 16,
     e_MessageID := boundedAnalyticsString (e_MessageID e) 128,
     e_ID := boundedAnalyticsString (e_ID e) 128\<rparr>"

text \<open>
  The clock is read for a missing timestamp, for the first event of a backlog and for the queue
  entry. The counter of pending events goes up before the send and down again when the queue is
  full.
\<close>

definition stamp_event :: "event \<Rightarrow> analytics \<Rightarrow> event \<times> analytics" where
  "stamp_event e a =
     (if e_Timestamp e = None then (case anow a of (t, a1) \<Rightarrow> (e\<lparr>e_Timestamp := Some t\<rparr>, a1)) else (e, a))"

definition name_event :: "event \<Rightarrow> analytics \<Rightarrow> event \<times> analytics" where
  "name_event e a =
     (if e_ID e = []
      then (e\<lparr>e_ID := concat (map hex_byte (shd (rands a)))\<rparr>, a\<lparr>rands := stl (rands a)\<rparr>)
      else (e, a))"

definition note_pending :: "analytics \<Rightarrow> analytics" where
  "note_pending a =
     (let a1 = a\<lparr>pendingCount := pendingCount a + 1\<rparr> in
      if pendingCount a1 = 1 then (case anow a1 of (t, a2) \<Rightarrow> a2\<lparr>backlogSince := UnixMilli t\<rparr>) else a1)"

definition send_event :: "event \<Rightarrow> analytics \<Rightarrow> analytics" where
  "send_event e a =
     (case anow a of
        (t, a1) \<Rightarrow>
          if length (queue a1) < analyticsQueueSize
          then a1\<lparr>queue := queue a1 @ [(e, UnixMilli t)]\<rparr>
          else a_drop 1 (a1\<lparr>pendingCount := pendingCount a1 - 1\<rparr>))"

definition Record :: "event \<Rightarrow> analytics \<Rightarrow> analytics" where
  "Record e a =
     (if \<not> enabled a \<or> closed a then a
      else if e_Kind e \<noteq> ''delivery'' \<and> e_Kind e \<noteq> ''http'' \<and> e_Kind e \<noteq> ''smtpRejected'' then a_drop 1 a
      else
        (case stamp_event e a of
           (e1, a1) \<Rightarrow>
             (case name_event e1 a1 of
                (e2, a2) \<Rightarrow> send_event (bounded_event e2) (note_pending a2))))"

section \<open>The database\<close>

definition a_failure :: "analytics \<Rightarrow> analytics" where
  "a_failure a = a\<lparr>writeErrors := Suc (writeErrors a), available := False\<rparr>"

definition a_disconnect :: "analytics \<Rightarrow> analytics" where
  "a_disconnect a = a\<lparr>connected := False, available := False\<rparr>"

text \<open>\<^verbatim>\<open>INSERT OR IGNORE\<close> on the identifier.\<close>

definition insert_ignore :: "arow \<Rightarrow> arow list \<Rightarrow> arow list" where
  "insert_ignore r rs = (if fst r \<in> set (map fst rs) then rs else rs @ [r])"

text \<open>
  The columns of the three tables: a row keeps the fields its table has a column for, the others are
  empty. A delivery without a measured duration stores \<^verbatim>\<open>NULL\<close>; the stage of a rejection is its
  route.
\<close>

definition delivery_columns :: "event \<Rightarrow> event" where
  "delivery_columns e = e\<lparr>e_UserAgent := [], e_Route := [], e_Method := [], e_Status := 0,
     e_DurationMS := (if e_DurationKnown e then e_DurationMS e else 0), e_MessageID := [], e_Polling := False\<rparr>"

definition rejection_columns :: "event \<Rightarrow> event" where
  "rejection_columns e = e\<lparr>e_Size := 0, e_UserAgent := [], e_Method := [], e_DurationKnown := True,
     e_MessageID := [], e_Polling := False\<rparr>"

definition http_columns :: "event \<Rightarrow> event" where
  "http_columns e = e\<lparr>e_Sender := [], e_SenderDomain := [], e_Size := 0, e_DurationKnown := True\<rparr>"

definition insert_event :: "event \<Rightarrow> analytics \<Rightarrow> analytics" where
  "insert_event e a =
     (let r = (\<lambda>c. (e_ID e, UnixMilli (case e_Timestamp e of None \<Rightarrow> 0 | Some t \<Rightarrow> t), c e)) in
      if e_Kind e = ''delivery'' then a\<lparr>deliveries := insert_ignore (r delivery_columns) (deliveries a)\<rparr>
      else if e_Kind e = ''smtpRejected'' then a\<lparr>smtp_rejections := insert_ignore (r rejection_columns) (smtp_rejections a)\<rparr>
      else a\<lparr>http_requests := insert_ignore (r http_columns) (http_requests a)\<rparr>)"

definition expired_event :: "time \<Rightarrow> event \<Rightarrow> bool" where
  "expired_event cutoff e = (case e_Timestamp e of None \<Rightarrow> True | Some t \<Rightarrow> t < cutoff)"

fun insert_events :: "time \<Rightarrow> event list \<Rightarrow> analytics \<Rightarrow> bool \<times> analytics" where
  "insert_events cutoff [] a = (True, a)"
| "insert_events cutoff (e # es) a =
     (if expired_event cutoff e then insert_events cutoff es a
      else case acall a of
          (False, a1) \<Rightarrow> (False, a1)
        | (True, a1) \<Rightarrow> insert_events cutoff es (insert_event e a1))"

text \<open>The three tables, to undo a transaction.\<close>

definition with_tables :: "analytics \<Rightarrow> analytics \<Rightarrow> analytics" where
  "with_tables old a = a\<lparr>deliveries := deliveries old, http_requests := http_requests old,
     smtp_rejections := smtp_rejections old\<rparr>"

definition writeBatch :: "event list \<Rightarrow> analytics \<Rightarrow> bool \<times> analytics" where
  "writeBatch events a =
     (case acall a of
        (False, a1) \<Rightarrow> (False, a1)
      | (True, a1) \<Rightarrow>
          (case anow a1 of
             (t, a2) \<Rightarrow>
               (case insert_events (t - eventTTL a2) events a2 of
                  (False, a3) \<Rightarrow> (False, with_tables a a3)
                | (True, a3) \<Rightarrow>
                    (case acall a3 of
                       (False, a4) \<Rightarrow> (False, with_tables a a4)
                     | (True, a4) \<Rightarrow> (True, a4)))))"

text \<open>Three queries, then the size of the log if it can be read: the answer is a reading.\<close>

definition usage :: "analytics \<Rightarrow> int option \<times> analytics" where
  "usage a =
     (case acalls 3 a of
        (False, a1) \<Rightarrow> (None, a1)
      | (True, a1) \<Rightarrow> (Some (shd (readings a1)), a1\<lparr>readings := stl (readings a1)\<rparr>))"

definition prune :: "analytics \<Rightarrow> bool \<times> analytics" where
  "prune a =
     (case anow a of
        (t, a1) \<Rightarrow>
          (let keep = filter (\<lambda>r. \<not> fst (snd r) < UnixMilli (t - eventTTL a1)) in
           case acall a1 of
             (False, a2) \<Rightarrow> (False, a2)
           | (True, a2) \<Rightarrow>
               (case acall (a2\<lparr>deliveries := keep (deliveries a2)\<rparr>) of
                  (False, a3) \<Rightarrow> (False, a3)
                | (True, a3) \<Rightarrow>
                    (case acall (a3\<lparr>http_requests := keep (http_requests a3)\<rparr>) of
                       (False, a4) \<Rightarrow> (False, a4)
                     | (True, a4) \<Rightarrow> (True, a4\<lparr>smtp_rejections := keep (smtp_rejections a4)\<rparr>)))))"

datatype table = Deliveries | HttpRequests | SmtpRejections

definition all_keys :: "analytics \<Rightarrow> (table \<times> string \<times> int) list" where
  "all_keys a = map (\<lambda>r. (Deliveries, fst r, fst (snd r))) (deliveries a)
     @ map (\<lambda>r. (HttpRequests, fst r, fst (snd r))) (http_requests a)
     @ map (\<lambda>r. (SmtpRejections, fst r, fst (snd r))) (smtp_rejections a)"

definition oldest_keys :: "analytics \<Rightarrow> (table \<times> string \<times> int) list" where
  "oldest_keys a = take 256 (sort_key (\<lambda>k. (snd (snd k), fst (snd k))) (all_keys a))"

definition delete_key :: "table \<times> string \<times> int \<Rightarrow> analytics \<Rightarrow> analytics" where
  "delete_key k a =
     (let keep = filter (\<lambda>r. fst r \<noteq> fst (snd k)) in
      case fst k of
        Deliveries \<Rightarrow> a\<lparr>deliveries := keep (deliveries a)\<rparr>
      | HttpRequests \<Rightarrow> a\<lparr>http_requests := keep (http_requests a)\<rparr>
      | SmtpRejections \<Rightarrow> a\<lparr>smtp_rejections := keep (smtp_rejections a)\<rparr>)"

fun delete_keys :: "(table \<times> string \<times> int) list \<Rightarrow> analytics \<Rightarrow> bool \<times> analytics" where
  "delete_keys [] a = (True, a)"
| "delete_keys (k # ks) a =
     (case acall a of (False, a1) \<Rightarrow> (False, a1) | (True, a1) \<Rightarrow> delete_keys ks (delete_key k a1))"

text \<open>The transaction of one eviction round: begin, query and row iteration, deletes, commit.\<close>

definition evict_round :: "analytics \<Rightarrow> nat option \<times> analytics" where
  "evict_round a =
     (case acalls 3 a of
        (False, a1) \<Rightarrow> (None, a1)
      | (True, a1) \<Rightarrow>
          (let keys = oldest_keys a1 in
           case delete_keys keys a1 of
             (False, a2) \<Rightarrow> (None, with_tables a a2)
           | (True, a2) \<Rightarrow>
               (case acall a2 of
                  (False, a3) \<Rightarrow> (None, with_tables a a3)
                | (True, a3) \<Rightarrow> (Some (length keys), a3\<lparr>earlyEvicted := earlyEvicted a3 + length keys\<rparr>))))"

fun maintain_rounds :: "nat \<Rightarrow> int \<Rightarrow> analytics \<Rightarrow> int option \<times> analytics" where
  "maintain_rounds 0 used a = (Some used, a)"
| "maintain_rounds (Suc n) used a =
     (if \<not> maxStorage a < used then (Some used, a)
      else case evict_round a of
          (None, a1) \<Rightarrow> (None, a1)
        | (Some k, a1) \<Rightarrow>
            if k = 0 then (Some used, a1)
            else case acalls 2 a1 of
                (False, a2) \<Rightarrow> (None, a2)
              | (True, a2) \<Rightarrow>
                  (case usage a2 of (None, a3) \<Rightarrow> (None, a3) | (Some u, a3) \<Rightarrow> maintain_rounds n u a3))"

definition earliest :: "analytics \<Rightarrow> int option" where
  "earliest a = (case map (\<lambda>k. snd (snd k)) (all_keys a) of [] \<Rightarrow> None | ts \<Rightarrow> Some (Min (set ts)))"

definition maintain :: "analytics \<Rightarrow> bool \<times> analytics" where
  "maintain a =
     (case usage a of
        (None, a1) \<Rightarrow> (False, a1)
      | (Some used, a1) \<Rightarrow>
          (case (if maxStorage a1 < used then
                   (case acall a1 of
                      (False, a2) \<Rightarrow> (None, a2)
                    | (True, a2) \<Rightarrow>
                        (case usage a2 of (None, a3) \<Rightarrow> (None, a3) | (Some u, a3) \<Rightarrow> maintain_rounds 32 u a3))
                 else (Some used, a1)) of
             (None, a4) \<Rightarrow> (False, a4)
           | (Some u, a4) \<Rightarrow>
               (case acall a4 of
                  (False, a5) \<Rightarrow> (False, a5)
                | (True, a5) \<Rightarrow> (True, a5\<lparr>storageBytes := u, earliestEvent := earliest a5\<rparr>))))"

definition migrateDeliveryTiming :: "analytics \<Rightarrow> bool \<times> analytics" where
  "migrateDeliveryTiming a =
     (case acalls 2 a of
        (False, a1) \<Rightarrow> (False, a1)
      | (True, a1) \<Rightarrow>
          if hasTiming a1 then (True, a1)
          else case acall a1 of
              (False, a2) \<Rightarrow> (False, a2)
            | (True, a2) \<Rightarrow> (True, a2\<lparr>hasTiming := True\<rparr>))"

definition a_open :: "analytics \<Rightarrow> bool \<times> analytics" where
  "a_open a =
     (case acall a of
        (False, a1) \<Rightarrow> (False, a_failure a1)
      | (True, a1) \<Rightarrow>
          (case acalls 10 a1 of
             (False, a2) \<Rightarrow> (False, a_failure a2)
           | (True, a2) \<Rightarrow>
               (case migrateDeliveryTiming a2 of
                  (False, a3) \<Rightarrow> (False, a_failure a3)
                | (True, a3) \<Rightarrow>
                    (case prune (a3\<lparr>connected := True, available := True\<rparr>) of
                       (False, a4) \<Rightarrow> (False, a_disconnect (a_failure a4))
                     | (True, a4) \<Rightarrow>
                         (case maintain a4 of
                            (False, a5) \<Rightarrow> (False, a_disconnect (a_failure a5))
                          | (True, a5) \<Rightarrow> (True, a5))))))"

section \<open>The worker\<close>

definition drop_batch :: "analytics \<Rightarrow> analytics" where
  "drop_batch a = (a_drop (length (batch a)) a)\<lparr>
     pendingCount := pendingCount a - int (length (batch a)), batch := [], attempts := 0\<rparr>"

definition a_write :: "analytics \<Rightarrow> analytics" where
  "a_write a =
     (if batch a = [] then a
      else if \<not> connected a then a
      else case writeBatch (batch a) a of
          (False, a1) \<Rightarrow>
            (let a2 = (a_failure a1)\<lparr>attempts := Suc (attempts a1)\<rparr> in
             a_disconnect (if analyticsMaxAttempts \<le> attempts a2 then drop_batch a2 else a2))
        | (True, a1) \<Rightarrow>
            (case anow (a1\<lparr>pendingCount := pendingCount a1 - int (length (batch a1)), written := written a1 @ batch a1,
                         batch := [], attempts := 0\<rparr>) of
               (t, a2) \<Rightarrow>
                 (case maintain (a2\<lparr>lastIngested := Some t, available := True\<rparr>) of
                    (False, a3) \<Rightarrow> a_disconnect (a_failure a3)
                  | (True, a3) \<Rightarrow> a3)))"

text \<open>One event from the queue into the batch.\<close>

definition take_event :: "analytics \<Rightarrow> analytics" where
  "take_event a =
     (case queue a of
        [] \<Rightarrow> a
      | (e, t) # q \<Rightarrow>
          (let a1 = (if batch a = [] then a\<lparr>backlogSince := t\<rparr> else a)
           in a1\<lparr>queue := q, batch := batch a1 @ [e]\<rparr>))"

text \<open>The branches of the \<^verbatim>\<open>select\<close>. Input is only taken while the batch is not full.\<close>

definition on_event :: "analytics \<Rightarrow> analytics" where
  "on_event a =
     (if length (batch a) < analyticsBatchSize \<and> queue a \<noteq> [] then
        (let a1 = take_event a in if length (batch a1) = analyticsBatchSize then a_write a1 else a1)
      else a)"

definition on_flush :: "analytics \<Rightarrow> analytics" where
  "on_flush a = a_write a"

definition on_retry :: "analytics \<Rightarrow> analytics" where
  "on_retry a =
     (let a1 = (if \<not> connected a then snd (a_open a) else a) in
      if \<not> connected a1 \<and> batch a1 \<noteq> [] then
        (let a2 = a1\<lparr>attempts := Suc (attempts a1)\<rparr>
         in if analyticsMaxAttempts \<le> attempts a2 then drop_batch a2 else a2)
      else a_write a1)"

definition on_cleanup :: "analytics \<Rightarrow> analytics" where
  "on_cleanup a =
     (if \<not> connected a then a
      else case prune a of
          (False, a1) \<Rightarrow> a_disconnect (a_failure a1)
        | (True, a1) \<Rightarrow>
            (case maintain a1 of
               (False, a2) \<Rightarrow> a_disconnect (a_failure a2)
             | (True, a2) \<Rightarrow> a2))"

end
