(* ===== verification/AnalyticsWorker.thy ===== *)
theory AnalyticsWorker
  imports Analytics
begin

text \<open>
  The analytics worker as a whole: the loop that drains the queue on shutdown, and the proof that
  every event handed to \<^verbatim>\<open>Record\<close> is accounted for.
\<close>

section \<open>What database work leaves alone\<close>

definition core :: "analytics \<Rightarrow> (event \<times> int) list \<times> event list \<times> int \<times> nat \<times> nat \<times> bool \<times> bool \<times> bool \<times> int \<times> event list" where
  "core a = (queue a, batch a, pendingCount a, attempts a, dropped a, enabled a, closed a, stopped a, eventTTL a, written a)"

lemma core_fields:
  assumes "core a = core b"
  shows "queue a = queue b" "batch a = batch b" "pendingCount a = pendingCount b" "attempts a = attempts b"
    "dropped a = dropped b" "enabled a = enabled b" "closed a = closed b" "stopped a = stopped b"
    "eventTTL a = eventTTL b" "written a = written b"
  using assms by (simp_all add: core_def)

lemma core_update [simp]:
  "core (a\<lparr>faults := f\<rparr>) = core a" "core (a\<lparr>rands := rs\<rparr>) = core a" "core (a\<lparr>clock := c\<rparr>) = core a" "core (a\<lparr>readings := r\<rparr>) = core a"
  "core (a\<lparr>backlogSince := b\<rparr>) = core a" "core (a\<lparr>connected := x\<rparr>) = core a"
  "core (a\<lparr>writeErrors := w\<rparr>) = core a" "core (a\<lparr>available := x\<rparr>) = core a"
  "core (a\<lparr>lastIngested := l\<rparr>) = core a" "core (a\<lparr>earlyEvicted := n\<rparr>) = core a"
  "core (a\<lparr>storageBytes := k\<rparr>) = core a" "core (a\<lparr>earliestEvent := o'\<rparr>) = core a"
  "core (a\<lparr>hasTiming := x\<rparr>) = core a" "core (a\<lparr>deliveries := d\<rparr>) = core a"
  "core (a\<lparr>http_requests := d\<rparr>) = core a" "core (a\<lparr>smtp_rejections := d\<rparr>) = core a"
  by (simp_all add: core_def)

definition keeps :: "analytics \<Rightarrow> analytics \<Rightarrow> bool" where
  "keeps a a' \<longleftrightarrow> core a' = core a \<and> connected a' = connected a"

lemma keeps_refl [simp]: "keeps a a"
  by (simp add: keeps_def)

lemma keeps_trans: "keeps a b \<Longrightarrow> keeps b c \<Longrightarrow> keeps a c"
  by (simp add: keeps_def)

lemma acall_keeps: "acall a = (r, a') \<Longrightarrow> keeps a a'"
  by (auto simp: acall_def keeps_def)

lemma acalls_keeps: "acalls n a = (r, a') \<Longrightarrow> keeps a a'"
  by (induction n arbitrary: a) (auto split: prod.splits bool.splits intro: keeps_trans acall_keeps)

lemma insert_event_keeps: "keeps a (insert_event e a)"
  by (simp add: insert_event_def keeps_def Let_def)

lemma insert_events_keeps: "insert_events t es a = (r, a') \<Longrightarrow> keeps a a'"
proof (induction t es a rule: insert_events.induct)
  case (1 t a)
  then show ?case by simp
next
  case (2 t e es a)
  then show ?case
    by (auto split: if_splits prod.splits bool.splits
        intro: keeps_trans [OF acall_keeps] keeps_trans [OF insert_event_keeps] acall_keeps)
qed

lemma with_tables_keeps: "keeps a b \<Longrightarrow> keeps a (with_tables x b)"
  by (simp add: keeps_def with_tables_def)

lemma anow_keeps: "anow a = (t, a') \<Longrightarrow> keeps a a'"
  by (auto simp: anow_def keeps_def)

lemma writeBatch_keeps:
  assumes "writeBatch es a = (r, a')"
  shows "keeps a a'"
proof -
  obtain x1 a1 where c1: "acall a = (x1, a1)" by fastforce
  obtain t a2 where n: "anow a1 = (t, a2)" by fastforce
  obtain x3 a3 where i: "insert_events (t - eventTTL a2) es a2 = (x3, a3)" by fastforce
  obtain x4 a4 where c4: "acall a3 = (x4, a4)" by fastforce
  note k = acall_keeps [OF c1] anow_keeps [OF n] insert_events_keeps [OF i] acall_keeps [OF c4]
  have "a' \<in> {a1, with_tables a a3, with_tables a a4, a4}"
    using assms c1 n i c4 by (auto simp: writeBatch_def split: bool.splits)
  with k show ?thesis by (auto intro: keeps_trans with_tables_keeps)
qed

lemma usage_keeps: "usage a = (r, a') \<Longrightarrow> keeps a a'"
  by (auto simp: usage_def split: prod.splits bool.splits dest!: acalls_keeps) (auto simp: keeps_def)

lemma prune_keeps: "prune a = (r, a') \<Longrightarrow> keeps a a'"
  by (auto simp: prune_def anow_def acall_def Let_def keeps_def split: if_splits bool.splits prod.splits)

lemma delete_keys_keeps: "delete_keys ks a = (r, a') \<Longrightarrow> keeps a a'"
proof (induction ks a rule: delete_keys.induct)
  case (1 a)
  then show ?case by simp
next
  case (2 k ks a)
  obtain x a1 where c: "acall a = (x, a1)" by fastforce
  have d: "keeps b (delete_key k b)" for b
    by (simp add: delete_key_def keeps_def Let_def split: table.split)
  show ?case
  proof (cases x)
    case True
    then have "keeps (delete_key k a1) a'" using 2 c by simp
    with d [of a1] acall_keeps [OF c] show ?thesis by (simp add: keeps_def)
  qed (use 2 c acall_keeps [OF c] in simp)
qed

lemma evict_round_keeps:
  assumes "evict_round a = (r, a')"
  shows "keeps a a'"
proof -
  obtain x1 a1 where c1: "acalls 3 a = (x1, a1)" by fastforce
  obtain x2 a2 where d: "delete_keys (oldest_keys a1) a1 = (x2, a2)" by fastforce
  obtain x3 a3 where c3: "acall a2 = (x3, a3)" by fastforce
  note k = acalls_keeps [OF c1] delete_keys_keeps [OF d] acall_keeps [OF c3]
  have "a' \<in> {a1, with_tables a a2, with_tables a a3, a3\<lparr>earlyEvicted := earlyEvicted a3 + length (oldest_keys a1)\<rparr>}"
    using assms c1 d c3 by (auto simp: evict_round_def Let_def split: bool.splits)
  then show ?thesis using k by (auto simp: keeps_def with_tables_def)
qed

lemma maintain_rounds_keeps: "maintain_rounds n u a = (r, a') \<Longrightarrow> keeps a a'"
proof (induction n u a rule: maintain_rounds.induct)
  case (1 u a)
  then show ?case by simp
next
  case (2 n u a)
  obtain x1 a1 where e: "evict_round a = (x1, a1)" by fastforce
  obtain x2 a2 where c: "acalls 2 a1 = (x2, a2)" by fastforce
  obtain x3 a3 where us: "usage a2 = (x3, a3)" by fastforce
  note k = evict_round_keeps [OF e] acalls_keeps [OF c] usage_keeps [OF us]
  from "2.prems" consider "a' = a" | "a' = a1" | "a' = a2" | "a' = a3"
    | v where "x1 = Some v" "v \<noteq> 0" "x2" "\<exists>w. x3 = Some w \<and> maintain_rounds n w a3 = (r, a')" "maxStorage a < u"
    using e c us by (auto split: if_splits option.splits bool.splits)
  then show ?case
  proof cases
    case 5
    then obtain v' w where w: "x1 = Some v'" "x3 = Some w" "maintain_rounds n w a3 = (r, a')" by blast
    have "keeps a3 a'"
      by (rule "2.IH" [OF _ e [symmetric] w(1) _ c [symmetric] _ us [symmetric] w(2,3)]) (use 5 w in auto)
    with k show ?thesis by (blast intro: keeps_trans)
  qed (use k in \<open>blast intro: keeps_trans keeps_refl\<close>)+
qed

lemma maintain_keeps:
  assumes "maintain a = (r, a')"
  shows "keeps a a'"
proof -
  obtain x1 a1 where u1: "usage a = (x1, a1)" by fastforce
  obtain x2 a2 where c2: "acall a1 = (x2, a2)" by fastforce
  obtain x3 a3 where u3: "usage a2 = (x3, a3)" by fastforce
  have m: "keeps a3 b" if "maintain_rounds 32 w a3 = (y, b)" for w y b by (rule maintain_rounds_keeps [OF that])
  define q where "q = (if maxStorage a1 < the x1 then
      (case (x2, a2) of (False, a2) \<Rightarrow> (None, a2)
        | (True, a2) \<Rightarrow> (case (x3, a3) of (None, a3) \<Rightarrow> (None, a3) | (Some u, a3) \<Rightarrow> maintain_rounds 32 u a3))
      else (x1, a1))"
  obtain y a4 where q4: "q = (y, a4)" by fastforce
  have k4: "keeps a1 a4"
    using q4 acall_keeps [OF c2] usage_keeps [OF u3] m
    by (auto simp: q_def split: if_splits bool.splits option.splits intro: keeps_trans)
  obtain x5 a5 where c5: "acall a4 = (x5, a5)" by fastforce
  have "a' \<in> {a1, a4, a5, a5\<lparr>storageBytes := the y, earliestEvent := earliest a5\<rparr>}"
    using assms u1 c2 u3 q4 c5
    by (cases x1) (auto simp: maintain_def q_def split: if_splits bool.splits option.splits)
  then show ?thesis
    using usage_keeps [OF u1] k4 acall_keeps [OF c5] by (auto simp: keeps_def)
qed

lemma migrateDeliveryTiming_core: "migrateDeliveryTiming a = (r, a') \<Longrightarrow> core a' = core a"
  by (auto simp: migrateDeliveryTiming_def keeps_def split: prod.splits bool.splits if_splits
      dest!: acalls_keeps acall_keeps)

lemma a_failure_core [simp]: "core (a_failure a) = core a"
  by (simp add: a_failure_def)

lemma a_disconnect_core [simp]: "core (a_disconnect a) = core a"
  by (simp add: a_disconnect_def)

lemma a_disconnect_connected [simp]: "\<not> connected (a_disconnect a)"
  by (simp add: a_disconnect_def)

lemma a_open_core: "core (snd (a_open a)) = core a"
proof -
  obtain x1 a1 where 1: "acall a = (x1, a1)" by fastforce
  obtain x2 a2 where 2: "acalls 10 a1 = (x2, a2)" by fastforce
  obtain x3 a3 where 3: "migrateDeliveryTiming a2 = (x3, a3)" by fastforce
  obtain x4 a4 where 4: "prune (a3\<lparr>connected := True, available := True\<rparr>) = (x4, a4)" by fastforce
  obtain x5 a5 where 5: "maintain a4 = (x5, a5)" by fastforce
  have "core a1 = core a" "core a2 = core a" "core a3 = core a" "core a4 = core a" "core a5 = core a"
    using acall_keeps [OF 1] acalls_keeps [OF 2] migrateDeliveryTiming_core [OF 3] prune_keeps [OF 4]
      maintain_keeps [OF 5] by (simp_all add: keeps_def)
  then show ?thesis
    using 1 2 3 4 5 by (simp add: a_open_def split: bool.split)
qed

section \<open>A write, case by case\<close>

lemma drop_batch_simps [simp]:
  "batch (drop_batch a) = []" "attempts (drop_batch a) = 0" "queue (drop_batch a) = queue a"
  "dropped (drop_batch a) = dropped a + length (batch a)" "written (drop_batch a) = written a"
  "pendingCount (drop_batch a) = pendingCount a - int (length (batch a))"
  "enabled (drop_batch a) = enabled a" "closed (drop_batch a) = closed a"
  "stopped (drop_batch a) = stopped a" "connected (drop_batch a) = connected a"
  "eventTTL (drop_batch a) = eventTTL a"
  by (simp_all add: drop_batch_def a_drop_def)

text \<open>
  What one call of the closure \<^verbatim>\<open>write\<close> can do: nothing, commit the batch, or fail and leave the
  database disconnected with the batch kept for a later attempt or counted as dropped.
\<close>

definition write_outcome :: "analytics \<Rightarrow> analytics \<Rightarrow> bool" where
  "write_outcome a a' \<longleftrightarrow>
     queue a' = queue a \<and> enabled a' = enabled a \<and> closed a' = closed a \<and> stopped a' = stopped a
     \<and> eventTTL a' = eventTTL a
     \<and> (connected a' \<longrightarrow> connected a \<and> batch a' = [])
     \<and> ((batch a' = batch a \<and> written a' = written a \<and> dropped a' = dropped a
           \<and> pendingCount a' = pendingCount a
           \<and> (attempts a' = attempts a \<or> attempts a' = Suc (attempts a) \<and> attempts a' < analyticsMaxAttempts))
        \<or> (batch a' = [] \<and> attempts a' = 0 \<and> pendingCount a' = pendingCount a - int (length (batch a))
           \<and> (written a' = written a @ batch a \<and> dropped a' = dropped a
              \<or> written a' = written a \<and> dropped a' = dropped a + length (batch a))))"

lemma a_write_outcome: "write_outcome a (a_write a)"
proof (cases "batch a = [] \<or> \<not> connected a")
  case True
  then show ?thesis by (auto simp: a_write_def write_outcome_def)
next
  case False
  obtain ok a1 where w: "writeBatch (batch a) a = (ok, a1)" by fastforce
  note c = core_fields [OF writeBatch_keeps [OF w, unfolded keeps_def, THEN conjunct1]]
  show ?thesis
  proof (cases ok)
    case True
    define a2 where "a2 = a1\<lparr>pendingCount := pendingCount a1 - int (length (batch a1)),
      written := written a1 @ batch a1, batch := [], attempts := 0\<rparr>"
    obtain t a3 where n: "anow a2 = (t, a3)" by fastforce
    obtain x a4 where m: "maintain (a3\<lparr>lastIngested := Some t, available := True\<rparr>) = (x, a4)" by fastforce
    have eq: "a_write a = (if x then a4 else a_disconnect (a_failure a4))"
      using False w True n m by (simp add: a_write_def a2_def [symmetric] split: bool.split)
    have "core a4 = core a2"
      using anow_keeps [OF n] maintain_keeps [OF m] by (simp add: keeps_def)
    then have "core (a_write a) = core a2" by (simp add: eq)
    note d = core_fields [OF this]
    show ?thesis using d c False by (simp add: write_outcome_def a2_def)
  next
    case False
    define a2 where "a2 = (a_failure a1)\<lparr>attempts := Suc (attempts a1)\<rparr>"
    have "a_write a = a_disconnect (if analyticsMaxAttempts \<le> attempts a2 then drop_batch a2 else a2)"
      using w False \<open>\<not> (batch a = [] \<or> \<not> connected a)\<close> by (simp add: a_write_def a2_def Let_def)
    then show ?thesis
      using c by (auto simp: write_outcome_def a2_def a_failure_def a_disconnect_def)
  qed
qed

lemma a_write_queue [simp]: "queue (a_write a) = queue a"
  using a_write_outcome [of a] by (simp add: write_outcome_def)

lemma a_write_connected: "connected (a_write a) \<Longrightarrow> connected a \<and> batch (a_write a) = []"
  using a_write_outcome [of a] by (simp add: write_outcome_def)

section \<open>Shutdown\<close>

text \<open>The inner loop of the shutdown branch fills the batch from the queue.\<close>

function fill_batch :: "analytics \<Rightarrow> analytics" where
  "fill_batch a =
     (if length (batch a) < analyticsBatchSize \<and> queue a \<noteq> [] then fill_batch (take_event a) else a)"
  by pat_completeness auto
termination
  by (relation "measure (\<lambda>a. length (queue a))") (auto simp: take_event_def Let_def neq_Nil_conv)

declare fill_batch.simps [simp del]

lemma take_event_simps:
  assumes "queue a \<noteq> []"
  shows "length (queue (take_event a)) = length (queue a) - 1"
    "batch (take_event a) = batch a @ [fst (hd (queue a))]" "queue (take_event a) = tl (queue a)"
    "connected (take_event a) = connected a" "pendingCount (take_event a) = pendingCount a"
    "attempts (take_event a) = attempts a" "dropped (take_event a) = dropped a"
    "written (take_event a) = written a" "enabled (take_event a) = enabled a"
    "closed (take_event a) = closed a" "stopped (take_event a) = stopped a" "eventTTL (take_event a) = eventTTL a"
  using assms by (auto simp: take_event_def Let_def neq_Nil_conv split: if_splits)

text \<open>What moving events from the queue to the batch keeps.\<close>

definition moved :: "analytics \<Rightarrow> analytics \<Rightarrow> bool" where
  "moved a a' \<longleftrightarrow> batch a' @ map fst (queue a') = batch a @ map fst (queue a)
     \<and> length (batch a) \<le> length (batch a')
     \<and> connected a' = connected a \<and> pendingCount a' = pendingCount a \<and> attempts a' = attempts a
     \<and> dropped a' = dropped a \<and> written a' = written a \<and> enabled a' = enabled a
     \<and> closed a' = closed a \<and> stopped a' = stopped a \<and> eventTTL a' = eventTTL a"

lemma take_event_moved: "queue a \<noteq> [] \<Longrightarrow> moved a (take_event a)"
  by (simp add: moved_def take_event_simps) (cases "queue a"; simp)

lemma moved_trans: "moved a b \<Longrightarrow> moved b c \<Longrightarrow> moved a c"
  by (simp add: moved_def)

lemma fill_batch_moved:
  "moved a (fill_batch a) \<and> (queue a \<noteq> [] \<longrightarrow> batch (fill_batch a) \<noteq> [])
   \<and> (length (batch a) \<le> analyticsBatchSize \<longrightarrow> length (batch (fill_batch a)) \<le> analyticsBatchSize)"
proof (induction a rule: fill_batch.induct)
  case (1 a)
  show ?case
  proof (cases "length (batch a) < analyticsBatchSize \<and> queue a \<noteq> []")
    case True
    then have m: "moved a (take_event a)" and b: "length (batch (take_event a)) = Suc (length (batch a))"
      by (simp_all add: take_event_moved take_event_simps)
    have eq: "fill_batch a = fill_batch (take_event a)" using True by (simp add: fill_batch.simps [of a])
    have IH: "moved (take_event a) (fill_batch (take_event a))"
      "length (batch (take_event a)) \<le> analyticsBatchSize
       \<longrightarrow> length (batch (fill_batch (take_event a))) \<le> analyticsBatchSize"
      using "1.IH" [OF True] by blast+
    have "length (batch (take_event a)) \<le> length (batch (fill_batch (take_event a)))"
      using IH(1) by (simp add: moved_def)
    then have "batch (fill_batch (take_event a)) \<noteq> []" using b by auto
    then show ?thesis using moved_trans [OF m IH(1)] IH(2) True b by (simp add: eq)
  next
    case False
    then show ?thesis by (auto simp: fill_batch.simps [of a] moved_def analyticsBatchSize_def)
  qed
qed

lemma moved_lengths:
  assumes "moved a b"
  shows "length (batch b) + length (queue b) = length (batch a) + length (queue a)"
proof -
  have "batch b @ map fst (queue b) = batch a @ map fst (queue a)" using assms by (simp add: moved_def)
  from arg_cong [OF this, of length] show ?thesis by simp
qed

text \<open>
  The outer loop goes on while the queue holds events and the database is connected. It ends: a
  write that fails disconnects, and one that succeeds empties a batch that held at least one event.
\<close>

function stop_drain :: "analytics \<Rightarrow> analytics" where
  "stop_drain a = (if queue a \<noteq> [] \<and> connected a then stop_drain (a_write (fill_batch a)) else a)"
  by pat_completeness auto
termination
proof (relation "measures [\<lambda>a. if connected a then 1 else 0, \<lambda>a. length (batch a) + length (queue a)]")
  fix a :: analytics
  assume c: "queue a \<noteq> [] \<and> connected a"
  let ?b = "a_write (fill_batch a)"
  have m: "length (batch (fill_batch a)) + length (queue (fill_batch a)) = length (batch a) + length (queue a)"
    "batch (fill_batch a) \<noteq> []"
    using fill_batch_moved [of a] c by (simp_all add: moved_lengths)
  have "length (batch ?b) + length (queue ?b) < length (batch a) + length (queue a)" if "connected ?b"
    using a_write_connected [OF that] m by (simp flip: m(1))
  then show "(?b, a) \<in> measures [\<lambda>a. if connected a then 1 else 0, \<lambda>a. length (batch a) + length (queue a)]"
    using c by simp
qed simp

declare stop_drain.simps [simp del]

text \<open>
  The whole branch: write, drain, count what is left as dropped and return, which disconnects. The
  batch is a local variable of the worker; what the queue still holds stays there and is counted.
\<close>

definition on_stop :: "analytics \<Rightarrow> analytics" where
  "on_stop a =
     (let a1 = stop_drain (a_write a);
          n = length (batch a1) + length (queue a1);
          a2 = a_drop n a1
      in a_disconnect (a2\<lparr>pendingCount := pendingCount a2 - int n, stopped := True, batch := []\<rparr>))"

definition Close_analytics :: "analytics \<Rightarrow> analytics" where
  "Close_analytics a = a\<lparr>closed := True\<rparr>"

text \<open>The state \<^verbatim>\<open>OpenAnalytics\<close> starts from.\<close>

definition analytics_init :: "config \<Rightarrow> analytics \<Rightarrow> analytics" where
  "analytics_init cfg w = w\<lparr>enabled := AnalyticsEnabled cfg,
     eventTTL := (if AnalyticsEventTTL cfg \<le> 0 then 720 * 3600 * 1000000000 else AnalyticsEventTTL cfg),
     maxStorage := (if AnalyticsMaxStorageBytes cfg \<le> 0 then 1073741824 else AnalyticsMaxStorageBytes cfg),
     queue := [], pendingCount := 0, backlogSince := 0, closed := False, stopped := \<not> AnalyticsEnabled cfg,
     connected := False, batch := [], attempts := 0, dropped := 0, writeErrors := 0, available := False,
     lastIngested := None, earlyEvicted := 0, storageBytes := 0, earliestEvent := None, written := []\<rparr>"

definition OpenAnalytics :: "config \<Rightarrow> analytics \<Rightarrow> analytics" where
  "OpenAnalytics cfg w =
     (let a = analytics_init cfg w in if AnalyticsEnabled cfg then snd (a_open a) else a)"

text \<open>\<^verbatim>\<open>Snapshot\<close>: the lag in nanoseconds behind the oldest pending event.\<close>

definition Snapshot_lag :: "analytics \<Rightarrow> int \<times> analytics" where
  "Snapshot_lag a =
     (if 0 < pendingCount a \<and> 0 < backlogSince a
      then (case anow a of (t, a1) \<Rightarrow> (t - backlogSince a * 1000000, a1)) else (0, a))"

end
