(* ===== verification/AnalyticsProps.thy ===== *)
theory AnalyticsProps
  imports AnalyticsWorker
begin

text \<open>
  What the analytics pipeline guarantees: every event offered to \<^verbatim>\<open>Record\<close> is committed, counted
  as dropped or still held; the queue and the batch stay within their bounds; stored strings are
  bounded and well-formed; a batch is written as a whole or not at all; storage pressure removes the
  oldest events; a shutdown with a healthy database loses nothing.
\<close>

section \<open>The running service\<close>

text \<open>
  The service from \<^verbatim>\<open>OpenAnalytics\<close> on: calls of \<^verbatim>\<open>Record\<close> and \<^verbatim>\<open>Close\<close> and the branches of
  the worker's \<^verbatim>\<open>select\<close> in any order. The first number counts the calls of \<^verbatim>\<open>Record\<close> made
  while the service accepts events. The channel send is the only step of \<^verbatim>\<open>Record\<close> another
  goroutine waits for, so a call is one step here.
\<close>

inductive a_run :: "config \<Rightarrow> analytics \<Rightarrow> nat \<Rightarrow> analytics \<Rightarrow> bool" for cfg w where
  a_start: "a_run cfg w 0 (OpenAnalytics cfg w)"
| a_record: "a_run cfg w n a \<Longrightarrow> a_run cfg w (if enabled a \<and> \<not> closed a then Suc n else n) (Record e a)"
| a_close: "a_run cfg w n a \<Longrightarrow> a_run cfg w n (Close_analytics a)"
| a_event: "a_run cfg w n a \<Longrightarrow> \<not> stopped a \<Longrightarrow> a_run cfg w n (on_event a)"
| a_flush: "a_run cfg w n a \<Longrightarrow> \<not> stopped a \<Longrightarrow> a_run cfg w n (on_flush a)"
| a_retry: "a_run cfg w n a \<Longrightarrow> \<not> stopped a \<Longrightarrow> a_run cfg w n (on_retry a)"
| a_cleanup: "a_run cfg w n a \<Longrightarrow> \<not> stopped a \<Longrightarrow> a_run cfg w n (on_cleanup a)"
| a_stop: "a_run cfg w n a \<Longrightarrow> \<not> stopped a \<Longrightarrow> closed a \<Longrightarrow> a_run cfg w n (on_stop a)"

definition held_events :: "analytics \<Rightarrow> nat" where
  "held_events a = (if stopped a then 0 else length (queue a) + length (batch a))"

definition events_accounted :: "analytics \<Rightarrow> nat" where
  "events_accounted a = length (written a) + dropped a + held_events a"

definition bounded :: "event \<Rightarrow> bool" where
  "bounded e \<longleftrightarrow>
     (\<forall>(s, n) \<in> {(e_Recipient e, 320), (e_Sender e, 320), (e_SenderDomain e, 255), (e_IP e, 64),
        (e_UserAgent e, 512), (e_Route e, 128), (e_Method e, 16), (e_MessageID e, 128), (e_ID e, 128)}.
       length s \<le> (n::nat) \<and> valid_utf8 s)"

definition ainv :: "analytics \<Rightarrow> bool" where
  "ainv a \<longleftrightarrow> pendingCount a = int (held_events a) \<and> length (queue a) \<le> analyticsQueueSize
     \<and> length (batch a) \<le> analyticsBatchSize \<and> attempts a < analyticsMaxAttempts
     \<and> (stopped a \<longrightarrow> closed a \<or> \<not> enabled a)
     \<and> (\<forall>e \<in> set (written a @ batch a @ map fst (queue a)). bounded e)"

subsection \<open>Recording\<close>

lemma boundedAnalyticsString_ok:
  "length (boundedAnalyticsString s n) \<le> n" "valid_utf8 (boundedAnalyticsString s n)"
  using ToValidUTF8_length [of "if n < length s then take n s else s"]
  by (auto simp: boundedAnalyticsString_def)

lemma bounded_event_bounded: "bounded (bounded_event e)"
  by (simp add: bounded_def bounded_event_def boundedAnalyticsString_ok)

lemma core_inv:
  assumes "core b = core a"
  shows "ainv b = ainv a" "events_accounted b = events_accounted a"
  using core_fields [OF assms] by (simp_all add: ainv_def events_accounted_def held_events_def)

lemma stamp_event_core: "stamp_event e a = (e', a') \<Longrightarrow> core a' = core a"
  by (auto simp: stamp_event_def anow_def split: if_splits)

lemma name_event_core: "name_event e a = (e', a') \<Longrightarrow> core a' = core a"
  by (auto simp: name_event_def split: if_splits)

lemma note_pending_simps [simp]:
  "pendingCount (note_pending a) = pendingCount a + 1" "queue (note_pending a) = queue a"
  "batch (note_pending a) = batch a" "written (note_pending a) = written a" "dropped (note_pending a) = dropped a"
  "attempts (note_pending a) = attempts a" "stopped (note_pending a) = stopped a"
  "closed (note_pending a) = closed a" "enabled (note_pending a) = enabled a"
  by (simp_all add: note_pending_def Let_def anow_def)

lemma send_event_inv:
  assumes "ainv a" "\<not> stopped a" "bounded e"
  shows "ainv (send_event e (note_pending a)) \<and> events_accounted (send_event e (note_pending a)) = Suc (events_accounted a)"
  using assms by (auto simp: send_event_def anow_def ainv_def events_accounted_def held_events_def a_drop_def)

lemma Record_inv:
  assumes "ainv a"
  shows "ainv (Record e a) \<and> events_accounted (Record e a) = (if enabled a \<and> \<not> closed a then Suc (events_accounted a) else events_accounted a)"
proof (cases "enabled a \<and> \<not> closed a")
  case True
  with assms have ns: "\<not> stopped a" by (auto simp: ainv_def)
  obtain e1 a1 where s: "stamp_event e a = (e1, a1)" by fastforce
  obtain e2 a2 where n: "name_event e1 a1 = (e2, a2)" by fastforce
  have c: "core a2 = core a" using stamp_event_core [OF s] name_event_core [OF n] by simp
  have "ainv (send_event (bounded_event e2) (note_pending a2))
      \<and> events_accounted (send_event (bounded_event e2) (note_pending a2)) = Suc (events_accounted a)"
    using send_event_inv [of a2 "bounded_event e2"] bounded_event_bounded core_inv [OF c] core_fields(8) [OF c] assms ns
    by simp
  moreover have "ainv (a_drop 1 a) \<and> events_accounted (a_drop 1 a) = Suc (events_accounted a)"
    using assms by (simp add: ainv_def events_accounted_def held_events_def a_drop_def)
  moreover have "Record e a \<in> {a_drop 1 a, send_event (bounded_event e2) (note_pending a2)}"
    using True s n by (simp add: Record_def)
  ultimately show ?thesis using True by auto
next
  case False
  then show ?thesis using assms by (auto simp: Record_def)
qed

subsection \<open>The branches of the worker\<close>

lemma write_outcome_inv:
  assumes "write_outcome a a'" "ainv a" "\<not> stopped a"
  shows "ainv a' \<and> events_accounted a' = events_accounted a \<and> \<not> stopped a' \<and> closed a' = closed a"
  using assms
  by (auto simp: write_outcome_def ainv_def events_accounted_def held_events_def analyticsMaxAttempts_def)

lemmas a_write_inv = write_outcome_inv [OF a_write_outcome]

lemma moved_set:
  "moved a b \<Longrightarrow> set (written b @ batch b @ map fst (queue b)) = set (written a @ batch a @ map fst (queue a))"
  unfolding moved_def by (metis set_append)

lemma moved_inv:
  assumes m: "moved a b" and i: "ainv a" "\<not> stopped a" and "length (batch b) \<le> analyticsBatchSize"
  shows "ainv b \<and> events_accounted b = events_accounted a \<and> \<not> stopped b \<and> closed b = closed a"
proof -
  have "length (queue b) \<le> length (queue a)"
    using moved_lengths [OF m] m by (simp add: moved_def)
  then show ?thesis
    using moved_lengths [OF m] moved_set [OF m] m assms(2-)
    unfolding ainv_def events_accounted_def held_events_def by (simp add: moved_def)
qed

lemma on_event_inv:
  assumes "ainv a" "\<not> stopped a"
  shows "ainv (on_event a) \<and> events_accounted (on_event a) = events_accounted a"
proof (cases "length (batch a) < analyticsBatchSize \<and> queue a \<noteq> []")
  case True
  then have "length (batch (take_event a)) \<le> analyticsBatchSize" by (simp add: take_event_simps)
  with moved_inv [OF take_event_moved _ _ this] True assms
  have t: "ainv (take_event a) \<and> events_accounted (take_event a) = events_accounted a \<and> \<not> stopped (take_event a)" by blast
  with a_write_inv [of "take_event a"] True show ?thesis by (simp add: on_event_def Let_def)
next
  case False
  then show ?thesis using assms by (auto simp: on_event_def)
qed

lemma on_retry_inv:
  assumes "ainv a" "\<not> stopped a"
  shows "ainv (on_retry a) \<and> events_accounted (on_retry a) = events_accounted a"
proof -
  define b where "b = (if \<not> connected a then snd (a_open a) else a)"
  have c: "core b = core a" by (simp add: b_def a_open_core)
  have ib: "ainv b" "\<not> stopped b" "events_accounted b = events_accounted a"
    using core_inv [OF c] core_fields(8) [OF c] assms by simp_all
  show ?thesis
  proof (cases "\<not> connected b \<and> batch b \<noteq> []")
    case True
    define b2 where "b2 = b\<lparr>attempts := Suc (attempts b)\<rparr>"
    have "on_retry a = (if analyticsMaxAttempts \<le> attempts b2 then drop_batch b2 else b2)"
      using True by (simp add: on_retry_def b_def [symmetric] b2_def Let_def)
    then show ?thesis
      using ib by (auto simp: b2_def ainv_def events_accounted_def held_events_def analyticsMaxAttempts_def)
  next
    case False
    then have "on_retry a = a_write b" by (auto simp: on_retry_def b_def [symmetric] Let_def)
    with a_write_inv [OF ib(1,2)] ib(3) show ?thesis by simp
  qed
qed

lemma on_cleanup_core: "core (on_cleanup a) = core a"
proof -
  obtain x1 a1 where 1: "prune a = (x1, a1)" by fastforce
  obtain x2 a2 where 2: "maintain a1 = (x2, a2)" by fastforce
  show ?thesis
    using 1 2 prune_keeps [OF 1] maintain_keeps [OF 2]
    by (simp add: on_cleanup_def keeps_def split: bool.split)
qed

lemma stop_drain_inv:
  "ainv a \<Longrightarrow> \<not> stopped a \<Longrightarrow>
   ainv (stop_drain a) \<and> events_accounted (stop_drain a) = events_accounted a \<and> \<not> stopped (stop_drain a)
   \<and> closed (stop_drain a) = closed a"
proof (induction a rule: stop_drain.induct)
  case (1 a)
  show ?case
  proof (cases "queue a \<noteq> [] \<and> connected a")
    case True
    have "length (batch a) \<le> analyticsBatchSize" using "1.prems" by (simp add: ainv_def)
    then have f: "ainv (fill_batch a)" "events_accounted (fill_batch a) = events_accounted a" "\<not> stopped (fill_batch a)"
      "closed (fill_batch a) = closed a"
      using fill_batch_moved [of a] moved_inv [of a "fill_batch a"] "1.prems" by auto
    have w: "ainv (a_write (fill_batch a))" "\<not> stopped (a_write (fill_batch a))"
      "events_accounted (a_write (fill_batch a)) = events_accounted a" "closed (a_write (fill_batch a)) = closed a"
      using a_write_inv [OF f(1,3)] f by simp_all
    show ?thesis using "1.IH" [OF True w(1,2)] w True by (simp add: stop_drain.simps [of a])
  next
    case False
    then show ?thesis using "1.prems" by (auto simp: stop_drain.simps [of a])
  qed
qed

lemma on_stop_inv:
  assumes "ainv a" "\<not> stopped a" "closed a"
  shows "ainv (on_stop a) \<and> events_accounted (on_stop a) = events_accounted a"
proof -
  define b where "b = stop_drain (a_write a)"
  have b: "ainv b" "\<not> stopped b" "events_accounted b = events_accounted a" "closed b"
    unfolding b_def using a_write_inv [OF assms(1,2)] stop_drain_inv [of "a_write a"] assms by simp_all
  then show ?thesis
    by (auto simp: on_stop_def b_def [symmetric] Let_def a_drop_def a_disconnect_def ainv_def events_accounted_def
        held_events_def analyticsBatchSize_def)
qed

lemma OpenAnalytics_inv: "ainv (OpenAnalytics cfg w) \<and> events_accounted (OpenAnalytics cfg w) = 0"
proof -
  define a where "a = analytics_init cfg w"
  have i: "ainv a \<and> events_accounted a = 0"
    by (auto simp: a_def analytics_init_def ainv_def events_accounted_def held_events_def analyticsMaxAttempts_def)
  then show ?thesis
    using core_inv [OF a_open_core [of a]] by (simp add: OpenAnalytics_def a_def [symmetric])
qed

lemma a_run_inv: "a_run cfg w n a \<Longrightarrow> ainv a \<and> events_accounted a = n"
proof (induction rule: a_run.induct)
  case a_start
  show ?case by (rule OpenAnalytics_inv)
next
  case (a_record n a e)
  then show ?case using Record_inv [of a e] by simp
next
  case (a_close n a)
  then show ?case by (auto simp: Close_analytics_def ainv_def events_accounted_def held_events_def)
next
  case (a_event n a)
  then show ?case using on_event_inv [of a] by simp
next
  case (a_flush n a)
  then show ?case using a_write_inv [of a] by (simp add: on_flush_def)
next
  case (a_retry n a)
  then show ?case using on_retry_inv [of a] by simp
next
  case (a_cleanup n a)
  then show ?case using core_inv [OF on_cleanup_core [of a]] by simp
next
  case (a_stop n a)
  then show ?case using on_stop_inv [of a] by simp
qed

section \<open>Batches\<close>

definition table_of :: "string \<Rightarrow> analytics \<Rightarrow> arow list" where
  "table_of kind a =
     (if kind = ''delivery'' then deliveries a
      else if kind = ''smtpRejected'' then smtp_rejections a else http_requests a)"

lemma insert_event_table:
  "set (table_of k a) \<subseteq> set (table_of k (insert_event e a))"
  "e_ID e \<in> fst ` set (table_of (e_Kind e) (insert_event e a))"
  by (auto simp: table_of_def insert_event_def insert_ignore_def Let_def)

lemma insert_event_new:
  assumes "r \<in> set (table_of k (insert_event e a))" "r \<notin> set (table_of k a)"
  shows "fst r = e_ID e"
  using assms by (auto simp: table_of_def insert_event_def insert_ignore_def Let_def split: if_splits)

lemma table_of_acall: "acall a = (x, a') \<Longrightarrow> table_of k a' = table_of k a"
  by (auto simp: acall_def table_of_def)

lemma table_of_anow: "anow a = (x, a') \<Longrightarrow> table_of k a' = table_of k a"
  by (auto simp: anow_def table_of_def)

lemma table_of_with_tables [simp]: "table_of k (with_tables a b) = table_of k a"
  by (simp add: table_of_def with_tables_def)

lemma insert_events_tables:
  assumes "insert_events cutoff es a = (True, a')"
  shows "(\<forall>k. set (table_of k a) \<subseteq> set (table_of k a'))
    \<and> (\<forall>e \<in> set es. \<not> expired_event cutoff e \<longrightarrow> e_ID e \<in> fst ` set (table_of (e_Kind e) a'))
    \<and> (\<forall>k. \<forall>r \<in> set (table_of k a') - set (table_of k a). \<exists>e \<in> set es. \<not> expired_event cutoff e \<and> fst r = e_ID e)"
  using assms
proof (induction cutoff es a rule: insert_events.induct)
  case (1 cutoff a)
  then show ?case by simp
next
  case (2 cutoff e es a)
  show ?case
  proof (cases "expired_event cutoff e")
    case True
    then have "insert_events cutoff es a = (True, a')" using "2.prems" by simp
    from "2.IH"(1) [OF True this] True show ?thesis by auto
  next
    case False
    obtain x a1 where c: "acall a = (x, a1)" by fastforce
    with False "2.prems" have x: "x = True" and i: "insert_events cutoff es (insert_event e a1) = (True, a')"
      by (auto split: bool.splits)
    note IH = "2.IH"(2) [OF False c [symmetric] x i]
    have t: "table_of k a1 = table_of k a" for k using table_of_acall [OF c] by simp
    have sub: "set (table_of k a) \<subseteq> set (table_of k a')" for k
      using IH insert_event_table(1) [of k a1 e] unfolding t by blast
    have mem: "e_ID e \<in> fst ` set (table_of (e_Kind e) a')"
      using IH insert_event_table(2) [of e a1] by (blast intro: rev_image_eqI)
    have new: "\<exists>d \<in> set (e # es). \<not> expired_event cutoff d \<and> fst r = e_ID d"
      if r: "r \<in> set (table_of k a') - set (table_of k a)" for k r
    proof (cases "r \<in> set (table_of k (insert_event e a1))")
      case True
      with insert_event_new [OF True] r t False show ?thesis by auto
    next
      case False
      with r IH show ?thesis by (metis Diff_iff list.set_intros(2))
    qed
    show ?thesis using sub mem new IH by auto
  qed
qed

text \<open>
  A batch is written as a whole or not at all. When \<^verbatim>\<open>writeBatch\<close> fails, the three tables are
  as before. When it succeeds, no earlier row is lost, every event of the batch younger than the
  retention period has a row under its identifier in the table of its kind, and no other row is new.
\<close>

lemma writeBatch_atomic:
  assumes "writeBatch es a = (ok, a')"
  shows "(\<not> ok \<longrightarrow> (\<forall>k. table_of k a' = table_of k a))
    \<and> (ok \<longrightarrow> (\<forall>k. set (table_of k a) \<subseteq> set (table_of k a'))
        \<and> (\<forall>e \<in> set es. \<not> expired_event (shd (clock a) - eventTTL a) e
              \<longrightarrow> e_ID e \<in> fst ` set (table_of (e_Kind e) a'))
        \<and> (\<forall>k. \<forall>r \<in> set (table_of k a') - set (table_of k a).
              \<exists>e \<in> set es. \<not> expired_event (shd (clock a) - eventTTL a) e \<and> fst r = e_ID e))"
proof -
  obtain x1 a1 where c1: "acall a = (x1, a1)" by fastforce
  obtain t a2 where n: "anow a1 = (t, a2)" by fastforce
  obtain x3 a3 where i: "insert_events (t - eventTTL a2) es a2 = (x3, a3)" by fastforce
  obtain x4 a4 where c4: "acall a3 = (x4, a4)" by fastforce
  have tm: "t - eventTTL a2 = shd (clock a) - eventTTL a"
    using c1 n by (auto simp: acall_def anow_def)
  have t2: "table_of k a2 = table_of k a" for k
    using table_of_acall [OF c1] table_of_anow [OF n] by simp
  have res: "(ok, a') = (if \<not> x1 then (False, a1) else if \<not> x3 then (False, with_tables a a3)
      else if \<not> x4 then (False, with_tables a a4) else (True, a4))"
    using assms c1 n i c4 by (simp add: writeBatch_def split: bool.splits)
  show ?thesis
  proof (cases ok)
    case True
    with res have "x3" and a': "a' = a4" by (auto split: if_splits)
    with i have "insert_events (t - eventTTL a2) es a2 = (True, a3)" by simp
    from insert_events_tables [OF this] True show ?thesis
      unfolding tm t2 a' table_of_acall [OF c4] by simp
  next
    case False
    with res table_of_acall [OF c1] show ?thesis by (auto split: if_splits)
  qed
qed

section \<open>Storage pressure\<close>

definition unique_ids :: "analytics \<Rightarrow> bool" where
  "unique_ids a \<longleftrightarrow> distinct (map fst (deliveries a)) \<and> distinct (map fst (http_requests a))
     \<and> distinct (map fst (smtp_rejections a))"

definition age_key :: "table \<times> string \<times> int \<Rightarrow> int \<times> string" where
  "age_key k = (snd (snd k), fst (snd k))"

lemma all_keys_delete_key:
  "all_keys (delete_key k a) = filter (\<lambda>k'. fst k' \<noteq> fst k \<or> fst (snd k') \<noteq> fst (snd k)) (all_keys a)"
  by (cases "fst k") (simp_all add: delete_key_def all_keys_def Let_def filter_map o_def)

lemma all_keys_acall: "acall a = (x, a') \<Longrightarrow> all_keys a' = all_keys a"
  by (auto simp: acall_def all_keys_def)

lemma all_keys_acalls: "acalls n a = (x, a') \<Longrightarrow> all_keys a' = all_keys a"
  by (induction n arbitrary: a) (auto split: prod.splits bool.splits dest: all_keys_acall)

lemma all_keys_delete_keys:
  assumes "delete_keys ks a = (True, a')"
  shows "all_keys a' = filter (\<lambda>k'. \<forall>k \<in> set ks. fst k' \<noteq> fst k \<or> fst (snd k') \<noteq> fst (snd k)) (all_keys a)"
  using assms
proof (induction ks a rule: delete_keys.induct)
  case (1 a)
  then show ?case by simp
next
  case (2 k ks a)
  obtain x a1 where c: "acall a = (x, a1)" by fastforce
  with "2.prems" have x: "x = True" and d: "delete_keys ks (delete_key k a1) = (True, a')"
    by (auto split: bool.splits)
  show ?case
    using "2.IH" [OF c [symmetric] x d] by (simp add: all_keys_delete_key all_keys_acall [OF c] conj_commute)
qed

lemma unique_ids_keys:
  assumes "unique_ids a" "k \<in> set (all_keys a)" "k' \<in> set (all_keys a)" "fst k = fst k'" "fst (snd k) = fst (snd k')"
  shows "k = k'"
  using assms
  by (auto simp: unique_ids_def all_keys_def dest: distinct_key_unique [of fst, OF _ _ _ refl] eq_key_imp_eq_value)

lemma take_drop_sorted:
  assumes "x \<in> set (take n (sort_key f xs))" "y \<in> set (drop n (sort_key f xs))"
  shows "f x \<le> (f y :: 'b::linorder)"
proof -
  have "sorted (map f (take n (sort_key f xs) @ drop n (sort_key f xs)))" by simp
  then show ?thesis using assms by (auto simp: sorted_append simp del: append_take_drop_id)
qed

text \<open>
  Storage pressure removes the oldest events first: a completed eviction round removes at most
  256 rows, and no removed row is younger than a row that stays. A failed round removes nothing.
\<close>

lemma evict_round_oldest_first:
  assumes "unique_ids a" and "evict_round a = (r, a')"
  shows "(r = None \<longrightarrow> set (all_keys a') = set (all_keys a))
    \<and> (\<forall>n. r = Some n \<longrightarrow> n \<le> 256 \<and> set (all_keys a') \<subseteq> set (all_keys a)
        \<and> (\<forall>k \<in> set (all_keys a) - set (all_keys a'). \<forall>k' \<in> set (all_keys a'). age_key k \<le> age_key k'))"
proof -
  obtain x1 a1 where c1: "acalls 3 a = (x1, a1)" by fastforce
  obtain x2 a2 where d: "delete_keys (oldest_keys a1) a1 = (x2, a2)" by fastforce
  obtain x3 a3 where c3: "acall a2 = (x3, a3)" by fastforce
  note k1 = all_keys_acalls [OF c1]
  have w: "all_keys (with_tables a b) = all_keys a" for b by (simp add: all_keys_def with_tables_def)
  have res: "(r, a') = (if \<not> x1 then (None, a1) else if \<not> x2 then (None, with_tables a a2)
      else if \<not> x3 then (None, with_tables a a3)
      else (Some (length (oldest_keys a1)), a3\<lparr>earlyEvicted := earlyEvicted a3 + length (oldest_keys a1)\<rparr>))"
    using assms(2) c1 d c3 by (simp add: evict_round_def Let_def split: bool.splits)
  show ?thesis
  proof (cases "x1 \<and> x2 \<and> x3")
    case False
    with res k1 w show ?thesis by (auto split: if_splits)
  next
    case True
    with d have "delete_keys (oldest_keys a1) a1 = (True, a2)" by simp
    note del = all_keys_delete_keys [OF this, unfolded k1]
    have ok: "oldest_keys a1 = take 256 (sort_key age_key (all_keys a))"
      by (simp add: oldest_keys_def k1 age_key_def [abs_def])
    have a'k: "all_keys a' = all_keys a2"
      using res True all_keys_acall [OF c3] by (auto simp: all_keys_def)
    have gone: "k \<in> set (oldest_keys a1)" if "k \<in> set (all_keys a) - set (all_keys a')" for k
    proof -
      from that obtain j where j: "j \<in> set (oldest_keys a1)" "fst k = fst j" "fst (snd k) = fst (snd j)"
        by (auto simp: a'k del)
      moreover have "j \<in> set (all_keys a)" using j(1) ok by (metis in_set_takeD set_sort)
      ultimately show ?thesis using unique_ids_keys [OF assms(1)] that by blast
    qed
    have kept: "k \<in> set (drop 256 (sort_key age_key (all_keys a)))" if "k \<in> set (all_keys a')" for k
    proof -
      have "k \<notin> set (oldest_keys a1)" "k \<in> set (sort_key age_key (all_keys a))"
        using that by (auto simp: a'k del)
      then show ?thesis unfolding ok by (metis Un_iff append_take_drop_id set_append)
    qed
    have "age_key k \<le> age_key k'" if "k \<in> set (all_keys a) - set (all_keys a')" "k' \<in> set (all_keys a')" for k k'
      using gone [OF that(1)] kept [OF that(2)] unfolding ok by (rule take_drop_sorted)
    moreover have "length (oldest_keys a1) \<le> 256" by (simp add: ok)
    moreover have "r = Some (length (oldest_keys a1))" using res True by simp
    ultimately show ?thesis by (auto simp: a'k del)
  qed
qed

section \<open>A healthy database\<close>

definition healthy :: "analytics \<Rightarrow> bool" where
  "healthy a \<longleftrightarrow> faults a = sconst None"

lemma acall_healthy: "healthy a \<Longrightarrow> acall a = (True, a)"
  by (simp add: acall_def healthy_def)

lemma acalls_healthy: "healthy a \<Longrightarrow> acalls n a = (True, a)"
  by (induction n) (simp_all add: acall_healthy)

lemma healthy_update [simp]:
  "healthy (a\<lparr>clock := c\<rparr>) = healthy a" "healthy (a\<lparr>readings := rd\<rparr>) = healthy a"
  "healthy (a\<lparr>deliveries := d\<rparr>) = healthy a" "healthy (a\<lparr>http_requests := d\<rparr>) = healthy a"
  "healthy (a\<lparr>smtp_rejections := d\<rparr>) = healthy a" "healthy (a\<lparr>earlyEvicted := n\<rparr>) = healthy a"
  "healthy (a\<lparr>storageBytes := k\<rparr>) = healthy a" "healthy (a\<lparr>earliestEvent := t\<rparr>) = healthy a"
  "healthy (a\<lparr>lastIngested := t\<rparr>) = healthy a" "healthy (a\<lparr>available := x\<rparr>) = healthy a"
  "healthy (a\<lparr>attempts := m\<rparr>) = healthy a" "healthy (a\<lparr>batch := b\<rparr>) = healthy a"
  "healthy (a\<lparr>written := b\<rparr>) = healthy a" "healthy (a\<lparr>pendingCount := k\<rparr>) = healthy a"
  "healthy (a\<lparr>queue := q\<rparr>) = healthy a" "healthy (a\<lparr>backlogSince := k\<rparr>) = healthy a"
  by (simp_all add: healthy_def)

lemma anow_healthy: "anow a = (t, a') \<Longrightarrow> healthy a' = healthy a"
  by (auto simp: anow_def)

lemma insert_events_healthy: "healthy a \<Longrightarrow> \<exists>a'. insert_events cutoff es a = (True, a') \<and> healthy a'"
proof (induction es arbitrary: a)
  case Nil
  then show ?case by simp
next
  case (Cons e es)
  have "healthy (insert_event e a)" using Cons.prems by (simp add: insert_event_def Let_def)
  with Cons show ?case by (simp add: acall_healthy)
qed

lemma writeBatch_healthy: "healthy a \<Longrightarrow> \<exists>a'. writeBatch es a = (True, a') \<and> healthy a'"
proof -
  assume h: "healthy a"
  obtain t a2 where n: "anow a = (t, a2)" by fastforce
  with h have "healthy a2" by (simp add: anow_healthy)
  then obtain a3 where "insert_events (t - eventTTL a2) es a2 = (True, a3)" "healthy a3"
    using insert_events_healthy by blast
  with n h show ?thesis by (simp add: writeBatch_def acall_healthy)
qed

lemma usage_healthy: "healthy a \<Longrightarrow> \<exists>u a'. usage a = (Some u, a') \<and> healthy a'"
  by (simp add: usage_def acalls_healthy)

lemma delete_keys_healthy: "healthy a \<Longrightarrow> \<exists>a'. delete_keys ks a = (True, a') \<and> healthy a'"
proof (induction ks arbitrary: a)
  case Nil
  then show ?case by simp
next
  case (Cons k ks)
  have "healthy (delete_key k a)" using Cons.prems by (simp add: delete_key_def Let_def split: table.split)
  with Cons show ?case by (simp add: acall_healthy)
qed

lemma evict_round_healthy: "healthy a \<Longrightarrow> \<exists>n a'. evict_round a = (Some n, a') \<and> healthy a'"
  using delete_keys_healthy [of a "oldest_keys a"]
  by (auto simp: evict_round_def acalls_healthy acall_healthy Let_def)

lemma maintain_rounds_healthy: "healthy a \<Longrightarrow> \<exists>u' a'. maintain_rounds n u a = (Some u', a') \<and> healthy a'"
proof (induction n arbitrary: u a)
  case 0
  then show ?case by simp
next
  case (Suc n)
  obtain k a1 where e: "evict_round a = (Some k, a1)" "healthy a1" using evict_round_healthy [OF Suc.prems] by blast
  obtain v a3 where us: "usage a1 = (Some v, a3)" "healthy a3" using usage_healthy [OF e(2)] by blast
  show ?case using Suc.IH [OF us(2), of v] e us Suc.prems by (simp add: acalls_healthy)
qed

lemma maintain_healthy: "healthy a \<Longrightarrow> \<exists>a'. maintain a = (True, a') \<and> healthy a'"
proof -
  assume h: "healthy a"
  obtain u a1 where u: "usage a = (Some u, a1)" "healthy a1" using usage_healthy [OF h] by blast
  obtain v a3 where v: "usage a1 = (Some v, a3)" "healthy a3" using usage_healthy [OF u(2)] by blast
  obtain x a4 where m: "maintain_rounds 32 v a3 = (Some x, a4)" "healthy a4"
    using maintain_rounds_healthy [OF v(2)] by blast
  show ?thesis using u v m by (simp add: maintain_def acall_healthy)
qed

lemma a_write_healthy:
  assumes "healthy a" "connected a"
  shows "healthy (a_write a) \<and> connected (a_write a) \<and> batch (a_write a) = []
    \<and> written (a_write a) = written a @ batch a \<and> dropped (a_write a) = dropped a"
proof (cases "batch a = []")
  case True
  then show ?thesis using assms by (simp add: a_write_def)
next
  case False
  obtain a1 where w: "writeBatch (batch a) a = (True, a1)" "healthy a1" using writeBatch_healthy [OF assms(1)] by blast
  note k1 = writeBatch_keeps [OF w(1), unfolded keeps_def]
  define a2 where "a2 = a1\<lparr>pendingCount := pendingCount a1 - int (length (batch a1)),
    written := written a1 @ batch a1, batch := [], attempts := 0\<rparr>"
  obtain t a3 where n: "anow a2 = (t, a3)" by fastforce
  have "healthy a3" using anow_healthy [OF n] w(2) by (simp add: a2_def)
  then obtain a4 where m: "maintain (a3\<lparr>lastIngested := Some t, available := True\<rparr>) = (True, a4)" "healthy a4"
    using maintain_healthy [of "a3\<lparr>lastIngested := Some t, available := True\<rparr>"] by auto
  have "a_write a = a4" using False assms w n m by (simp add: a_write_def a2_def [symmetric])
  moreover have c: "core a4 = core a2" "connected a4 = connected a2"
    using anow_keeps [OF n] maintain_keeps [OF m(1)] by (simp_all add: keeps_def)
  ultimately show ?thesis
    using m(2) core_fields [OF c(1)] core_fields [OF conjunct1 [OF k1]] k1 assms by (simp add: a2_def)
qed

lemma take_event_healthy: "healthy (take_event a) = healthy a"
  by (simp add: take_event_def Let_def split: list.split prod.split)

lemma fill_batch_healthy: "healthy (fill_batch a) = healthy a"
proof (induction a rule: fill_batch.induct)
  case (1 a)
  then show ?case
    by (cases "length (batch a) < analyticsBatchSize \<and> queue a \<noteq> []")
      (auto simp: fill_batch.simps [of a] take_event_healthy)
qed

lemma stop_drain_healthy:
  "healthy a \<Longrightarrow> connected a \<Longrightarrow> batch a = [] \<Longrightarrow>
   queue (stop_drain a) = [] \<and> batch (stop_drain a) = [] \<and> dropped (stop_drain a) = dropped a
   \<and> written (stop_drain a) = written a @ map fst (queue a)"
proof (induction a rule: stop_drain.induct)
  case (1 a)
  show ?case
  proof (cases "queue a = []")
    case False
    with "1.prems" have c: "queue a \<noteq> [] \<and> connected a" by simp
    define f where "f = fill_batch a"
    have m: "moved a f" "healthy f" "connected f"
      using fill_batch_moved [of a] fill_batch_healthy [of a] "1.prems" by (auto simp: f_def moved_def)
    note w = a_write_healthy [OF m(2,3)]
    have IH: "queue (stop_drain (a_write f)) = [] \<and> batch (stop_drain (a_write f)) = []
        \<and> dropped (stop_drain (a_write f)) = dropped (a_write f)
        \<and> written (stop_drain (a_write f)) = written (a_write f) @ map fst (queue (a_write f))"
      using "1.IH" [OF c] w by (simp add: f_def)
    have "batch f @ map fst (queue f) = map fst (queue a)" "written f = written a" "dropped f = dropped a"
      using m(1) "1.prems" by (simp_all add: moved_def)
    with IH w c show ?thesis by (simp add: stop_drain.simps [of a] f_def [symmetric])
  qed (use "1.prems" in \<open>simp add: stop_drain.simps [of a]\<close>)
qed

section \<open>Theorems\<close>


text \<open>
  Every string of an event the service holds or has written is valid UTF-8 and within the limit
  of its field, whatever the caller passed to \<^verbatim>\<open>Record\<close>.
\<close>

lemma analytics_events_bounded:
  assumes "a_run cfg w offered a" and "e \<in> set (written a) \<union> set (batch a) \<union> fst ` set (queue a)"
  shows "length (e_Recipient e) \<le> 320 \<and> length (e_Sender e) \<le> 320 \<and> length (e_SenderDomain e) \<le> 255
    \<and> length (e_IP e) \<le> 64 \<and> length (e_UserAgent e) \<le> 512 \<and> length (e_Route e) \<le> 128
    \<and> length (e_Method e) \<le> 16 \<and> length (e_MessageID e) \<le> 128 \<and> length (e_ID e) \<le> 128
    \<and> list_all valid_utf8 [e_Recipient e, e_Sender e, e_SenderDomain e, e_IP e, e_UserAgent e, e_Route e,
        e_Method e, e_MessageID e, e_ID e]"
proof -
  have "bounded e" using a_run_inv [OF assms(1)] assms(2) by (auto simp: ainv_def)
  then show ?thesis by (simp add: bounded_def)
qed

text \<open>
  A shutdown with a healthy database loses nothing: everything in the batch and in the queue is
  committed, in order, and nothing is counted as dropped.
\<close>

lemma on_stop_healthy_writes_all:
  assumes "faults a = sconst None" and "connected a"
  shows "written (on_stop a) = written a @ batch a @ map fst (queue a)
    \<and> dropped (on_stop a) = dropped a \<and> stopped (on_stop a) \<and> \<not> connected (on_stop a)"
proof -
  have h: "healthy a" using assms by (simp add: healthy_def)
  note w = a_write_healthy [OF h assms(2)]
  note d = stop_drain_healthy [of "a_write a"]
  show ?thesis
    using w d by (simp add: on_stop_def Let_def a_drop_def a_disconnect_def)
qed

section \<open>Concrete instances\<close>

definition example_event :: event where
  "example_event = \<lparr>e_ID = ''e1'', e_Kind = ''delivery'', e_Timestamp = Some 5000000000, e_Recipient = ''a@t.io'',
     e_Sender = ''b@x.org'', e_SenderDomain = ''x.org'', e_IP = ''192.0.2.1'', e_Size = 10, e_UserAgent = [],
     e_Route = [], e_Method = [], e_Status = 0, e_DurationKnown = True, e_DurationMS = 3, e_MessageID = [],
     e_Polling = False\<rparr>"

definition example_world :: analytics where
  "example_world = \<lparr>faults = sconst None, clock = sconst 6000000000, rands = sconst [], readings = sconst 10,
     enabled = True, eventTTL = 3600000000000, maxStorage = 100, queue = [(example_event, 5)], pendingCount = 1,
     backlogSince = 5, closed = True, stopped = False, connected = True, batch = [], attempts = 0,
     dropped = 0, writeErrors = 0, available = True, lastIngested = None, earlyEvicted = 0, storageBytes = 0,
     earliestEvent = None, hasTiming = True, deliveries = [], http_requests = [], smtp_rejections = [], written = []\<rparr>"

definition analytics_config :: config where
  "analytics_config = example_config\<lparr>AnalyticsEnabled := True\<rparr>"

definition example_run :: analytics where
  "example_run = on_flush (on_event (Record example_event (OpenAnalytics analytics_config example_world)))"

lemma example_open: "enabled (OpenAnalytics analytics_config example_world)"
  "\<not> closed (OpenAnalytics analytics_config example_world)" "\<not> stopped (OpenAnalytics analytics_config example_world)"
  using core_fields [OF a_open_core [of "analytics_init analytics_config example_world"]]
  by (simp_all add: OpenAnalytics_def analytics_config_def analytics_init_def)

lemma Record_stopped: "stopped (Record e a) = stopped a"
  by (auto simp: Record_def a_drop_def send_event_def anow_def stamp_event_def name_event_def)

lemma on_event_stopped: "stopped (on_event a) = stopped a"
  using a_write_outcome [of "take_event a"] take_event_simps [of a]
  by (auto simp: on_event_def Let_def write_outcome_def)

lemma example_run_reachable: "a_run analytics_config example_world 1 example_run"
  unfolding example_run_def
  using a_record [OF a_start, of analytics_config example_world example_event] example_open
  by (intro a_flush a_event) (simp_all add: Record_stopped on_event_stopped)


lemma example_queue:
  "queue (Record example_event (OpenAnalytics analytics_config example_world))
   = [(bounded_event example_event, UnixMilli (shd (clock (note_pending (OpenAnalytics analytics_config example_world)))))]"
  using core_fields [OF a_open_core [of "analytics_init analytics_config example_world"]] example_open
  by (simp add: Record_def send_event_def stamp_event_def name_event_def example_event_def anow_def
      analyticsQueueSize_def OpenAnalytics_def analytics_config_def analytics_init_def)

definition example_rows :: analytics where
  "example_rows = example_world\<lparr>deliveries := [(''d1'', 3, example_event)], http_requests := [(''h1'', 2, example_event)]\<rparr>"

end
