(* ===== verification/HttpCore.thy ===== *)
theory HttpCore
  imports Admission AnalyticsProps
begin

text \<open>
  The HTTP middleware (\<^verbatim>\<open>internal/app/http.go\<close>, \<^verbatim>\<open>internal/app/ratelimit.go\<close>): the response
  recorder, the request limit, the per-client rate limit, the access log, the security headers and
  the analytics wrapper. A handler is a function from a request and a state to a response and a
  state; a wrapper maps handlers to handlers. What the wrappers ask of other packages
  (\<^verbatim>\<open>net.ParseIP\<close>, \<^verbatim>\<open>strconv.Quote\<close>, the rate limiter) are parameters.
\<close>

section \<open>Requests and responses\<close>

text \<open>
  \<open>ctx_err\<close> tells for every place where a handler looks whether the request's context is done by
  then. A response with status 0 has written nothing yet.
\<close>

record request =
  Method :: string
  Host :: string
  Path :: string
  RemoteAddr :: string
  rheader :: "string \<Rightarrow> string"
  rquery :: "string \<Rightarrow> string"
  ctx_err :: "nat \<times> nat \<Rightarrow> bool"

record 'c response =
  rstatus :: int
  rheaders :: "(string \<times> string) list"
  rbytes :: int
  rcontent :: "'c option"

definition set_header :: "string \<Rightarrow> string \<Rightarrow> 'c response \<Rightarrow> 'c response" where
  "set_header k v w = w\<lparr>rheaders := filter (\<lambda>p. fst p \<noteq> k) (rheaders w) @ [(k, v)]\<rparr>"

definition get_header :: "string \<Rightarrow> 'c response \<Rightarrow> string" where
  "get_header k w = (case map_of (rheaders w) k of None \<Rightarrow> [] | Some v \<Rightarrow> v)"

definition no_response :: "'c response" where
  "no_response = \<lparr>rstatus = 0, rheaders = [], rbytes = 0, rcontent = None\<rparr>"

lemma get_set_header [simp]: "get_header k (set_header k' v w) = (if k = k' then v else get_header k w)"
proof -
  have "map_of (filter (\<lambda>p. fst p \<noteq> k') xs) k = map_of xs k" if "k \<noteq> k'" for xs :: "(string \<times> string) list"
    using that by (induction xs) auto
  moreover have "map_of (filter (\<lambda>p. fst p \<noteq> k) xs) k = None" for xs :: "(string \<times> string) list"
    by (induction xs) auto
  ultimately show ?thesis by (auto simp: get_header_def set_header_def map_add_def split: option.split)
qed

lemma set_header_simps [simp]:
  "rstatus (set_header k v w) = rstatus w" "rcontent (set_header k v w) = rcontent w"
  by (simp_all add: set_header_def)

section \<open>The response recorder\<close>

record responseRecorder =
  rec_status :: int
  rec_bytes :: int
  rec_sent :: "int list" \<comment> \<open>the statuses passed on to the wrapped writer\<close>

definition WriteHeader :: "int \<Rightarrow> responseRecorder \<Rightarrow> responseRecorder" where
  "WriteHeader st r = (if rec_status r \<noteq> 0 then r else r\<lparr>rec_status := st, rec_sent := rec_sent r @ [st]\<rparr>)"

text \<open>\<open>n\<close> is what the wrapped writer reports as written.\<close>

definition Write :: "nat \<Rightarrow> responseRecorder \<Rightarrow> responseRecorder" where
  "Write n r =
     (let r1 = (if rec_status r = 0 then r\<lparr>rec_status := 200\<rparr> else r)
      in r1\<lparr>rec_bytes := rec_bytes r1 + int n\<rparr>)"

datatype write_op = OpHeader int | OpWrite nat

fun do_ops :: "write_op list \<Rightarrow> responseRecorder \<Rightarrow> responseRecorder" where
  "do_ops [] r = r"
| "do_ops (OpHeader st # ops) r = do_ops ops (WriteHeader st r)"
| "do_ops (OpWrite n # ops) r = do_ops ops (Write n r)"

definition new_recorder :: responseRecorder where
  "new_recorder = \<lparr>rec_status = 0, rec_bytes = 0, rec_sent = []\<rparr>"

text \<open>The status a wrapper reports for a finished response.\<close>

definition final_status :: "int \<Rightarrow> int" where
  "final_status st = (if st = 0 then 200 else st)"

text \<open>What the first operation decides.\<close>

definition decided :: "write_op list \<Rightarrow> int" where
  "decided ops = (case ops of [] \<Rightarrow> 0 | OpHeader st # _ \<Rightarrow> st | OpWrite _ # _ \<Rightarrow> 200)"

definition written_bytes :: "write_op list \<Rightarrow> int" where
  "written_bytes ops = sum_list (map (\<lambda>x. case x of OpWrite n \<Rightarrow> int n | OpHeader _ \<Rightarrow> 0) ops)"

lemma do_ops_decided:
  "rec_status r \<noteq> 0 \<Longrightarrow> rec_status (do_ops ops r) = rec_status r \<and> rec_sent (do_ops ops r) = rec_sent r"
  by (induction ops r rule: do_ops.induct) (auto simp: WriteHeader_def Write_def Let_def)

lemma do_ops_bytes: "rec_bytes (do_ops ops r) = rec_bytes r + written_bytes ops"
  by (induction ops r rule: do_ops.induct) (auto simp: WriteHeader_def Write_def Let_def written_bytes_def)

section \<open>Handlers and wrappers\<close>

type_synonym ('c, 's) handler = "request \<Rightarrow> 's \<Rightarrow> 'c response \<times> 's"

definition http_Error :: "string \<Rightarrow> int \<Rightarrow> ('c response \<Rightarrow> 'c response)" where
  "http_Error msg code w =
     (set_header ''X-Content-Type-Options'' ''nosniff'' (set_header ''Content-Type'' ''text/plain; charset=utf-8'' w))
       \<lparr>rstatus := code, rbytes := rbytes w + int (length msg) + 1\<rparr>"

lemma http_Error_status [simp]: "rstatus (http_Error msg code w) = code" "rcontent (http_Error msg code w) = rcontent w"
  by (simp_all add: http_Error_def)

text \<open>
  Headers set before the wrapped handler runs; the handler may set them again.
\<close>

definition quoted :: "string \<Rightarrow> string" where
  "quoted s = [CHR 39] @ s @ [CHR 39]"

definition defaultCSP :: string where
  "defaultCSP = ''default-src '' @ quoted ''self'' @ ''; style-src '' @ quoted ''self'' @ '' '' @ quoted ''unsafe-inline''
     @ ''; script-src '' @ quoted ''self'' @ '' '' @ quoted ''unsafe-inline''"

definition securityHeaders :: "('c, 's) handler \<Rightarrow> ('c, 's) handler" where
  "securityHeaders next r s =
     (let w = set_header ''Content-Security-Policy'' defaultCSP
                (set_header ''Referrer-Policy'' ''no-referrer''
                  (set_header ''X-Content-Type-Options'' ''nosniff'' (no_response :: 'c response)))
      in case next r s of
          (resp, s1) \<Rightarrow>
            (resp\<lparr>rheaders := rheaders (fold (\<lambda>p. set_header (fst p) (snd p)) (rheaders resp) w)\<rparr>, s1))"

text \<open>
  \<^verbatim>\<open>limitHTTPRequests\<close>: entering takes a slot of the channel, leaving gives it back. The channel
  also holds the slots of the requests that run at the same time.
\<close>

definition limitHTTPRequests :: "int \<Rightarrow> ('c, chan \<times> 's) handler \<Rightarrow> ('c, chan \<times> 's) handler" where
  "limitHTTPRequests limit next r cs =
     (if limit = 0 then next r cs
      else case try_send (fst cs) of
          Some c \<Rightarrow>
            (case next r (c, snd cs) of
               (w, c1, s1) \<Rightarrow> (w, receive c1, s1))
        | None \<Rightarrow>
            (http_Error ''service temporarily overloaded'' 503 (set_header ''Retry-After'' ''1'' no_response), cs))"

text \<open>What happens to the channel: a request enters (\<open>True\<close>) or a running one leaves (\<open>False\<close>).\<close>

definition in_flight :: "nat \<Rightarrow> bool list \<Rightarrow> nat" where
  "in_flight limit events = held (sem.run events (make_chan limit))"

subsection \<open>Client addresses\<close>

definition firstHeaderValue :: "string \<Rightarrow> string" where
  "firstHeaderValue v = (case Cut v CHR '','' of (first, _, _) \<Rightarrow> TrimSpace first)"

text \<open>\<open>parseIP\<close> is \<^verbatim>\<open>net.ParseIP\<close> followed by \<^verbatim>\<open>String\<close>.\<close>

definition resolvedClientIP :: "(string \<Rightarrow> string option) \<Rightarrow> request \<Rightarrow> string \<Rightarrow> string" where
  "resolvedClientIP parseIP r ipHeader =
     (case (if ipHeader \<noteq> [] then parseIP (firstHeaderValue (rheader r ipHeader)) else None) of
        Some ip \<Rightarrow> ip
      | None \<Rightarrow>
          (let host = (case SplitHostPort (RemoteAddr r) of Some (h, _) \<Rightarrow> h | None \<Rightarrow> RemoteAddr r) in
           case parseIP host of Some ip \<Rightarrow> ip | None \<Rightarrow> []))"

definition newRateLimiter :: "float64 \<Rightarrow> int \<Rightarrow> float64 \<times> int" where
  "newRateLimiter rps burst =
     ((if le_zero rps then FFin (of_int defaultRateLimitRPS) else rps), (if burst \<le> 0 then defaultRateLimitBurst else burst))"

text \<open>
  \<^verbatim>\<open>rateLimitPerIP\<close>. The limiter is asked with the remote address of the request only and
  answers whether the limit is reached.
\<close>

definition rateLimitPerIP ::
    "(string \<Rightarrow> string option) \<Rightarrow> (string \<Rightarrow> 'l \<Rightarrow> bool \<times> 'l) \<Rightarrow> ('c, 's) handler \<Rightarrow> string \<Rightarrow>
     request \<Rightarrow> 'l \<times> 's \<Rightarrow> 'c response \<times> 'l \<times> 's" where
  "rateLimitPerIP parseIP reached next ipHeader r ls =
     (case ls of
        (l, s) \<Rightarrow>
          if Path r = ''/healthz'' \<and> (Method r = ''GET'' \<or> Method r = ''HEAD'') then
            (case next r s of (w, s1) \<Rightarrow> (w, l, s1))
          else
            (let ip = resolvedClientIP parseIP r ipHeader;
                 r1 = (if ip \<noteq> [] then r\<lparr>RemoteAddr := JoinHostPort ip ''0''\<rparr> else r)
             in case reached (RemoteAddr r1) l of
                 (True, l1) \<Rightarrow> ((set_header ''Retry-After'' ''1'' no_response)\<lparr>rstatus := 429\<rparr>, l1, s)
               | (False, l1) \<Rightarrow> (case next r1 s of (w, s1) \<Rightarrow> (w, l1, s1))))"

subsection \<open>The access log\<close>

definition ReplaceDash :: "string \<Rightarrow> string" where
  "ReplaceDash s = map (\<lambda>c. if c = CHR ''-'' then CHR ''_'' else c) s"

definition log_fields :: "unicode \<Rightarrow> (string \<Rightarrow> string) \<Rightarrow> string list \<Rightarrow> request \<Rightarrow> int \<Rightarrow> int \<Rightarrow> string list" where
  "log_fields u quote loggedHeaders r status elapsedMS =
     [''[web]'', ''method='' @ Method r, ''path='' @ Path r, ''status='' @ Itoa status,
      ''duration_ms='' @ Itoa elapsedMS] @
     map (\<lambda>h. ToLower u (ReplaceDash h) @ ''='' @ quote (rheader r h)) loggedHeaders"

definition logged :: "string \<Rightarrow> int \<Rightarrow> bool" where
  "logged mode status = (mode = ''all'' \<or> (mode = ''errors'' \<and> 400 \<le> status))"

text \<open>\<open>requestLogger\<close> adds the log line, if any, to the response and state of the wrapped handler.\<close>

definition requestLogger ::
    "unicode \<Rightarrow> (string \<Rightarrow> string) \<Rightarrow> ('c, 's) handler \<Rightarrow> string \<Rightarrow> string list \<Rightarrow> int \<Rightarrow>
     request \<Rightarrow> string list \<times> 's \<Rightarrow> 'c response \<times> string list \<times> 's" where
  "requestLogger u quote next mode loggedHeaders elapsedMS r ls =
     (case next r (snd ls) of
        (w, s1) \<Rightarrow>
          (let status = final_status (rstatus w) in
           (w, (if logged mode status
                then fst ls @ [Join (log_fields u quote loggedHeaders r status elapsedMS) CHR '' '']
                else fst ls), s1)))"

subsection \<open>Analytics of requests\<close>

definition fixedRoutes :: "string list" where
  "fixedRoutes = [''/'', ''/privacy'', ''/healthz'', ''/openapi.json'', ''/ui.css'', ''/ui.js'', ''/metrics'',
     ''/favicon.ico'', ''/favicon-16x16.png'', ''/favicon-32x32.png'', ''/apple-touch-icon.png'',
     ''/android-chrome-192x192.png'', ''/android-chrome-512x512.png'', ''/site.webmanifest'']"

definition publicEventRoute :: "string \<Rightarrow> string \<times> string \<times> string" where
  "publicEventRoute path =
     (if path \<in> set fixedRoutes then (path, [], [])
      else case Split (TrimPrefix path ''/'') CHR ''/'' of
          [a, b, c, d] \<Rightarrow>
            if a = ''api'' \<and> b = ''v1'' \<and> c = ''inboxes'' \<and> d \<noteq> [] then (''/api/v1/inboxes/{inbox}'', d, [])
            else if a = ''api'' \<and> b = ''v1'' \<and> c = ''messages'' \<and> d \<noteq> [] then (''/api/v1/messages/{id}'', [], d)
            else if a = ''ui'' \<and> b = ''messages'' \<and> d = ''html'' \<and> c \<noteq> [] then (''/ui/messages/{id}/html'', [], c)
            else (''/unknown'', [], [])
        | [a, b, c, d, e, f] \<Rightarrow>
            if a = ''api'' \<and> b = ''v1'' \<and> c = ''messages'' \<and> e = ''attachments'' \<and> d \<noteq> []
            then (''/api/v1/messages/{id}/attachments/{index}'', [], d)
            else (''/unknown'', [], [])
        | [a, b, c] \<Rightarrow>
            if a = ''ui'' \<and> b = ''messages'' \<and> c \<noteq> [] then (''/ui/messages/{id}'', [], c)
            else (''/unknown'', [], [])
        | [a] \<Rightarrow> if a \<noteq> [] then (''/{inbox}'', a, []) else (''/unknown'', [], [])
        | _ \<Rightarrow> (''/unknown'', [], []))"

definition event_recipient :: "string \<Rightarrow> string \<Rightarrow> string \<Rightarrow> request \<Rightarrow> string" where
  "event_recipient mailDomain route recipient0 r =
     (let recipient1 = (if route = ''/'' then TrimSpace (rquery r ''inbox'') else recipient0) in
      if route = ''/'' \<or> route = ''/{inbox}'' then
        (if recipient1 \<noteq> [] \<and> \<not> ContainsAny recipient1 [CHR ''@'', CHR ''/'', CHR 92]
         then recipient1 @ ''@'' @ mailDomain else [])
      else recipient1)"

text \<open>\<open>started\<close> and \<open>ended\<close> are the clock before and after, \<open>i\<close> the new identifier.\<close>

definition http_event ::
    "(string \<Rightarrow> string option) \<Rightarrow> string \<Rightarrow> string \<Rightarrow> string \<Rightarrow> time \<Rightarrow> time \<Rightarrow> int \<Rightarrow> request \<Rightarrow> event" where
  "http_event parseIP ipHeader mailDomain i started ended status r =
     (case publicEventRoute (Path r) of
        (route, recipient0, messageID) \<Rightarrow>
          \<lparr>e_ID = i, e_Kind = ''http'', e_Timestamp = Some started,
           e_Recipient = boundedEventString (event_recipient mailDomain route recipient0 r) 320,
           e_Sender = [], e_SenderDomain = [], e_IP = resolvedClientIP parseIP r ipHeader, e_Size = 0,
           e_UserAgent = boundedEventString (rheader r ''User-Agent'') 512, e_Route = route,
           e_Method = boundedEventString (Method r) 16, e_Status = status, e_DurationKnown = False,
           e_DurationMS = of_int (quot (ended - started) 1000) / 1000,
           e_MessageID = boundedEventString messageID 128,
           e_Polling = (rheader r ''X-Tmpmail-Poll'' = ''1'' \<and> route = ''/api/v1/inboxes/{inbox}'')\<rparr>)"

definition analyticsHTTP ::
    "(string \<Rightarrow> string option) \<Rightarrow> ('c, 's) handler \<Rightarrow> string \<Rightarrow> string \<Rightarrow> string \<Rightarrow> time \<Rightarrow> time \<Rightarrow>
     request \<Rightarrow> analytics \<times> 's \<Rightarrow> 'c response \<times> analytics \<times> 's" where
  "analyticsHTTP parseIP next ipHeader mailDomain i started ended r as =
     (case next r (snd as) of
        (w, s1) \<Rightarrow>
          (w, Record (http_event parseIP ipHeader mailDomain i started ended (final_status (rstatus w)) r) (fst as), s1))"

section \<open>Properties\<close>

lemma try_send_full: "try_send c = None \<longleftrightarrow> capacity c \<le> held c"
  by (auto simp: try_send_def)

text \<open>
  The recorder reports what the client saw: the status of the first \<^verbatim>\<open>WriteHeader\<close>, or 200 when
  the body was written first; at most one status reaches the wrapped writer; the byte count is the
  number of bytes written.
\<close>

lemma responseRecorder_faithful:
  assumes "list_all (\<lambda>x. case x of OpHeader st \<Rightarrow> st \<noteq> 0 | OpWrite _ \<Rightarrow> True) ops"
  shows "rec_status (do_ops ops new_recorder) = decided ops
    \<and> rec_sent (do_ops ops new_recorder) = (case ops of OpHeader st # _ \<Rightarrow> [st] | _ \<Rightarrow> [])
    \<and> rec_bytes (do_ops ops new_recorder) = written_bytes ops"
proof -
  have b: "rec_bytes (do_ops ops new_recorder) = written_bytes ops"
    using do_ops_bytes [of ops new_recorder] by (simp add: new_recorder_def)
  show ?thesis
  proof (cases ops)
    case Nil
    with b show ?thesis by (simp add: decided_def new_recorder_def)
  next
    case (Cons x rest)
    show ?thesis
    proof (cases x)
      case (OpHeader st)
      with assms Cons have "st \<noteq> 0" by simp
      with do_ops_decided [of "WriteHeader st new_recorder" rest] b Cons OpHeader show ?thesis
        by (simp add: WriteHeader_def new_recorder_def decided_def)
    next
      case (OpWrite n)
      with do_ops_decided [of "Write n new_recorder" rest] b Cons show ?thesis
        by (simp add: Write_def new_recorder_def decided_def)
    qed
  qed
qed

text \<open>
  The request limit holds under every interleaving: however requests enter and leave, no more
  than \<open>limit\<close> run at once. A request that finds no slot is answered 503 with \<^verbatim>\<open>Retry-After\<close>
  without running the handler, and one that finds a slot runs it and gives the slot back.
\<close>

lemma limitHTTPRequests_bounded:
  assumes "maxRequests \<noteq> 0"
  shows "in_flight n events \<le> n
    \<and> (capacity c \<le> held c \<longrightarrow>
         (\<exists>w. limitHTTPRequests maxRequests next r (c, s) = (w, c, s) \<and> rstatus w = 503 \<and> get_header ''Retry-After'' w = ''1''))
    \<and> (held c < capacity c \<longrightarrow> next r (c\<lparr>held := Suc (held c)\<rparr>, s) = (w', c\<lparr>held := Suc (held c)\<rparr>, s') \<longrightarrow>
         limitHTTPRequests maxRequests next r (c, s) = (w', c, s'))"
proof -
  have "in_flight n events \<le> n"
    using sem.run_bounded [of "make_chan n" events] by (simp add: in_flight_def make_chan_def)
  moreover have "get_header ''Retry-After'' (http_Error msg code (set_header ''Retry-After'' ''1'' no_response)) = ''1''"
    for msg code :: _
    by (simp add: http_Error_def get_header_def set_header_def no_response_def)
  ultimately show ?thesis
    using assms try_send_full [of c]
    by (auto simp: limitHTTPRequests_def try_send_def receive_def split: option.split)
qed

definition example_request :: request where
  "example_request = \<lparr>Method = ''GET'', Host = ''t.io'', Path = ''/inbox'', RemoteAddr = ''192.0.2.7:4711'', rheader = (\<lambda>_. []),
     rquery = (\<lambda>_. []), ctx_err = (\<lambda>_. False)\<rparr>"

text \<open>The address the rate limiter is asked with.\<close>

definition limiter_key :: "(string \<Rightarrow> string option) \<Rightarrow> string \<Rightarrow> request \<Rightarrow> string" where
  "limiter_key parseIP ipHeader r =
     (let ip = resolvedClientIP parseIP r ipHeader in if ip \<noteq> [] then JoinHostPort ip ''0'' else RemoteAddr r)"

definition is_probe :: "request \<Rightarrow> bool" where
  "is_probe r \<longleftrightarrow> Path r = ''/healthz'' \<and> (Method r = ''GET'' \<or> Method r = ''HEAD'')"

lemma rateLimitPerIP_cases:
  assumes "rateLimitPerIP parseIP reached next ipHeader r (l, s) = (w, l', s')"
  shows "if is_probe r then l' = l \<and> (w, s') = next r s
    else l' = snd (reached (limiter_key parseIP ipHeader r) l) \<and>
      (if fst (reached (limiter_key parseIP ipHeader r) l) then rstatus w = 429 \<and> s' = s
       else \<exists>r1. Path r1 = Path r \<and> Method r1 = Method r \<and> rheader r1 = rheader r \<and> (w, s') = next r1 s)"
proof (cases "is_probe r")
  case True
  then show ?thesis using assms by (auto simp: rateLimitPerIP_def is_probe_def split: prod.splits)
next
  case False
  define r1 where "r1 = (if resolvedClientIP parseIP r ipHeader \<noteq> []
    then r\<lparr>RemoteAddr := JoinHostPort (resolvedClientIP parseIP r ipHeader) ''0''\<rparr> else r)"
  have k: "RemoteAddr r1 = limiter_key parseIP ipHeader r" by (simp add: r1_def limiter_key_def Let_def)
  have "rateLimitPerIP parseIP reached next ipHeader r (l, s) =
      (case reached (RemoteAddr r1) l of
         (True, l1) \<Rightarrow> ((set_header ''Retry-After'' ''1'' no_response)\<lparr>rstatus := 429\<rparr>, l1, s)
       | (False, l1) \<Rightarrow> (case next r1 s of (w, s1) \<Rightarrow> (w, l1, s1)))"
    using False unfolding rateLimitPerIP_def is_probe_def [symmetric] r1_def Let_def by simp
  moreover have "Path r1 = Path r" "Method r1 = Method r" "rheader r1 = rheader r" by (simp_all add: r1_def)
  ultimately show ?thesis
    using assms False k by (auto split: prod.splits bool.splits)
qed

text \<open>
  A client cannot choose its rate-limit bucket with headers. Without a configured address header,
  two requests of one peer that differ only in their headers are put to the limiter under the same
  address, so the second is refused with 429, without running the handler, exactly when the limiter
  says so for that peer. Liveness probes are never counted and never refused.
\<close>

lemma rate_limit_key_not_spoofable:
  assumes "rateLimitPerIP parseIP reached next [] (r\<lparr>rheader := h\<rparr>) (l, s) = (w, l', s')"
  shows "if is_probe r then l' = l \<and> (w, s') = next (r\<lparr>rheader := h\<rparr>) s
    else l' = snd (reached (limiter_key parseIP [] r) l) \<and>
      (fst (reached (limiter_key parseIP [] r) l) \<longrightarrow> rstatus w = 429 \<and> s' = s)"
proof -
  have e: "RemoteAddr (r\<lparr>rheader := h\<rparr>) = RemoteAddr r" by simp
  have "limiter_key parseIP [] (r\<lparr>rheader := h\<rparr>) = limiter_key parseIP [] r"
    unfolding limiter_key_def resolvedClientIP_def e by simp
  moreover have "is_probe (r\<lparr>rheader := h\<rparr>) = is_probe r" by (simp add: is_probe_def)
  ultimately show ?thesis using rateLimitPerIP_cases [OF assms] by (auto split: if_splits)
qed

text \<open>An event whose route is known and whose recipient and message are single path segments.\<close>

definition known_event :: "string \<times> string \<times> string \<Rightarrow> bool" where
  "known_event e \<longleftrightarrow>
     fst e \<in> set fixedRoutes \<union> {''/api/v1/inboxes/{inbox}'', ''/api/v1/messages/{id}'',
       ''/api/v1/messages/{id}/attachments/{index}'', ''/ui/messages/{id}'', ''/ui/messages/{id}/html'', ''/{inbox}'', ''/unknown''}
     \<and> CHR ''/'' \<notin> set (fst (snd e)) \<and> CHR ''/'' \<notin> set (snd (snd e))"

lemma known_events:
  "known_event (''/unknown'', [], [])" "path \<in> set fixedRoutes \<Longrightarrow> known_event (path, [], [])"
  "CHR ''/'' \<notin> set d \<Longrightarrow> known_event (''/api/v1/inboxes/{inbox}'', d, [])"
  "CHR ''/'' \<notin> set d \<Longrightarrow> known_event (''/api/v1/messages/{id}'', [], d)"
  "CHR ''/'' \<notin> set d \<Longrightarrow> known_event (''/api/v1/messages/{id}/attachments/{index}'', [], d)"
  "CHR ''/'' \<notin> set d \<Longrightarrow> known_event (''/ui/messages/{id}'', [], d)"
  "CHR ''/'' \<notin> set d \<Longrightarrow> known_event (''/ui/messages/{id}/html'', [], d)"
  "CHR ''/'' \<notin> set d \<Longrightarrow> known_event (''/{inbox}'', d, [])"
  by (simp_all add: known_event_def)

text \<open>
  Analytics routes come from a fixed set, so no path or query a client invents becomes a route
  name; what is taken from the path is one path segment.
\<close>

lemma publicEventRoute_known: "known_event (publicEventRoute path)"
proof -
  define ps where "ps = Split (TrimPrefix path ''/'') CHR ''/''"
  have "CHR ''/'' \<notin> set p" if "p \<in> set ps" for p using that Split_parts by (simp add: ps_def)
  then show ?thesis
    unfolding publicEventRoute_def ps_def [symmetric]
    by (simp add: known_events split: list.split)
qed

end
