(* ===== verification/Admin.thy ===== *)
theory Admin
  imports HttpCore
begin

text \<open>
  The private admin server (\<^verbatim>\<open>internal/app/admin.go\<close>): the overview with its buckets and rankings and
  the activity list with its filters, order and pages, over the analytics tables. SQL is written as
  the list function it denotes. The pattern match of SQLite (\<^verbatim>\<open>LIKE ... ESCAPE\<close>) is modelled on
  bytes; a wildcard for a single character never occurs unescaped in a pattern the code builds.
\<close>

section \<open>Responses\<close>

record adminQuery =
  q_Get :: "string \<Rightarrow> string"
  q_Has :: "string \<Rightarrow> bool"

definition adminPageSize :: nat where "adminPageSize = 50"
definition adminMaxOffset :: int where "adminMaxOffset = 10000"

definition admin_headers :: "'c response" where
  "admin_headers = set_header ''Cache-Control'' ''no-store'' (set_header ''Content-Type'' ''application/json'' no_response)"

definition adminJSON :: "'c \<Rightarrow> 'c response" where
  "adminJSON v = admin_headers\<lparr>rstatus := 200, rcontent := Some v\<rparr>"

definition adminError :: "int \<Rightarrow> (string \<Rightarrow> 'c) \<Rightarrow> string \<Rightarrow> 'c response" where
  "adminError code err msg = admin_headers\<lparr>rstatus := code, rcontent := Some (err msg)\<rparr>"

definition adminAsset :: "string \<Rightarrow> string \<Rightarrow> 'c \<Rightarrow> request \<Rightarrow> 'c response" where
  "adminAsset adminVersion contentType asset r =
     (let w = set_header ''Cache-Control'' ''no-cache'' (set_header ''Content-Type'' contentType no_response) in
      (if rquery r ''v'' = adminVersion then set_header ''Cache-Control'' ''public, max-age=31536000, immutable'' w else w)
        \<lparr>rstatus := 200, rcontent := Some asset\<rparr>)"

definition hours :: "int \<Rightarrow> int" where "hours n = n * 3600 * 1000000000"

definition adminWindow :: "adminQuery \<Rightarrow> int option" where
  "adminWindow q =
     (let v = q_Get q ''window'' in
      if v = [] \<or> v = ''24h'' then Some (hours 24)
      else if v = ''1h'' then Some (hours 1)
      else if v = ''7d'' then Some (hours (7 * 24))
      else if v = ''30d'' then Some (hours (30 * 24))
      else None)"

text \<open>The connection of the analytics service, where it has one.\<close>

definition admin_db :: "analytics option \<Rightarrow> analytics option" where
  "admin_db src = (case src of None \<Rightarrow> None | Some a \<Rightarrow> if connected a then Some a else None)"

section \<open>Overview\<close>

record adminBucket =
  bk_Timestamp :: int
  bk_Deliveries :: int
  bk_HTTP :: int
  bk_Polling :: int

record adminOverview =
  ov_GeneratedAt :: time
  ov_Since :: time
  ov_Deliveries :: int
  ov_Recipients :: int
  ov_Requests :: int
  ov_Polling :: int
  ov_Callers :: int
  ov_Earliest :: "int option"
  ov_Buckets :: "adminBucket list"
  ov_Inboxes :: "(string \<times> int) list"
  ov_SenderDomains :: "(string \<times> int) list"
  ov_HTTPCallers :: "(string \<times> int) list"

definition in_window :: "int \<Rightarrow> int \<Rightarrow> arow list \<Rightarrow> arow list" where
  "in_window lo hi rows = filter (\<lambda>r. lo \<le> fst (snd r) \<and> fst (snd r) \<le> hi) rows"

definition count_polling :: "arow list \<Rightarrow> int" where
  "count_polling rows = int (length (filter (\<lambda>r. e_Polling (snd (snd r))) rows))"

text \<open>\<^verbatim>\<open>adminRank\<close>: the ten most frequent values, the more frequent first, then in their order.\<close>

definition adminRank :: "(event \<Rightarrow> string) \<Rightarrow> arow list \<Rightarrow> (string \<times> int) list" where
  "adminRank column rows =
     (let vs = map (\<lambda>r. column (snd (snd r))) rows in
      take 10 (sort_key (\<lambda>p. (- snd p, fst p)) (map (\<lambda>v. (v, int (count_list vs v))) (remdups vs))))"

definition bucket_count :: "int \<Rightarrow> nat" where
  "bucket_count window =
     (if window = hours 1 then 60 else if window = hours (7 * 24) then 21 else if window = hours (30 * 24) then 30 else 24)"

text \<open>\<^verbatim>\<open>GROUP BY (timestamp-lo)/width\<close> with the counts of a group.\<close>

definition group_rows :: "int \<Rightarrow> int \<Rightarrow> (arow list \<Rightarrow> int \<times> int \<times> int) \<Rightarrow> arow list \<Rightarrow> (int \<times> int \<times> int \<times> int) list" where
  "group_rows lo width agg rows =
     (let idx = (\<lambda>r. quot (fst (snd r) - lo) width) in
      map (\<lambda>i. (i, agg (filter (\<lambda>r. idx r = i) rows))) (remdups (map idx rows)))"

definition add_bucket :: "nat \<Rightarrow> int \<times> int \<times> int \<times> int \<Rightarrow> adminBucket list \<Rightarrow> adminBucket list" where
  "add_bucket count g bs =
     (case g of
        (index0, d, h, p) \<Rightarrow>
          (let index = (if index0 \<ge> int count then int count - 1 else index0) in
           if index \<ge> 0
           then bs[nat index := (let b = bs ! nat index in b\<lparr>bk_Deliveries := bk_Deliveries b + d, bk_HTTP := bk_HTTP b + h,
                bk_Polling := bk_Polling b + p\<rparr>)]
           else bs))"

definition bucket_width :: "int \<Rightarrow> int \<Rightarrow> nat \<Rightarrow> int" where
  "bucket_width lo hi count = quot (hi - lo + int count - 1) (int count)"

definition empty_buckets :: "int \<Rightarrow> int \<Rightarrow> nat \<Rightarrow> adminBucket list" where
  "empty_buckets lo width count =
     map (\<lambda>i. \<lparr>bk_Timestamp = lo + int i * width, bk_Deliveries = 0, bk_HTTP = 0, bk_Polling = 0\<rparr>) [0..<count]"

definition overview_buckets :: "int \<Rightarrow> int \<Rightarrow> nat \<Rightarrow> arow list \<Rightarrow> arow list \<Rightarrow> adminBucket list" where
  "overview_buckets lo hi count ds hs =
     (let width = bucket_width lo hi count in
      fold (add_bucket count)
        (group_rows lo width (\<lambda>rs. (int (length rs), 0, 0)) ds @ group_rows lo width (\<lambda>rs. (0, int (length rs), count_polling rs)) hs)
        (empty_buckets lo width count))"

text \<open>
  The seven queries of the overview run one after the other without a transaction: \<open>seen k\<close> is the
  database as query \<open>k\<close> sees it, \<open>ok k\<close> whether the query succeeds.
\<close>

definition admin_overview :: "time \<Rightarrow> int \<Rightarrow> (nat \<Rightarrow> analytics) \<Rightarrow> adminOverview" where
  "admin_overview tnow window seen =
     (let lo = UnixMilli (tnow - window); hi = UnixMilli tnow;
          ds = (\<lambda>k. in_window lo hi (deliveries (seen k))); hs = (\<lambda>k. in_window lo hi (http_requests (seen k)))
      in \<lparr>ov_GeneratedAt = tnow, ov_Since = tnow - window, ov_Deliveries = int (length (ds 0)),
          ov_Recipients = int (card (set (map (\<lambda>r. e_Recipient (snd (snd r))) (ds 0)))),
          ov_Requests = int (length (hs 1)), ov_Polling = count_polling (hs 1),
          ov_Callers = int (card (set (map (\<lambda>r. e_IP (snd (snd r))) (hs 1)))), ov_Earliest = earliest (seen 2),
          ov_Buckets = overview_buckets lo hi (bucket_count window) (ds 6) (hs 6),
          ov_Inboxes = adminRank e_Recipient (ds 3), ov_SenderDomains = adminRank e_SenderDomain (ds 4),
          ov_HTTPCallers = adminRank e_IP (hs 5)\<rparr>)"

section \<open>Activity\<close>

record activity =
  av_ID :: string
  av_Kind :: string
  av_Timestamp :: int
  av_Recipient :: string
  av_Sender :: string
  av_SenderDomain :: string
  av_IP :: string
  av_Size :: int
  av_UserAgent :: string
  av_Route :: string
  av_Method :: string
  av_Status :: int
  av_Duration :: "rat option"
  av_MessageID :: string
  av_Polling :: bool

definition adminDeliverySelect :: "arow \<Rightarrow> activity" where
  "adminDeliverySelect r =
     (case r of (i, t, e) \<Rightarrow>
        \<lparr>av_ID = i, av_Kind = ''delivery'', av_Timestamp = t, av_Recipient = e_Recipient e, av_Sender = e_Sender e,
         av_SenderDomain = e_SenderDomain e, av_IP = e_IP e, av_Size = e_Size e, av_UserAgent = [], av_Route = [], av_Method = [],
         av_Status = 250, av_Duration = (if e_DurationKnown e then Some (e_DurationMS e) else None), av_MessageID = [],
         av_Polling = False\<rparr>)"

definition adminRejectionSelect :: "arow \<Rightarrow> activity" where
  "adminRejectionSelect r =
     (case r of (i, t, e) \<Rightarrow>
        \<lparr>av_ID = i, av_Kind = ''smtpRejected'', av_Timestamp = t, av_Recipient = e_Recipient e, av_Sender = e_Sender e,
         av_SenderDomain = e_SenderDomain e, av_IP = e_IP e, av_Size = 0, av_UserAgent = [], av_Route = e_Route e, av_Method = ''SMTP'',
         av_Status = e_Status e, av_Duration = Some (e_DurationMS e), av_MessageID = [], av_Polling = False\<rparr>)"

definition adminHTTPSelect :: "arow \<Rightarrow> activity" where
  "adminHTTPSelect r =
     (case r of (i, t, e) \<Rightarrow>
        \<lparr>av_ID = i, av_Kind = ''http'', av_Timestamp = t, av_Recipient = e_Recipient e, av_Sender = [],
         av_SenderDomain = [], av_IP = e_IP e, av_Size = 0, av_UserAgent = e_UserAgent e, av_Route = e_Route e,
         av_Method = e_Method e, av_Status = e_Status e, av_Duration = Some (e_DurationMS e), av_MessageID = e_MessageID e,
         av_Polling = e_Polling e\<rparr>)"

definition activity_union :: "string \<Rightarrow> analytics \<Rightarrow> activity list" where
  "activity_union kind a =
     (let ds = map adminDeliverySelect (deliveries a); hs = map adminHTTPSelect (http_requests a);
          rs = map adminRejectionSelect (smtp_rejections a)
      in if kind = ''http'' \<or> kind = ''httpPoll'' \<or> kind = ''httpOther'' then hs
         else if kind = ''smtpRejected'' then rs
         else if kind = ''delivery'' then ds
         else ds @ hs @ rs)"

subsection \<open>Patterns\<close>

text \<open>The escaping replacer and SQLite's match with the escape character backslash.\<close>

definition escape_like :: "string \<Rightarrow> string" where
  "escape_like s = concat (map (\<lambda>c. if c \<in> set [CHR 92, CHR ''%'', CHR ''_''] then [CHR 92, c] else [c]) s)"

fun like :: "string \<Rightarrow> string \<Rightarrow> bool" where
  "like [] s = (s = [])"
| "like (c # p) s =
     (if c = CHR ''%'' then like p s \<or> (case s of [] \<Rightarrow> False | _ # s' \<Rightarrow> like (c # p) s')
      else if c = CHR 92 then
        (case p of [] \<Rightarrow> False
         | d # p' \<Rightarrow> (case s of [] \<Rightarrow> False | x # s' \<Rightarrow> ascii_lower x = ascii_lower d \<and> like p' s'))
      else (case s of [] \<Rightarrow> False | x # s' \<Rightarrow> (c = CHR ''_'' \<or> ascii_lower x = ascii_lower c) \<and> like p s'))"

definition contains_pattern :: "string \<Rightarrow> string" where
  "contains_pattern v = ''%'' @ escape_like v @ ''%''"

subsection \<open>Filters\<close>

datatype sortOrder = Latest | Slowest | Fastest

record activityRequest =
  ar_window :: int
  ar_kind :: string
  ar_sort :: sortOrder
  ar_status :: int
  ar_offset :: int
  ar_where :: "activity \<Rightarrow> bool"

text \<open>The checks of the parameters, in the order of the code; \<open>Inl\<close> is the message of the 400 answer.\<close>

definition known_kinds :: "string list" where
  "known_kinds = [[], ''delivery'', ''http'', ''httpPoll'', ''httpOther'', ''smtpRejected'']"

definition sort_param :: "string \<Rightarrow> string + sortOrder" where
  "sort_param v = (if v = [] \<or> v = ''latest'' then Inr Latest else if v = ''slowest'' then Inr Slowest
     else if v = ''fastest'' then Inr Fastest else Inl ''Invalid sort order'')"

definition number_param :: "string \<Rightarrow> int \<Rightarrow> int \<Rightarrow> string \<Rightarrow> string + int" where
  "number_param v lo hi msg =
     (if v = [] then Inr 0
      else case Atoi v of None \<Rightarrow> Inl msg | Some n \<Rightarrow> if n < lo \<or> n > hi then Inl msg else Inr n)"

definition smtp_kind :: "activity \<Rightarrow> bool" where
  "smtp_kind r \<longleftrightarrow> av_Kind r = ''delivery'' \<or> av_Kind r = ''smtpRejected''"

definition exact_filter :: "adminQuery \<Rightarrow> string \<Rightarrow> (activity \<Rightarrow> string) \<Rightarrow> (activity \<Rightarrow> bool) \<Rightarrow> string + (activity \<Rightarrow> bool)" where
  "exact_filter q param column extra =
     (let v = q_Get q param in
      if 320 < length v then Inl ''Filter is too long''
      else if q_Has q param then Inr (\<lambda>r. column r = v \<and> extra r) else Inr (\<lambda>_. True))"

definition like_filter :: "adminQuery \<Rightarrow> string \<Rightarrow> (activity \<Rightarrow> string) \<Rightarrow> (activity \<Rightarrow> bool) \<Rightarrow> string + (activity \<Rightarrow> bool)" where
  "like_filter q param column extra =
     (let v = q_Get q param in
      if 320 < length v then Inl ''Filter is too long''
      else if v \<noteq> [] then Inr (\<lambda>r. like (contains_pattern v) (column r) \<and> extra r) else Inr (\<lambda>_. True))"

definition search_filter :: "string \<Rightarrow> activity \<Rightarrow> bool" where
  "search_filter search r \<longleftrightarrow> search = [] \<or>
     (let p = contains_pattern search in
      like p (av_Recipient r) \<or> like p (av_Sender r) \<or> like p (av_IP r) \<or> like p (av_UserAgent r))"

definition activity_request :: "adminQuery \<Rightarrow> string + activityRequest" where
  "activity_request q =
     bnd (case adminWindow q of None \<Rightarrow> Inl ''Invalid time window'' | Some w \<Rightarrow> Inr w) (\<lambda>window.
     (let kind = q_Get q ''kind''; search = q_Get q ''search'' in
     bnd (guard (kind \<in> set known_kinds) ''Invalid activity type'') (\<lambda>_.
     bnd (sort_param (q_Get q ''sort'')) (\<lambda>srt.
     bnd (number_param (q_Get q ''status'') 100 599 ''Response code must be between 100 and 599'') (\<lambda>status.
     bnd (number_param (q_Get q ''offset'') 0 adminMaxOffset ''Offset must be between 0 and 10000'') (\<lambda>offset.
     bnd (guard (\<not> 256 < length search) ''Search is too long'') (\<lambda>_.
     bnd (exact_filter q ''recipient'' av_Recipient (\<lambda>_. True)) (\<lambda>f1.
     bnd (exact_filter q ''senderDomain'' av_SenderDomain smtp_kind) (\<lambda>f2.
     bnd (exact_filter q ''callerIP'' av_IP (\<lambda>r. av_Kind r = ''http'')) (\<lambda>f3.
     bnd (exact_filter q ''sourceIP'' av_IP (\<lambda>_. True)) (\<lambda>f4.
     bnd (like_filter q ''sender'' av_Sender smtp_kind) (\<lambda>f5.
     bnd (like_filter q ''userAgent'' av_UserAgent (\<lambda>r. av_Kind r = ''http'')) (\<lambda>f6.
       Inr \<lparr>ar_window = window, ar_kind = kind, ar_sort = srt, ar_status = status, ar_offset = offset,
         ar_where = (\<lambda>r. (status \<noteq> 0 \<longrightarrow> av_Status r = status) \<and> (kind = ''httpPoll'' \<longrightarrow> av_Polling r) \<and>
           (kind = ''httpOther'' \<longrightarrow> \<not> av_Polling r) \<and> f1 r \<and> f2 r \<and> f3 r \<and> f4 r \<and> f5 r \<and> f6 r \<and> search_filter search r)\<rparr>)))))))))))))"

subsection \<open>The page\<close>

text \<open>The order of the rows: descending by a key in which \<open>fastest\<close> takes the negated duration.\<close>

definition activity_key :: "sortOrder \<Rightarrow> activity \<Rightarrow> (nat \<times> rat) \<times> int \<times> string \<times> string" where
  "activity_key srt r =
     ((case srt of
         Latest \<Rightarrow> (0, 0)
       | Slowest \<Rightarrow> (case av_Duration r of None \<Rightarrow> (0, 0) | Some d \<Rightarrow> (1, d))
       | Fastest \<Rightarrow> (case av_Duration r of None \<Rightarrow> (0, 0) | Some d \<Rightarrow> (1, - d))),
      av_Timestamp r, av_ID r, av_Kind r)"

definition activity_rows :: "time \<Rightarrow> activityRequest \<Rightarrow> analytics \<Rightarrow> activity list" where
  "activity_rows tnow q a =
     filter (\<lambda>r. UnixMilli (tnow - ar_window q) \<le> av_Timestamp r \<and> av_Timestamp r \<le> UnixMilli tnow \<and> ar_where q r)
       (activity_union (ar_kind q) a)"

definition activity_sorted :: "time \<Rightarrow> activityRequest \<Rightarrow> analytics \<Rightarrow> activity list" where
  "activity_sorted tnow q a = rev (sort_key (activity_key (ar_sort q)) (activity_rows tnow q a))"

record activityPage =
  ap_GeneratedAt :: time
  ap_Events :: "activity list"
  ap_Total :: int
  ap_Offset :: int
  ap_HasMore :: bool

definition activity_page :: "time \<Rightarrow> activityRequest \<Rightarrow> analytics \<Rightarrow> activityPage" where
  "activity_page tnow q a =
     (let events = take (adminPageSize + 1) (drop (nat (ar_offset q)) (activity_sorted tnow q a)) in
      \<lparr>ap_GeneratedAt = tnow, ap_Events = (if adminPageSize < length events then take adminPageSize events else events),
       ap_Total = int (length (activity_rows tnow q a)), ap_Offset = ar_offset q,
       ap_HasMore = (adminPageSize < length events \<and> ar_offset q + int adminPageSize \<le> adminMaxOffset)\<rparr>)"

section \<open>The handlers\<close>

datatype admin_content = AdminErr string | AdminOverview adminOverview | AdminActivity activityPage

definition no_analytics :: "admin_content response" where
  "no_analytics = adminError 503 AdminErr ''Analytics unavailable. Enable analytics to collect activity.''"

definition query_failed :: "admin_content response" where
  "query_failed = adminError 503 AdminErr ''Analytics query unavailable; retry shortly.''"

definition overview :: "analytics option \<Rightarrow> (nat \<Rightarrow> analytics) \<Rightarrow> (nat \<Rightarrow> bool) \<Rightarrow> time \<Rightarrow> adminQuery \<Rightarrow> admin_content response" where
  "overview src seen ok tnow q =
     (case adminWindow q of
        None \<Rightarrow> adminError 400 AdminErr ''Invalid time window''
      | Some window \<Rightarrow>
          (case admin_db src of
             None \<Rightarrow> no_analytics
           | Some _ \<Rightarrow>
               if list_all ok [0..<7] then adminJSON (AdminOverview (admin_overview tnow window seen)) else query_failed))"

text \<open>The activity list reads one snapshot, in a transaction: begin, count, query, iteration.\<close>

definition activity_handler :: "analytics option \<Rightarrow> (nat \<Rightarrow> bool) \<Rightarrow> time \<Rightarrow> adminQuery \<Rightarrow> admin_content response" where
  "activity_handler src ok tnow q =
     (case activity_request q of
        Inl msg \<Rightarrow> adminError 400 AdminErr msg
      | Inr ar \<Rightarrow>
          (case admin_db src of
             None \<Rightarrow> no_analytics
           | Some a \<Rightarrow> if list_all ok [0..<4] then adminJSON (AdminActivity (activity_page tnow ar a)) else query_failed))"

text \<open>The page routes and the headers of the admin server.\<close>

definition adminCSP :: string where
  "adminCSP = ''default-src '' @ quoted ''self'' @ ''; script-src '' @ quoted ''self'' @ '' '' @ quoted ''unsafe-inline'' @
     ''; style-src '' @ quoted ''self'' @ '' '' @ quoted ''unsafe-inline'' @ ''; frame-ancestors '' @ quoted ''none'' @
     ''; base-uri '' @ quoted ''none''"

definition admin_page :: "'c \<Rightarrow> request \<Rightarrow> 'c response" where
  "admin_page page r =
     (if Path r \<noteq> ''/'' \<and> Path r \<noteq> ''/activity'' then http_Error ''404 page not found'' 404 no_response
      else (set_header ''Cache-Control'' ''no-store'' (set_header ''Content-Type'' ''text/html; charset=utf-8'' no_response))
        \<lparr>rstatus := 200, rcontent := Some page\<rparr>)"

end
