(* ===== verification/AdminProps.thy ===== *)
theory AdminProps
  imports Admin AnalyticsProps "HOL-Library.Multiset"
begin

text \<open>
  What the admin server shows is what the tables hold: the buckets of the overview add up to its
  totals, the activity pages cut the filtered rows without gap or repetition, and search terms are
  taken literally.
\<close>

section \<open>Search terms\<close>

lemma like_percent: "like (CHR ''%'' # p) s \<longleftrightarrow> (\<exists>a b. s = a @ b \<and> like p b)"
proof (induction s)
  case (Cons x xs)
  have "like (CHR ''%'' # p) (x # xs) \<longleftrightarrow> like p (x # xs) \<or> like (CHR ''%'' # p) xs" by simp
  with Cons show ?case by (metis append_Cons append_Nil append_eq_Cons_conv)
qed simp

lemma escape_like_Cons:
  "escape_like (c # v) = (if c \<in> set [CHR 92, CHR ''%'', CHR ''_''] then [CHR 92, c] else [c]) @ escape_like v"
  by (simp add: escape_like_def)

lemma like_escape:
  "like (escape_like v @ p) s \<longleftrightarrow> (\<exists>a b. s = a @ b \<and> map ascii_lower a = map ascii_lower v \<and> like p b)"
proof (induction v arbitrary: s)
  case Nil
  then show ?case by (simp add: escape_like_def)
next
  case (Cons c v)
  have step: "like (escape_like (c # v) @ p) s \<longleftrightarrow>
      (\<exists>x s'. s = x # s' \<and> ascii_lower x = ascii_lower c \<and> like (escape_like v @ p) s')"
    by (cases s) (auto simp: escape_like_Cons)
  show ?case unfolding step Cons.IH by (auto simp: Cons_eq_append_conv map_eq_Cons_conv) metis+
qed

text \<open>A string contains another up to the case of ASCII letters.\<close>

definition contains_fold :: "string \<Rightarrow> string \<Rightarrow> bool" where
  "contains_fold s v \<longleftrightarrow> (\<exists>a m b. s = a @ m @ b \<and> map ascii_lower m = map ascii_lower v)"

lemma like_contains: "like (contains_pattern v) s \<longleftrightarrow> contains_fold s v"
proof -
  have "like ''%'' b" for b using like_percent [of "[]" b] by auto
  then have e: "like (escape_like v @ ''%'') s \<longleftrightarrow> (\<exists>a b. s = a @ b \<and> map ascii_lower a = map ascii_lower v)" for s
    unfolding like_escape by simp
  have "like (contains_pattern v) s \<longleftrightarrow> (\<exists>a b. s = a @ b \<and> like (escape_like v @ ''%'') b)"
    unfolding contains_pattern_def using like_percent [of "escape_like v @ ''%''" s] by simp
  then show ?thesis unfolding e contains_fold_def by blast
qed

section \<open>Buckets\<close>

lemma sum_groups:
  fixes w :: "'a \<Rightarrow> int"
  assumes "finite K" "f ` set xs \<subseteq> K"
  shows "(\<Sum>k \<in> K. if P k then sum_list (map w (filter (\<lambda>r. f r = k) xs)) else 0) = sum_list (map w (filter (\<lambda>r. P (f r)) xs))"
  using assms(2)
proof (induction xs)
  case Nil
  then show ?case by (simp cong: if_cong)
next
  case (Cons x xs)
  have "(\<Sum>k \<in> K. if P k then sum_list (map w (filter (\<lambda>r. f r = k) (x # xs))) else 0) =
      (\<Sum>k \<in> K. (if k = f x then (if P (f x) then w x else 0) else 0) + (if P k then sum_list (map w (filter (\<lambda>r. f r = k) xs)) else 0))"
    by (rule sum.cong) auto
  also have "\<dots> = (if P (f x) then w x else 0) + sum_list (map w (filter (\<lambda>r. P (f r)) xs))"
    using Cons assms(1) by (simp add: sum.distrib sum.delta)
  finally show ?case by simp
qed

lemma sum_remdups:
  fixes w :: "'a \<Rightarrow> int"
  shows "sum_list (map (\<lambda>k. if P k then sum_list (map w (filter (\<lambda>r. f r = k) xs)) else 0) (remdups (map f xs))) =
    sum_list (map w (filter (\<lambda>r. P (f r)) xs))"
  using sum_groups [of "set (map f xs)" f xs P w] by (simp add: sum_list_distinct_conv_sum_set)

definition clamp :: "nat \<Rightarrow> int \<Rightarrow> int" where
  "clamp cnt i = (if i \<ge> int cnt then int cnt - 1 else i)"

lemma add_bucket_length [simp]: "length (add_bucket cnt g bs) = length bs"
  by (simp add: add_bucket_def Let_def split: prod.split)

lemma fold_add_length [simp]: "length (fold (add_bucket cnt) gs bs) = length bs"
  by (induction gs arbitrary: bs) auto

lemma nth_update_field: "f v = f (xs ! j) \<Longrightarrow> f (xs[j := v] ! i) = f (xs ! i)"
  by (cases "j < length xs") (auto simp: nth_list_update list_update_beyond)

lemma fold_add_Timestamp:
  "i < length bs \<Longrightarrow> bk_Timestamp (fold (add_bucket cnt) gs bs ! i) = bk_Timestamp (bs ! i)"
proof (induction gs arbitrary: bs)
  case (Cons g gs)
  have "bk_Timestamp (add_bucket cnt g bs ! i) = bk_Timestamp (bs ! i)"
    by (cases g) (simp add: add_bucket_def Let_def nth_update_field)
  with Cons show ?case by simp
qed simp

lemma add_bucket_nth:
  assumes "length bs = cnt" "i < cnt" "f = bk_Deliveries \<and> pr = fst \<or> f = bk_HTTP \<and> pr = fst \<circ> snd \<or> f = bk_Polling \<and> pr = snd \<circ> snd"
  shows "f (add_bucket cnt g bs ! i) = f (bs ! i) + (if clamp cnt (fst g) = int i then pr (snd g) else 0)"
  using assms by (cases g) (auto simp: add_bucket_def clamp_def Let_def nth_list_update)

lemma fold_add_nth:
  assumes "length bs = cnt" "i < cnt" "f = bk_Deliveries \<and> pr = fst \<or> f = bk_HTTP \<and> pr = fst \<circ> snd \<or> f = bk_Polling \<and> pr = snd \<circ> snd"
  shows "f (fold (add_bucket cnt) gs bs ! i) = f (bs ! i) + sum_list (map (\<lambda>g. if clamp cnt (fst g) = int i then pr (snd g) else 0) gs)"
  using assms(1)
proof (induction gs arbitrary: bs)
  case (Cons g gs)
  then show ?case using add_bucket_nth [OF Cons.prems assms(2,3), of g] by simp
qed simp

text \<open>The rows that belong to bucket \<open>i\<close>.\<close>

definition in_bucket :: "int \<Rightarrow> int \<Rightarrow> nat \<Rightarrow> nat \<Rightarrow> arow list \<Rightarrow> arow list" where
  "in_bucket lo hi cnt i rows = filter (\<lambda>r. clamp cnt (quot (fst (snd r) - lo) (bucket_width lo hi cnt)) = int i) rows"

lemma group_rows_sum:
  fixes w :: "arow \<Rightarrow> int" and pr :: "int \<times> int \<times> int \<Rightarrow> int"
  assumes "\<And>rs. pr (agg rs) = sum_list (map w rs)"
  shows "sum_list (map (\<lambda>g. if clamp cnt (fst g) = int i then pr (snd g) else 0) (group_rows lo (bucket_width lo hi cnt) agg rows)) =
    sum_list (map w (in_bucket lo hi cnt i rows))"
  using sum_remdups [of "\<lambda>k. clamp cnt k = int i" w "\<lambda>r. quot (fst (snd r) - lo) (bucket_width lo hi cnt)" rows] assms
  by (simp add: group_rows_def Let_def o_def in_bucket_def cong: if_cong)

lemma count_polling_sum: "count_polling rs = sum_list (map (\<lambda>r. if e_Polling (snd (snd r)) then 1 else 0) rs)"
  by (induction rs) (auto simp: count_polling_def)

text \<open>One counter of one bucket: what the two groups of rows add to it.\<close>

lemma overview_bucket_field:
  fixes w1 w2 :: "arow \<Rightarrow> int"
  assumes "i < cnt"
    and f: "f = bk_Deliveries \<and> pr = fst \<or> f = bk_HTTP \<and> pr = fst \<circ> snd \<or> f = bk_Polling \<and> pr = snd \<circ> snd"
    and "\<And>rs. pr (int (length rs), 0, 0) = sum_list (map w1 rs)"
    and "\<And>rs. pr (0, int (length rs), count_polling rs) = sum_list (map w2 rs)"
  shows "f (overview_buckets lo hi cnt ds hs ! i) =
    sum_list (map w1 (in_bucket lo hi cnt i ds)) + sum_list (map w2 (in_bucket lo hi cnt i hs))"
proof -
  let ?bs = "empty_buckets lo (bucket_width lo hi cnt) cnt"
  have l: "length ?bs = cnt" by (simp add: empty_buckets_def)
  have z: "f (?bs ! i) = 0" using assms(1) f by (auto simp: empty_buckets_def)
  show ?thesis
    unfolding overview_buckets_def Let_def fold_add_nth [OF l assms(1) f] map_append sum_list.append z
      group_rows_sum [OF assms(3)] group_rows_sum [OF assms(4)]
    by simp
qed

lemma sum_ones: "sum_list (map (\<lambda>_. 1) rs) = int (length rs)" and sum_zeros: "sum_list (map (\<lambda>_. 0 :: int) rs) = 0"
  by (induction rs) auto

lemma overview_buckets_nth:
  assumes "i < cnt"
  shows "bk_Deliveries (overview_buckets lo hi cnt ds hs ! i) = int (length (in_bucket lo hi cnt i ds))"
    and "bk_HTTP (overview_buckets lo hi cnt ds hs ! i) = int (length (in_bucket lo hi cnt i hs))"
    and "bk_Polling (overview_buckets lo hi cnt ds hs ! i) = count_polling (in_bucket lo hi cnt i hs)"
proof -
  note field = overview_bucket_field [OF assms, where lo = lo and hi = hi and ds = ds and hs = hs]
  show "bk_Deliveries (overview_buckets lo hi cnt ds hs ! i) = int (length (in_bucket lo hi cnt i ds))"
    using field [of bk_Deliveries fst "\<lambda>_. 1" "\<lambda>_. 0"] unfolding sum_ones sum_zeros by simp
  show "bk_HTTP (overview_buckets lo hi cnt ds hs ! i) = int (length (in_bucket lo hi cnt i hs))"
    using field [of bk_HTTP "fst \<circ> snd" "\<lambda>_. 0" "\<lambda>_. 1"] unfolding sum_ones sum_zeros by simp
  show "bk_Polling (overview_buckets lo hi cnt ds hs ! i) = count_polling (in_bucket lo hi cnt i hs)"
    using field [of bk_Polling "snd \<circ> snd" "\<lambda>_. 0" "\<lambda>r. if e_Polling (snd (snd r)) then 1 else 0"]
    unfolding sum_zeros count_polling_sum [symmetric] by simp
qed

lemma overview_buckets_length: "length (overview_buckets lo hi cnt ds hs) = cnt"
  by (simp add: overview_buckets_def Let_def empty_buckets_def)

section \<open>The buckets partition the window\<close>

lemma bucket_width_covers:
  assumes "0 < cnt" "lo < hi"
  shows "0 < bucket_width lo hi cnt" and "hi - lo \<le> int cnt * bucket_width lo hi cnt"
proof -
  let ?n = "int cnt"
  have w: "bucket_width lo hi cnt = (hi - lo + ?n - 1) div ?n"
    unfolding bucket_width_def using assms by (intro quot_nonneg) auto
  have "?n div ?n \<le> (hi - lo + ?n - 1) div ?n" using assms by (intro zdiv_mono1) auto
  then show "0 < bucket_width lo hi cnt" using assms w by simp
  have "(hi - lo + ?n - 1) mod ?n < ?n" using assms by simp
  then show "hi - lo \<le> ?n * bucket_width lo hi cnt"
    unfolding w using mult_div_mod_eq [of ?n "hi - lo + ?n - 1"] by linarith
qed

text \<open>The interval of bucket \<open>i\<close>: up to the next bucket's start, the last one up to the end of the window.\<close>

definition bucket_interval :: "int \<Rightarrow> int \<Rightarrow> nat \<Rightarrow> nat \<Rightarrow> int \<Rightarrow> bool" where
  "bucket_interval lo hi cnt i t \<longleftrightarrow>
     lo + int i * bucket_width lo hi cnt \<le> t \<and> (if Suc i < cnt then t < lo + int (Suc i) * bucket_width lo hi cnt else t \<le> hi)"

lemma clamp_interval:
  assumes "i < cnt" "lo < hi" "lo \<le> t" "t \<le> hi"
  shows "clamp cnt (quot (t - lo) (bucket_width lo hi cnt)) = int i \<longleftrightarrow> bucket_interval lo hi cnt i t"
proof -
  let ?w = "bucket_width lo hi cnt"
  let ?k = "(t - lo) div ?w"
  have w: "0 < ?w" using bucket_width_covers assms by simp
  have q: "quot (t - lo) ?w = ?k" using assms w by (intro quot_nonneg) auto
  have le: "j \<le> ?k \<longleftrightarrow> lo + j * ?w \<le> t" for j :: int
  proof -
    have m: "t - lo = ?w * ?k + (t - lo) mod ?w" "0 \<le> (t - lo) mod ?w" "(t - lo) mod ?w < ?w" using w by simp_all
    have "j \<le> ?k \<Longrightarrow> j * ?w \<le> ?w * ?k" using w by simp
    moreover have "\<not> j \<le> ?k \<Longrightarrow> ?w * ?k + ?w \<le> j * ?w" using w mult_left_mono [of "?k + 1" j ?w] by (simp add: algebra_simps)
    ultimately show ?thesis using m by (cases "j \<le> ?k") linarith+
  qed
  show ?thesis
  proof (cases "Suc i < cnt")
    case True
    then have "clamp cnt ?k = int i \<longleftrightarrow> int i \<le> ?k \<and> \<not> int (Suc i) \<le> ?k" by (auto simp: clamp_def)
    then show ?thesis unfolding q bucket_interval_def le using True by auto
  next
    case False
    then have "clamp cnt ?k = int i \<longleftrightarrow> int i \<le> ?k" using assms(1) by (auto simp: clamp_def)
    then show ?thesis unfolding q bucket_interval_def le using False assms(4) by auto
  qed
qed

lemma in_bucket_window:
  assumes "i < cnt" "lo < hi"
  shows "in_bucket lo hi cnt i (in_window lo hi rows) = filter (\<lambda>r. bucket_interval lo hi cnt i (fst (snd r))) (in_window lo hi rows)"
  unfolding in_bucket_def by (rule filter_cong) (auto simp: in_window_def clamp_interval [OF assms])

lemma clamp_range:
  assumes "0 < cnt" "lo < hi" "lo \<le> t"
  shows "clamp cnt (quot (t - lo) (bucket_width lo hi cnt)) \<in> int ` {..<cnt}"
proof -
  have w: "0 < bucket_width lo hi cnt" using bucket_width_covers assms by simp
  then have "0 \<le> quot (t - lo) (bucket_width lo hi cnt)"
    using assms quot_nonneg [OF _ w, of "t - lo"] by (simp add: pos_imp_zdiv_nonneg_iff)
  then show ?thesis using assms(1) unfolding clamp_def
    by (auto simp: image_iff intro: bexI [of _ "cnt - 1"] bexI [of _ "nat (quot (t - lo) (bucket_width lo hi cnt))"])
qed

lemma in_bucket_total:
  fixes w :: "arow \<Rightarrow> int"
  assumes "0 < cnt" "lo < hi"
  shows "(\<Sum>i < cnt. sum_list (map w (in_bucket lo hi cnt i (in_window lo hi rows)))) = sum_list (map w (in_window lo hi rows))"
proof -
  let ?f = "\<lambda>r :: arow. clamp cnt (quot (fst (snd r) - lo) (bucket_width lo hi cnt))"
  let ?rs = "in_window lo hi rows"
  have "?f ` set ?rs \<subseteq> int ` {..<cnt}" using clamp_range [OF assms] by (auto simp: in_window_def)
  from sum_groups [OF _ this, of "\<lambda>_. True" w]
  have "(\<Sum>k \<in> int ` {..<cnt}. sum_list (map w (filter (\<lambda>r. ?f r = k) ?rs))) = sum_list (map w ?rs)" by simp
  then show ?thesis by (simp add: in_bucket_def sum.reindex inj_on_def)
qed

lemma bucket_sums:
  fixes ds hs :: "arow list"
  assumes "0 < cnt" "lo < hi"
  defines "bs \<equiv> overview_buckets lo hi cnt (in_window lo hi ds) (in_window lo hi hs)"
  shows "sum_list (map bk_Deliveries bs) = int (length (in_window lo hi ds))"
    and "sum_list (map bk_HTTP bs) = int (length (in_window lo hi hs))"
    and "sum_list (map bk_Polling bs) = count_polling (in_window lo hi hs)"
proof -
  have s: "sum_list (map f bs) = (\<Sum>i < cnt. f (bs ! i))" for f :: "adminBucket \<Rightarrow> int"
    unfolding sum_list_sum_nth by (simp add: bs_def overview_buckets_length atLeast0LessThan)
  note nth = overview_buckets_nth [of _ cnt lo hi "in_window lo hi ds" "in_window lo hi hs", folded bs_def]
  note tot = in_bucket_total [OF assms(1,2)]
  show "sum_list (map bk_Deliveries bs) = int (length (in_window lo hi ds))"
    unfolding s using tot [of "\<lambda>_. 1" ds] nth(1) unfolding sum_ones by simp
  show "sum_list (map bk_HTTP bs) = int (length (in_window lo hi hs))"
    unfolding s using tot [of "\<lambda>_. 1" hs] nth(2) unfolding sum_ones by simp
  show "sum_list (map bk_Polling bs) = count_polling (in_window lo hi hs)"
    unfolding s using tot [of "\<lambda>r. if e_Polling (snd (snd r)) then 1 else 0" hs] nth(3)
    unfolding count_polling_sum [symmetric] by simp
qed

lemma adminWindow_range:
  assumes "adminWindow q = Some window"
  shows "UnixMilli (tnow - window) < UnixMilli tnow" and "0 < bucket_count window"
proof -
  have "window \<in> hours ` {24, 1, 7 * 24, 30 * 24}"
    using assms by (auto simp: adminWindow_def Let_def split: if_splits)
  then show "UnixMilli (tnow - window) < UnixMilli tnow" by (auto simp: hours_def UnixMilli_def)
  show "0 < bucket_count window" by (simp add: bucket_count_def)
qed

section \<open>Rankings\<close>

definition occurrences :: "(event \<Rightarrow> string) \<Rightarrow> arow list \<Rightarrow> string \<Rightarrow> int" where
  "occurrences column rows v = int (length (filter (\<lambda>r. column (snd (snd r)) = v) rows))"

lemma count_list_occurrences: "int (count_list (map (\<lambda>r. column (snd (snd r))) rows) v) = occurrences column rows v"
  by (induction rows) (auto simp: occurrences_def)

text \<open>A ranking: at most ten values with their exact counts, in order, none left out that beats a listed one.\<close>

definition top_ten :: "(event \<Rightarrow> string) \<Rightarrow> arow list \<Rightarrow> (string \<times> int) list \<Rightarrow> bool" where
  "top_ten column rows res \<longleftrightarrow>
     length res = min 10 (card ((\<lambda>r. column (snd (snd r))) ` set rows)) \<and> distinct (map fst res) \<and>
     sorted (map (\<lambda>p. (- snd p, fst p)) res) \<and>
     (\<forall>(v, n) \<in> set res. n = occurrences column rows v \<and> 0 < n) \<and>
     (\<forall>r \<in> set rows. \<forall>(v, n) \<in> set res. column (snd (snd r)) \<notin> fst ` set res \<longrightarrow> occurrences column rows (column (snd (snd r))) \<le> n)"

lemma sorted_take_drop: "sorted xs \<Longrightarrow> x \<in> set (take n xs) \<Longrightarrow> y \<in> set (drop n xs) \<Longrightarrow> x \<le> y"
  by (metis append_take_drop_id sorted_append)

lemma adminRank_top: "top_ten column rows (adminRank column rows)"
proof -
  let ?c = "\<lambda>r :: arow. column (snd (snd r))"
  let ?k = "\<lambda>p :: string \<times> int. (- snd p, fst p)"
  define all where "all = sort_key ?k (map (\<lambda>v. (v, occurrences column rows v)) (remdups (map ?c rows)))"
  have r: "adminRank column rows = take 10 all"
    by (simp add: adminRank_def all_def Let_def count_list_occurrences)
  have set: "set all = (\<lambda>v. (v, occurrences column rows v)) ` ?c ` set rows" by (simp add: all_def)
  have "distinct all" by (simp add: all_def distinct_map inj_on_def)
  then have d: "distinct (map fst all)" by (auto simp: distinct_map inj_on_def set)
  have len: "length all = card (?c ` set rows)" by (simp add: all_def length_remdups_card_conv)
  have srt: "sorted (map ?k all)" by (simp add: all_def)
  have sub: "set (take 10 all) \<subseteq> set all" by (rule set_take_subset)
  have pos: "0 < occurrences column rows (?c x)" if "x \<in> set rows" for x
    using that by (auto simp: occurrences_def filter_empty_conv)
  have rest: "occurrences column rows (?c x) \<le> n"
    if "x \<in> set rows" "(v, n) \<in> set (take 10 all)" "?c x \<notin> fst ` set (take 10 all)" for x v n
  proof -
    have "(?c x, occurrences column rows (?c x)) \<in> set all" using that(1) set by auto
    with that(3) have "(?c x, occurrences column rows (?c x)) \<in> set (drop 10 all)"
      by (metis Un_iff append_take_drop_id fst_conv image_eqI set_append)
    then have "?k (?c x, occurrences column rows (?c x)) \<in> set (drop 10 (map ?k all))" unfolding drop_map set_map by (rule imageI)
    moreover have "?k (v, n) \<in> set (take 10 (map ?k all))" unfolding take_map set_map using that(2) by (rule imageI)
    ultimately have "?k (v, n) \<le> ?k (?c x, occurrences column rows (?c x))" by (intro sorted_take_drop [OF srt])
    then show ?thesis by auto
  qed
  have "distinct (map fst (take 10 all))" "sorted (map ?k (take 10 all))"
    using d srt unfolding take_map [symmetric] by (auto intro: sorted_wrt_take)
  moreover have "n = occurrences column rows v \<and> 0 < n" if "(v, n) \<in> set (take 10 all)" for v n
    using that sub pos unfolding set by blast
  ultimately show ?thesis unfolding top_ten_def r using len rest by (auto simp del: set_take_subset)
qed

section \<open>The overview\<close>

lemma admin_no_store [simp]:
  "get_header ''Cache-Control'' (admin_headers\<lparr>rstatus := c, rcontent := x\<rparr>) = ''no-store''"
  by (simp add: admin_headers_def get_header_def set_header_def no_response_def)

lemma adminJSON_no_store: "get_header ''Cache-Control'' (adminJSON v) = ''no-store''"
  by (simp add: adminJSON_def)

lemma adminError_no_store: "get_header ''Cache-Control'' (adminError c e msg) = ''no-store''"
  by (simp add: adminError_def)

text \<open>
  C36. The overview is exact. For a valid window, when no query fails and the tables do not change
  between them, the answer is an uncacheable document in which the counters of the buckets add up to
  the totals shown beside them; the buckets have the start times of consecutive intervals that cover
  the whole window, and each holds exactly the rows of its interval, the last one up to the end of
  the window; the three rankings list the ten most frequent values with their exact counts.
\<close>
theorem overview_exact:
  assumes "adminWindow q = Some window" "admin_db src = Some a" "list_all ok [0..<7]"
  shows "\<exists>ov. overview src (\<lambda>_. a) ok tnow q = adminJSON (AdminOverview ov)
    \<and> get_header ''Cache-Control'' (adminJSON (AdminOverview ov)) = ''no-store''
    \<and> sum_list (map bk_Deliveries (ov_Buckets ov)) = ov_Deliveries ov
    \<and> sum_list (map bk_HTTP (ov_Buckets ov)) = ov_Requests ov
    \<and> sum_list (map bk_Polling (ov_Buckets ov)) = ov_Polling ov
    \<and> length (ov_Buckets ov) = bucket_count window
    \<and> (\<forall>i < bucket_count window.
         (let lo = UnixMilli (tnow - window); hi = UnixMilli tnow; b = ov_Buckets ov ! i;
              here = (\<lambda>r. bucket_interval lo hi (bucket_count window) i (fst (snd r)))
          in bk_Timestamp b = lo + int i * bucket_width lo hi (bucket_count window)
             \<and> bk_Deliveries b = int (length (filter here (in_window lo hi (deliveries a))))
             \<and> bk_HTTP b = int (length (filter here (in_window lo hi (http_requests a))))
             \<and> bk_Polling b = count_polling (filter here (in_window lo hi (http_requests a)))))
    \<and> top_ten e_Recipient (in_window (UnixMilli (tnow - window)) (UnixMilli tnow) (deliveries a)) (ov_Inboxes ov)
    \<and> top_ten e_SenderDomain (in_window (UnixMilli (tnow - window)) (UnixMilli tnow) (deliveries a)) (ov_SenderDomains ov)
    \<and> top_ten e_IP (in_window (UnixMilli (tnow - window)) (UnixMilli tnow) (http_requests a)) (ov_HTTPCallers ov)"
proof -
  define ov where "ov = admin_overview tnow window (\<lambda>_. a)"
  let ?lo = "UnixMilli (tnow - window)" and ?hi = "UnixMilli tnow" and ?n = "bucket_count window"
  let ?ds = "in_window ?lo ?hi (deliveries a)" and ?hs = "in_window ?lo ?hi (http_requests a)"
  note lt = adminWindow_range [OF assms(1)]
  have bs: "ov_Buckets ov = overview_buckets ?lo ?hi ?n ?ds ?hs"
    by (simp add: ov_def admin_overview_def Let_def)
  note sums = bucket_sums [OF lt(2) lt(1), of tnow "deliveries a" "http_requests a"]
  have stamp: "bk_Timestamp (overview_buckets ?lo ?hi ?n ?ds ?hs ! i) = ?lo + int i * bucket_width ?lo ?hi ?n" if "i < ?n" for i
    using that by (simp add: overview_buckets_def Let_def fold_add_Timestamp empty_buckets_def)
  have each: "let b = ov_Buckets ov ! i; here = (\<lambda>r. bucket_interval ?lo ?hi ?n i (fst (snd r)))
      in bk_Timestamp b = ?lo + int i * bucket_width ?lo ?hi ?n \<and> bk_Deliveries b = int (length (filter here ?ds))
        \<and> bk_HTTP b = int (length (filter here ?hs)) \<and> bk_Polling b = count_polling (filter here ?hs)" if "i < ?n" for i
    unfolding Let_def bs using overview_buckets_nth [OF that] in_bucket_window [OF that lt(1)] stamp [OF that] by simp
  have sum: "sum_list (map bk_Deliveries (ov_Buckets ov)) = ov_Deliveries ov" "sum_list (map bk_HTTP (ov_Buckets ov)) = ov_Requests ov"
      "sum_list (map bk_Polling (ov_Buckets ov)) = ov_Polling ov"
    unfolding bs sums by (simp_all add: ov_def admin_overview_def Let_def)
  have rank: "top_ten e_Recipient ?ds (ov_Inboxes ov)" "top_ten e_SenderDomain ?ds (ov_SenderDomains ov)" "top_ten e_IP ?hs (ov_HTTPCallers ov)"
    by (simp_all add: ov_def admin_overview_def Let_def adminRank_top)
  have "overview src (\<lambda>_. a) ok tnow q = adminJSON (AdminOverview ov)" using assms by (simp add: overview_def ov_def)
  moreover have "length (ov_Buckets ov) = ?n" by (simp add: bs overview_buckets_length)
  ultimately show ?thesis using sum rank each adminJSON_no_store [of "AdminOverview ov"] unfolding Let_def by blast
qed

theorem overview_exact_witness:
  "\<exists>ov. overview (Some example_rows) (\<lambda>_. example_rows) (\<lambda>_. True) 0 \<lparr>q_Get = (\<lambda>_. ''7d''), q_Has = (\<lambda>_. True)\<rparr> = adminJSON (AdminOverview ov)
    \<and> sum_list (map bk_Deliveries (ov_Buckets ov)) = ov_Deliveries ov \<and> length (ov_Buckets ov) = 21"
proof -
  let ?q = "\<lparr>q_Get = (\<lambda>_. ''7d''), q_Has = (\<lambda>_. True)\<rparr>"
  have w: "adminWindow ?q = Some (hours (7 * 24))" by (simp add: adminWindow_def)
  have d: "admin_db (Some example_rows) = Some example_rows" by (simp add: admin_db_def example_rows_def example_world_def)
  have n: "bucket_count (hours (7 * 24)) = 21" by (simp add: bucket_count_def hours_def)
  have ok: "list_all (\<lambda>_. True) [0..<7]" by (simp add: list_all_iff)
  show ?thesis using overview_exact [OF w d ok, of 0] unfolding n by blast
qed

section \<open>The activity list\<close>

text \<open>The rows a request selects, over the three tables, and the order of the list.\<close>

definition newest_first :: "sortOrder \<Rightarrow> activity list \<Rightarrow> bool" where
  "newest_first srt rs \<longleftrightarrow> sorted_wrt (\<lambda>x y. activity_key srt y \<le> activity_key srt x) rs"

lemma activity_sorted_perm: "mset (activity_sorted tnow ar a) = mset (activity_rows tnow ar a)"
  by (simp add: activity_sorted_def)

lemma activity_sorted_order: "newest_first (ar_sort ar) (activity_sorted tnow ar a)"
  unfolding newest_first_def activity_sorted_def sorted_wrt_rev
  using sorted_sort_key [of "activity_key (ar_sort ar)" "activity_rows tnow ar a"]
  by (simp add: sorted_wrt_map)

lemma activity_sorted_length: "length (activity_sorted tnow ar a) = length (activity_rows tnow ar a)"
  by (simp add: activity_sorted_def)

lemma activity_page_simps:
  "ap_Events (activity_page tnow ar a) = take adminPageSize (drop (nat (ar_offset ar)) (activity_sorted tnow ar a))"
  "ap_Total (activity_page tnow ar a) = int (length (activity_sorted tnow ar a))"
  "ap_Offset (activity_page tnow ar a) = ar_offset ar"
  by (auto simp: activity_page_def Let_def activity_sorted_length min_def)

lemma activity_page_hasMore:
  assumes "0 \<le> ar_offset ar"
  shows "ap_HasMore (activity_page tnow ar a) \<longleftrightarrow>
    ar_offset ar + int adminPageSize < ap_Total (activity_page tnow ar a) \<and> ar_offset ar + int adminPageSize \<le> adminMaxOffset"
  using assms by (auto simp: activity_page_def Let_def activity_sorted_length)

lemma number_param_range: "number_param v l h msg = Inr n \<Longrightarrow> n = 0 \<or> l \<le> n \<and> n \<le> h"
  by (auto simp: number_param_def split: if_splits option.splits)

lemma activity_request_offset:
  assumes "activity_request q = Inr ar"
  shows "0 \<le> ar_offset ar" "ar_offset ar \<le> adminMaxOffset"
  using assms number_param_range [of "q_Get q ''offset''" 0 adminMaxOffset "''Offset must be between 0 and 10000''"]
  unfolding activity_request_def Let_def result_rules by (auto simp: adminMaxOffset_def)

text \<open>
  C37. The activity list is exact. When the parameters are valid and no query fails, the events of a
  page are the positions offset to offset + 50 of one list, which holds exactly the rows selected by
  the request, each as often as the tables do, in descending order of the chosen sort key; the total
  is the length of that list, and \<^verbatim>\<open>hasMore\<close> is true exactly if rows follow the page and the
  next page is still within the limit of offsets. The answer is never cacheable.
\<close>
theorem activity_page_exact:
  assumes "activity_request q = Inr ar" "admin_db src = Some a" "list_all ok [0..<4]"
  shows "\<exists>p rows. activity_handler src ok tnow q = adminJSON (AdminActivity p)
    \<and> get_header ''Cache-Control'' (activity_handler src ok tnow q) = ''no-store''
    \<and> mset rows = mset (activity_rows tnow ar a) \<and> newest_first (ar_sort ar) rows
    \<and> ap_Events p = take 50 (drop (nat (ar_offset ar)) rows)
    \<and> ap_Total p = int (length rows) \<and> ap_Offset p = ar_offset ar
    \<and> 0 \<le> ap_Offset p \<and> ap_Offset p \<le> 10000
    \<and> (ap_HasMore p \<longleftrightarrow> ap_Offset p + 50 < ap_Total p \<and> ap_Offset p + 50 \<le> 10000)"
proof -
  note off = activity_request_offset [OF assms(1)]
  have "activity_handler src ok tnow q = adminJSON (AdminActivity (activity_page tnow ar a))"
    using assms by (simp add: activity_handler_def)
  with activity_page_simps [of tnow ar a] activity_page_hasMore [OF off(1), of tnow a] off
      activity_sorted_perm [of tnow ar a] activity_sorted_order [of ar tnow a]
  show ?thesis
    unfolding adminPageSize_def adminMaxOffset_def
    by (intro exI [of _ "activity_page tnow ar a"] exI [of _ "activity_sorted tnow ar a"]) (simp add: adminJSON_no_store)
qed

definition example_query :: adminQuery where
  "example_query = \<lparr>q_Get = (\<lambda>k. if k = ''kind'' then ''delivery'' else []), q_Has = (\<lambda>k. k = ''kind'')\<rparr>"

lemma example_query_ok: "\<exists>ar. activity_request example_query = Inr ar \<and> ar_offset ar = 0"
  by (simp add: activity_request_def example_query_def Let_def adminWindow_def known_kinds_def guard_def sort_param_def
      number_param_def exact_filter_def like_filter_def)

theorem activity_page_exact_witness:
  "\<exists>p. activity_handler (Some example_rows) (\<lambda>_. True) 0 example_query = adminJSON (AdminActivity p) \<and> ap_Offset p = 0
    \<and> (ap_HasMore p \<longleftrightarrow> 50 < ap_Total p)"
proof -
  obtain ar where ar: "activity_request example_query = Inr ar" "ar_offset ar = 0" using example_query_ok by blast
  have d: "admin_db (Some example_rows) = Some example_rows" by (simp add: admin_db_def example_rows_def example_world_def)
  have ok: "list_all (\<lambda>_. True) [0..<4]" by (simp add: list_all_iff)
  show ?thesis using activity_page_exact [OF ar(1) d ok, of 0] ar(2) by auto
qed

text \<open>
  C38. The filters of the activity list mean what they say, and search terms are taken literally: a
  row is selected exactly if it lies in the time window, its table is the one asked for, it has the
  status and the exact recipient, sender domain or address asked for, and the sender, the user agent
  and one of the four searched columns contain the given text as it is, up to the case of ASCII
  letters. Percent signs, underscores and backslashes in a term stand for themselves.
\<close>
theorem activity_filters_literal:
  assumes "activity_request q = Inr ar"
  shows "r \<in> set (activity_rows tnow ar a) \<longleftrightarrow>
    r \<in> set (activity_union (q_Get q ''kind'') a)
    \<and> UnixMilli (tnow - ar_window ar) \<le> av_Timestamp r \<and> av_Timestamp r \<le> UnixMilli tnow \<and> adminWindow q = Some (ar_window ar)
    \<and> (ar_status ar \<noteq> 0 \<longrightarrow> av_Status r = ar_status ar)
    \<and> (q_Get q ''kind'' = ''httpPoll'' \<longrightarrow> av_Polling r) \<and> (q_Get q ''kind'' = ''httpOther'' \<longrightarrow> \<not> av_Polling r)
    \<and> (q_Has q ''recipient'' \<longrightarrow> av_Recipient r = q_Get q ''recipient'')
    \<and> (q_Has q ''senderDomain'' \<longrightarrow> av_SenderDomain r = q_Get q ''senderDomain'' \<and> smtp_kind r)
    \<and> (q_Has q ''callerIP'' \<longrightarrow> av_IP r = q_Get q ''callerIP'' \<and> av_Kind r = ''http'')
    \<and> (q_Has q ''sourceIP'' \<longrightarrow> av_IP r = q_Get q ''sourceIP'')
    \<and> (q_Get q ''sender'' \<noteq> [] \<longrightarrow> contains_fold (av_Sender r) (q_Get q ''sender'') \<and> smtp_kind r)
    \<and> (q_Get q ''userAgent'' \<noteq> [] \<longrightarrow> contains_fold (av_UserAgent r) (q_Get q ''userAgent'') \<and> av_Kind r = ''http'')
    \<and> (q_Get q ''search'' \<noteq> [] \<longrightarrow>
         (\<exists>column \<in> {av_Recipient, av_Sender, av_IP, av_UserAgent}. contains_fold (column r) (q_Get q ''search'')))"
proof -
  have ex: "f r \<longleftrightarrow> (q_Has q p \<longrightarrow> c r = q_Get q p \<and> e r)" if "exact_filter q p c e = Inr f" for p c e f
    using that by (auto simp: exact_filter_def Let_def split: if_splits)
  have lk: "f r \<longleftrightarrow> (q_Get q p \<noteq> [] \<longrightarrow> contains_fold (c r) (q_Get q p) \<and> e r)" if "like_filter q p c e = Inr f" for p c e f
    using that by (auto simp: like_filter_def Let_def like_contains split: if_splits)
  have sr: "search_filter v r \<longleftrightarrow> (v \<noteq> [] \<longrightarrow> (\<exists>column \<in> {av_Recipient, av_Sender, av_IP, av_UserAgent}. contains_fold (column r) v))" for v
    by (auto simp: search_filter_def Let_def like_contains)
  have win: "(case adminWindow q of None \<Rightarrow> Inl m | Some w \<Rightarrow> Inr w) = Inr w \<longleftrightarrow> adminWindow q = Some w" for m :: string and w
    by (auto split: option.split)
  obtain f1 f2 f3 f4 f5 f6 where
      f: "exact_filter q ''recipient'' av_Recipient (\<lambda>_. True) = Inr f1" "exact_filter q ''senderDomain'' av_SenderDomain smtp_kind = Inr f2"
        "exact_filter q ''callerIP'' av_IP (\<lambda>r. av_Kind r = ''http'') = Inr f3" "exact_filter q ''sourceIP'' av_IP (\<lambda>_. True) = Inr f4"
        "like_filter q ''sender'' av_Sender smtp_kind = Inr f5" "like_filter q ''userAgent'' av_UserAgent (\<lambda>r. av_Kind r = ''http'') = Inr f6"
      and w: "adminWindow q = Some (ar_window ar)" "ar_kind ar = q_Get q ''kind''"
      and "ar_where ar = (\<lambda>r. (ar_status ar \<noteq> 0 \<longrightarrow> av_Status r = ar_status ar) \<and> (q_Get q ''kind'' = ''httpPoll'' \<longrightarrow> av_Polling r) \<and>
           (q_Get q ''kind'' = ''httpOther'' \<longrightarrow> \<not> av_Polling r) \<and> f1 r \<and> f2 r \<and> f3 r \<and> f4 r \<and> f5 r \<and> f6 r \<and> search_filter (q_Get q ''search'') r)"
    using assms unfolding activity_request_def Let_def result_rules win by force
  then show ?thesis
    unfolding activity_rows_def set_filter mem_Collect_eq w(2)
    by (simp only: ex [OF f(1)] ex [OF f(2)] ex [OF f(3)] ex [OF f(4)] lk [OF f(5)] lk [OF f(6)] sr) blast
qed

theorem activity_filters_literal_witness:
  "\<exists>ar. activity_request example_query = Inr ar \<and> adminDeliverySelect (''d1'', 3, example_event) \<in> set (activity_rows 4000000 ar example_rows)"
proof -
  obtain ar where ar: "activity_request example_query = Inr ar" using example_query_ok by blast
  then have w: "ar_window ar = hours 24" "ar_status ar = 0"
    by (auto simp: activity_request_def example_query_def Let_def adminWindow_def known_kinds_def guard_def sort_param_def
      number_param_def exact_filter_def like_filter_def)
  show ?thesis using activity_filters_literal [OF ar, of "adminDeliverySelect (''d1'', 3, example_event)" 4000000 example_rows] ar w
    by (simp add: example_query_def activity_union_def example_rows_def adminDeliverySelect_def UnixMilli_def hours_def adminWindow_def)
qed

end
