(* ===== verification/SmtpSession.thy ===== *)
theory SmtpSession
  imports StoreRead AnalyticsProps Address
begin

text \<open>
  The SMTP session of \<^verbatim>\<open>internal/app/smtp.go\<close>: the handlers the protocol library calls for
  \<^verbatim>\<open>MAIL FROM\<close>, \<^verbatim>\<open>RCPT TO\<close>, \<^verbatim>\<open>DATA\<close> and \<^verbatim>\<open>RSET\<close>, on top of the store and the analytics
  queue. What reading the message body gives (the bytes, or one of two failures) is an argument of
  \<open>Data\<close>; the identifiers of \<^verbatim>\<open>uuid.NewString\<close> and the readings of the clock are streams.
  Durations are exact rationals where the code rounds to a \<^verbatim>\<open>float64\<close>.
\<close>

record smtpSession =
  sourceIP :: string
  sender :: string
  recipients :: "string list"

record smtpd =
  dcfg :: config
  dstore :: store
  danalytics :: "analytics option" \<comment> \<open>\<open>None\<close> is \<^verbatim>\<open>nil\<close>\<close>
  uuids :: "string stream"
  ticks :: "time stream"

datatype smtp_error = SMTPError int "int \<times> int \<times> int" string | ErrDataTooLarge

datatype body = Body_ok string | Body_too_large | Body_failed

definition tick :: "smtpd \<Rightarrow> time \<times> smtpd" where
  "tick d = (shd (ticks d), d\<lparr>ticks := stl (ticks d)\<rparr>)"

definition NewString :: "smtpd \<Rightarrow> string \<times> smtpd" where
  "NewString d = (shd (uuids d), d\<lparr>uuids := stl (uuids d)\<rparr>)"

text \<open>\<^verbatim>\<open>float64(d.Microseconds()) / 1000\<close>; the division by a thousand truncates towards zero.\<close>

definition millis :: "int \<Rightarrow> rat" where
  "millis d = of_int (quot d 1000) / 1000"

definition sink :: "event \<Rightarrow> smtpd \<Rightarrow> smtpd" where
  "sink e d = d\<lparr>danalytics := map_option (Record e) (danalytics d)\<rparr>"

definition no_event :: event where
  "no_event = \<lparr>e_ID = [], e_Kind = [], e_Timestamp = None, e_Recipient = [], e_Sender = [], e_SenderDomain = [],
     e_IP = [], e_Size = 0, e_UserAgent = [], e_Route = [], e_Method = [], e_Status = 0, e_DurationKnown = False,
     e_DurationMS = 0, e_MessageID = [], e_Polling = False\<rparr>"

section \<open>Handlers\<close>

definition recordRejection ::
    "string \<Rightarrow> string \<Rightarrow> string \<Rightarrow> string \<Rightarrow> int \<Rightarrow> time \<Rightarrow> smtpd \<Rightarrow> smtpd" where
  "recordRejection ip from recipient stage code started d =
     (if danalytics d = None then d
      else case Cut from CHR ''@'' of
          (_, domain, _) \<Rightarrow>
            (case NewString d of
               (i, d1) \<Rightarrow>
                 (case tick d1 of
                    (t, d2) \<Rightarrow>
                      (case tick d2 of
                         (t', d3) \<Rightarrow>
                           sink (no_event\<lparr>e_ID := i, e_Kind := ''smtpRejected'', e_Timestamp := Some t, e_IP := ip,
                             e_Sender := from, e_SenderDomain := ToLower (uni (dstore d)) domain,
                             e_Recipient := recipient, e_Route := stage, e_Status := code,
                             e_DurationMS := millis (t' - started)\<rparr>) d3))))"

fun rejectData_loop :: "string list \<Rightarrow> smtpSession \<Rightarrow> int \<Rightarrow> time \<Rightarrow> smtpd \<Rightarrow> smtpd" where
  "rejectData_loop [] s code started d = d"
| "rejectData_loop (r # rs) s code started d =
     rejectData_loop rs s code started (recordRejection (sourceIP s) (sender s) r ''DATA'' code started d)"

definition rejectData :: "smtpSession \<Rightarrow> int \<Rightarrow> time \<Rightarrow> smtpd \<Rightarrow> smtpd" where
  "rejectData s code started d = rejectData_loop (recipients s) s code started d"

definition Reset :: "smtpSession \<Rightarrow> smtpSession" where
  "Reset s = s\<lparr>sender := [], recipients := []\<rparr>"

definition Mail :: "string \<Rightarrow> smtpSession \<Rightarrow> smtpSession" where
  "Mail from s = s\<lparr>sender := from, recipients := []\<rparr>"

definition Rcpt :: "string \<Rightarrow> smtpSession \<times> smtpd \<Rightarrow> smtp_error option \<times> smtpSession \<times> smtpd" where
  "Rcpt to0 sd =
     (case sd of
        (s, d) \<Rightarrow>
          (case tick d of
             (started, d1) \<Rightarrow>
               if \<not> accepts (uni (dstore d1)) (MailDomain (dcfg d1)) to0 then
                 (Some (SMTPError 550 (5, 1, 1) ''unknown recipient domain''), s,
                  recordRejection (sourceIP s) (sender s) to0 ''RCPT TO'' 550 started d1)
               else
                 (let to1 = normalizeRecipient (uni (dstore d1)) to0 in
                  (None,
                   (if containsRecipient (recipients s) to1 then s else s\<lparr>recipients := recipients s @ [to1]\<rparr>),
                   d1))))"

fun record_deliveries :: "message list \<Rightarrow> smtpSession \<Rightarrow> rat \<Rightarrow> smtpd \<Rightarrow> smtpd" where
  "record_deliveries [] s ms d = d"
| "record_deliveries (m # rest) s ms d =
     record_deliveries rest s ms
       (if danalytics d = None then d
        else
          (let from = boundedEventString (sender s) 320 in
           case Cut from CHR ''@'' of
             (_, domain, _) \<Rightarrow>
               (case NewString d of
                  (i, d1) \<Rightarrow>
                    sink (no_event\<lparr>e_ID := i, e_Kind := ''delivery'', e_Timestamp := Some (Received m),
                      e_Recipient := boundedEventString (Recipient m) 320, e_Sender := from,
                      e_SenderDomain := boundedEventString (ToLower (uni (dstore d)) domain) 253,
                      e_IP := boundedEventString (sourceIP s) 64, e_Size := Size m, e_MessageID := ID m,
                      e_DurationMS := ms, e_DurationKnown := True\<rparr>) d1)))"

definition Data :: "body \<Rightarrow> smtpSession \<Rightarrow> smtpd \<Rightarrow> smtp_error option \<times> smtpd" where
  "Data b s d =
     (case tick d of
        (deliveryStarted, d1) \<Rightarrow>
          (case b of
             Body_too_large \<Rightarrow> (Some ErrDataTooLarge, rejectData s 552 deliveryStarted d1)
           | Body_failed \<Rightarrow>
               (Some (SMTPError 554 (5, 0, 0) ''message read failed''), rejectData s 554 deliveryStarted d1)
           | Body_ok raw \<Rightarrow>
               (case Save (recipients s) (sender s) raw (dstore d1) of
                  (Inl _, st) \<Rightarrow>
                    (Some (SMTPError 451 (4, 3, 0) ''temporary storage failure''),
                     rejectData s 451 deliveryStarted (d1\<lparr>dstore := st\<rparr>))
                | (Inr messages, st) \<Rightarrow>
                    (case tick (d1\<lparr>dstore := st\<rparr>) of
                       (t, d2) \<Rightarrow> (None, record_deliveries messages s (millis (t - deliveryStarted)) d2)))))"

section \<open>Sessions\<close>

text \<open>
  A session as the protocol library drives it: it starts empty, and every command of the client
  calls one handler. After \<^verbatim>\<open>DATA\<close> the library resets the session. Between two commands the
  server may change under the session (other sessions, the HTTP side, the analytics worker), but not
  its configuration or its Unicode tables.
\<close>

definition same_setup :: "smtpd \<Rightarrow> smtpd \<Rightarrow> bool" where
  "same_setup d d' \<longleftrightarrow> dcfg d' = dcfg d \<and> uni (dstore d') = uni (dstore d)"

inductive session_run :: "smtpSession \<times> smtpd \<Rightarrow> bool" where
  session_start: "session_run (\<lparr>sourceIP = ip, sender = [], recipients = []\<rparr>, d)"
| session_mail: "session_run (s, d) \<Longrightarrow> session_run (Mail from s, d)"
| session_rcpt: "session_run (s, d) \<Longrightarrow> Rcpt to0 (s, d) = (err, s', d') \<Longrightarrow> session_run (s', d')"
| session_reset: "session_run (s, d) \<Longrightarrow> session_run (Reset s, d)"
| session_data: "session_run (s, d) \<Longrightarrow> Data b s d = (err, d') \<Longrightarrow> session_run (Reset s, d')"
| session_other: "session_run (s, d) \<Longrightarrow> same_setup d d' \<Longrightarrow> session_run (s, d')"

definition session_ok :: "smtpSession \<Rightarrow> smtpd \<Rightarrow> bool" where
  "session_ok s d \<longleftrightarrow> distinct (recipients s) \<and>
     (\<forall>r \<in> set (recipients s). \<exists>a. accepts (uni (dstore d)) (MailDomain (dcfg d)) a \<and>
        r = normalizeRecipient (uni (dstore d)) a)"

subsection \<open>What the handlers leave alone\<close>

lemma sink_simps [simp]:
  "dcfg (sink e d) = dcfg d" "dstore (sink e d) = dstore d" "danalytics (sink e d) = map_option (Record e) (danalytics d)"
  by (simp_all add: sink_def)

lemma recordRejection_simps [simp]:
  "dcfg (recordRejection ip f r st c t d) = dcfg d" "dstore (recordRejection ip f r st c t d) = dstore d"
  by (simp_all add: recordRejection_def NewString_def tick_def split: prod.split)

lemma rejectData_simps [simp]:
  "dcfg (rejectData s c t d) = dcfg d" "dstore (rejectData s c t d) = dstore d"
proof -
  have "dcfg (rejectData_loop rs s c t d) = dcfg d \<and> dstore (rejectData_loop rs s c t d) = dstore d" for rs
    by (induction rs arbitrary: d) simp_all
  then show "dcfg (rejectData s c t d) = dcfg d" "dstore (rejectData s c t d) = dstore d"
    by (simp_all add: rejectData_def)
qed

lemma record_deliveries_simps [simp]:
  "dcfg (record_deliveries ms s k d) = dcfg d \<and> dstore (record_deliveries ms s k d) = dstore d"
  by (induction ms arbitrary: d) (simp_all add: Let_def NewString_def split: prod.split)

lemma tick_simps: "tick d = (t, d') \<Longrightarrow> dcfg d' = dcfg d \<and> dstore d' = dstore d \<and> danalytics d' = danalytics d"
  by (auto simp: tick_def)

text \<open>The body of \<open>Data\<close>, outcome by outcome.\<close>

lemma Data_cases:
  assumes "Data b s d = (err, d')"
  obtains (unread) "err \<noteq> None" "dstore d' = dstore d" "\<forall>raw. b \<noteq> Body_ok raw"
  | (failed) raw e where "b = Body_ok raw" "Save (recipients s) (sender s) raw (dstore d) = (Inl e, dstore d')"
      "err = Some (SMTPError 451 (4, 3, 0) ''temporary storage failure'')"
  | (stored) raw ms where "b = Body_ok raw" "Save (recipients s) (sender s) raw (dstore d) = (Inr ms, dstore d')"
      "err = None"
proof -
  obtain t d1 where t: "tick d = (t, d1)" by fastforce
  note d1 = tick_simps [OF t]
  show thesis
  proof (cases b)
    case (Body_ok raw)
    obtain r st where sv: "Save (recipients s) (sender s) raw (dstore d) = (r, st)" by fastforce
    show thesis
    proof (cases r)
      case (Inl e)
      with assms Body_ok t sv d1 failed [of raw e] show thesis by (auto simp: Data_def)
    next
      case (Inr ms)
      obtain t2 d2 where t2: "tick (d1\<lparr>dstore := st\<rparr>) = (t2, d2)" by fastforce
      from assms Body_ok t sv d1 Inr t2 tick_simps [OF t2] stored [of raw ms] show thesis
        by (auto simp: Data_def)
    qed
  qed (use assms t d1 unread in \<open>auto simp: Data_def\<close>)
qed

section \<open>Recipients of a session\<close>

lemma Rcpt_session_ok:
  assumes "session_ok s d" "Rcpt to0 (s, d) = (err, s', d')"
  shows "session_ok s' d'"
proof -
  obtain t d1 where t: "tick d = (t, d1)" by fastforce
  have "dcfg d' = dcfg d \<and> dstore d' = dstore d"
    using assms(2) t tick_simps [OF t] by (auto simp: Rcpt_def Let_def split: if_splits)
  with assms t tick_simps [OF t] show ?thesis
    by (auto simp: Rcpt_def session_ok_def Let_def split: if_splits)
qed

lemma session_run_ok: "session_run (s, d) \<Longrightarrow> session_ok s d"
proof (induction "(s, d)" arbitrary: s d rule: session_run.induct)
  case (session_rcpt s d to0 err s' d')
  then show ?case using Rcpt_session_ok by blast
qed (auto simp: session_ok_def same_setup_def Mail_def Reset_def)

lemma session_ok_canonical:
  assumes "session_ok s d" "unicode_ok (uni (dstore d))"
  shows "\<forall>r \<in> set (recipients s). normalizeRecipient (uni (dstore d)) r = r"
  using assms normalizeRecipient_idem_lemma [OF assms(2)] by (auto simp: session_ok_def)

section \<open>Events of a transaction\<close>

text \<open>One more event in the queue, or one more counted as dropped.\<close>

definition offered :: "nat \<Rightarrow> smtpd \<Rightarrow> smtpd \<Rightarrow> bool" where
  "offered n d d' \<longleftrightarrow>
     (\<forall>a. danalytics d = Some a \<longrightarrow> ainv a \<and> enabled a \<and> \<not> closed a \<longrightarrow>
        (\<exists>a'. danalytics d' = Some a' \<and> ainv a' \<and> enabled a' \<and> \<not> closed a' \<and> events_accounted a' = events_accounted a + n))
     \<and> (danalytics d = None \<longrightarrow> danalytics d' = None)"

lemma offered_same: "danalytics d' = danalytics d \<Longrightarrow> offered 0 d d'"
  by (simp add: offered_def)

lemma offered_trans:
  assumes "offered m d d1" "offered n d1 d2"
  shows "offered (m + n) d d2"
  using assms unfolding offered_def by (metis add.assoc)

lemma Record_open: "enabled (Record e a) = enabled a \<and> closed (Record e a) = closed a"
  by (auto simp: Record_def a_drop_def send_event_def anow_def stamp_event_def name_event_def)

lemma sink_offered: "danalytics d \<noteq> None \<Longrightarrow> danalytics d1 = danalytics d \<Longrightarrow> offered 1 d (sink e d1)"
  using Record_inv Record_open by (auto simp: offered_def)

lemma recordRejection_offered: "danalytics d \<noteq> None \<Longrightarrow> offered 1 d (recordRejection ip f r st c t d)"
  by (auto simp: recordRejection_def NewString_def tick_def split: prod.split intro: sink_offered [simplified])

lemma offered_None: "danalytics d = None \<Longrightarrow> danalytics d' = None \<Longrightarrow> offered n d d'"
  by (simp add: offered_def)

lemma offered_cong: "danalytics d1 = danalytics d \<Longrightarrow> offered n d1 d2 = offered n d d2"
  by (simp add: offered_def)

lemma recordRejection_None: "danalytics d = None \<Longrightarrow> recordRejection ip f r st c t d = d"
  by (simp add: recordRejection_def)

lemma rejectData_offered: "offered (length (recipients s)) d (rejectData s c t d)"
proof -
  have "offered (length rs) d (rejectData_loop rs s c t d)" for rs
  proof (cases "danalytics d")
    case None
    then have "rejectData_loop rs s c t d = d" by (induction rs) (simp_all add: recordRejection_None)
    with None show ?thesis by (simp add: offered_None)
  next
    case (Some a)
    then have "danalytics d \<noteq> None" by simp
    then show ?thesis
    proof (induction rs arbitrary: d)
      case (Cons r rs)
      let ?d = "recordRejection (sourceIP s) (sender s) r ''DATA'' c t d"
      have "danalytics ?d \<noteq> None"
        using Cons.prems by (auto simp: recordRejection_def NewString_def tick_def split: prod.split)
      from offered_trans [OF recordRejection_offered [OF Cons.prems] Cons.IH [OF this]]
      show ?case by simp
    qed (simp add: offered_same)
  qed
  then show ?thesis by (simp add: rejectData_def)
qed

lemma record_deliveries_offered: "offered (length ms) d (record_deliveries ms s k d)"
proof (cases "danalytics d")
  case None
  then have "record_deliveries ms s k d = d" by (induction ms) simp_all
  with None show ?thesis by (simp add: offered_None)
next
  case (Some a)
  then have "danalytics d \<noteq> None" by simp
  then show ?thesis
  proof (induction ms arbitrary: d)
    case (Cons m ms)
    obtain x dom y where cut: "Cut (boundedEventString (sender s) 320) CHR ''@'' = (x, dom, y)" by (metis prod_cases3)
    obtain e where e: "record_deliveries (m # ms) s k d = record_deliveries ms s k (sink e (snd (NewString d)))"
      using Cons.prems cut by (simp add: Let_def NewString_def)
    have n: "danalytics (snd (NewString d)) = danalytics d" by (simp add: NewString_def)
    then have "danalytics (sink e (snd (NewString d))) \<noteq> None" using Cons.prems by simp
    from offered_trans [OF sink_offered [OF Cons.prems n] Cons.IH [OF this]]
    show ?case unfolding e by simp
  qed (simp add: offered_same)
qed

lemma Data_offered:
  assumes "session_ok s d" "unicode_ok (uni (dstore d))" "save_ready (dstore d)" "Data b s d = (err, d')"
  shows "offered (length (recipients s)) d d'"
proof -
  obtain t d1 where t: "tick d = (t, d1)" by fastforce
  note d1 = tick_simps [OF t]
  have rej: "offered (length (recipients s)) d (rejectData s c t (d1\<lparr>dstore := st\<rparr>))" for c st
    using rejectData_offered [of s "d1\<lparr>dstore := st\<rparr>" c t] offered_cong [of "d1\<lparr>dstore := st\<rparr>" d] d1 by simp
  have rej': "offered (length (recipients s)) d (rejectData s c t d1)" for c
    using rej [of c "dstore d1"] by simp
  show ?thesis
  proof (cases b)
    case (Body_ok raw)
    obtain r st where sv: "Save (recipients s) (sender s) raw (dstore d) = (r, st)" by fastforce
    show ?thesis
    proof (cases r)
      case (Inl e)
      with assms(4) Body_ok t sv d1 rej [of 451 st] show ?thesis by (auto simp: Data_def)
    next
      case (Inr ms)
      have len: "length ms = length (recipients s)"
        using ms.delivered_count [OF assms(3) sv [unfolded Inr]] session_ok_canonical [OF assms(1,2)] assms(1)
        by (simp add: session_ok_def)
      obtain t2 d2 where t2: "tick (d1\<lparr>dstore := st\<rparr>) = (t2, d2)" by fastforce
      then have "danalytics d2 = danalytics d" using tick_simps [OF t2] d1 by simp
      then have "offered (length ms) d (record_deliveries ms s (millis (t2 - t)) d2)"
        using record_deliveries_offered offered_cong by blast
      with assms(4) Body_ok t sv d1 Inr t2 len show ?thesis by (auto simp: Data_def)
    qed
  qed (use assms(4) t rej' in \<open>auto simp: Data_def\<close>)
qed

section \<open>Theorems\<close>

text \<open>
  C18. Whatever commands a client sends, the recipients of its session are pairwise different and
  each is an accepted address in canonical form: a non-empty local part, kept as it was sent, and a
  domain equal to the configured mail domain up to case, in lower case.
\<close>

theorem session_recipients_on_domain:
  assumes "session_run (s, d)" and "r \<in> set (recipients s)"
  shows "distinct (recipients s) \<and>
    (\<exists>local dom. local \<noteq> [] \<and> CHR ''@'' \<notin> set dom \<and> EqualFold (uni (dstore d)) dom (MailDomain (dcfg d)) \<and>
       r = local @ CHR ''@'' # ToLower (uni (dstore d)) dom)"
proof -
  have ok: "session_ok s d" by (rule session_run_ok [OF assms(1)])
  then obtain a where a: "accepts (uni (dstore d)) (MailDomain (dcfg d)) a" "r = normalizeRecipient (uni (dstore d)) a"
    using assms(2) by (auto simp: session_ok_def)
  have "\<exists>local dom. local \<noteq> [] \<and> CHR ''@'' \<notin> set dom \<and> EqualFold (uni (dstore d)) dom (MailDomain (dcfg d)) \<and>
       r = local @ CHR ''@'' # ToLower (uni (dstore d)) dom"
  proof (cases a rule: address_cases)
    case (1 l e)
    then show ?thesis using a by (auto simp: accepts_at normalizeRecipient_at)
  next
    case 2
    then show ?thesis using a accepts_no_at by blast
  qed
  with ok show ?thesis by (simp add: session_ok_def)
qed

text \<open>
  C8. The reply to \<^verbatim>\<open>DATA\<close> tells the truth. A positive reply means that every recipient of the
  session, and nobody else, has a stored message holding the bytes received, which can be read back
  by its identifier while it has not expired. A negative reply means that no stored mail changed.
\<close>

theorem Data_reply_truthful:
  assumes "session_run (s, d)" and "unicode_ok (uni (dstore d))" and "save_ready (dstore d)"
    and "Data b s d = (err, d')"
  shows "(err = None \<longrightarrow> (\<exists>raw ms. b = Body_ok raw \<and> set (map Recipient ms) = set (recipients s)
      \<and> length ms = length (recipients s)
      \<and> (\<forall>m \<in> set ms. row_stored (dstore d') raw m
           \<and> (readable_now (dstore d') m \<longrightarrow> raw_of (ID m) (dstore d') = Some raw))))
    \<and> (err \<noteq> None \<longrightarrow> mail_same (dstore d) (dstore d'))"
proof -
  have ok: "session_ok s d" by (rule session_run_ok [OF assms(1)])
  note can = session_ok_canonical [OF ok assms(2)]
  from assms(4) show ?thesis
  proof (cases rule: Data_cases)
    case unread
    then show ?thesis by (simp add: mail_same_def)
  next
    case (failed raw e)
    then show ?thesis using ms.save_none [OF assms(3)] by simp
  next
    case (stored raw ms)
    have "set (map Recipient ms) = set (recipients s)"
      by (rule ms.delivered_each(1) [OF assms(3) stored(2) can])
    moreover have "length ms = length (recipients s)"
      using ms.delivered_count [OF assms(3) stored(2) can] ok by (simp add: session_ok_def)
    moreover have "\<forall>m \<in> set ms. row_stored (dstore d') raw m
        \<and> (readable_now (dstore d') m \<longrightarrow> raw_of (ID m) (dstore d') = Some raw)"
      using ms.save_all [OF assms(3) stored(2)] rs.get_held by blast
    ultimately show ?thesis using stored(1,3) by blast
  qed
qed

text \<open>
  Every outcome of \<^verbatim>\<open>DATA\<close> is reported to analytics once per recipient: with an open analytics
  service the number of events it accounts for (committed, dropped or held) grows by exactly the
  number of recipients, whether the message was stored, refused or could not be read.
\<close>

lemma Data_reports_each_recipient:
  assumes "session_run (s, d)" and "unicode_ok (uni (dstore d))" and "save_ready (dstore d)"
    and "danalytics d = Some a" and "ainv a" and "enabled a" and "\<not> closed a"
    and "Data b s d = (err, d')"
  shows "\<exists>a'. danalytics d' = Some a' \<and> ainv a' \<and> events_accounted a' = events_accounted a + length (recipients s)"
  using Data_offered [OF session_run_ok [OF assms(1)] assms(2,3,8)] assms(4-7) by (auto simp: offered_def)

section \<open>Concrete instances\<close>

definition example_smtpd :: smtpd where
  "example_smtpd = \<lparr>dcfg = example_config, dstore = empty_store, danalytics = Some (analytics_init analytics_config example_world),
     uuids = sconst ''u'', ticks = sconst 0\<rparr>"

definition example_session :: smtpSession where
  "example_session = \<lparr>sourceIP = ''192.0.2.1'', sender = ''x'', recipients = [''A@t.io'']\<rparr>"

lemma example_tick [simp]: "tick example_smtpd = (0, example_smtpd)"
  by (simp add: tick_def example_smtpd_def)

lemma example_session_run: "session_run (example_session, example_smtpd)"
proof -
  have m: "session_run (\<lparr>sourceIP = ''192.0.2.1'', sender = ''x'', recipients = []\<rparr>, example_smtpd)"
    using session_mail [OF session_start [of "''192.0.2.1''" example_smtpd], of "''x''"]
    by (simp add: Mail_def)
  have "accepts plain_unicode ''t.io'' ''A@t.io''" "normalizeRecipient plain_unicode ''A@t.io'' = ''A@t.io''"
    by code_simp+
  then have "Rcpt ''A@t.io'' (\<lparr>sourceIP = ''192.0.2.1'', sender = ''x'', recipients = []\<rparr>, example_smtpd)
      = (None, example_session, example_smtpd)"
    by (simp add: Rcpt_def example_session_def) (simp add: example_smtpd_def empty_store_def example_config_def)
  from session_rcpt [OF m this] show ?thesis .
qed

lemma example_smtpd_ok: "unicode_ok (uni (dstore example_smtpd))" "save_ready (dstore example_smtpd)"
  using example_stores_ok(1,4) plain_unicode_ok by (simp_all add: example_smtpd_def save_ready_def empty_store_def)

theorem session_recipients_on_domain_witness:
  "''A@t.io'' \<in> set (recipients example_session) \<and> distinct (recipients example_session)"
  using session_recipients_on_domain [OF example_session_run, of "''A@t.io''"] by (simp add: example_session_def)

lemma example_Data: "\<exists>d'. Data (Body_ok ''hello'') example_session example_smtpd = (None, d')"
  using Save_empty_ex
  by (auto simp: Data_def example_session_def) (auto simp: example_smtpd_def split: prod.splits)

theorem Data_reply_truthful_witness:
  "\<exists>d' ms. Data (Body_ok ''hello'') example_session example_smtpd = (None, d')
     \<and> set (map Recipient ms) = {''A@t.io''} \<and> (\<forall>m \<in> set ms. row_stored (dstore d') ''hello'' m)"
proof -
  obtain d' where d: "Data (Body_ok ''hello'') example_session example_smtpd = (None, d')"
    using example_Data by blast
  from Data_reply_truthful [OF example_session_run example_smtpd_ok d] d show ?thesis
    by (auto simp: example_session_def)
qed

end
