(* ===== verification/TlsReload.thy ===== *)
theory TlsReload
  imports Prelude
begin

text \<open>
  The certificate reloader of \<^verbatim>\<open>internal/app/smtp.go\<close> (\<^verbatim>\<open>tlsCertificateReloader\<close>): the
  certificate files are checked on every handshake; a new pair is taken only if it covers the server
  name, is valid at the time and did not change while it was read, otherwise the last good one stays
  in use.

  What the file system and the X.509 library answer during a call is its argument \<open>obs\<close>: the states
  of the two files (\<^verbatim>\<open>os.Stat\<close>) at the three moments the code looks at them, the parsed pair
  (\<^verbatim>\<open>tls.LoadX509KeyPair\<close>, \<^verbatim>\<open>x509.ParseCertificate\<close>) and the clock.
\<close>

record fileState =
  modTime :: time
  fileSize :: int

record tlsCertificateState =
  st_cert :: fileState
  st_key :: fileState

text \<open>A parsed certificate; \<open>covers\<close> is what \<^verbatim>\<open>VerifyHostname\<close> answers.\<close>

record certificate =
  serial :: nat
  NotBefore :: time
  NotAfter :: time
  covers :: "string list"

record obs =
  seen_first :: "tlsCertificateState option"
  seen_before :: "tlsCertificateState option"
  seen_pair :: "certificate option"
  seen_now :: time
  seen_after :: "tlsCertificateState option"

datatype loadError = StatFailed | BadPair | WrongName | NotYetValid | HasExpired | ChangedWhileLoading

definition loadTLSCertificate :: "string \<Rightarrow> obs \<Rightarrow> loadError + (certificate \<times> tlsCertificateState)" where
  "loadTLSCertificate serverName ob =
     (case seen_before ob of
        None \<Rightarrow> Inl StatFailed
      | Some before \<Rightarrow>
          (case seen_pair ob of
             None \<Rightarrow> Inl BadPair
           | Some leaf \<Rightarrow>
               if serverName \<notin> set (covers leaf) then Inl WrongName
               else if seen_now ob < NotBefore leaf then Inl NotYetValid
               else if \<not> seen_now ob < NotAfter leaf then Inl HasExpired
               else case seen_after ob of
                   None \<Rightarrow> Inl StatFailed
                 | Some after \<Rightarrow>
                     if before \<noteq> after then Inl ChangedWhileLoading else Inr (leaf, after)))"

record reloader =
  serverName :: string
  cert :: certificate
  cert_state :: tlsCertificateState
  failedReloadState :: "tlsCertificateState option"
  hasFailedReload :: bool

definition newTLSCertificateReloader :: "string \<Rightarrow> obs \<Rightarrow> loadError + reloader" where
  "newTLSCertificateReloader name ob =
     (case loadTLSCertificate name ob of
        Inl e \<Rightarrow> Inl e
      | Inr (c, st) \<Rightarrow> Inr \<lparr>serverName = name, cert = c, cert_state = st, failedReloadState = None,
          hasFailedReload = False\<rparr>)"

definition GetCertificate :: "obs \<Rightarrow> reloader \<Rightarrow> certificate \<times> reloader" where
  "GetCertificate ob r =
     (case seen_first ob of
        None \<Rightarrow> (cert r, r)
      | Some st \<Rightarrow>
          if st = cert_state r \<or> (hasFailedReload r \<and> failedReloadState r = Some st) then (cert r, r)
          else case loadTLSCertificate (serverName r) ob of
              Inl e \<Rightarrow> (cert r, r\<lparr>failedReloadState := Some st, hasFailedReload := (e \<noteq> NotYetValid)\<rparr>)
            | Inr (c, loaded) \<Rightarrow> (c, r\<lparr>cert := c, cert_state := loaded, hasFailedReload := False\<rparr>))"

text \<open>A sequence of handshakes.\<close>

fun handshakes :: "obs list \<Rightarrow> reloader \<Rightarrow> certificate list \<times> reloader" where
  "handshakes [] r = ([], r)"
| "handshakes (ob # obs) r =
     (case GetCertificate ob r of
        (c, r1) \<Rightarrow> (case handshakes obs r1 of (cs, r2) \<Rightarrow> (c # cs, r2)))"

text \<open>A certificate that was good at some moment of the run.\<close>

definition was_valid :: "string \<Rightarrow> certificate \<Rightarrow> bool" where
  "was_valid name c \<longleftrightarrow> name \<in> set (covers c) \<and> NotBefore c < NotAfter c"

definition valid_at :: "string \<Rightarrow> time \<Rightarrow> certificate \<Rightarrow> bool" where
  "valid_at name t c \<longleftrightarrow> name \<in> set (covers c) \<and> NotBefore c \<le> t \<and> t < NotAfter c"

lemma loadTLSCertificate_ok:
  "loadTLSCertificate name ob = Inr (c, st) \<longleftrightarrow>
   seen_pair ob = Some c \<and> valid_at name (seen_now ob) c \<and> seen_before ob = Some st \<and> seen_after ob = Some st"
  by (auto simp: loadTLSCertificate_def valid_at_def split: option.splits if_splits)

definition reloader_ok :: "reloader \<Rightarrow> time list \<Rightarrow> bool" where
  "reloader_ok r ts \<longleftrightarrow> (\<exists>t \<in> set ts. valid_at (serverName r) t (cert r))"

lemma GetCertificate_ok:
  assumes "reloader_ok r ts" "GetCertificate ob r = (c, r')"
  shows "reloader_ok r' (seen_now ob # ts) \<and> serverName r' = serverName r \<and> c = cert r'"
  using assms
  by (auto simp: GetCertificate_def reloader_ok_def loadTLSCertificate_ok split: option.splits if_splits sum.splits)

lemma handshakes_length: "handshakes obs r = (cs, r') \<Longrightarrow> length cs = length obs"
  by (induction obs arbitrary: r cs) (auto split: prod.splits)

lemma handshakes_ok:
  "reloader_ok r ts \<Longrightarrow> handshakes obs r = (cs, r') \<Longrightarrow>
   serverName r' = serverName r \<and>
   (\<forall>c \<in> set cs. \<exists>t \<in> set ts \<union> seen_now ` set obs. valid_at (serverName r) t c)"
proof (induction obs arbitrary: r ts cs)
  case Nil
  then show ?case by simp
next
  case (Cons ob obs)
  obtain c r1 where g: "GetCertificate ob r = (c, r1)" by fastforce
  obtain cs2 where h: "handshakes obs r1 = (cs2, r')" and cs: "cs = c # cs2"
    using Cons.prems(2) g by (auto split: prod.splits)
  note ok = GetCertificate_ok [OF Cons.prems(1) g]
  from Cons.IH [OF conjunct1 [OF ok] h] ok show ?case by (auto simp: cs reloader_ok_def)
qed

section \<open>Properties\<close>

text \<open>
  Every certificate handed to a client covers the server name and was within its validity at
  the moment it was loaded, whatever happens to the files: a bad or half-written replacement never
  displaces the last good pair, and a handshake always gets a certificate.
\<close>

lemma handshakes_serve_loaded_certificates:
  assumes "newTLSCertificateReloader name ob = Inr r" and "handshakes obs r = (cs, r')"
  shows "length cs = length obs \<and>
    (\<forall>c \<in> set cs. \<exists>t \<in> seen_now ` set (ob # obs). valid_at name t c)"
proof -
  have r: "reloader_ok r [seen_now ob]" "serverName r = name"
    using assms(1) by (auto simp: newTLSCertificateReloader_def reloader_ok_def loadTLSCertificate_ok split: sum.splits)
  have "length cs = length obs" by (rule handshakes_length [OF assms(2)])
  with handshakes_ok [OF r(1) assms(2)] r(2) show ?thesis by auto
qed

text \<open>
  A pair that could not be used is read once: while the files stay as they were when the reload
  failed, later handshakes do not try again, unless the pair was only not valid yet.
\<close>

lemma GetCertificate_no_retry:
  assumes "GetCertificate ob r = (c, r')" and "seen_first ob = Some st" and "st \<noteq> cert_state r"
    and "loadTLSCertificate (serverName r) ob = Inl e" and "\<not> (hasFailedReload r \<and> failedReloadState r = Some st)"
    and "seen_first ob' = Some st"
  shows "c = cert r \<and> (if e = NotYetValid then hasFailedReload r' = False else GetCertificate ob' r' = (cert r, r'))"
  using assms by (auto simp: GetCertificate_def)

definition example_obs :: "nat \<Rightarrow> time \<Rightarrow> obs" where
  "example_obs n t =
     (let st = \<lparr>st_cert = \<lparr>modTime = int n, fileSize = 10\<rparr>, st_key = \<lparr>modTime = int n, fileSize = 10\<rparr>\<rparr>
      in \<lparr>seen_first = Some st, seen_before = Some st,
          seen_pair = Some \<lparr>serial = n, NotBefore = 5, NotAfter = 9, covers = [''t.io'']\<rparr>,
          seen_now = t, seen_after = Some st\<rparr>)"

definition example_reloader :: reloader where
  "example_reloader = \<lparr>serverName = ''t.io'', cert = the (seen_pair (example_obs 1 6)),
     cert_state = the (seen_first (example_obs 1 6)), failedReloadState = None, hasFailedReload = False\<rparr>"

end
