(* ===== verification/TlsHost.thy ===== *)
theory TlsHost
  imports GoText
begin

text \<open>
  Host names for certificates (\<^verbatim>\<open>normalizeTLSHost\<close> of \<^verbatim>\<open>internal/app/autotls.go\<close>). The
  internationalisation library (\<^verbatim>\<open>idna.Lookup.ToASCII\<close>) and the address parser
  (\<^verbatim>\<open>net.ParseIP\<close>, here together with \<^verbatim>\<open>String\<close>) are parameters.
\<close>

record hostlib =
  host_un :: unicode
  ToASCII :: "string \<Rightarrow> string option"
  ParseIP :: "string \<Rightarrow> string option"

definition host_char :: "char \<Rightarrow> bool" where
  "host_char c \<longleftrightarrow> (97 \<le> byte c \<and> byte c \<le> 122) \<or> (48 \<le> byte c \<and> byte c \<le> 57) \<or> c = CHR ''-''"

definition host_label :: "string \<Rightarrow> bool" where
  "host_label l \<longleftrightarrow> \<not> (length l = 0 \<or> 63 < length l \<or> hd l = CHR ''-'' \<or> last l = CHR ''-'') \<and> list_all host_char l"

text \<open>The only error of the function, with the host it names.\<close>

datatype host_error = InvalidHostname string

definition normalizeTLSHost :: "hostlib \<Rightarrow> string \<Rightarrow> host_error + string" where
  "normalizeTLSHost lib host0 =
     (let host = TrimSuffix (ToLower (host_un lib) (TrimSpace host0)) ''.'' in
      case ToASCII lib host of
        None \<Rightarrow> Inl (InvalidHostname host)
      | Some ascii \<Rightarrow>
          if ParseIP lib ascii \<noteq> None \<or> CHR ''.'' \<notin> set ascii \<or> 253 < length ascii then Inl (InvalidHostname host)
          else if list_all host_label (Split ascii CHR ''.'') then Inr ascii
          else Inl (InvalidHostname host))"

section \<open>Valid host names\<close>

definition valid_host :: "hostlib \<Rightarrow> string \<Rightarrow> bool" where
  "valid_host lib h \<longleftrightarrow> ParseIP lib h = None \<and> CHR ''.'' \<in> set h \<and> length h \<le> 253 \<and> list_all host_label (Split h CHR ''.'')"

lemma normalizeTLSHost_ok: "normalizeTLSHost lib h = Inr a \<Longrightarrow> valid_host lib a"
  by (auto simp: normalizeTLSHost_def valid_host_def Let_def split: option.splits if_splits)

lemma normalizeTLSHost_from:
  "normalizeTLSHost lib h = Inr a \<Longrightarrow> \<exists>h'. ToASCII lib h' = Some a"
  by (auto simp: normalizeTLSHost_def Let_def split: option.splits if_splits)

lemma set_Split: "set s \<subseteq> insert c (\<Union>(set ` set (Split s c)))"
proof (induction s)
  case (Cons x xs)
  then show ?case by (cases "Split xs c") auto
qed simp

lemma valid_host_chars: "valid_host lib h \<Longrightarrow> c \<in> set h \<Longrightarrow> c = CHR ''.'' \<or> host_char c"
  using set_Split [of h "CHR ''.''"] by (fastforce simp: valid_host_def list_all_iff host_label_def)

lemma host_char_byte: "c = CHR ''.'' \<or> host_char c \<Longrightarrow> byte c \<in> {45, 46} \<union> {48..57} \<union> {97..122}"
  by (auto simp: host_char_def byte_def)

lemma valid_host_bytes: "valid_host lib h \<Longrightarrow> c \<in> set h \<Longrightarrow> byte c \<in> {45, 46} \<union> {48..57} \<union> {97..122}"
  using valid_host_chars host_char_byte by blast

lemma valid_host_not_any:
  assumes "valid_host lib h" "list_all (\<lambda>c. byte c \<notin> {45, 46} \<union> {48..57} \<union> {97..122}) cs"
  shows "\<not> ContainsAny h cs"
  using assms(2) valid_host_bytes [OF assms(1)] unfolding ContainsAny_def list_ex_iff list_all_iff by blast

lemma valid_host_lower: "valid_host lib h \<Longrightarrow> ToLower u h = h"
proof -
  assume v: "valid_host lib h"
  have "list_all is_ascii h" "map ascii_lower h = h"
    using valid_host_bytes [OF v] by (fastforce simp: list_all_iff is_ascii_def, intro map_idI) (fastforce simp: ascii_lower_def)
  then show ?thesis by (simp add: ToLower_ascii)
qed

lemma Split_empty [simp]: "Split s c = [[]] \<longleftrightarrow> s = []"
  by (metis Join.simps(2) Join_Split Split.simps(1))

lemma Split_last: "s \<noteq> [] \<Longrightarrow> last s = c \<Longrightarrow> last (Split s c) = []"
proof (induction s)
  case (Cons x xs)
  then show ?case by (cases "xs = []") (auto split: list.splits if_splits)
qed simp

lemma valid_host_last: "valid_host lib h \<Longrightarrow> h \<noteq> [] \<and> last h \<noteq> CHR ''.''"
proof -
  assume v: "valid_host lib h"
  then have n: "h \<noteq> []" by (auto simp: valid_host_def)
  have "host_label (last (Split h CHR ''.''))"
    using v by (simp add: valid_host_def list_all_iff last_in_set)
  then have "last (Split h CHR ''.'') \<noteq> []" by (auto simp: host_label_def)
  with n Split_last show ?thesis by blast
qed

lemma wide_spaces_high: "w \<in> set wide_spaces \<Longrightarrow> w \<noteq> [] \<and> 128 \<le> byte (hd w) \<and> 128 \<le> byte (last w)"
  by (auto simp: wide_spaces_def bytes_def byte_def)

text \<open>ASCII strings that neither start nor end with a space are trimmed already.\<close>

lemma TrimSpace_ascii:
  assumes "s \<noteq> []" "\<And>c. c \<in> set s \<Longrightarrow> 33 \<le> byte c \<and> byte c < 128"
  shows "TrimSpace s = s"
proof -
  have e: "\<not> ascii_space (hd s)" "\<not> ascii_space (last s)" "byte (hd s) < 128" "byte (last s) < 128"
    using assms(2) [of "hd s"] assms(2) [of "last s"] assms(1) by (auto simp: ascii_space_def)
  have "\<not> HasPrefix s w" "\<not> HasSuffix s w" if "w \<in> set wide_spaces" for w
    using wide_spaces_high [OF that] e(3,4) assms(1) by (auto simp: HasPrefix_iff HasSuffix_iff)
  then have f: "find (HasPrefix s) wide_spaces = None" "find (HasSuffix s) wide_spaces = None"
    by (auto simp: find_None_iff)
  obtain c cs where s: "s = c # cs" using assms(1) by (cases s) auto
  show ?thesis
    using e(1,2) f by (intro TrimSpace_same) (simp_all add: lead_space_def trail_space_def s)
qed

lemma valid_host_trim: "valid_host lib h \<Longrightarrow> TrimSpace h = h"
  using valid_host_bytes valid_host_last by (intro TrimSpace_ascii) fastforce+

text \<open>
  Normalising twice is normalising once, given that the library maps its own output to itself.
\<close>

definition ascii_stable :: "hostlib \<Rightarrow> bool" where
  "ascii_stable lib \<longleftrightarrow> (\<forall>h a. ToASCII lib h = Some a \<longrightarrow> ToASCII lib a = Some a)"

lemma normalizeTLSHost_valid:
  assumes "valid_host lib a" "ToASCII lib a = Some a"
  shows "normalizeTLSHost lib a = Inr a"
proof -
  have "\<not> HasSuffix a ''.''"
    using valid_host_last [OF assms(1)] by (auto simp: HasSuffix_iff)
  then have "TrimSuffix (ToLower (host_un lib) (TrimSpace a)) ''.'' = a"
    by (simp add: valid_host_trim [OF assms(1)] valid_host_lower [OF assms(1)] TrimSuffix_def)
  with assms show ?thesis by (auto simp: normalizeTLSHost_def valid_host_def Let_def)
qed

lemma normalizeTLSHost_idem:
  assumes "ascii_stable lib" "normalizeTLSHost lib h = Inr a"
  shows "normalizeTLSHost lib a = Inr a"
  using normalizeTLSHost_valid [OF normalizeTLSHost_ok [OF assms(2)]] normalizeTLSHost_from [OF assms(2)] assms(1)
  by (auto simp: ascii_stable_def)

end
