(* ===== verification/TlsFront.thy ===== *)
theory TlsFront
  imports TlsReload TlsHost HttpCore
begin

text \<open>
  What the two HTTPS front ends share (\<^verbatim>\<open>webTLSHTTPFallback\<close> of \<^verbatim>\<open>internal/app/autotls.go\<close>):
  the plain HTTP side that shows a waiting page until a certificate can be served and redirects to
  HTTPS from then on. The interface of a certificate source is the locale \<open>cert_source\<close>; the automatic
  and the manual certificates are its two instances.
\<close>

definition http_NotFound_any :: "'c response \<Rightarrow> 'c response" where
  "http_NotFound_any w = http_Error ''404 page not found'' 404 w"

text \<open>
  \<^verbatim>\<open>http.Redirect\<close> to an absolute URL for a \<^verbatim>\<open>GET\<close> or \<^verbatim>\<open>HEAD\<close> request.
\<close>

definition http_Redirect :: "string \<Rightarrow> int \<Rightarrow> 'c response \<Rightarrow> 'c response" where
  "http_Redirect location code w =
     (set_header ''Content-Type'' ''text/html; charset=utf-8'' (set_header ''Location'' location w))\<lparr>rstatus := code\<rparr>"

lemma get_header_status [simp]: "get_header k (w\<lparr>rstatus := c\<rparr>) = get_header k w"
  by (simp add: get_header_def)

lemma http_Redirect_simps [simp]:
  "rstatus (http_Redirect l c w) = c" "get_header ''Location'' (http_Redirect l c w) = l"
  by (simp_all add: http_Redirect_def)

definition pendingCSP :: string where
  "pendingCSP = ''default-src '' @ quoted ''none'' @ ''; style-src '' @ quoted ''unsafe-inline'' @ ''; script-src '' @ quoted ''unsafe-inline''
     @ ''; base-uri '' @ quoted ''none'' @ ''; frame-ancestors '' @ quoted ''none''"

text \<open>
  \<open>https_url\<close> is the URL of the same request at the host over HTTPS, \<open>page\<close> the waiting page.
\<close>

definition webTLSHTTPFallback ::
    "(string \<Rightarrow> request \<Rightarrow> string) \<Rightarrow> (string \<Rightarrow> 'c) \<Rightarrow> string \<Rightarrow> bool \<Rightarrow> ('s \<Rightarrow> bool \<times> 's) \<Rightarrow> ('s \<Rightarrow> bool \<times> 's) \<Rightarrow>
     ('c, 's) handler option \<Rightarrow> ('c, 's) handler" where
  "webTLSHTTPFallback https_url page domain isEnabled ready isHealthy application r s =
     (if Path r = ''/healthz'' then
        (case isHealthy s of
           (False, s1) \<Rightarrow> (http_Error ''TLS provisioning pending or certificate expired'' 503 no_response, s1)
         | (True, s1) \<Rightarrow> (no_response\<lparr>rstatus := 204\<rparr>, s1))
      else if \<not> isEnabled then
        (case application of None \<Rightarrow> (http_NotFound_any no_response, s) | Some app \<Rightarrow> app r s)
      else if Method r \<noteq> ''GET'' \<and> Method r \<noteq> ''HEAD'' then (http_Error ''use HTTPS'' 400 no_response, s)
      else
        (let w = set_header ''Cache-Control'' ''no-store'' no_response in
         case ready s of
           (False, s1) \<Rightarrow>
             ((set_header ''Content-Security-Policy'' pendingCSP (set_header ''X-Content-Type-Options'' ''nosniff''
                (set_header ''Retry-After'' ''5'' (set_header ''Content-Type'' ''text/html; charset=utf-8'' w))))
                \<lparr>rstatus := 503, rcontent := (if Method r \<noteq> ''HEAD'' then Some (page domain) else None)\<rparr>, s1)
         | (True, s1) \<Rightarrow> (http_Redirect (https_url domain r) 308 w, s1)))"

section \<open>Certificate sources\<close>

text \<open>A source answers a handshake with a certificate or an error; \<open>good s c\<close> is what it promises of its answers.\<close>

definition is_ready :: "('s \<Rightarrow> ('e + certificate) \<times> 's) \<Rightarrow> 's \<Rightarrow> bool \<times> 's" where
  "is_ready serve s = (case serve s of (Inl _, s1) \<Rightarrow> (False, s1) | (Inr _, s1) \<Rightarrow> (True, s1))"

text \<open>The HTTPS side of both front ends: host, then certificate, then the application.\<close>

definition https_guard ::
    "hostlib \<Rightarrow> string \<Rightarrow> string \<Rightarrow> ('s \<Rightarrow> bool \<times> 's) \<Rightarrow> ('c, 's) handler \<Rightarrow> ('c, 's) handler" where
  "https_guard lib domain unavailable ready application r s =
     (let host = (case SplitHostPort (Host r) of Some (name, _) \<Rightarrow> name | None \<Rightarrow> Host r) in
      if normalizeTLSHost lib host \<noteq> Inr domain then (http_Error ''unconfigured hostname'' 400 no_response, s)
      else case ready s of
          (False, s1) \<Rightarrow> (http_Error unavailable 503 no_response, s1)
        | (True, s1) \<Rightarrow> application r s1)"

locale cert_source =
  fixes inv :: "'s \<Rightarrow> bool"
    and serve :: "'s \<Rightarrow> ('e + certificate) \<times> 's"
    and good :: "'s \<Rightarrow> certificate \<Rightarrow> bool"
  assumes serve_good: "inv s \<Longrightarrow> serve s = (Inr c, s') \<Longrightarrow> good s c"
    and serve_inv: "inv s \<Longrightarrow> serve s = (x, s') \<Longrightarrow> inv s'"
begin

lemma ready_good:
  assumes "inv s" "is_ready serve s = (b, s')"
  shows "inv s' \<and> (b \<longrightarrow> (\<exists>c. serve s = (Inr c, s') \<and> good s c))"
  using assms serve_good [OF assms(1)] serve_inv [OF assms(1)]
  by (auto simp: is_ready_def split: prod.splits sum.splits)

lemma redirect_means_ready:
  assumes "inv s" "webTLSHTTPFallback https_url page domain True (is_ready serve) isHealthy app r s = (w, s')" "rstatus w = 308"
  shows "(\<exists>c. serve s = (Inr c, s') \<and> good s c) \<and> get_header ''Location'' w = https_url domain r \<and> inv s'"
proof -
  obtain b s1 where b: "is_ready serve s = (b, s1)" by fastforce
  have "Path r \<noteq> ''/healthz''"
  proof
    assume "Path r = ''/healthz''"
    with assms(2,3) show False
      by (auto simp: webTLSHTTPFallback_def split: prod.splits bool.splits)
  qed
  moreover have "b" using assms(2,3) calculation b
    by (auto simp: webTLSHTTPFallback_def Let_def split: if_splits bool.splits)
  ultimately have "s' = s1 \<and> get_header ''Location'' w = https_url domain r"
    using assms(2,3) b by (auto simp: webTLSHTTPFallback_def Let_def split: if_splits)
  with ready_good [OF assms(1) b] \<open>b\<close> show ?thesis by blast
qed

lemma application_means_ready:
  assumes "inv s" "https_guard lib domain msg (is_ready serve) app r s = (w, s')" "rstatus w \<noteq> 400" "rstatus w \<noteq> 503"
  shows "\<exists>c s1. serve s = (Inr c, s1) \<and> good s c \<and> app r s1 = (w, s') \<and>
    normalizeTLSHost lib (case SplitHostPort (Host r) of Some (name, _) \<Rightarrow> name | None \<Rightarrow> Host r) = Inr domain"
proof -
  obtain b s1 where b: "is_ready serve s = (b, s1)" by fastforce
  have "b \<and> app r s1 = (w, s') \<and>
    normalizeTLSHost lib (case SplitHostPort (Host r) of Some (name, _) \<Rightarrow> name | None \<Rightarrow> Host r) = Inr domain"
    using assms(2-4) b unfolding https_guard_def Let_def
    by (cases b) (auto split: if_splits)
  with ready_good [OF assms(1) b] show ?thesis by blast
qed

end

end
