(* ===== verification/AutoTls.thy ===== *)
theory AutoTls
  imports TlsFront
begin

text \<open>
  Automatic TLS (\<^verbatim>\<open>internal/app/autotls.go\<close>): the table of active certificates, the workers that
  refresh them, and the handshakes and HTTP handlers that use them. The certificate manager
  (\<^verbatim>\<open>autocert\<close>) is outside: what it answers is an argument. Readings of the clock are taken from a
  stream, one for every \<^verbatim>\<open>time.Now\<close> the code evaluates.
\<close>

record autoTLS =
  webDomain :: string
  mailDomain :: string
  webEnabled :: bool
  smtpEnabled :: bool
  domains :: "string list"
  certs :: "string \<Rightarrow> certificate option"
  ready_closed :: bool \<comment> \<open>the channel \<^verbatim>\<open>ready\<close> is closed\<close>

datatype tls_error =
    TermsRequired | CacheError nat | NoService
  | CertPending | CertOutside | CertEmpty | CertUnparsable | CertWrongName
  | HostError host_error | HostUnconfigured | HostNotHTTPS | ManagerError nat

text \<open>
  \<^verbatim>\<open>NewAutoTLS\<close>; \<open>mkdir\<close> and \<open>probe\<close> are the outcomes of \<^verbatim>\<open>os.MkdirAll\<close> and \<^verbatim>\<open>os.CreateTemp\<close>.
\<close>

definition NewAutoTLS :: "nat option \<Rightarrow> nat option \<Rightarrow> config \<Rightarrow> tls_error + autoTLS" where
  "NewAutoTLS mkdir probe cfg =
     (if \<not> ACMEAcceptTOS cfg then Inl TermsRequired
      else case mkdir of
          Some k \<Rightarrow> Inl (CacheError k)
        | None \<Rightarrow>
            (case probe of
               Some k \<Rightarrow> Inl (CacheError k)
             | None \<Rightarrow>
                 (let ds = (if AutoTLSWebEnabled cfg then [WebDomain cfg] else []) @
                        (if AutoTLSSMTPEnabled cfg \<and> (\<not> AutoTLSWebEnabled cfg \<or> MailDomain cfg \<noteq> WebDomain cfg)
                         then [MailDomain cfg] else [])
                  in if ds = [] then Inl NoService
                     else Inr \<lparr>webDomain = WebDomain cfg, mailDomain = MailDomain cfg, webEnabled = AutoTLSWebEnabled cfg,
                       smtpEnabled = AutoTLSSMTPEnabled cfg, domains = ds, certs = Map.empty, ready_closed = False\<rparr>)))"

section \<open>Certificates\<close>

text \<open>The test \<^verbatim>\<open>time.Now().Before(NotBefore) || !time.Now().Before(NotAfter)\<close>.\<close>

definition outside_validity :: "certificate \<Rightarrow> time stream \<Rightarrow> bool \<times> time stream" where
  "outside_validity c ts =
     (if shd ts < NotBefore c then (True, stl ts) else (\<not> shd (stl ts) < NotAfter c, stl (stl ts)))"

fun all_ready :: "autoTLS \<Rightarrow> string list \<Rightarrow> time stream \<Rightarrow> bool \<times> time stream" where
  "all_ready a [] ts = (True, ts)"
| "all_ready a (host # hosts) ts =
     (case certs a host of
        None \<Rightarrow> (False, ts)
      | Some c \<Rightarrow>
          (case outside_validity c ts of
             (True, ts1) \<Rightarrow> (False, ts1)
           | (False, ts1) \<Rightarrow> all_ready a hosts ts1))"

definition Ready :: "autoTLS \<Rightarrow> time stream \<Rightarrow> bool \<times> time stream" where
  "Ready a ts = all_ready a (domains a) ts"

definition auto_certificate :: "string \<Rightarrow> autoTLS \<Rightarrow> time stream \<Rightarrow> (tls_error + certificate) \<times> time stream" where
  "auto_certificate host a ts =
     (case certs a host of
        None \<Rightarrow> (Inl CertPending, ts)
      | Some c \<Rightarrow>
          (case outside_validity c ts of
             (True, ts1) \<Rightarrow> (Inl CertOutside, ts1)
           | (False, ts1) \<Rightarrow> (Inr c, ts1)))"

definition WebReady :: "autoTLS \<Rightarrow> time stream \<Rightarrow> bool \<times> time stream" where
  "WebReady a ts = is_ready (auto_certificate (webDomain a) a) ts"

text \<open>
  A certificate as the manager returns it: none or an empty chain (\<^const>\<open>None\<close>), a leaf that does not
  parse (\<open>Some None\<close>), or a parsed leaf.
\<close>

type_synonym issued = "certificate option option"

definition activate :: "string \<Rightarrow> issued \<Rightarrow> autoTLS \<Rightarrow> time stream \<Rightarrow> (tls_error + unit) \<times> autoTLS \<times> time stream" where
  "activate host i a ts =
     (case i of
        None \<Rightarrow> (Inl CertEmpty, a, ts)
      | Some None \<Rightarrow> (Inl CertUnparsable, a, ts)
      | Some (Some leaf) \<Rightarrow>
          if host \<notin> set (covers leaf) then (Inl CertWrongName, a, ts)
          else case outside_validity leaf ts of
              (True, ts1) \<Rightarrow> (Inl CertOutside, a, ts1)
            | (False, ts1) \<Rightarrow> (Inr (), a\<lparr>certs := (certs a)(host \<mapsto> leaf)\<rparr>, ts1))"

definition refreshCertificate ::
    "string \<Rightarrow> nat + issued \<Rightarrow> autoTLS \<Rightarrow> time stream \<Rightarrow> (tls_error + unit) \<times> autoTLS \<times> time stream" where
  "refreshCertificate host answer a ts =
     (case auto_certificate host a ts of
        (_, ts1) \<Rightarrow>
          (let ts2 = stl ts1 in
           case answer of
             Inl k \<Rightarrow> (Inl (ManagerError k), a, ts2)
           | Inr i \<Rightarrow> activate host i a ts2))"

section \<open>The workers\<close>

definition minute :: int where "minute = 60 * 1000000000"
definition an_hour :: int where "an_hour = 60 * minute"

definition next_delay :: "bool \<Rightarrow> int \<Rightarrow> int" where
  "next_delay usable delay = (if usable then minute else if delay * 2 > an_hour then an_hour else delay * 2)"

text \<open>
  One round of the worker of \<open>host\<close>: \<^const>\<open>None\<close> when the context is done (\<open>cancelled\<close> says so before
  and after the refresh), otherwise the delay until the next round.
\<close>

definition worker_round ::
    "string \<Rightarrow> bool \<times> bool \<Rightarrow> nat + issued \<Rightarrow> int \<Rightarrow> autoTLS \<Rightarrow> time stream \<Rightarrow> int option \<times> autoTLS \<times> time stream" where
  "worker_round host cancelled answer delay a ts =
     (if fst cancelled then (None, a, ts)
      else case refreshCertificate host answer a ts of
          (_, a1, ts1) \<Rightarrow>
            if snd cancelled then (None, a1, ts1)
            else case Ready a1 ts1 of
                (b, ts2) \<Rightarrow>
                  (let a2 = (if b then a1\<lparr>ready_closed := True\<rparr> else a1) in
                   case auto_certificate host a2 ts2 of
                     (Inr _, ts3) \<Rightarrow> (Some (next_delay True delay), a2, ts3)
                   | (Inl _, ts3) \<Rightarrow> (Some (next_delay False delay), a2, ts3)))"

text \<open>
  All workers: a state of the table and the delay of every host. A worker takes a round for one of the
  configured hosts with any answer of the manager and any readings of the clock.
\<close>

inductive auto_reachable :: "autoTLS \<Rightarrow> autoTLS \<times> (string \<Rightarrow> int) \<Rightarrow> bool" for a0 where
  start: "auto_reachable a0 (a0, \<lambda>_. minute)"
| round: "auto_reachable a0 (a, d) \<Longrightarrow> host \<in> set (domains a) \<Longrightarrow>
    worker_round host cancelled answer (d host) a ts = (x, a', ts') \<Longrightarrow>
    auto_reachable a0 (a', case x of None \<Rightarrow> d | Some n \<Rightarrow> d(host := n))"

section \<open>Handshakes and handlers\<close>

definition auto_GetCertificate :: "autoTLS \<Rightarrow> time stream \<Rightarrow> (tls_error + certificate) \<times> time stream" where
  "auto_GetCertificate a ts = auto_certificate (mailDomain a) a ts"

record clientHello =
  ServerName :: string
  SupportedProtos :: "string list"

text \<open>\<open>challenge\<close> is the manager's answer to a TLS-ALPN-01 challenge; its certificate is the challenge one.\<close>

definition HTTPSConfig_GetCertificate ::
    "hostlib \<Rightarrow> (clientHello \<Rightarrow> tls_error + certificate) \<Rightarrow> clientHello \<Rightarrow> autoTLS \<Rightarrow> time stream \<Rightarrow>
     (tls_error + certificate) \<times> time stream" where
  "HTTPSConfig_GetCertificate lib challenge hello a ts =
     (case normalizeTLSHost lib (ServerName hello) of
        Inl e \<Rightarrow> (Inl (HostError e), ts)
      | Inr host \<Rightarrow>
          if host \<notin> set (domains a) then (Inl HostUnconfigured, ts)
          else if length (SupportedProtos hello) = 1 \<and> SupportedProtos hello ! 0 = ''acme-tls/1'' then (challenge hello, ts)
          else if host \<noteq> webDomain a then (Inl HostNotHTTPS, ts)
          else auto_certificate host a ts)"

text \<open>
  The handlers run on the table, the clock and the state of the application.
\<close>

type_synonym 'x auto_state = "autoTLS \<times> time stream \<times> 'x"

definition web_serve :: "'x auto_state \<Rightarrow> (tls_error + certificate) \<times> 'x auto_state" where
  "web_serve s = (case s of (a, ts, x) \<Rightarrow> (case auto_certificate (webDomain a) a ts of (res, ts1) \<Rightarrow> (res, a, ts1, x)))"

definition all_serve :: "'x auto_state \<Rightarrow> bool \<times> 'x auto_state" where
  "all_serve s = (case s of (a, ts, x) \<Rightarrow> (case Ready a ts of (b, ts1) \<Rightarrow> (b, a, ts1, x)))"

definition auto_HTTPSHandler :: "hostlib \<Rightarrow> ('c, 'x auto_state) handler \<Rightarrow> ('c, 'x auto_state) handler" where
  "auto_HTTPSHandler lib application r s =
     https_guard lib (webDomain (fst s)) ''TLS provisioning pending or certificate expired'' (is_ready web_serve) application r s"

text \<open>\<open>manager\<close> wraps the fallback with the manager's answers to HTTP-01 challenges.\<close>

definition auto_HTTPHandler ::
    "hostlib \<Rightarrow> (string \<Rightarrow> request \<Rightarrow> string) \<Rightarrow> (string \<Rightarrow> 'c) \<Rightarrow> (('c, 'x auto_state) handler \<Rightarrow> ('c, 'x auto_state) handler) \<Rightarrow>
     ('c, 'x auto_state) handler option \<Rightarrow> ('c, 'x auto_state) handler" where
  "auto_HTTPHandler lib https_url page manager application r s =
     (let a = fst s;
          fallback = webTLSHTTPFallback https_url page (webDomain a) (webEnabled a) (is_ready web_serve) all_serve application;
          host = (case SplitHostPort (Host r) of Some (name, _) \<Rightarrow> name | None \<Rightarrow> Host r)
      in if Path r = ''/healthz'' then fallback r s
         else if \<not> webEnabled a \<and> \<not> HasPrefix (Path r) ''/.well-known/acme-challenge/'' then fallback r s
         else if \<not> (case normalizeTLSHost lib host of Inl _ \<Rightarrow> False | Inr h \<Rightarrow> h \<in> set (domains a)) then
           (http_Error ''unconfigured hostname'' 400 no_response, s)
         else manager fallback r s)"

end
