(* ===== verification/AutoTlsProps.thy ===== *)
theory AutoTlsProps
  imports AutoTls
begin

text \<open>
  What automatic TLS guarantees in every state its workers can reach: the table holds certificates
  for configured hosts only, handshakes get certificates that cover their host and are valid now,
  and plain HTTP redirects only while HTTPS can be served.
\<close>

section \<open>The invariant of the table\<close>

definition auto_inv :: "autoTLS \<Rightarrow> bool" where
  "auto_inv a \<longleftrightarrow>
     (\<forall>h c. certs a h = Some c \<longrightarrow> h \<in> set (domains a) \<and> h \<in> set (covers c)) \<and>
     (ready_closed a \<longrightarrow> (\<forall>h \<in> set (domains a). certs a h \<noteq> None))"

text \<open>Within its validity at the two readings of the clock a check makes.\<close>

definition valid_now :: "time stream \<Rightarrow> certificate \<Rightarrow> bool" where
  "valid_now ts c \<longleftrightarrow> NotBefore c \<le> shd ts \<and> shd (stl ts) < NotAfter c"

lemma outside_validity_iff: "outside_validity c ts = (False, ts') \<longleftrightarrow> valid_now ts c \<and> ts' = stl (stl ts)"
  by (auto simp: outside_validity_def valid_now_def split: if_splits)

lemma auto_certificate_Inr:
  "auto_certificate h a ts = (Inr c, ts') \<longleftrightarrow> certs a h = Some c \<and> valid_now ts c \<and> ts' = stl (stl ts)"
  by (auto simp: auto_certificate_def outside_validity_def valid_now_def split: option.splits prod.splits bool.splits if_splits)

lemma all_ready_certs: "all_ready a hs ts = (True, ts') \<Longrightarrow> h \<in> set hs \<Longrightarrow> certs a h \<noteq> None"
  by (induction a hs ts rule: all_ready.induct) (auto split: option.splits prod.splits bool.splits)

definition same_domains :: "autoTLS \<Rightarrow> autoTLS \<Rightarrow> bool" where
  "same_domains a b \<longleftrightarrow> webDomain a = webDomain b \<and> mailDomain a = mailDomain b \<and> domains a = domains b \<and>
     webEnabled a = webEnabled b \<and> smtpEnabled a = smtpEnabled b"

lemma refreshCertificate_inv:
  assumes "refreshCertificate host answer a ts = (res, a', ts')" "auto_inv a" "host \<in> set (domains a)"
  shows "auto_inv a' \<and> same_domains a a'"
proof -
  have "a' = a \<or> (\<exists>leaf. host \<in> set (covers leaf) \<and> a' = a\<lparr>certs := (certs a)(host \<mapsto> leaf)\<rparr>)"
    using assms(1)
    by (auto simp: refreshCertificate_def activate_def Let_def split: prod.splits sum.splits option.splits if_splits bool.splits)
  then show ?thesis using assms(2,3) by (auto simp: auto_inv_def same_domains_def split: if_splits)
qed

lemma next_delay_range: "minute \<le> d \<Longrightarrow> d \<le> an_hour \<Longrightarrow> minute \<le> next_delay b d \<and> next_delay b d \<le> an_hour"
  by (simp add: next_delay_def an_hour_def minute_def)

lemma worker_round_inv:
  assumes "worker_round host cancelled answer delay a ts = (x, a', ts')" "auto_inv a" "host \<in> set (domains a)"
  shows "auto_inv a' \<and> same_domains a a' \<and> (\<forall>n. x = Some n \<longrightarrow> n = next_delay True delay \<or> n = next_delay False delay)"
proof (cases "fst cancelled")
  case True
  with assms show ?thesis by (simp add: worker_round_def same_domains_def)
next
  case False
  obtain res a1 ts1 where f: "refreshCertificate host answer a ts = (res, a1, ts1)" by (rule prod_cases3)
  note i1 = refreshCertificate_inv [OF f assms(2,3)]
  obtain b ts2 where b: "Ready a1 ts1 = (b, ts2)" by fastforce
  define a2 where "a2 = (if b then a1\<lparr>ready_closed := True\<rparr> else a1)"
  have "auto_inv a2 \<and> same_domains a a2"
    using i1 b all_ready_certs [of a1 "domains a1" ts1 ts2]
    by (cases b) (auto simp: a2_def auto_inv_def same_domains_def Ready_def)
  moreover have "(x, a') = (None, a1) \<or> a' = a2 \<and> (\<exists>u. x = Some (next_delay u delay))"
    using assms(1) False f b unfolding worker_round_def a2_def
    by (auto simp: Let_def split: if_splits prod.splits sum.splits)
  ultimately show ?thesis using i1 by (cases x) (auto, (metis (full_types))+)
qed

lemma NewAutoTLS_inv:
  assumes "NewAutoTLS m p cfg = Inr a"
  shows "auto_inv a \<and> webDomain a = WebDomain cfg \<and> mailDomain a = MailDomain cfg \<and> webEnabled a = AutoTLSWebEnabled cfg \<and>
    set (domains a) = (if AutoTLSWebEnabled cfg then {WebDomain cfg} else {}) \<union> (if AutoTLSSMTPEnabled cfg then {MailDomain cfg} else {})"
  using assms by (auto simp: NewAutoTLS_def auto_inv_def Let_def split: if_splits option.splits)

lemma auto_reachable_inv:
  assumes "auto_reachable a0 (a, d)" "auto_inv a0"
  shows "auto_inv a \<and> same_domains a0 a \<and> (\<forall>h. minute \<le> d h \<and> d h \<le> an_hour)"
  using assms
proof (induction "(a, d)" arbitrary: a d rule: auto_reachable.induct)
  case start
  then show ?case by (simp add: same_domains_def minute_def an_hour_def)
next
  case (round a d host cancelled answer ts x a' ts')
  then have IH: "auto_inv a" "same_domains a0 a" "\<forall>h. minute \<le> d h \<and> d h \<le> an_hour" by blast+
  note w = worker_round_inv [OF round.hyps(4) IH(1) round.hyps(3)]
  then have "same_domains a0 a'" using IH(2) by (simp add: same_domains_def)
  moreover have "\<forall>h. minute \<le> (case x of None \<Rightarrow> d | Some n \<Rightarrow> d(host := n)) h \<and> (case x of None \<Rightarrow> d | Some n \<Rightarrow> d(host := n)) h \<le> an_hour"
    using w IH(3) next_delay_range by (cases x) auto
  ultimately show ?case using w by blast
qed

section \<open>The certificate source of the web front end\<close>

interpretation web: cert_source "\<lambda>s. auto_inv (fst s)" "web_serve :: 'x auto_state \<Rightarrow> _"
    "\<lambda>s c. webDomain (fst s) \<in> set (domains (fst s)) \<and> webDomain (fst s) \<in> set (covers c) \<and> valid_now (fst (snd s)) c"
  by unfold_locales (auto simp: web_serve_def auto_inv_def auto_certificate_Inr split: prod.splits)

text \<open>The state that a run started by a configuration has reached.\<close>

definition auto_running :: "config \<Rightarrow> autoTLS \<Rightarrow> bool" where
  "auto_running cfg a \<longleftrightarrow> (\<exists>m p a0 d. NewAutoTLS m p cfg = Inr a0 \<and> auto_reachable a0 (a, d))"

lemma auto_running_inv:
  assumes "auto_running cfg a"
  shows "auto_inv a \<and> webDomain a = WebDomain cfg \<and> mailDomain a = MailDomain cfg \<and> webEnabled a = AutoTLSWebEnabled cfg \<and>
    set (domains a) = (if AutoTLSWebEnabled cfg then {WebDomain cfg} else {}) \<union> (if AutoTLSSMTPEnabled cfg then {MailDomain cfg} else {})"
proof -
  obtain m p a0 d where s: "NewAutoTLS m p cfg = Inr a0" "auto_reachable a0 (a, d)"
    using assms by (auto simp: auto_running_def)
  note n = NewAutoTLS_inv [OF s(1)]
  with auto_reachable_inv [OF s(2)] show ?thesis by (simp add: same_domains_def)
qed

section \<open>Properties\<close>

text \<open>
  C30. Whatever the certificate manager returns and however the workers interleave, a client gets only
  certificates that fit: an HTTPS handshake that is not an ACME challenge succeeds only for the web
  domain, with a certificate that covers it and is within its validity at that moment, and an SMTP
  handshake only with such a certificate for the mail domain.
\<close>

theorem auto_handshakes_valid:
  assumes "auto_running cfg a"
  shows "(HTTPSConfig_GetCertificate lib challenge hello a ts = (Inr c, ts') \<and> SupportedProtos hello \<noteq> [''acme-tls/1''] \<longrightarrow>
      normalizeTLSHost lib (ServerName hello) = Inr (WebDomain cfg) \<and> WebDomain cfg \<in> set (covers c) \<and> valid_now ts c)
    \<and> (auto_GetCertificate a ts = (Inr c, ts') \<longrightarrow> MailDomain cfg \<in> set (covers c) \<and> valid_now ts c)"
proof -
  note i = auto_running_inv [OF assms]
  then have a: "auto_inv a" and d: "webDomain a = WebDomain cfg" "mailDomain a = MailDomain cfg" by simp_all
  have v: "h \<in> set (covers c) \<and> valid_now ts c" if "auto_certificate h a ts = (Inr c, ts')" for h
    using that a by (simp add: auto_certificate_Inr auto_inv_def)
  have one: "length ps = 1 \<and> ps ! 0 = x \<longleftrightarrow> ps = [x]" for ps and x :: string
    by (cases ps) auto
  have "normalizeTLSHost lib (ServerName hello) = Inr (WebDomain cfg) \<and> auto_certificate (WebDomain cfg) a ts = (Inr c, ts')"
    if "HTTPSConfig_GetCertificate lib challenge hello a ts = (Inr c, ts')" "SupportedProtos hello \<noteq> [''acme-tls/1'']"
    using that unfolding HTTPSConfig_GetCertificate_def one d by (auto split: sum.splits if_splits)
  with v show ?thesis unfolding auto_GetCertificate_def d by blast
qed

lemma next_delay_power: "(next_delay False ^^ n) minute = min (2 ^ n * minute) an_hour"
proof (induction n)
  case (Suc n)
  then show ?case by (auto simp: next_delay_def an_hour_def minute_def min_def)
qed (simp add: an_hour_def minute_def)

text \<open>
  The workers never hammer the certificate authority: between two attempts for a host they wait at
  least a minute and at most an hour, twice as long after every failure (after \<open>n\<close> failures in a row
  \<open>2^n\<close> minutes, up to the hour). The signal that all certificates are ready is given only when
  every configured host has one.
\<close>

lemma auto_retry_delays:
  assumes "NewAutoTLS m p cfg = Inr a0" and "auto_reachable a0 (a, d)"
  shows "minute \<le> d host \<and> d host \<le> an_hour \<and> (next_delay False ^^ n) minute = min (2 ^ n * minute) an_hour
    \<and> (ready_closed a \<and> AutoTLSWebEnabled cfg \<longrightarrow> certs a (WebDomain cfg) \<noteq> None)
    \<and> (ready_closed a \<and> AutoTLSSMTPEnabled cfg \<longrightarrow> certs a (MailDomain cfg) \<noteq> None)"
proof -
  have r: "auto_running cfg a" using assms by (auto simp: auto_running_def)
  have "auto_inv a0" using NewAutoTLS_inv [OF assms(1)] by simp
  with auto_reachable_inv [OF assms(2)] have "minute \<le> d host \<and> d host \<le> an_hour" by blast
  moreover have "h \<in> set (domains a) \<Longrightarrow> ready_closed a \<Longrightarrow> certs a h \<noteq> None" for h
    using auto_running_inv [OF r] by (auto simp: auto_inv_def)
  ultimately show ?thesis using auto_running_inv [OF r] next_delay_power by auto
qed

text \<open>
  What the certificate manager's HTTP handler does with requests other than challenges, as documented
  by \<^verbatim>\<open>autocert\<close>: it passes them to its fallback.
\<close>

definition passes_on :: "(('c, 's) handler \<Rightarrow> ('c, 's) handler) \<Rightarrow> bool" where
  "passes_on manager \<longleftrightarrow> (\<forall>f r s. \<not> HasPrefix (Path r) ''/.well-known/acme-challenge/'' \<longrightarrow> manager f r s = f r s)"

text \<open>
  C31. Visitors are sent to HTTPS only when it works: with automatic web TLS, a plain HTTP request that
  is answered with a redirect goes to the web domain, and at that moment the table holds a valid
  certificate for it. The HTTPS handler runs the application only for the web domain and with such a
  certificate; every other request is refused with 400 or 503.
\<close>

theorem auto_redirects_only_when_served:
  assumes "auto_running cfg a" and "AutoTLSWebEnabled cfg" and "passes_on manager"
    and "\<not> HasPrefix (Path r) ''/.well-known/acme-challenge/''"
  shows "(auto_HTTPHandler lib https_url page manager app r (a, ts, x) = (w, s') \<and> rstatus w = 308 \<longrightarrow>
      get_header ''Location'' w = https_url (WebDomain cfg) r \<and>
      (\<exists>c. certs a (WebDomain cfg) = Some c \<and> WebDomain cfg \<in> set (covers c) \<and> valid_now ts c))
    \<and> (auto_HTTPSHandler lib application r (a, ts, x) = (w2, s2) \<and> rstatus w2 \<notin> {400, 503} \<longrightarrow>
      (\<exists>c. certs a (WebDomain cfg) = Some c \<and> WebDomain cfg \<in> set (covers c) \<and> valid_now ts c \<and>
        application r (a, stl (stl ts), x) = (w2, s2)))"
proof -
  note i = auto_running_inv [OF assms(1)]
  then have d: "webDomain a = WebDomain cfg" "webEnabled a" and inv: "auto_inv (fst (a, ts, x))" using assms(2) by simp_all
  have served: "certs a (WebDomain cfg) = Some c \<and> WebDomain cfg \<in> set (covers c) \<and> valid_now ts c \<and> s1 = (a, stl (stl ts), x)"
    if "web_serve (a, ts, x) = (Inr c, s1)" for c s1
    using that inv by (auto simp: web_serve_def auto_certificate_Inr auto_inv_def d split: prod.splits)
  have "get_header ''Location'' w = https_url (WebDomain cfg) r \<and>
      (\<exists>c. certs a (WebDomain cfg) = Some c \<and> WebDomain cfg \<in> set (covers c) \<and> valid_now ts c)"
    if h: "auto_HTTPHandler lib https_url page manager app r (a, ts, x) = (w, s')" "rstatus w = 308"
  proof -
    have "webTLSHTTPFallback https_url page (WebDomain cfg) True (is_ready web_serve) all_serve app r (a, ts, x) = (w, s')"
      using h assms(3,4) d unfolding auto_HTTPHandler_def passes_on_def Let_def by (auto split: if_splits)
    from web.redirect_means_ready [OF inv this h(2)] served show ?thesis by blast
  qed
  moreover have "\<exists>c. certs a (WebDomain cfg) = Some c \<and> WebDomain cfg \<in> set (covers c) \<and> valid_now ts c \<and>
        application r (a, stl (stl ts), x) = (w2, s2)"
    if h: "auto_HTTPSHandler lib application r (a, ts, x) = (w2, s2)" "rstatus w2 \<notin> {400, 503}"
  proof -
    have "rstatus w2 \<noteq> 400" "rstatus w2 \<noteq> 503" using h(2) by simp_all
    from web.application_means_ready [OF inv h(1) [unfolded auto_HTTPSHandler_def] this] served show ?thesis by blast
  qed
  ultimately show ?thesis by blast
qed

section \<open>A concrete run\<close>

definition auto_config :: config where
  "auto_config = example_config\<lparr>AutoTLSEnabled := True, AutoTLSWebEnabled := True, AutoTLSSMTPEnabled := True, ACMEAcceptTOS := True\<rparr>"

definition example_cert :: certificate where
  "example_cert = \<lparr>serial = 1, NotBefore = 5, NotAfter = 9, covers = [''t.io'']\<rparr>"

definition auto_start :: autoTLS where
  "auto_start = \<lparr>webDomain = ''t.io'', mailDomain = ''t.io'', webEnabled = True, smtpEnabled = True, domains = [''t.io''],
     certs = Map.empty, ready_closed = False\<rparr>"

definition auto_active :: autoTLS where
  "auto_active = auto_start\<lparr>certs := [''t.io'' \<mapsto> example_cert], ready_closed := True\<rparr>"

definition plain_hostlib :: hostlib where
  "plain_hostlib = \<lparr>host_un = plain_unicode, ToASCII = Some, ParseIP = (\<lambda>_. None)\<rparr>"

lemma auto_start_new: "NewAutoTLS None None auto_config = Inr auto_start"
  by (simp add: NewAutoTLS_def auto_config_def example_config_def auto_start_def)

lemma auto_active_reached: "\<exists>d. auto_reachable auto_start (auto_active, d)"
proof -
  have w: "worker_round ''t.io'' (False, False) (Inr (Some (Some example_cert))) minute auto_start (sconst 6) =
      (Some minute, auto_active, sconst 6)"
    by (simp add: worker_round_def refreshCertificate_def auto_certificate_def activate_def outside_validity_def Ready_def
        auto_start_def auto_active_def example_cert_def next_delay_def)
  have "''t.io'' \<in> set (domains auto_start)" by (simp add: auto_start_def)
  from auto_reachable.round [OF auto_reachable.start this w] show ?thesis by auto
qed

lemma auto_active_running: "auto_running auto_config auto_active"
  using auto_start_new auto_active_reached unfolding auto_running_def by blast

lemma plain_host_t_io: "normalizeTLSHost plain_hostlib ''t.io'' = Inr ''t.io''"
  by (rule normalizeTLSHost_valid) (simp_all add: valid_host_def plain_hostlib_def host_label_def host_char_def byte_def)

theorem auto_handshakes_valid_witness:
  "\<exists>c ts'. HTTPSConfig_GetCertificate plain_hostlib (\<lambda>_. Inl CertPending) \<lparr>ServerName = ''t.io'', SupportedProtos = [''h2'']\<rparr> auto_active (sconst 6)
       = (Inr c, ts') \<and> WebDomain auto_config \<in> set (covers c) \<and> valid_now (sconst 6) c"
proof -
  have h: "HTTPSConfig_GetCertificate plain_hostlib (\<lambda>_. Inl CertPending) \<lparr>ServerName = ''t.io'', SupportedProtos = [''h2'']\<rparr> auto_active (sconst 6)
      = (Inr example_cert, sconst 6)"
    by (simp add: HTTPSConfig_GetCertificate_def plain_host_t_io auto_certificate_def outside_validity_def auto_active_def auto_start_def example_cert_def)
  with auto_handshakes_valid [OF auto_active_running, of plain_hostlib "\<lambda>_. Inl CertPending" "\<lparr>ServerName = ''t.io'', SupportedProtos = [''h2'']\<rparr>" "sconst 6" example_cert "sconst 6"]
  show ?thesis by auto
qed

theorem auto_redirects_only_when_served_witness:
  "\<exists>w s' c. auto_HTTPHandler plain_hostlib (\<lambda>d r. ''https://'' @ d @ Path r) (\<lambda>d. d) (\<lambda>f. f) None example_request (auto_active, sconst 6, ()) = (w, s')
     \<and> get_header ''Location'' w = ''https://t.io/inbox'' \<and> certs auto_active ''t.io'' = Some c \<and> valid_now (sconst 6) c"
proof -
  let ?url = "\<lambda>d r. ''https://'' @ d @ Path r" and ?page = "\<lambda>d :: string. d"
  obtain w s' where h: "auto_HTTPHandler plain_hostlib ?url ?page (\<lambda>f. f) None example_request (auto_active, sconst 6, ()) = (w, s')"
    by (rule prod.exhaust)
  have sh: "SplitHostPort ''t.io'' = None" by (simp add: SplitHostPort_def)
  have ready: "is_ready web_serve (auto_active, sconst 6, ()) = (True, auto_active, sconst 6, ())"
    by (simp add: is_ready_def web_serve_def auto_certificate_def outside_validity_def auto_active_def auto_start_def example_cert_def)
  have e: "Path example_request = ''/inbox''" "Method example_request = ''GET''" "Host example_request = ''t.io''"
    by (simp_all add: example_request_def)
  have d: "webEnabled auto_active" "''t.io'' \<in> set (domains auto_active)" by (simp_all add: auto_active_def auto_start_def)
  have st: "rstatus w = 308"
    using h unfolding auto_HTTPHandler_def webTLSHTTPFallback_def Let_def by (auto simp: e sh plain_host_t_io d ready)
  have c: "AutoTLSWebEnabled auto_config" "WebDomain auto_config = ''t.io''" by (simp_all add: auto_config_def example_config_def)
  have p: "passes_on (\<lambda>f :: (string, unit auto_state) handler. f)" by (simp add: passes_on_def)
  have n: "\<not> HasPrefix (Path example_request) ''/.well-known/acme-challenge/''" by (simp add: e HasPrefix_def)
  note redirect = auto_redirects_only_when_served [OF auto_active_running c(1) p n, THEN conjunct1, THEN mp, OF conjI [OF h st]]
  then obtain k where k: "certs auto_active ''t.io'' = Some k" "valid_now (sconst 6) k" unfolding c(2) by blast
  have "get_header ''Location'' w = ''https://t.io/inbox''" using redirect unfolding c(2) e by simp
  with h k show ?thesis by blast
qed

end
