(* ===== verification/ManualHttps.thy ===== *)
theory ManualHttps
  imports AutoTlsProps
begin

text \<open>
  HTTPS with certificate files (\<^verbatim>\<open>internal/app/manual_https.go\<close>) on the reloader of
  \<^verbatim>\<open>smtp.go\<close>, and the TLS part of the admin status (\<^verbatim>\<open>internal/app/tls_status.go\<close>).
\<close>

record manualHTTPS =
  m_domain :: string
  m_certificate :: reloader

text \<open>
  \<open>hello\<close> is \<^const>\<open>None\<close> for the nil pointer of the readiness checks. A call of the reloader observes the
  files once (\<open>ob\<close>).
\<close>

definition manual_GetCertificate ::
    "hostlib \<Rightarrow> clientHello option \<Rightarrow> obs \<Rightarrow> manualHTTPS \<Rightarrow> time stream \<Rightarrow>
     (tls_error + certificate) \<times> manualHTTPS \<times> time stream" where
  "manual_GetCertificate lib hello ob m ts =
     (if (case hello of None \<Rightarrow> False
          | Some h \<Rightarrow> ServerName h \<noteq> [] \<and> normalizeTLSHost lib (ServerName h) \<noteq> Inr (m_domain m))
      then (Inl HostUnconfigured, m, ts)
      else case GetCertificate ob (m_certificate m) of
          (c, r) \<Rightarrow>
            (case outside_validity c ts of
               (True, ts1) \<Rightarrow> (Inl CertOutside, m\<lparr>m_certificate := r\<rparr>, ts1)
             | (False, ts1) \<Rightarrow> (Inr c, m\<lparr>m_certificate := r\<rparr>, ts1)))"

datatype manual_error = LoadFailed loadError | Unusable tls_error

definition NewManualHTTPS ::
    "hostlib \<Rightarrow> config \<Rightarrow> obs \<Rightarrow> obs \<Rightarrow> time stream \<Rightarrow> (manual_error + manualHTTPS) \<times> time stream" where
  "NewManualHTTPS lib cfg ob ob2 ts =
     (case newTLSCertificateReloader (WebDomain cfg) ob of
        Inl e \<Rightarrow> (Inl (LoadFailed e), ts)
      | Inr r \<Rightarrow>
          (case manual_GetCertificate lib None ob2 \<lparr>m_domain = WebDomain cfg, m_certificate = r\<rparr> ts of
             (Inl e, _, ts1) \<Rightarrow> (Inl (Unusable e), ts1)
           | (Inr _, m, ts1) \<Rightarrow> (Inr m, ts1)))"

text \<open>The handlers run on the reloader, what the files will look like, the clock and the application.\<close>

type_synonym 'x manual_state = "manualHTTPS \<times> obs stream \<times> time stream \<times> 'x"

definition manual_serve :: "hostlib \<Rightarrow> 'x manual_state \<Rightarrow> (tls_error + certificate) \<times> 'x manual_state" where
  "manual_serve lib s =
     (case s of (m, os, ts, x) \<Rightarrow>
        (case manual_GetCertificate lib None (shd os) m ts of (res, m1, ts1) \<Rightarrow> (res, m1, stl os, ts1, x)))"

definition manual_Ready :: "hostlib \<Rightarrow> 'x manual_state \<Rightarrow> bool \<times> 'x manual_state" where
  "manual_Ready lib s = is_ready (manual_serve lib) s"

definition manual_HTTPHandler ::
    "hostlib \<Rightarrow> (string \<Rightarrow> request \<Rightarrow> string) \<Rightarrow> (string \<Rightarrow> 'c) \<Rightarrow> ('c, 'x manual_state) handler" where
  "manual_HTTPHandler lib https_url page r s =
     webTLSHTTPFallback https_url page (m_domain (fst s)) True (manual_Ready lib) (manual_Ready lib) None r s"

definition manual_HTTPSHandler :: "hostlib \<Rightarrow> ('c, 'x manual_state) handler \<Rightarrow> ('c, 'x manual_state) handler" where
  "manual_HTTPSHandler lib application r s =
     https_guard lib (m_domain (fst s)) ''HTTPS certificate unavailable'' (manual_Ready lib) application r s"

definition GuardHealth :: "hostlib \<Rightarrow> ('c, 'x manual_state) handler \<Rightarrow> ('c, 'x manual_state) handler" where
  "GuardHealth lib next r s =
     (if Path r = ''/healthz'' then
        (case manual_Ready lib s of
           (False, s1) \<Rightarrow> (http_Error ''HTTPS certificate unavailable'' 503 no_response, s1)
         | (True, s1) \<Rightarrow> next r s1)
      else next r s)"

section \<open>Status\<close>

record serviceStatus =
  st_Mode :: string
  st_State :: string
  st_Domain :: string
  st_Environment :: string
  st_NotBefore :: "time option"
  st_NotAfter :: "time option"
  st_Issuer :: string
  st_DNSNames :: "string list"
  st_Fingerprint :: string
  st_ExpiringSoon :: bool

text \<open>What the X.509 and hash libraries tell of a certificate.\<close>

record certinfo =
  issuer_of :: "certificate \<Rightarrow> string"
  dns_of :: "certificate \<Rightarrow> string list"
  fingerprint_of :: "certificate \<Rightarrow> string"

definition sevenDays :: int where "sevenDays = 7 * 24 * an_hour"

definition tlsServiceStatus :: "certinfo \<Rightarrow> string \<Rightarrow> string \<Rightarrow> issued \<Rightarrow> bool \<Rightarrow> time \<Rightarrow> serviceStatus" where
  "tlsServiceStatus info mode domain crt staging now =
     (let status = \<lparr>st_Mode = mode, st_State = ''off'', st_Domain = domain, st_Environment = [], st_NotBefore = None,
            st_NotAfter = None, st_Issuer = [], st_DNSNames = [], st_Fingerprint = [], st_ExpiringSoon = False\<rparr>
      in if mode = ''off'' then status
         else
           (let status = status\<lparr>st_State := ''pending'',
                  st_Environment := (if mode = ''automatic'' then (if staging then ''staging'' else ''production'') else [])\<rparr>
            in case crt of
                None \<Rightarrow> status
              | Some None \<Rightarrow> status\<lparr>st_State := ''unavailable''\<rparr>
              | Some (Some leaf) \<Rightarrow>
                  (let status = status\<lparr>st_NotBefore := Some (NotBefore leaf), st_NotAfter := Some (NotAfter leaf),
                         st_Issuer := issuer_of info leaf, st_DNSNames := dns_of info leaf, st_Fingerprint := fingerprint_of info leaf\<rparr>
                   in if now < NotBefore leaf then status\<lparr>st_State := ''not_yet_valid''\<rparr>
                      else if \<not> now < NotAfter leaf then status\<lparr>st_State := ''expired''\<rparr>
                      else status\<lparr>st_State := ''ready'', st_ExpiringSoon := (NotAfter leaf - now \<le> sevenDays)\<rparr>)))"

definition certificateSnapshot :: "autoTLS \<Rightarrow> string \<Rightarrow> issued" where
  "certificateSnapshot a domain = map_option Some (certs a domain)"

text \<open>The sources of the overview and, with their states after it, the reloaders it asked.\<close>

record tlsSources =
  src_Automatic :: "autoTLS option"
  src_ManualWeb :: "reloader option"
  src_smtpCert :: "reloader option"

definition ask :: "reloader option \<Rightarrow> obs \<Rightarrow> issued \<times> reloader option" where
  "ask r ob = (case r of None \<Rightarrow> (None, None) | Some x \<Rightarrow> (case GetCertificate ob x of (c, x1) \<Rightarrow> (Some (Some c), Some x1)))"

definition tlsOverview ::
    "certinfo \<Rightarrow> config \<Rightarrow> tlsSources \<Rightarrow> obs \<times> obs \<Rightarrow> time \<times> time \<Rightarrow> (serviceStatus \<times> serviceStatus) \<times> tlsSources" where
  "tlsOverview info cfg src obs now =
     (let snapshot = (\<lambda>domain. case src_Automatic src of None \<Rightarrow> None | Some a \<Rightarrow> certificateSnapshot a domain) in
      case (if AutoTLSWebEnabled cfg then (''automatic'', snapshot (WebDomain cfg), src_ManualWeb src)
            else if HTTPSTLSCertFile cfg \<noteq> [] then (case ask (src_ManualWeb src) (fst obs) of (c, r) \<Rightarrow> (''manual'', c, r))
            else (''off'', None, src_ManualWeb src)) of
        (webMode, webCert, web1) \<Rightarrow>
          (case (if AutoTLSSMTPEnabled cfg then (''automatic'', snapshot (MailDomain cfg), src_smtpCert src)
                 else if SMTPTLSCertFile cfg \<noteq> [] \<or> src_smtpCert src \<noteq> None then
                   (case ask (src_smtpCert src) (snd obs) of (c, r) \<Rightarrow> (''manual'', c, r))
                 else (''off'', None, src_smtpCert src)) of
             (smtpMode, smtpCert, smtp1) \<Rightarrow>
               ((tlsServiceStatus info webMode (WebDomain cfg) webCert (ACMEStaging cfg) (fst now),
                 tlsServiceStatus info smtpMode (MailDomain cfg) smtpCert (ACMEStaging cfg) (snd now)),
                src\<lparr>src_ManualWeb := web1, src_smtpCert := smtp1\<rparr>)))"

section \<open>Properties\<close>

definition manual_inv :: "'x manual_state \<Rightarrow> bool" where
  "manual_inv s \<longleftrightarrow> serverName (m_certificate (fst s)) = m_domain (fst s) \<and> m_domain (fst s) \<in> set (covers (cert (m_certificate (fst s))))"

lemma GetCertificate_covers:
  assumes "GetCertificate ob r = (c, r')" "serverName r \<in> set (covers (cert r))"
  shows "serverName r' = serverName r \<and> cert r' = c \<and> serverName r \<in> set (covers c)"
  using assms by (auto simp: GetCertificate_def loadTLSCertificate_ok valid_at_def split: option.splits if_splits sum.splits)

lemma manual_GetCertificate_step:
  assumes "manual_GetCertificate lib hello ob m ts = (res, m', ts')" "serverName (m_certificate m) = m_domain m"
    "m_domain m \<in> set (covers (cert (m_certificate m)))"
  shows "m_domain m' = m_domain m \<and> serverName (m_certificate m') = m_domain m \<and> m_domain m \<in> set (covers (cert (m_certificate m')))
    \<and> (\<forall>c. res = Inr c \<longrightarrow> m_domain m \<in> set (covers c) \<and> valid_now ts c)"
proof -
  obtain c r where g: "GetCertificate ob (m_certificate m) = (c, r)" by fastforce
  have "serverName r = m_domain m \<and> cert r = c \<and> m_domain m \<in> set (covers c)"
    using GetCertificate_covers [OF g] assms(2,3) by simp
  with assms g show ?thesis
    unfolding manual_GetCertificate_def
    by (auto simp: outside_validity_def valid_now_def split: if_splits bool.splits)
qed

interpretation man: cert_source "manual_inv :: 'x manual_state \<Rightarrow> _" "manual_serve lib"
    "\<lambda>s c. m_domain (fst s) \<in> set (covers c) \<and> valid_now (fst (snd (snd s))) c" for lib
proof
  show "m_domain (fst s) \<in> set (covers c) \<and> valid_now (fst (snd (snd s))) c"
    if "manual_inv s" "manual_serve lib s = (Inr c, s')" for s s' :: "'x manual_state" and c
    using that manual_GetCertificate_step by (fastforce simp: manual_serve_def manual_inv_def split: prod.splits)
  show "manual_inv s'" if "manual_inv s" "manual_serve lib s = (res, s')" for s s' :: "'x manual_state" and res
    using that manual_GetCertificate_step by (fastforce simp: manual_serve_def manual_inv_def split: prod.splits)
qed

lemma NewManualHTTPS_inv:
  assumes "NewManualHTTPS lib cfg ob ob2 ts = (Inr m, ts')"
  shows "manual_inv (m, os, ts2, x) \<and> m_domain m = WebDomain cfg"
proof -
  obtain r where r: "newTLSCertificateReloader (WebDomain cfg) ob = Inr r"
    using assms by (auto simp: NewManualHTTPS_def split: sum.splits)
  then have k: "serverName r = WebDomain cfg" "WebDomain cfg \<in> set (covers (cert r))"
    by (auto simp: newTLSCertificateReloader_def loadTLSCertificate_ok valid_at_def split: sum.splits)
  obtain res m1 ts1 where g: "manual_GetCertificate lib None ob2 \<lparr>m_domain = WebDomain cfg, m_certificate = r\<rparr> ts = (res, m1, ts1)"
    by (rule prod_cases3)
  have "m = m1" using assms r g by (auto simp: NewManualHTTPS_def split: sum.splits)
  with manual_GetCertificate_step [OF g] k show ?thesis by (simp add: manual_inv_def)
qed

text \<open>Handshakes and readiness checks, one after the other.\<close>

fun manual_calls :: "hostlib \<Rightarrow> (clientHello option \<times> obs \<times> time stream) list \<Rightarrow> manualHTTPS \<Rightarrow> manualHTTPS" where
  "manual_calls lib [] m = m"
| "manual_calls lib ((hello, ob, ts) # calls) m =
     (case manual_GetCertificate lib hello ob m ts of (_, m1, _) \<Rightarrow> manual_calls lib calls m1)"

lemma manual_calls_inv:
  "manual_inv (m, os, ts, x) \<Longrightarrow>
   manual_inv (manual_calls lib calls m, os, ts, x) \<and> m_domain (manual_calls lib calls m) = m_domain m"
proof (induction lib calls m rule: manual_calls.induct)
  case (2 lib hello ob ts' calls m)
  obtain res m1 ts1 where g: "manual_GetCertificate lib hello ob m ts' = (res, m1, ts1)" by (rule prod_cases3)
  have "manual_inv (m1, os, ts, x) \<and> m_domain m1 = m_domain m"
    using manual_GetCertificate_step [OF g] "2.prems" by (simp add: manual_inv_def)
  with "2.IH" [OF g [symmetric] refl] show ?case by (simp add: g)
qed simp


section \<open>The status agrees with the handshakes\<close>

lemma tlsServiceStatus_state:
  "mode \<noteq> ''off'' \<Longrightarrow>
   st_State (tlsServiceStatus info mode domain crt staging now) =
     (case crt of None \<Rightarrow> ''pending'' | Some None \<Rightarrow> ''unavailable''
      | Some (Some leaf) \<Rightarrow> if now < NotBefore leaf then ''not_yet_valid'' else if \<not> now < NotAfter leaf then ''expired'' else ''ready'')"
  by (auto simp: tlsServiceStatus_def Let_def split: option.splits)


section \<open>Concrete instances\<close>

definition ready_obs :: obs where
  "ready_obs = example_obs 1 6"

lemma example_manual: "NewManualHTTPS plain_hostlib example_config ready_obs ready_obs (sconst 6) =
    (Inr \<lparr>m_domain = ''t.io'', m_certificate = example_reloader\<rparr>, sconst 6)"
  by (simp add: NewManualHTTPS_def newTLSCertificateReloader_def loadTLSCertificate_def manual_GetCertificate_def GetCertificate_def
      ready_obs_def example_obs_def example_reloader_def example_config_def outside_validity_def Let_def)



end
