(* ===== verification/SmtpServer.thy ===== *)
theory SmtpServer
  imports SmtpSession Admission ManualHttps
begin

text \<open>
  The SMTP server as an object (\<^verbatim>\<open>NewSMTPServerWithCertificate\<close> and \<^verbatim>\<open>RuntimeStatus\<close> of
  \<^verbatim>\<open>internal/app/smtp.go\<close>) and the wait for its certificate (\<^verbatim>\<open>WaitSMTPReady\<close> of
  \<^verbatim>\<open>internal/app/autotls.go\<close>). The protocol engine is the package go-smtp; the settings handed to
  it are the record \<open>protocolServer\<close>.
\<close>

section \<open>The server\<close>

definition maxSMTPCommandLineBytes :: int where "maxSMTPCommandLineBytes = 8 * 1024"
definition smtpSessionTimeout :: int where "smtpSessionTimeout = 2 * 60 * 1000000000"

text \<open>A certificate provider: the automatic certificates, which are shared, or a reloader of files.\<close>

datatype certificateProvider = ProvideAutomatic | ProvideFiles reloader

record protocolServer =
  ps_Domain :: string
  ps_MaxRecipients :: int
  ps_MaxMessageBytes :: int
  ps_MaxLineLength :: int
  ps_ReadTimeout :: int
  ps_WriteTimeout :: int
  ps_StartTLS :: bool \<comment> \<open>\<^verbatim>\<open>TLSConfig\<close> is not nil\<close>

record smtpServer =
  s_admission :: smtpAdmission
  s_analytics :: bool \<comment> \<open>the analytics service is attached\<close>
  s_tlsCert :: "certificateProvider option"
  s_protocol :: protocolServer

definition tlsConfig :: "certificateProvider option \<Rightarrow> bool" where
  "tlsConfig tlsCert = (tlsCert \<noteq> None)"

definition maxRecipients :: "config \<Rightarrow> int" where
  "maxRecipients conf = (if MaxSMTPRecipients conf = 0 then 5 else MaxSMTPRecipients conf)"

definition NewSMTPServerWithCertificate ::
    "config \<Rightarrow> certificateProvider option \<Rightarrow> analytics option \<Rightarrow> obs \<Rightarrow> loadError + smtpServer" where
  "NewSMTPServerWithCertificate conf provider an ob =
     (let attached = (case an of None \<Rightarrow> False | Some a \<Rightarrow> enabled a);
          mk = (\<lambda>tlsCert. \<lparr>s_admission = NewSMTPServer_admission conf, s_analytics = attached, s_tlsCert = tlsCert,
            s_protocol = \<lparr>ps_Domain = MailDomain conf, ps_MaxRecipients = maxRecipients conf, ps_MaxMessageBytes = MaxMessageBytes conf,
              ps_MaxLineLength = maxSMTPCommandLineBytes, ps_ReadTimeout = smtpSessionTimeout, ps_WriteTimeout = smtpSessionTimeout,
              ps_StartTLS = tlsConfig tlsCert\<rparr>\<rparr>)
      in case provider of
           Some p \<Rightarrow> Inr (mk (Some p))
         | None \<Rightarrow>
             if SMTPTLSCertFile conf \<noteq> [] then
               (case newTLSCertificateReloader (MailDomain conf) ob of
                  Inl e \<Rightarrow> Inl e
                | Inr r \<Rightarrow> Inr (mk (Some (ProvideFiles r))))
             else Inr (mk None))"

text \<open>A STARTTLS handshake: the certificate the provider answers with.\<close>

definition smtp_GetCertificate ::
    "certificateProvider \<Rightarrow> autoTLS \<Rightarrow> obs \<Rightarrow> time stream \<Rightarrow> (tls_error + certificate) \<times> certificateProvider \<times> time stream" where
  "smtp_GetCertificate p a ob ts =
     (case p of
        ProvideAutomatic \<Rightarrow> (case auto_GetCertificate a ts of (res, ts1) \<Rightarrow> (res, ProvideAutomatic, ts1))
      | ProvideFiles r \<Rightarrow> (case GetCertificate ob r of (c, r1) \<Rightarrow> (Inr c, ProvideFiles r1, ts)))"

record smtpRuntimeStatus = smtpRuntime +
  TLSEnabled :: bool
  TLSNotAfter :: "time option"

definition SMTP_RuntimeStatus ::
    "smtpServer \<Rightarrow> autoTLS \<Rightarrow> obs \<Rightarrow> time stream \<Rightarrow> smtpRuntimeStatus \<times> smtpServer \<times> time stream" where
  "SMTP_RuntimeStatus s a ob ts =
     (let status = (\<lambda>b expiry. \<lparr>ActiveConnections = held (sessions (s_admission s)),
            ConnectionLimit = capacity (sessions (s_admission s)), TLSEnabled = b, TLSNotAfter = expiry\<rparr>)
      in case s_tlsCert s of
           None \<Rightarrow> (status False None, s, ts)
         | Some p \<Rightarrow>
             (case smtp_GetCertificate p a ob ts of
                (res, p1, ts1) \<Rightarrow>
                  (status True (case res of Inl _ \<Rightarrow> None | Inr c \<Rightarrow> Some (NotAfter c)), s\<lparr>s_tlsCert := Some p1\<rparr>, ts1)))"

section \<open>Waiting for the certificate\<close>

text \<open>
  Every round of \<^verbatim>\<open>WaitSMTPReady\<close> looks at the table as it is then (\<open>tables\<close>); its \<^verbatim>\<open>select\<close>
  ends the wait (\<open>True\<close>) or waits for the ticker (\<open>False\<close>). The loop may run as long as neither happens.
\<close>

datatype waited = CertReady | ContextDone

partial_function (option) WaitSMTPReady ::
    "autoTLS stream \<Rightarrow> time stream \<Rightarrow> bool stream \<Rightarrow> (waited \<times> autoTLS stream \<times> time stream \<times> bool stream) option" where
  "WaitSMTPReady tables ts done =
     (case auto_certificate (mailDomain (shd tables)) (shd tables) ts of
        (Inr _, ts1) \<Rightarrow> Some (CertReady, stl tables, ts1, done)
      | (Inl _, ts1) \<Rightarrow>
          if shd done then Some (ContextDone, stl tables, ts1, stl done)
          else WaitSMTPReady (stl tables) ts1 (stl done))"

text \<open>\<^verbatim>\<open>WaitReady\<close>: the select on the channel of the workers and the context; \<open>first\<close> is the case taken.\<close>

definition WaitReady :: "autoTLS \<Rightarrow> bool \<Rightarrow> waited \<Rightarrow> waited option" where
  "WaitReady a ctx_done first =
     (if (first = CertReady \<and> ready_closed a) \<or> (ready_closed a \<and> \<not> ctx_done) then Some CertReady
      else if ctx_done then Some ContextDone
      else None)"

section \<open>Properties\<close>

text \<open>The certificate a status or a handshake shows is one the provider would serve.\<close>

lemma smtp_GetCertificate_sound:
  assumes "smtp_GetCertificate p a ob ts = (Inr c, p', ts')"
  shows "(p = ProvideAutomatic \<longrightarrow> certs a (mailDomain a) = Some c \<and> valid_now ts c) \<and> (\<forall>r. p = ProvideFiles r \<longrightarrow> (\<exists>r'. p' = ProvideFiles r' \<and> c = cert r'))"
proof (cases p)
  case ProvideAutomatic
  then show ?thesis using assms
    by (auto simp: smtp_GetCertificate_def auto_GetCertificate_def auto_certificate_def outside_validity_def valid_now_def
        split: option.splits prod.splits if_splits bool.splits)
next
  case (ProvideFiles r)
  then show ?thesis using assms
    by (auto simp: smtp_GetCertificate_def GetCertificate_def split: prod.splits option.splits if_splits sum.splits)
qed

lemma WaitSMTPReady_step:
  "WaitSMTPReady tables ts done =
     (case auto_certificate (mailDomain (shd tables)) (shd tables) ts of
        (Inr _, ts1) \<Rightarrow> Some (CertReady, stl tables, ts1, done)
      | (Inl _, ts1) \<Rightarrow>
          if shd done then Some (ContextDone, stl tables, ts1, stl done)
          else WaitSMTPReady (stl tables) ts1 (stl done))"
  by (rule WaitSMTPReady.simps)

lemma wait_returns: "done !! n \<Longrightarrow> \<exists>r. WaitSMTPReady tables ts done = Some r"
proof (induction n arbitrary: tables ts "done")
  case 0
  then show ?case by (subst WaitSMTPReady_step) (auto split: sum.split prod.split)
next
  case (Suc n)
  then have "\<exists>r. WaitSMTPReady (stl tables) ts1 (stl done) = Some r" for ts1 by simp
  then show ?case by (subst WaitSMTPReady_step) (auto split: sum.split prod.split)
qed

definition wait_ok :: "autoTLS stream \<Rightarrow> time stream \<Rightarrow> bool stream \<Rightarrow> waited \<Rightarrow> bool" where
  "wait_ok tables ts done x \<longleftrightarrow>
     (case x of
        CertReady \<Rightarrow> \<exists>k m c. certs (tables !! k) (mailDomain (tables !! k)) = Some c \<and> valid_now (sdrop m ts) c
      | ContextDone \<Rightarrow> \<exists>k. done !! k)"

lemma auto_certificate_sound:
  "auto_certificate host a ts = (Inr c, ts') \<Longrightarrow> certs a host = Some c \<and> valid_now ts c"
  by (auto simp: auto_certificate_def outside_validity_def valid_now_def split: option.splits prod.splits if_splits bool.splits)

lemma auto_certificate_clock: "auto_certificate host a ts = (res, ts') \<Longrightarrow> \<exists>m. ts' = sdrop m ts"
  by (auto simp: auto_certificate_def outside_validity_def split: option.splits prod.splits if_splits bool.splits
      intro: exI [of _ 0] exI [of _ 1] exI [of _ "Suc (Suc 0)"])

lemma wait_ok_stl:
  assumes "wait_ok (stl tables) (sdrop m ts) (stl done) x"
  shows "wait_ok tables ts done x"
proof (cases x)
  case CertReady
  with assms obtain k m' c where "certs (tables !! Suc k) (mailDomain (tables !! Suc k)) = Some c" "valid_now (sdrop (m + m') ts) c"
    by (auto simp: wait_ok_def sdrop_add)
  then show ?thesis unfolding wait_ok_def CertReady waited.case by blast
next
  case ContextDone
  with assms obtain k where "done !! Suc k" by (auto simp: wait_ok_def)
  then show ?thesis unfolding wait_ok_def ContextDone waited.case by blast
qed

lemma wait_ok_ready:
  assumes "certs (shd tables) (mailDomain (shd tables)) = Some c" "valid_now ts c"
  shows "wait_ok tables ts done CertReady"
proof -
  have "certs (tables !! 0) (mailDomain (tables !! 0)) = Some c" "valid_now (sdrop 0 ts) c" using assms by simp_all
  then show ?thesis unfolding wait_ok_def waited.case by blast
qed

lemma wait_ok_done:
  assumes "shd done"
  shows "wait_ok tables ts done ContextDone"
proof -
  have "done !! 0" using assms by simp
  then show ?thesis unfolding wait_ok_def waited.case by blast
qed

lemma wait_sound: "WaitSMTPReady tables ts done = Some r \<Longrightarrow> wait_ok tables ts done (fst r)"
proof (erule WaitSMTPReady.raw_induct [rotated], goal_cases)
  case (1 f tables ts "done" r)
  obtain res ts1 where g: "auto_certificate (mailDomain (shd tables)) (shd tables) ts = (res, ts1)" by fastforce
  then obtain m where m: "ts1 = sdrop m ts" using auto_certificate_clock by blast
  show ?case
  proof (cases res)
    case (Inr c)
    then have "fst r = CertReady" using 1(2) g by auto
    then show ?thesis using Inr g auto_certificate_sound wait_ok_ready by metis
  next
    case (Inl e)
    show ?thesis
    proof (cases "shd done")
      case True
      then have "fst r = ContextDone" using 1(2) g Inl by auto
      then show ?thesis using True wait_ok_done by metis
    next
      case False
      then have "f (stl tables) ts1 (stl done) = Some r" using 1(2) g Inl by simp
      then have "wait_ok (stl tables) ts1 (stl done) (fst r)" by (rule 1(1))
      then show ?thesis unfolding m by (rule wait_ok_stl)
    qed
  qed
qed

text \<open>
  SMTP waits for its own certificate: the wait ends as soon as its context does, whatever the
  workers do; it reports success only if at some round the table held a certificate of the mail domain
  that was valid by the clock then, and a cancelled wait only if the context was done. It also ends, with
  success, at the first round that finds a valid certificate.
\<close>
lemma WaitSMTPReady_exact:
  assumes "done !! n \<or> certs (shd tables) (mailDomain (shd tables)) = Some c0 \<and> valid_now ts c0"
  shows "\<exists>x rest. WaitSMTPReady tables ts done = Some (x, rest)
    \<and> (certs (shd tables) (mailDomain (shd tables)) = Some c0 \<and> valid_now ts c0 \<longrightarrow> x = CertReady)
    \<and> (x = CertReady \<longrightarrow> (\<exists>k m c. certs (tables !! k) (mailDomain (tables !! k)) = Some c \<and> valid_now (sdrop m ts) c))
    \<and> (x = ContextDone \<longrightarrow> (\<exists>k. done !! k))"
proof -
  have first: "\<exists>rest. WaitSMTPReady tables ts done = Some (CertReady, rest)"
    if "certs (shd tables) (mailDomain (shd tables)) = Some c0" "valid_now ts c0"
  proof -
    have "auto_certificate (mailDomain (shd tables)) (shd tables) ts = (Inr c0, stl (stl ts))"
      using that by (auto simp: auto_certificate_def outside_validity_def valid_now_def)
    then show ?thesis by (subst WaitSMTPReady_step) simp
  qed
  obtain r where w: "WaitSMTPReady tables ts done = Some r" using assms wait_returns first by blast
  from wait_sound [OF w] show ?thesis
    using w first by (intro exI [of _ "fst r"] exI [of _ "snd r"]) (auto simp: wait_ok_def)
qed

text \<open>The protocol engine gets the configured limits and offers STARTTLS exactly if there is a provider.\<close>

lemma NewSMTPServer_settings:
  assumes "NewSMTPServerWithCertificate conf provider an ob = Inr server"
  shows "ps_StartTLS (s_protocol server) \<longleftrightarrow> provider \<noteq> None \<or> SMTPTLSCertFile conf \<noteq> []"
    and "ps_MaxMessageBytes (s_protocol server) = MaxMessageBytes conf" "ps_Domain (s_protocol server) = MailDomain conf"
    and "ps_MaxRecipients (s_protocol server) = maxRecipients conf" "s_admission server = NewSMTPServer_admission conf"
    and "s_tlsCert server = Some (ProvideFiles r) \<Longrightarrow> provider = None \<Longrightarrow> valid_at (MailDomain conf) (seen_now ob) (cert r)"
  using assms
  by (auto simp: NewSMTPServerWithCertificate_def Let_def tlsConfig_def newTLSCertificateReloader_def loadTLSCertificate_ok
      split: option.splits if_splits sum.splits prod.splits)

end
