(* ===== verification/Html.thy ===== *)
theory Html
  imports GoText
begin

text \<open>
  HTML of messages (\<^verbatim>\<open>internal/app/mime.go\<close>, \<^verbatim>\<open>internal/app/ui.go\<close>): the sanitiser, the text
  of a document and the count of blocked images, on the node tree of the parser. Parsing, rendering
  and \<^verbatim>\<open>url.Parse\<close> are fields of a library record.
\<close>

section \<open>Nodes\<close>

datatype nodeType = TextNode | DocumentNode | ElementNode | CommentNode | DoctypeNode | RawNode | ErrorNode

record attribute =
  Namespace :: string
  Key :: string
  Val :: string

datatype node = Node (Type: nodeType) (NData: string) (Attr: "attribute list") (Children: "node list")

text \<open>\<^verbatim>\<open>url.Parse\<close> gives the scheme and the host name of a URL it can read.\<close>

record htmllib =
  html_Parse :: "string \<Rightarrow> node option"
  html_Render :: "node \<Rightarrow> string"
  url_Parse :: "string \<Rightarrow> (string \<times> string) option"

section \<open>The sanitiser\<close>

definition unsafeElements :: "string list" where
  "unsafeElements = [''script'', ''iframe'', ''object'', ''embed'', ''link'', ''form'', ''meta'', ''base'']"

definition safeImageSource :: "htmllib \<Rightarrow> string \<Rightarrow> bool" where
  "safeImageSource lib v =
     (case url_Parse lib (TrimSpace v) of
        None \<Rightarrow> False
      | Some (scheme, host) \<Rightarrow> (scheme = ''https'' \<or> scheme = ''http'') \<and> host \<noteq> [])"

definition safeLink :: "unicode \<Rightarrow> string \<Rightarrow> bool" where
  "safeLink u v =
     (let v1 = TrimSpace v; lower = ToLower u v1 in
      HasPrefix v1 ''#'' \<or> HasPrefix lower ''https://'' \<or> HasPrefix lower ''http://'' \<or> HasPrefix lower ''mailto:'')"

definition hasLink :: "unicode \<Rightarrow> attribute list \<Rightarrow> bool" where
  "hasLink u attrs = list_ex (\<lambda>a. EqualFold u (Key a) ''href'' \<and> \<not> HasPrefix (TrimSpace (Val a)) ''#'') attrs"

text \<open>One round of the loop over the attributes of an element.\<close>

definition keep_attr :: "unicode \<Rightarrow> htmllib \<Rightarrow> bool \<Rightarrow> string \<Rightarrow> attribute \<Rightarrow> attribute option" where
  "keep_attr u lib loadImages d a =
     (let name = ToLower u (Key a) in
      if loadImages \<and> d = ''img'' \<and> name = ''src'' \<and> safeImageSource lib (Val a)
      then Some \<lparr>Namespace = [], Key = ''src'', Val = TrimSpace (Val a)\<rparr>
      else if \<not> HasPrefix name ''on'' \<and> name \<noteq> ''src'' \<and> name \<noteq> ''srcset'' \<and> name \<noteq> ''target'' \<and> name \<noteq> ''rel'' \<and>
        (name \<noteq> ''href'' \<or> d = ''a'' \<and> safeLink u (Val a))
      then Some a else None)"

definition linkAttrs :: "attribute list" where
  "linkAttrs = [\<lparr>Namespace = [], Key = ''target'', Val = ''_blank''\<rparr>,
     \<lparr>Namespace = [], Key = ''rel'', Val = ''noopener noreferrer''\<rparr>]"

definition clean_attrs :: "unicode \<Rightarrow> htmllib \<Rightarrow> bool \<Rightarrow> string \<Rightarrow> attribute list \<Rightarrow> attribute list" where
  "clean_attrs u lib loadImages d attrs =
     (let kept = List.map_filter (keep_attr u lib loadImages d) attrs in
      if d = ''a'' \<and> hasLink u kept then kept @ linkAttrs else kept)"

text \<open>The loop over the children of a node.\<close>

fun clean_children :: "unicode \<Rightarrow> htmllib \<Rightarrow> bool \<Rightarrow> node list \<Rightarrow> node list" where
  "clean_children u lib loadImages [] = []"
| "clean_children u lib loadImages (Node t d attrs cs # rest) =
     (if t = ElementNode \<and> d \<in> set unsafeElements then clean_children u lib loadImages rest
      else Node t d (if t = ElementNode then clean_attrs u lib loadImages d attrs else attrs)
             (clean_children u lib loadImages cs) # clean_children u lib loadImages rest)"

definition removeUnsafeHTML :: "unicode \<Rightarrow> htmllib \<Rightarrow> bool \<Rightarrow> node \<Rightarrow> node" where
  "removeUnsafeHTML u lib loadImages n =
     Node (Type n) (NData n) (Attr n) (clean_children u lib loadImages (Children n))"

fun find_in :: "string \<Rightarrow> node list \<Rightarrow> node option" where
  "find_in name [] = None"
| "find_in name (Node t d attrs cs # rest) =
     (if t = ElementNode \<and> d = name then Some (Node t d attrs cs)
      else case find_in name cs of
          Some n \<Rightarrow> Some n
        | None \<Rightarrow> find_in name rest)"

definition findElement :: "node \<Rightarrow> string \<Rightarrow> node option" where
  "findElement n name = find_in name [n]"

definition findBody :: "node \<Rightarrow> node option" where
  "findBody n = findElement n ''body''"

definition sanitizeHTMLWithImages :: "unicode \<Rightarrow> htmllib \<Rightarrow> string \<Rightarrow> bool \<Rightarrow> string" where
  "sanitizeHTMLWithImages u lib source loadImages =
     (if source = [] then []
      else case html_Parse lib source of
          None \<Rightarrow> []
        | Some doc0 \<Rightarrow>
            (let doc = removeUnsafeHTML u lib loadImages doc0 in
             (case findElement doc ''head'' of
                None \<Rightarrow> []
              | Some h \<Rightarrow> concat (map (html_Render lib)
                  (filter (\<lambda>c. Type c = ElementNode \<and> NData c = ''style'') (Children h)))) @
             (case findBody doc of
                None \<Rightarrow> []
              | Some b \<Rightarrow> concat (map (html_Render lib) (Children b)))))"

definition sanitizeHTML :: "unicode \<Rightarrow> htmllib \<Rightarrow> string \<Rightarrow> string" where
  "sanitizeHTML u lib source = sanitizeHTMLWithImages u lib source False"

section \<open>The text of a document\<close>

fun node_text :: "node list \<Rightarrow> string" where
  "node_text [] = []"
| "node_text (Node t d attrs cs # rest) =
     (if t = ElementNode \<and> d = ''style'' then []
      else (if t = TextNode then d @ '' '' else []) @ node_text cs) @ node_text rest"

definition htmlText :: "htmllib \<Rightarrow> string \<Rightarrow> string" where
  "htmlText lib source =
     (case html_Parse lib source of None \<Rightarrow> [] | Some doc \<Rightarrow> TrimSpace (node_text [doc]))"

section \<open>Blocked images\<close>

record blockedImages =
  Total :: nat
  TrackingPixels :: nat

text \<open>The attribute that makes an image a tracking pixel: the loop stops at the first one.\<close>

definition small_size :: "unicode \<Rightarrow> attribute \<Rightarrow> bool" where
  "small_size u a =
     (let key = ToLower u (Key a) in
      (key = ''width'' \<or> key = ''height'') \<and>
      (case Atoi (TrimSuffix (TrimSpace (Val a)) ''px'') of None \<Rightarrow> False | Some px \<Rightarrow> px \<le> 2))"

fun count_images :: "unicode \<Rightarrow> node list \<Rightarrow> blockedImages \<Rightarrow> blockedImages" where
  "count_images u [] r = r"
| "count_images u (Node t d attrs cs # rest) r =
     (let r1 = (if t = ElementNode \<and> d = ''img''
                then r\<lparr>Total := Suc (Total r),
                       TrackingPixels := TrackingPixels r + (if list_ex (small_size u) attrs then 1 else 0)\<rparr>
                else r)
      in count_images u rest (count_images u cs r1))"

definition countBlockedImages :: "unicode \<Rightarrow> htmllib \<Rightarrow> string \<Rightarrow> blockedImages" where
  "countBlockedImages u lib sanitized =
     (let zero = \<lparr>Total = 0, TrackingPixels = 0\<rparr> in
      if sanitized = [] then zero
      else case html_Parse lib sanitized of None \<Rightarrow> zero | Some doc \<Rightarrow> count_images u [doc] zero)"

definition plural :: "nat \<Rightarrow> string \<Rightarrow> string" where
  "plural n word = (if n = 1 then ''1 '' @ word else Itoa (int n) @ '' '' @ word @ ''s'')"

definition Label :: "blockedImages \<Rightarrow> string" where
  "Label b =
     (if Total b = 0 then []
      else if TrackingPixels b = Total b \<and> Total b = 1 then ''Tracking pixel blocked''
      else if TrackingPixels b = Total b then plural (Total b) ''tracking pixel'' @ '' blocked''
      else if TrackingPixels b = 0 then plural (Total b) ''image'' @ '' blocked for privacy''
      else plural (Total b) ''image'' @ '' blocked, incl. '' @ plural (TrackingPixels b) ''tracking pixel'')"

section \<open>What sanitising guarantees\<close>

text \<open>Every node below a node.\<close>

fun descendants :: "node list \<Rightarrow> node list" where
  "descendants [] = []"
| "descendants (Node t d attrs cs # rest) = Node t d attrs cs # descendants cs @ descendants rest"

text \<open>What an attribute of a sanitised element may be.\<close>

definition harmless :: "unicode \<Rightarrow> htmllib \<Rightarrow> bool \<Rightarrow> string \<Rightarrow> attribute \<Rightarrow> bool" where
  "harmless u lib loadImages d a \<longleftrightarrow>
     (let name = ToLower u (Key a) in
      \<not> HasPrefix name ''on'' \<and> name \<noteq> ''srcset'' \<and>
      (name = ''src'' \<longrightarrow> loadImages \<and> d = ''img'' \<and> safeImageSource lib (Val a)) \<and>
      (name = ''href'' \<longrightarrow> d = ''a'' \<and> safeLink u (Val a)) \<and>
      (name = ''target'' \<longrightarrow> Val a = ''_blank'') \<and> (name = ''rel'' \<longrightarrow> Val a = ''noopener noreferrer''))"

lemma lower_names [simp]:
  "ToLower u ''src'' = ''src''" "ToLower u ''target'' = ''target''" "ToLower u ''rel'' = ''rel''"
proof -
  have "list_all is_ascii ''src''" "list_all is_ascii ''target''" "list_all is_ascii ''rel''"
    "map ascii_lower ''src'' = ''src''" "map ascii_lower ''target'' = ''target''" "map ascii_lower ''rel'' = ''rel''"
    by code_simp+
  then show "ToLower u ''src'' = ''src''" "ToLower u ''target'' = ''target''" "ToLower u ''rel'' = ''rel''"
    by (simp_all only: ToLower_def if_True)
qed

lemma fold_names [simp]: "\<not> EqualFold u ''target'' ''href''" "\<not> EqualFold u ''rel'' ''href''"
proof -
  have "list_all is_ascii ''href''" "list_all is_ascii ''target''" "list_all is_ascii ''rel''"
    "map ascii_lower ''target'' \<noteq> map ascii_lower ''href''" "map ascii_lower ''rel'' \<noteq> map ascii_lower ''href''"
    by code_simp+
  then show "\<not> EqualFold u ''target'' ''href''" "\<not> EqualFold u ''rel'' ''href''"
    by (simp_all only: EqualFold_def if_True simp_thms)
qed

lemma safeImageSource_trim [simp]: "safeImageSource lib (TrimSpace v) = safeImageSource lib v"
  by (simp add: safeImageSource_def)

lemma keep_attr_harmless:
  assumes "keep_attr u lib load d a = Some b"
  shows "harmless u lib load d b"
  using assms by (auto simp: keep_attr_def harmless_def Let_def HasPrefix_def split: if_splits)

lemma keep_attr_idem:
  assumes "keep_attr u lib load d a = Some b"
  shows "keep_attr u lib load d b = Some b"
  using assms by (auto simp: keep_attr_def Let_def split: if_splits)

lemma keep_linkAttrs: "a \<in> set linkAttrs \<Longrightarrow> keep_attr u lib load d a = None"
  by (auto simp: linkAttrs_def keep_attr_def Let_def)

lemma map_filter_kept:
  assumes "\<And>a b. f a = Some b \<Longrightarrow> f b = Some b"
  shows "List.map_filter f (List.map_filter f xs) = List.map_filter f xs"
  by (induction xs) (auto simp: List.map_filter_def assms split: option.splits)

lemma clean_attrs_kept:
  "List.map_filter (keep_attr u lib load d) (clean_attrs u lib load d as)
   = List.map_filter (keep_attr u lib load d) as"
proof -
  define f where "f = keep_attr u lib load d"
  have l: "List.map_filter f linkAttrs = []"
    by (simp add: List.map_filter_def linkAttrs_def keep_attr_def f_def)
  have k: "List.map_filter f (List.map_filter f as) = List.map_filter f as"
    by (rule map_filter_kept) (simp add: f_def keep_attr_idem)
  have "List.map_filter f (List.map_filter f as @ linkAttrs)
      = List.map_filter f (List.map_filter f as) @ List.map_filter f linkAttrs"
    by (simp add: List.map_filter_def)
  then show ?thesis using k l by (simp add: clean_attrs_def f_def [symmetric] Let_def)
qed

lemma clean_attrs_idem: "clean_attrs u lib load d (clean_attrs u lib load d as) = clean_attrs u lib load d as"
proof -
  have "clean_attrs u lib load d x = clean_attrs u lib load d as"
    if "List.map_filter (keep_attr u lib load d) x = List.map_filter (keep_attr u lib load d) as" for x
    using that by (simp add: clean_attrs_def)
  from this [OF clean_attrs_kept] show ?thesis .
qed

lemma clean_children_idem:
  "clean_children u lib load (clean_children u lib load ns) = clean_children u lib load ns"
  by (induction u lib load ns rule: clean_children.induct) (simp_all add: clean_attrs_idem)

lemma clean_attrs_harmless: "a \<in> set (clean_attrs u lib load d as) \<Longrightarrow> harmless u lib load d a"
proof -
  assume a: "a \<in> set (clean_attrs u lib load d as)"
  show ?thesis
  proof (cases "a \<in> set linkAttrs")
    case True
    then show ?thesis by (auto simp: linkAttrs_def harmless_def HasPrefix_def)
  next
    case False
    with a have "a \<in> set (List.map_filter (keep_attr u lib load d) as)"
      by (auto simp: clean_attrs_def Let_def split: if_splits)
    then show ?thesis by (auto simp: List.map_filter_def intro: keep_attr_harmless)
  qed
qed

lemma clean_attrs_link:
  assumes "hasLink u (clean_attrs u lib load ''a'' as)"
  shows "set linkAttrs \<subseteq> set (clean_attrs u lib load ''a'' as)"
  using assms by (auto simp: clean_attrs_def Let_def split: if_splits)

definition harmless_node :: "unicode \<Rightarrow> htmllib \<Rightarrow> bool \<Rightarrow> node \<Rightarrow> bool" where
  "harmless_node u lib load n \<longleftrightarrow>
     (Type n = ElementNode \<longrightarrow> NData n \<notin> set unsafeElements \<and> list_all (harmless u lib load (NData n)) (Attr n) \<and>
        (NData n = ''a'' \<and> hasLink u (Attr n) \<longrightarrow> set linkAttrs \<subseteq> set (Attr n)))"

lemma clean_children_harmless: "list_all (harmless_node u lib load) (descendants (clean_children u lib load ns))"
proof (induction u lib load ns rule: clean_children.induct)
  case (2 u lib load t d as cs rest)
  have "harmless_node u lib load (Node ElementNode d (clean_attrs u lib load d as) xs)"
    if "d \<notin> set unsafeElements" for xs
    using that clean_attrs_link [of u lib load as]
    by (auto simp: harmless_node_def list_all_iff intro: clean_attrs_harmless)
  moreover have "harmless_node u lib load (Node t d as xs)" if "t \<noteq> ElementNode" for xs
    using that by (simp add: harmless_node_def)
  ultimately show ?case using 2 by (cases "t = ElementNode") auto
qed simp

lemma count_images_le: "TrackingPixels r \<le> Total r \<Longrightarrow> TrackingPixels (count_images u ns r) \<le> Total (count_images u ns r)"
  by (induction u ns r rule: count_images.induct) (simp add: Let_def)+

section \<open>Properties\<close>

text \<open>
  C19. The sanitiser lets nothing dangerous through, whatever document the parser produced: below the
  document there is no script, frame, plugin, link, form, meta or base element; no event handler and
  no source set; a link only on an anchor and only with an allowed scheme, and then with the
  attributes that isolate the opened page; an image source only when images are loaded, and then
  only a remote HTTP address.
\<close>

theorem removeUnsafeHTML_harmless:
  assumes "n \<in> set (descendants (Children (removeUnsafeHTML u lib loadImages doc)))" and "Type n = ElementNode"
  shows "NData n \<notin> set unsafeElements
    \<and> (\<forall>a \<in> set (Attr n). let name = ToLower u (Key a) in
        \<not> HasPrefix name ''on'' \<and> name \<noteq> ''srcset''
        \<and> (name = ''src'' \<longrightarrow> loadImages \<and> NData n = ''img'' \<and> safeImageSource lib (Val a))
        \<and> (name = ''href'' \<longrightarrow> NData n = ''a'' \<and> safeLink u (Val a))
        \<and> (name = ''target'' \<longrightarrow> Val a = ''_blank'') \<and> (name = ''rel'' \<longrightarrow> Val a = ''noopener noreferrer''))
    \<and> (NData n = ''a'' \<and> hasLink u (Attr n) \<longrightarrow> set linkAttrs \<subseteq> set (Attr n))"
proof -
  have "harmless_node u lib loadImages n"
    using clean_children_harmless [of u lib loadImages "Children doc"] assms(1)
    by (simp add: removeUnsafeHTML_def list_all_iff)
  with assms(2) show ?thesis by (simp add: harmless_node_def harmless_def list_all_iff)
qed

text \<open>Sanitising a sanitised document changes nothing.\<close>

lemma removeUnsafeHTML_idempotent:
  "removeUnsafeHTML u lib loadImages (removeUnsafeHTML u lib loadImages doc) = removeUnsafeHTML u lib loadImages doc"
  by (simp add: removeUnsafeHTML_def clean_children_idem)

text \<open>
  The count of blocked images never reports more tracking pixels than images, so the note shown
  to the reader is consistent: it is empty exactly when there is no image.
\<close>

lemma countBlockedImages_consistent:
  "TrackingPixels (countBlockedImages u lib s) \<le> Total (countBlockedImages u lib s)
   \<and> (Label (countBlockedImages u lib s) = [] \<longleftrightarrow> Total (countBlockedImages u lib s) = 0)"
proof -
  have "TrackingPixels (countBlockedImages u lib s) \<le> Total (countBlockedImages u lib s)"
    by (auto simp: countBlockedImages_def Let_def split: option.split intro!: count_images_le)
  then show ?thesis by (auto simp: Label_def plural_def)
qed

section \<open>A concrete document\<close>

definition example_doc :: node where
  "example_doc = Node DocumentNode [] []
     [Node ElementNode ''a'' [\<lparr>Namespace = [], Key = ''href'', Val = ''https://x.org''\<rparr>,
        \<lparr>Namespace = [], Key = ''onclick'', Val = ''f()''\<rparr>] [Node TextNode ''hi'' [] []],
      Node ElementNode ''script'' [] [Node TextNode ''f()'' [] []]]"

definition example_htmllib :: htmllib where
  "example_htmllib = \<lparr>html_Parse = (\<lambda>_. Some example_doc), html_Render = NData, url_Parse = (\<lambda>_. None)\<rparr>"

definition example_link :: attribute where
  "example_link = \<lparr>Namespace = [], Key = ''href'', Val = ''https://x.org''\<rparr>"

lemma example_link_kept:
  "keep_attr plain_unicode lib False ''a'' example_link = Some example_link" "hasLink plain_unicode [example_link]"
proof -
  have t: "TrimSpace ''https://x.org'' = ''https://x.org''" by (rule TrimSpace_same) code_simp+
  have "ToLower plain_unicode ''href'' = ''href''" "HasPrefix (ToLower plain_unicode ''https://x.org'') ''https://''"
    "\<not> HasPrefix ''https://x.org'' ''#''" "EqualFold plain_unicode ''href'' ''href''" "\<not> HasPrefix ''href'' ''on''"
    by code_simp+
  then show "keep_attr plain_unicode lib False ''a'' example_link = Some example_link"
    "hasLink plain_unicode [example_link]"
    by (simp_all add: keep_attr_def hasLink_def safeLink_def example_link_def t)
qed

lemma example_handler_dropped:
  "keep_attr plain_unicode lib False ''a'' \<lparr>Namespace = [], Key = ''onclick'', Val = ''f()''\<rparr> = None"
proof -
  have "HasPrefix (ToLower plain_unicode ''onclick'') ''on''" by code_simp
  then show ?thesis by (simp add: keep_attr_def)
qed

theorem removeUnsafeHTML_harmless_witness:
  "\<exists>n. n \<in> set (descendants (Children (removeUnsafeHTML plain_unicode example_htmllib False example_doc)))
     \<and> NData n = ''a'' \<and> length (Attr n) = 3 \<and> set linkAttrs \<subseteq> set (Attr n)"
proof -
  define n where "n = Node ElementNode ''a'' (example_link # linkAttrs) [Node TextNode ''hi'' [] []]"
  have n: "Type n = ElementNode" "NData n = ''a''" "length (Attr n) = 3" by (simp_all add: n_def linkAttrs_def)
  have 1: "Children (removeUnsafeHTML plain_unicode example_htmllib False example_doc) = [n]"
    by (simp add: removeUnsafeHTML_def example_doc_def unsafeElements_def clean_attrs_def List.map_filter_def
        example_link_kept example_handler_dropped n_def flip: example_link_def)
  have 2: "hasLink plain_unicode (Attr n)" using example_link_kept(2) by (simp add: hasLink_def n_def)
  have 3: "n \<in> set (descendants (Children (removeUnsafeHTML plain_unicode example_htmllib False example_doc)))"
    unfolding 1 by (simp add: n_def)
  have "set linkAttrs \<subseteq> set (Attr n)"
    using removeUnsafeHTML_harmless [OF 3 n(1)] n(2) 2 by blast
  with n 3 show ?thesis by (intro exI [of _ n] conjI)
qed

end
