(* ===== verification/Mime.thy ===== *)
theory Mime
  imports StoreOps Html
begin

text \<open>
  The parts of a message (\<^verbatim>\<open>internal/app/mime.go\<close>): a walk through nested multipart bodies that
  keeps the first plain and the first HTML text and collects every other part as an attachment. What
  the walk asks of the standard library (media types, part boundaries, transfer decodings, character
  sets) is a record of functions.
\<close>

section \<open>The library\<close>

text \<open>
  A reader is the bytes it yields and whether it ends with an error instead of the end of file. The
  parts of a multipart body are those the reader yields before it ends or fails.
\<close>

type_synonym reader = "string \<times> bool"
type_synonym header = "string \<Rightarrow> string"

record mimelib =
  ParseMediaType :: "string \<Rightarrow> (string \<times> (string \<Rightarrow> string)) option"
  multipart_parts :: "reader \<Rightarrow> string \<Rightarrow> (header \<times> reader) list"
  base64_decoder :: "reader \<Rightarrow> reader"
  quotedprintable_reader :: "reader \<Rightarrow> reader"
  charset_Lookup :: "string \<Rightarrow> (string \<Rightarrow> string option) option"
  ml :: maillib
  hl :: htmllib
  un :: unicode

definition io_ReadAll :: "reader \<Rightarrow> string option" where
  "io_ReadAll r = (if snd r then None else Some (fst r))"

section \<open>Parts\<close>

record attachment =
  Index :: nat
  Filename :: string
  ContentType :: string
  ASize :: nat

record mimeParts =
  Plain :: string
  HTML :: string
  Attachments :: "(attachment \<times> string) list"

record parsedEmail =
  Headers :: string
  PText :: string
  PHTML :: string
  PAttachments :: "attachment list"

definition splitRawMessage :: "string \<Rightarrow> string \<times> string" where
  "splitRawMessage raw =
     (case split_first [CHR 13, CHR 10, CHR 13, CHR 10] raw of
        Some (h, b) \<Rightarrow> (h, b)
      | None \<Rightarrow>
          (case split_first [CHR 10, CHR 10] raw of
             Some (h, b) \<Rightarrow> (h, b)
           | None \<Rightarrow> (raw, [])))"

definition decode_word :: "mimelib \<Rightarrow> string \<Rightarrow> string" where
  "decode_word lib v =
     (case DecodeHeader (ml lib) v of None \<Rightarrow> v | Some d \<Rightarrow> if d = [] then v else d)"

definition attachmentFilename :: "mimelib \<Rightarrow> header \<Rightarrow> (string \<Rightarrow> string) \<Rightarrow> string \<times> bool" where
  "attachmentFilename lib h params =
     (let byName = (\<lambda>isAttachment. if params ''name'' \<noteq> [] then (decode_word lib (params ''name''), True)
                                  else ([], isAttachment)) in
      case ParseMediaType lib (h ''Content-Disposition'') of
        None \<Rightarrow> byName False
      | Some (disposition, dparams) \<Rightarrow>
          if dparams ''filename'' \<noteq> [] then (decode_word lib (dparams ''filename''), True)
          else byName (EqualFold (un lib) disposition ''attachment''))"

definition decodeTransferBytes :: "mimelib \<Rightarrow> reader \<Rightarrow> string \<Rightarrow> string option" where
  "decodeTransferBytes lib body encoding =
     (let e = ToLower (un lib) (TrimSpace encoding) in
      io_ReadAll (if e = ''base64'' then base64_decoder lib body
                  else if e = ''quoted-printable'' then quotedprintable_reader lib body else body))"

text \<open>The UTF-8 encoding of U+FFFD.\<close>

definition replacement :: string where
  "replacement = [CHR 0xEF, CHR 0xBF, CHR 0xBD]"

definition decodeText :: "mimelib \<Rightarrow> reader \<Rightarrow> string \<Rightarrow> string \<Rightarrow> string option" where
  "decodeText lib body encoding label =
     (case decodeTransferBytes lib body encoding of
        None \<Rightarrow> None
      | Some raw \<Rightarrow>
          (case charset_Lookup lib (TrimSpace label) of
             None \<Rightarrow> Some (ToValidUTF8 raw replacement)
           | Some decoder \<Rightarrow>
               (case decoder raw of
                  None \<Rightarrow> None
                | Some decoded \<Rightarrow> Some (ToValidUTF8 decoded replacement))))"

text \<open>A part that is not a multipart body.\<close>

definition leaf_part ::
    "mimelib \<Rightarrow> header \<Rightarrow> reader \<Rightarrow> string \<Rightarrow> (string \<Rightarrow> string) \<Rightarrow> nat \<times> mimeParts \<Rightarrow> nat \<times> mimeParts" where
  "leaf_part lib h body mediaType params st =
     (case attachmentFilename lib h params of
        (filename, marked) \<Rightarrow>
          if \<not> (marked \<or> (\<not> HasPrefix mediaType ''text/'' \<and> mediaType \<noteq> [])) then
            (case decodeText lib body (h ''Content-Transfer-Encoding'') (params ''charset'') of
               None \<Rightarrow> st
             | Some content \<Rightarrow>
                 (let lower = ToLower (un lib) mediaType; p = snd st in
                  if lower = ''text/html'' then
                    (fst st, if HTML p = [] then p\<lparr>HTML := content\<rparr> else p)
                  else if lower = ''text/plain'' \<or> lower = [] then
                    (fst st, if Plain p = [] then p\<lparr>Plain := content\<rparr> else p)
                  else st))
          else
            (case decodeTransferBytes lib body (h ''Content-Transfer-Encoding'') of
               None \<Rightarrow> st
             | Some content \<Rightarrow>
                 (let i = fst st;
                      name = (if filename = [] then ''attachment-'' @ Itoa (int i) else filename)
                  in (Suc i, (snd st)\<lparr>Attachments := Attachments (snd st) @
                        [(\<lparr>Index = i, Filename = name, ContentType = mediaType, ASize = length content\<rparr>, content)]\<rparr>))))"

text \<open>
  The walk, with fuel for the nesting depth. \<^term>\<open>None\<close> means the fuel was not enough, which the
  theorem on \<open>walkMIMEParts\<close> below excludes.
\<close>

fun walkMIMEParts :: "nat \<Rightarrow> mimelib \<Rightarrow> header \<Rightarrow> reader \<Rightarrow> nat \<times> mimeParts \<Rightarrow> (nat \<times> mimeParts) option" where
  "walkMIMEParts 0 lib h body st = None"
| "walkMIMEParts (Suc n) lib h body st =
     (case (case ParseMediaType lib (h ''Content-Type'') of
              None \<Rightarrow> (''text/plain'', \<lambda>_. [])
            | Some mp \<Rightarrow> mp) of
        (mediaType, params) \<Rightarrow>
          if HasPrefix mediaType ''multipart/'' then
            foldl (\<lambda>acc part. case acc of None \<Rightarrow> None | Some s \<Rightarrow> walkMIMEParts n lib (fst part) (snd part) s)
              (Some st) (multipart_parts lib body (params ''boundary''))
          else Some (leaf_part lib h body mediaType params st))"

definition no_parts :: mimeParts where
  "no_parts = \<lparr>Plain = [], HTML = [], Attachments = []\<rparr>"

text \<open>The walk over a whole message; each nested body is shorter than the one around it.\<close>

definition message_parts :: "mimelib \<Rightarrow> header \<Rightarrow> string \<Rightarrow> mimeParts" where
  "message_parts lib h body =
     (case walkMIMEParts (Suc (length body)) lib h (body, False) (0, no_parts) of
        None \<Rightarrow> no_parts
      | Some st \<Rightarrow> snd st)"

definition parseEmailWithImages :: "mimelib \<Rightarrow> string \<Rightarrow> bool \<Rightarrow> parsedEmail" where
  "parseEmailWithImages lib raw loadImages =
     (case splitRawMessage raw of
        (headers, fallback) \<Rightarrow>
          (let result = \<lparr>Headers = headers, PText = fallback, PHTML = [], PAttachments = []\<rparr> in
           case ReadMessage (ml lib) raw of
             None \<Rightarrow> result
           | Some (h, body) \<Rightarrow>
               (let parts = message_parts lib h body;
                    r1 = (if Plain parts \<noteq> [] then result\<lparr>PText := Plain parts\<rparr> else result);
                    r2 = r1\<lparr>PHTML := sanitizeHTMLWithImages (un lib) (hl lib) (HTML parts) loadImages\<rparr>;
                    r3 = (if Plain parts = [] \<and> PHTML r2 \<noteq> [] then r2\<lparr>PText := htmlText (hl lib) (PHTML r2)\<rparr> else r2)
                in r3\<lparr>PAttachments := map fst (Attachments parts)\<rparr>)))"

definition parseEmail :: "mimelib \<Rightarrow> string \<Rightarrow> parsedEmail" where
  "parseEmail lib raw = parseEmailWithImages lib raw False"

definition AttachmentContent :: "mimelib \<Rightarrow> string \<Rightarrow> int \<Rightarrow> (attachment \<times> string) option" where
  "AttachmentContent lib raw index =
     (case ReadMessage (ml lib) raw of
        None \<Rightarrow> None
      | Some (h, body) \<Rightarrow> find (\<lambda>p. int (Index (fst p)) = index) (Attachments (message_parts lib h body)))"

section \<open>What the walk keeps\<close>

text \<open>
  Attachments are numbered in document order, their recorded size is the size of their content, and
  the kept texts are valid UTF-8.
\<close>

definition parts_ok :: "nat \<times> mimeParts \<Rightarrow> bool" where
  "parts_ok st \<longleftrightarrow>
     map (Index \<circ> fst) (Attachments (snd st)) = [0..<fst st] \<and>
     (\<forall>p \<in> set (Attachments (snd st)). ASize (fst p) = length (snd p) \<and> Filename (fst p) \<noteq> []) \<and>
     valid_utf8 (Plain (snd st)) \<and> valid_utf8 (HTML (snd st))"

lemma decodeText_valid: "decodeText lib body e l = Some t \<Longrightarrow> valid_utf8 t"
proof -
  have "valid_utf8 replacement" by code_simp
  then show "decodeText lib body e l = Some t \<Longrightarrow> valid_utf8 t"
    by (auto simp: decodeText_def split: option.splits intro: ToValidUTF8_valid_rep)
qed

lemma attachmentFilename_marked: "attachmentFilename lib h params = (name, False) \<Longrightarrow> name = []"
  by (auto simp: attachmentFilename_def Let_def split: option.splits if_splits)

lemma leaf_part_ok:
  assumes "parts_ok st"
  shows "parts_ok (leaf_part lib h body mt params st)"
proof -
  obtain i p where st: "st = (i, p)" by fastforce
  obtain name marked where a: "attachmentFilename lib h params = (name, marked)" by fastforce
  show ?thesis
  proof (cases "marked \<or> (\<not> HasPrefix mt ''text/'' \<and> mt \<noteq> [])")
    case True
    then show ?thesis
      using assms a by (auto simp: leaf_part_def parts_ok_def st Let_def split: option.splits)
  next
    case False
    then show ?thesis
      using assms a decodeText_valid [of lib body "h ''Content-Transfer-Encoding''" "params ''charset''"]
      by (auto simp: leaf_part_def parts_ok_def st Let_def split: option.splits)
  qed
qed

lemma foldl_None: "foldl (\<lambda>acc x. case acc of None \<Rightarrow> None | Some s \<Rightarrow> f x s) None xs = None"
  by (induction xs) auto

lemma foldl_step_inv:
  assumes "foldl (\<lambda>acc x. case acc of None \<Rightarrow> None | Some s \<Rightarrow> f x s) (Some s0) xs = Some s" "P s0"
    and "\<And>x s s'. f x s = Some s' \<Longrightarrow> P s \<Longrightarrow> P s'"
  shows "P s"
  using assms(1,2)
proof (induction xs arbitrary: s0)
  case (Cons x xs)
  show ?case
  proof (cases "f x s0")
    case None
    with Cons.prems(1) foldl_None [of f xs] show ?thesis by simp
  next
    case (Some s1)
    with Cons assms(3) show ?thesis by simp
  qed
qed simp

lemma foldl_step_total:
  assumes "\<And>x s. x \<in> set xs \<Longrightarrow> \<exists>s'. f x s = Some s'"
  shows "\<exists>s. foldl (\<lambda>acc x. case acc of None \<Rightarrow> None | Some s \<Rightarrow> f x s) (Some s0) xs = Some s"
  using assms
proof (induction xs arbitrary: s0)
  case (Cons x xs)
  obtain s1 where "f x s0 = Some s1" using Cons.prems [of x s0] by auto
  with Cons show ?case by simp
qed simp

lemma walkMIMEParts_ok: "walkMIMEParts n lib h body st = Some st' \<Longrightarrow> parts_ok st \<Longrightarrow> parts_ok st'"
proof (induction n arbitrary: h body st st')
  case (Suc n)
  obtain mt params where m: "(case ParseMediaType lib (h ''Content-Type'') of None \<Rightarrow> (''text/plain'', \<lambda>_. [])
      | Some mp \<Rightarrow> mp) = (mt, params)" by fastforce
  show ?case
  proof (cases "HasPrefix mt ''multipart/''")
    case True
    with Suc.prems(1) m have "foldl (\<lambda>acc part. case acc of None \<Rightarrow> None
        | Some s \<Rightarrow> walkMIMEParts n lib (fst part) (snd part) s) (Some st) (multipart_parts lib body (params ''boundary''))
      = Some st'" by simp
    then show ?thesis by (rule foldl_step_inv) (use Suc in blast)+
  next
    case False
    with Suc.prems m show ?thesis by (auto intro: leaf_part_ok)
  qed
qed simp

lemma message_parts_ok: "\<exists>i. parts_ok (i, message_parts lib h body)"
proof -
  have z: "parts_ok (0, no_parts)" by (simp add: parts_ok_def no_parts_def)
  show ?thesis
  proof (cases "walkMIMEParts (Suc (length body)) lib h (body, False) (0, no_parts)")
    case None
    then show ?thesis using z by (auto simp: message_parts_def)
  next
    case (Some st)
    with walkMIMEParts_ok [OF Some z] show ?thesis
      by (intro exI [of _ "fst st"]) (simp add: message_parts_def del: walkMIMEParts.simps)
  qed
qed

section \<open>Properties\<close>

text \<open>
  What the multipart reader documents: a part is a section of the body, without its delimiter.
\<close>

definition parts_shrink :: "mimelib \<Rightarrow> bool" where
  "parts_shrink lib \<longleftrightarrow>
     (\<forall>r bd p. p \<in> set (multipart_parts lib r bd) \<longrightarrow> length (fst (snd p)) < length (fst r))"

text \<open>
  C20. The walk through a message ends, however deeply its parts are nested: fuel above the length of
  the body is always enough, so the walk over a whole message returns.
\<close>

theorem walkMIMEParts_returns:
  assumes "parts_shrink lib" and "length (fst body) < n"
  shows "\<exists>st'. walkMIMEParts n lib h body st = Some st'"
  using assms(2)
proof (induction n arbitrary: h body st)
  case (Suc n)
  obtain mt params where m: "(case ParseMediaType lib (h ''Content-Type'') of None \<Rightarrow> (''text/plain'', \<lambda>_. [])
      | Some mp \<Rightarrow> mp) = (mt, params)" by fastforce
  have "\<exists>s'. walkMIMEParts n lib (fst p) (snd p) s = Some s'"
    if "p \<in> set (multipart_parts lib body (params ''boundary''))" for p s
  proof -
    have "length (fst (snd p)) < length (fst body)" using assms(1) that unfolding parts_shrink_def by blast
    with Suc.prems show ?thesis by (intro Suc.IH) simp
  qed
  from foldl_step_total [of _ "\<lambda>p. walkMIMEParts n lib (fst p) (snd p)", OF this] m show ?case by simp
qed simp

text \<open>
  C21. The attachments shown for a message and the attachment download agree: the attachments of a
  message are numbered from zero in document order, each has a file name, and asking for index \<open>i\<close>
  gives exactly the attachment listed under \<open>i\<close>, with as many bytes as its recorded size, or
  nothing when there is no such index.
\<close>

theorem AttachmentContent_matches_listing:
  "map Index (PAttachments (parseEmailWithImages lib raw load)) = [0..<length (PAttachments (parseEmailWithImages lib raw load))]
   \<and> list_all (\<lambda>a. Filename a \<noteq> []) (PAttachments (parseEmailWithImages lib raw load))
   \<and> (case AttachmentContent lib raw i of
        None \<Rightarrow> i < 0 \<or> int (length (PAttachments (parseEmailWithImages lib raw load))) \<le> i
      | Some (a, content) \<Rightarrow> 0 \<le> i \<and> i < int (length (PAttachments (parseEmailWithImages lib raw load)))
          \<and> a = PAttachments (parseEmailWithImages lib raw load) ! nat i \<and> ASize a = length content)"
proof (cases "ReadMessage (ml lib) raw")
  case None
  then have "PAttachments (parseEmailWithImages lib raw load) = []" "AttachmentContent lib raw i = None"
    by (simp_all add: parseEmailWithImages_def AttachmentContent_def split: prod.split)
  then show ?thesis by auto
next
  case (Some hb)
  obtain h body where hb: "hb = (h, body)" by fastforce
  define as where "as = Attachments (message_parts lib h body)"
  have pa: "PAttachments (parseEmailWithImages lib raw load) = map fst as"
    using Some hb by (simp add: parseEmailWithImages_def as_def Let_def split: prod.split)
  have ac: "AttachmentContent lib raw i = find (\<lambda>p. int (Index (fst p)) = i) as"
    using Some hb by (simp add: AttachmentContent_def as_def)
  obtain k where "parts_ok (k, message_parts lib h body)" using message_parts_ok by blast
  then have ok: "map (Index \<circ> fst) as = [0..<k]" "\<And>p. p \<in> set as \<Longrightarrow> ASize (fst p) = length (snd p) \<and> Filename (fst p) \<noteq> []"
    by (auto simp: parts_ok_def as_def)
  have k: "k = length as" using arg_cong [OF ok(1), of length] by simp
  have idx: "Index (fst (as ! j)) = j" if "j < length as" for j
    using arg_cong [OF ok(1), of "\<lambda>l. l ! j"] that k by simp
  have "case find (\<lambda>p. int (Index (fst p)) = i) as of
      None \<Rightarrow> i < 0 \<or> int (length as) \<le> i
    | Some (a, content) \<Rightarrow> 0 \<le> i \<and> i < int (length as) \<and> a = map fst as ! nat i \<and> ASize a = length content"
  proof (cases "find (\<lambda>p. int (Index (fst p)) = i) as")
    case None
    have "\<not> (0 \<le> i \<and> i < int (length as))"
    proof
      assume "0 \<le> i \<and> i < int (length as)"
      then have j: "nat i < length as" "int (nat i) = i" by auto
      from None have "\<forall>p \<in> set as. int (Index (fst p)) \<noteq> i" by (force simp: find_None_iff)
      with nth_mem [OF j(1)] have "int (Index (fst (as ! nat i))) \<noteq> i" by blast
      with idx [OF j(1)] j(2) show False by simp
    qed
    then show ?thesis using None by auto
  next
    case (Some p)
    then have p: "p \<in> set as" "int (Index (fst p)) = i" by (auto dest!: find_SomeD)
    then obtain j where j: "j < length as" "as ! j = p" by (auto simp: in_set_conv_nth)
    with idx [of j] p have "i = int j" by simp
    then show ?thesis using Some j ok(2) [OF p(1)] by (simp add: case_prod_beta)
  qed
  moreover have "list_all (\<lambda>a. Filename a \<noteq> []) (map fst as)" using ok(2) by (auto simp: list_all_iff)
  moreover have "map Index (map fst as) = [0..<length as]" using ok(1) k by simp
  ultimately show ?thesis unfolding pa ac length_map by blast
qed

text \<open>
  C22. The texts shown to a reader are valid UTF-8 whatever the message declares: the plain and the
  HTML text the walk keeps are well formed for every message.
\<close>

theorem message_parts_valid_text:
  "valid_utf8 (Plain (message_parts lib h body)) \<and> valid_utf8 (HTML (message_parts lib h body))"
  using message_parts_ok [of lib h body] by (auto simp: parts_ok_def)

text \<open>
  Splitting a message loses nothing and cuts at the first blank line: the header block and the
  body with the separator between them are the message, no earlier blank line of that kind exists,
  and a message without a blank line is all header.
\<close>

lemma splitRawMessage_exact:
  assumes "splitRawMessage raw = (h, b)"
  shows "(\<exists>sep \<in> {[CHR 13, CHR 10, CHR 13, CHR 10], [CHR 10, CHR 10]}.
       raw = h @ sep @ b \<and> (\<forall>h' b'. raw = h' @ sep @ b' \<longrightarrow> length h \<le> length h'))
    \<or> (h = raw \<and> b = [] \<and> (\<forall>h' b'. raw \<noteq> h' @ [CHR 10, CHR 10] @ b'))"
proof -
  define crlf where "crlf = [CHR 13, CHR 10, CHR 13, CHR 10]"
  define lf where "lf = [CHR 10, CHR 10]"
  consider "split_first crlf raw = Some (h, b)" | "split_first lf raw = Some (h, b)"
    | "split_first lf raw = None" "h = raw" "b = []"
    using assms by (auto simp: splitRawMessage_def crlf_def lf_def split: option.splits)
  then show ?thesis
  proof cases
    case 1
    then have "raw = h @ crlf @ b" "\<forall>h' b'. raw = h' @ crlf @ b' \<longrightarrow> length h \<le> length h'"
      using split_first_Some split_first_minimal by blast+
    then show ?thesis unfolding crlf_def by blast
  next
    case 2
    then have "raw = h @ lf @ b" "\<forall>h' b'. raw = h' @ lf @ b' \<longrightarrow> length h \<le> length h'"
      using split_first_Some split_first_minimal by blast+
    then show ?thesis unfolding lf_def by blast
  next
    case 3
    with split_first_None [of lf raw] show ?thesis unfolding lf_def by blast
  qed
qed

section \<open>A concrete library\<close>

text \<open>Every part is a multipart body with one part, one byte shorter.\<close>

definition nested_mimelib :: mimelib where
  "nested_mimelib = \<lparr>ParseMediaType = (\<lambda>_. Some (''multipart/mixed'', \<lambda>_. ''b'')),
     multipart_parts = (\<lambda>r bd. case fst r of [] \<Rightarrow> [] | c # cs \<Rightarrow> [(\<lambda>_. [], cs, snd r)]),
     base64_decoder = id, quotedprintable_reader = id, charset_Lookup = (\<lambda>_. None),
     ml = \<lparr>ReadMessage = (\<lambda>raw. Some (\<lambda>_. [], raw)), DecodeHeader = Some\<rparr>,
     hl = example_htmllib, un = plain_unicode\<rparr>"

lemma nested_mimelib_shrinks: "parts_shrink nested_mimelib"
  by (auto simp: parts_shrink_def nested_mimelib_def split: list.splits)

theorem walkMIMEParts_returns_witness:
  "\<exists>st'. walkMIMEParts 3 nested_mimelib (\<lambda>_. []) (''ab'', False) (0, no_parts) = Some st'"
  using walkMIMEParts_returns [OF nested_mimelib_shrinks, of "(''ab'', False)" 3] by simp

end
