(* ===== verification/HttpHandlers.thy ===== *)
theory HttpHandlers
  imports HttpCore SmtpSession Mime
begin

text \<open>
  The handlers of the public HTTP server (\<^verbatim>\<open>internal/app/http.go\<close>) over the store: the API, the
  message views and the inbox page. A body that an encoder or a template would write is a value of
  the type \<open>content\<close>. \<open>handlerlib\<close> holds what the handlers ask of other packages.
\<close>

section \<open>What the handlers write\<close>

record apiSummary =
  sum_Id :: string
  sum_Recipient :: string
  sum_From :: string
  sum_Subject :: string
  sum_Received :: time
  sum_ExpiresAt :: time
  sum_Size :: int

record inboxPage =
  pg_HasMore :: bool
  pg_Limit :: int
  pg_Messages :: "apiSummary list"
  pg_Offset :: int

record apiMessage =
  am_Attachments :: "attachment list"
  am_Body :: string
  am_ExpiresAt :: time
  am_From :: string
  am_Headers :: string
  am_Id :: string
  am_Received :: time
  am_Recipient :: string
  am_Size :: int
  am_Subject :: string

record uiMessage =
  um_Headers :: string
  um_Text :: string
  um_HasHTML :: bool
  um_Attachments :: "attachment list"
  um_BlockedImages :: nat
  um_TrackingPixels :: nat

record inboxMessage =
  im_Message :: message
  im_FromName :: string
  im_FromAddress :: string
  im_OpenURL :: string
  im_Loaded :: bool
  im_Headers :: string
  im_Body :: string
  im_HasHTML :: bool
  im_Images :: blockedImages
  im_Attachments :: "attachment list"

record inboxData =
  in_Name :: string
  in_Address :: string
  in_Error :: string
  in_Messages :: "inboxMessage list"
  in_Offset :: int
  in_HasMore :: bool
  in_NewerOffset :: int
  in_Page :: int
  in_OlderOffset :: int
  in_CountLabel :: string
  in_SelectedID :: string

text \<open>What every page shares.\<close>

record pageChrome =
  CSS :: string
  AssetVersion :: string
  Year :: int
  MessageLifetime :: string

datatype content =
    JSON_page inboxPage
  | JSON_message apiMessage
  | JSON_ui uiMessage
  | Raw_bytes string
  | HTML_privacy pageChrome
  | HTML_inbox inboxData

text \<open>
  \<open>ParseAddress\<close> is \<^verbatim>\<open>mail.ParseAddress\<close> (display name and address), \<open>link_to\<close> the encoding of a
  query and a fragment as a URL, \<open>Quote\<close> is \<^verbatim>\<open>strconv.Quote\<close>.
\<close>

record handlerlib =
  mime :: mimelib
  ParseAddress :: "string \<Rightarrow> (string \<times> string) option"
  link_to :: "(string \<times> string) list \<Rightarrow> string \<Rightarrow> string"
  Quote :: "string \<Rightarrow> string"

type_synonym reply = "content response"

definition respond :: "content \<Rightarrow> reply \<Rightarrow> reply" where
  "respond c w = w\<lparr>rstatus := final_status (rstatus w), rcontent := Some c\<rparr>"

definition setSensitiveResponseHeaders :: "reply \<Rightarrow> reply" where
  "setSensitiveResponseHeaders w = set_header ''Pragma'' ''no-cache'' (set_header ''Cache-Control'' ''no-store, private'' w)"

definition writeJSON :: "content \<Rightarrow> reply \<Rightarrow> reply" where
  "writeJSON c w = respond c (set_header ''Content-Type'' ''application/json; charset=utf-8'' w)"

definition http_NotFound :: "reply \<Rightarrow> reply" where
  "http_NotFound w = http_Error ''404 page not found'' 404 w"

section \<open>The API\<close>

definition defaultPageSize :: int where "defaultPageSize = 25"
definition maxPageSize :: int where "maxPageSize = 100"

definition Healthcheck :: "reply" where
  "Healthcheck = no_response\<lparr>rstatus := 204\<rparr>"

definition toAPISummary :: "message \<Rightarrow> apiSummary" where
  "toAPISummary m = \<lparr>sum_Id = ID m, sum_Recipient = Recipient m, sum_From = From m, sum_Subject = Subject m,
     sum_Received = Received m, sum_ExpiresAt = ExpiresAt m, sum_Size = Size m\<rparr>"

definition ListInboxMessages :: "string \<Rightarrow> int option \<Rightarrow> int option \<Rightarrow> store \<Rightarrow> reply \<times> store" where
  "ListInboxMessages inbox limitParam offsetParam s =
     (let limit = (case limitParam of None \<Rightarrow> defaultPageSize | Some l \<Rightarrow> min (max l 1) maxPageSize);
          offset = (case offsetParam of None \<Rightarrow> 0 | Some n \<Rightarrow> max n 0)
      in case ListPageContext inbox limit offset s of
          (Inl _, s1) \<Rightarrow> (http_Error ''storage error'' 500 no_response, s1)
        | (Inr (messages, hasMore), s1) \<Rightarrow>
            (writeJSON (JSON_page \<lparr>pg_HasMore = hasMore, pg_Limit = limit, pg_Messages = map toAPISummary messages,
                pg_Offset = offset\<rparr>) (setSensitiveResponseHeaders no_response), s1))"

definition GetMessage :: "handlerlib \<Rightarrow> string \<Rightarrow> store \<Rightarrow> reply \<times> store" where
  "GetMessage lib i s =
     (case GetContext i s of
        (Inl e, s1) \<Rightarrow>
          (if e = ErrNoRows then http_NotFound no_response else http_Error ''storage error'' 500 no_response, s1)
      | (Inr m, s1) \<Rightarrow>
          (case splitRawMessage (Body m) of
             (headers, body) \<Rightarrow>
               (writeJSON (JSON_message \<lparr>am_Attachments = PAttachments (parseEmail (mime lib) (Body m)), am_Body = body,
                  am_ExpiresAt = ExpiresAt m, am_From = From m, am_Headers = headers, am_Id = ID m,
                  am_Received = Received m, am_Recipient = Recipient m, am_Size = Size m, am_Subject = Subject m\<rparr>)
                  (setSensitiveResponseHeaders no_response), s1)))"

definition GetMessageAttachment :: "handlerlib \<Rightarrow> string \<Rightarrow> int \<Rightarrow> store \<Rightarrow> reply \<times> store" where
  "GetMessageAttachment lib i index s =
     (case GetContext i s of
        (Inl e, s1) \<Rightarrow>
          (if e = ErrNoRows then http_NotFound no_response else http_Error ''storage error'' 500 no_response, s1)
      | (Inr m, s1) \<Rightarrow>
          (case AttachmentContent (mime lib) (Body m) index of
             None \<Rightarrow> (http_NotFound no_response, s1)
           | Some (a, payload) \<Rightarrow>
               (respond (Raw_bytes payload)
                  (set_header ''Content-Disposition'' (''attachment; filename='' @ Quote lib (Filename a))
                    (set_header ''Content-Type'' (ContentType a) (setSensitiveResponseHeaders no_response))), s1)))"

section \<open>Message views\<close>

text \<open>A cancelled request gets no answer; a missing row is 404; every other error is retryable.\<close>

definition writeUIReadError :: "request \<Rightarrow> goerr \<Rightarrow> reply" where
  "writeUIReadError r e =
     (if ctx_err r (0, 0) then no_response
      else if e = ErrNoRows then http_NotFound no_response
      else http_Error ''storage error'' 500 no_response)"

definition uiMessageHandler :: "handlerlib \<Rightarrow> request \<Rightarrow> string \<Rightarrow> store \<Rightarrow> reply \<times> store" where
  "uiMessageHandler lib r i s =
     (case GetContext i s of
        (Inl e, s1) \<Rightarrow> (writeUIReadError r e, s1)
      | (Inr m, s1) \<Rightarrow>
          if ctx_err r (1, 0) then (no_response, s1)
          else
            (let parsed = parseEmail (mime lib) (Body m);
                 images = countBlockedImages (un (mime lib)) (hl (mime lib)) (PHTML parsed)
             in (writeJSON (JSON_ui \<lparr>um_Headers = Headers parsed, um_Text = PText parsed, um_HasHTML = (PHTML parsed \<noteq> []),
                   um_Attachments = PAttachments parsed, um_BlockedImages = Total images,
                   um_TrackingPixels = TrackingPixels images\<rparr>) (setSensitiveResponseHeaders no_response), s1)))"

definition messageCSP :: "bool \<Rightarrow> string" where
  "messageCSP loadImages =
     ''default-src '' @ quoted ''none'' @ ''; img-src '' @ (if loadImages then ''https: http:'' else quoted ''none'') @
     ''; style-src '' @ quoted ''unsafe-inline'' @ ''; base-uri '' @ quoted ''none'' @ ''; form-action '' @ quoted ''none''"

text \<open>An image that may not load is drawn as a placeholder.\<close>

definition blockedImageCSS :: string where
  "blockedImageCSS = ''img{display:inline-block;background:repeating-linear-gradient(135deg,#f4f4f1 0 6px,#ebebe7 6px 12px);outline:1px dashed #b9b9c0;outline-offset:-1px;color:#6c6c75;font-size:12px}''"

definition renderHTMLMessage :: "string \<Rightarrow> bool \<Rightarrow> string" where
  \<open>renderHTMLMessage html loadImages =
     ''<!doctype html><html><head><meta charset="utf-8"><meta name="color-scheme" content="light"><style>:root{color-scheme:light}html,body{margin:0;background:#fff;color:#1e293b;font:15px/1.5 ui-sans-serif,system-ui,sans-serif}''
     @ (if loadImages then [] else blockedImageCSS) @ ''</style></head><body>'' @ html @ ''</body></html>''\<close>

definition uiHTMLHandler :: "handlerlib \<Rightarrow> request \<Rightarrow> string \<Rightarrow> store \<Rightarrow> reply \<times> store" where
  "uiHTMLHandler lib r i s =
     (case GetContext i s of
        (Inl e, s1) \<Rightarrow> (writeUIReadError r e, s1)
      | (Inr m, s1) \<Rightarrow>
          if ctx_err r (1, 0) then (no_response, s1)
          else
            (let loadImages = (rquery r ''images'' = ''load'');
                 html = PHTML (parseEmailWithImages (mime lib) (Body m) loadImages)
             in if html = [] then (http_NotFound no_response, s1)
                else (respond (Raw_bytes (renderHTMLMessage html loadImages))
                        (set_header ''Content-Security-Policy'' (messageCSP loadImages)
                          (set_header ''Content-Type'' ''text/html; charset=utf-8''
                            (setSensitiveResponseHeaders no_response))), s1)))"

section \<open>The inbox page\<close>

definition pageOffset :: "string \<Rightarrow> int" where
  "pageOffset v = (case Atoi v of None \<Rightarrow> 0 | Some n \<Rightarrow> if n < 0 then 0 else n)"

definition messageCountLabel :: "int \<Rightarrow> int \<Rightarrow> bool \<Rightarrow> string" where
  "messageCountLabel count offset hasMore =
     (let total = wrap64 (offset + count) in
      if hasMore then Itoa total @ ''+ messages'' else if total = 1 then ''1 message'' else Itoa total @ '' messages'')"

definition senderFromHeaders :: "handlerlib \<Rightarrow> string \<Rightarrow> string \<Rightarrow> string \<times> string" where
  "senderFromHeaders lib headers envelope =
     (case ReadMessage (ml (mime lib)) (headers @ [CHR 13, CHR 10, CHR 13, CHR 10]) of
        None \<Rightarrow> ([], envelope)
      | Some (h, _) \<Rightarrow>
          (case ParseAddress lib (h ''From'') of
             None \<Rightarrow> ([], envelope)
           | Some (name, address) \<Rightarrow> (TrimSpace name, address)))"

definition FromLabel :: "inboxMessage \<Rightarrow> string" where
  "FromLabel m = (if im_FromName m \<noteq> [] then im_FromName m
     else if im_FromAddress m \<noteq> [] then im_FromAddress m else ''Unknown sender'')"

definition SubjectLabel :: "inboxMessage \<Rightarrow> string" where
  "SubjectLabel m = (if TrimSpace (Subject (im_Message m)) = [] then ''(no subject)'' else Subject (im_Message m))"

text \<open>Which message is open: the requested one if the page shows it, else the first.\<close>

definition selected_id :: "message list \<Rightarrow> string \<Rightarrow> string" where
  "selected_id messages requested =
     (case messages of
        [] \<Rightarrow> []
      | m # _ \<Rightarrow> if list_ex (\<lambda>x. ID x = requested) messages then requested else ID m)"

definition inbox_item :: "handlerlib \<Rightarrow> string \<Rightarrow> int \<Rightarrow> message \<Rightarrow> inboxMessage" where
  "inbox_item lib name offset m =
     (case senderFromHeaders lib (''From: '' @ From m) (From m) of
        (fromName, fromAddress) \<Rightarrow>
          \<lparr>im_Message = m, im_FromName = fromName, im_FromAddress = fromAddress,
           im_OpenURL = link_to lib ([(''inbox'', name), (''message'', ID m)] @
             (if 0 < offset then [(''offset'', Itoa offset)] else [])) (''m-'' @ ID m),
           im_Loaded = False, im_Headers = [], im_Body = [], im_HasHTML = False,
           im_Images = \<lparr>Total = 0, TrackingPixels = 0\<rparr>, im_Attachments = []\<rparr>)"

definition load_item :: "handlerlib \<Rightarrow> message \<Rightarrow> inboxMessage \<Rightarrow> inboxMessage" where
  "load_item lib full item =
     (let parsed = parseEmail (mime lib) (Body full) in
      item\<lparr>im_Headers := Headers parsed, im_Body := PText parsed, im_HasHTML := (PHTML parsed \<noteq> []),
        im_Images := countBlockedImages (un (mime lib)) (hl (mime lib)) (PHTML parsed),
        im_Attachments := PAttachments parsed, im_Loaded := True\<rparr>)"

text \<open>
  The loop over the messages of the page: the items, or \<open>Inl None\<close> when the request was cancelled,
  or the error of reading the selected message.
\<close>

fun inbox_items ::
    "handlerlib \<Rightarrow> request \<Rightarrow> string \<Rightarrow> int \<Rightarrow> string \<Rightarrow> nat \<Rightarrow> message list \<Rightarrow> store \<Rightarrow>
     (goerr option + inboxMessage list) \<times> store" where
  "inbox_items lib r name offset sel k [] s = (Inr [], s)"
| "inbox_items lib r name offset sel k (m # ms) s =
     (if ctx_err r (2, k) then (Inl None, s)
      else
        (let item = inbox_item lib name offset m in
         case (if ID m = sel then
                 (case GetContext (ID m) s of
                    (res, s1) \<Rightarrow>
                      if ctx_err r (3, k) then (Inl None, s1)
                      else case res of
                          Inl e \<Rightarrow> if e = ErrNoRows then (Inr item, s1) else (Inl (Some e), s1)
                        | Inr full \<Rightarrow> (Inr (load_item lib full item), s1))
               else (Inr item, s)) of
           (Inl e, s1) \<Rightarrow> (Inl e, s1)
         | (Inr item', s1) \<Rightarrow>
             (case inbox_items lib r name offset sel (Suc k) ms s1 of
                (Inl e, s2) \<Rightarrow> (Inl e, s2)
              | (Inr items, s2) \<Rightarrow> (Inr (item' # items), s2))))"

definition empty_inbox :: "string \<Rightarrow> inboxData" where
  "empty_inbox name = \<lparr>in_Name = name, in_Address = [], in_Error = [], in_Messages = [], in_Offset = 0,
     in_HasMore = False, in_NewerOffset = 0, in_Page = 0, in_OlderOffset = 0, in_CountLabel = [], in_SelectedID = []\<rparr>"

definition inboxPageReply :: "inboxData \<Rightarrow> reply" where
  "inboxPageReply data =
     respond (HTML_inbox data) (set_header ''Content-Type'' ''text/html; charset=utf-8'' (setSensitiveResponseHeaders no_response))"

definition renderInbox ::
    "handlerlib \<Rightarrow> request \<Rightarrow> string \<Rightarrow> string \<Rightarrow> int \<Rightarrow> string \<Rightarrow> store \<Rightarrow> reply \<times> store" where
  "renderInbox lib r domain name offset requested s =
     (if name = [] then (if ctx_err r (4, 0) then no_response else inboxPageReply (empty_inbox name), s)
      else if ContainsAny name [CHR ''@'', CHR ''/'', CHR 92] then
        (respond (HTML_inbox ((empty_inbox name)\<lparr>in_Error := ''Enter only the inbox name, without the domain.''\<rparr>))
           (set_header ''Content-Type'' ''text/html; charset=utf-8'' no_response), s)
      else
        (let address = name @ ''@'' @ domain in
         case ListPageContext address defaultPageSize offset s of
           (res, s1) \<Rightarrow>
             if ctx_err r (5, 0) then (no_response, s1)
             else case res of
                 Inl _ \<Rightarrow> (http_Error ''storage error'' 500 no_response, s1)
               | Inr (messages, hasMore) \<Rightarrow>
                   (let sel = selected_id messages requested in
                    case inbox_items lib r name offset sel 0 messages s1 of
                      (Inl None, s2) \<Rightarrow> (no_response, s2)
                    | (Inl (Some _), s2) \<Rightarrow> (http_Error ''storage error'' 500 no_response, s2)
                    | (Inr items, s2) \<Rightarrow>
                        (if ctx_err r (4, 0) then no_response
                         else inboxPageReply ((empty_inbox name)\<lparr>in_Address := address, in_Messages := items,
                           in_Offset := offset, in_HasMore := hasMore, in_NewerOffset := max 0 (wrap64 (offset - defaultPageSize)),
                           in_Page := wrap64 (quot (wrap64 (wrap64 (offset + defaultPageSize) - 1)) defaultPageSize + 1),
                           in_OlderOffset := wrap64 (offset + defaultPageSize),
                           in_CountLabel := messageCountLabel (int (length items)) offset hasMore,
                           in_SelectedID := sel\<rparr>), s2))))"

end
