(* ===== verification/HttpProps.thy ===== *)
theory HttpProps
  imports HttpHandlers
begin

text \<open>
  What the HTTP handlers guarantee: pages and messages are those of the store, an error of the
  storage is never shown as expiry, personal data is never cacheable, and the inbox page is
  consistent with what it lists.
\<close>

section \<open>Reading one message\<close>

definition live_row :: "string \<Rightarrow> store \<Rightarrow> msg_row \<Rightarrow> bool" where
  "live_row i s m \<longleftrightarrow> m \<in> set (t_messages (sdb s)) \<and> m_id m = i \<and> time_Unix (shd (clock s)) < m_expires m"

lemma GetContext_NoRows:
  assumes "db_ok (sdb s)" and "GetContext i s = (Inl ErrNoRows, s')"
  shows "\<not> live_row i s m"
proof
  assume l: "live_row i s m"
  then obtain b where b: "b \<in> set (t_blobs (sdb s))" "b_id b = m_blob m"
    using db_ok_msg_blob [OF assms(1), of m] by (auto simp: live_row_def)
  have "sql_get i (time_Unix (shd (clock s))) (sdb s) = Inr (m, b_path b)"
    using l b unfolding sql_get_Inr [OF assms(1)] by (auto simp: live_row_def)
  with assms(2) show False
    by (auto simp: GetContext_def now_def query_def ext_def os_ReadFile_def split: option.splits)
qed

lemma GetContext_found:
  assumes "store_inv s" and "faults s = sconst None" and "live_row i s m"
  shows "\<exists>body s'. GetContext i s = (Inr (message_of body m), s')"
proof -
  have ok: "db_ok (sdb s)" using assms(1) by (simp add: store_inv_def)
  obtain b where b: "b \<in> set (t_blobs (sdb s))" "b_id b = m_blob m"
    using db_ok_msg_blob [OF ok, of m] assms(3) by (auto simp: live_row_def)
  have g: "sql_get i (time_Unix (shd (clock s))) (sdb s) = Inr (m, b_path b)"
    using assms(3) b unfolding sql_get_Inr [OF ok] by (auto simp: live_row_def)
  obtain c where "content_of s (b_path b) = Some c"
    using assms(1) b(1) by (auto simp: store_inv_def files_ok_def)
  then show ?thesis
    using g assms(2) by (auto simp: GetContext_def now_def query_def ext_def os_ReadFile_def content_of_def)
qed

lemma GetContext_missing:
  assumes "db_ok (sdb s)" and "faults s = sconst None" and "\<nexists>m. live_row i s m"
  shows "\<exists>s'. GetContext i s = (Inl ErrNoRows, s')"
proof -
  have "sql_get i (time_Unix (shd (clock s))) (sdb s) = Inl ErrNoRows"
  proof (cases "sql_get i (time_Unix (shd (clock s))) (sdb s)")
    case (Inl e)
    then show ?thesis by (auto simp: sql_get_def split: option.splits)
  next
    case (Inr mp)
    obtain m p where "mp = (m, p)" by fastforce
    with Inr sql_get_Inr [OF assms(1)] assms(3) show ?thesis by (auto simp: live_row_def)
  qed
  then show ?thesis using assms(2) by (simp add: GetContext_def now_def query_def ext_def)
qed

lemma http_NotFound_status [simp]: "rstatus (http_NotFound w) = 404" "rcontent (http_NotFound w) = rcontent w"
  by (simp_all add: http_NotFound_def)

lemma respond_simps [simp]:
  "rstatus (respond c w) = final_status (rstatus w)" "rcontent (respond c w) = Some c"
  "get_header k (respond c w) = get_header k w"
  by (simp_all add: respond_def get_header_def)

lemma no_response_simps [simp]: "rstatus no_response = 0" "rcontent no_response = None" "get_header k no_response = []"
  by (simp_all add: no_response_def get_header_def)

lemma writeJSON_simps [simp]:
  "rstatus (writeJSON c w) = final_status (rstatus w)" "rcontent (writeJSON c w) = Some c"
  by (simp_all add: writeJSON_def)

lemma sensitive_simps [simp]: "rstatus (setSensitiveResponseHeaders w) = rstatus w"
  by (simp add: setSensitiveResponseHeaders_def)

lemma final_status_simps [simp]: "final_status 0 = 200" "st \<noteq> 0 \<Longrightarrow> final_status st = st"
  by (simp_all add: final_status_def)

section \<open>Properties\<close>


text \<open>
  With a healthy storage \<^verbatim>\<open>GET /api/v1/messages/{id}\<close> answers 200 exactly for the stored,
  unexpired messages and 404 for every other identifier.
\<close>

lemma GetMessage_status:
  assumes "store_inv s" and "faults s = sconst None"
  shows "rstatus (fst (GetMessage lib i s)) =
    (if \<exists>m \<in> set (t_messages (sdb s)). m_id m = i \<and> time_Unix (shd (clock s)) < m_expires m then 200 else 404)"
proof (cases "\<exists>m. live_row i s m")
  case True
  then obtain m body s' where "live_row i s m" "GetContext i s = (Inr (message_of body m), s')"
    using GetContext_found [OF assms] by blast
  then show ?thesis by (auto simp: GetMessage_def live_row_def split: prod.split)
next
  case False
  moreover have "db_ok (sdb s)" using assms(1) by (simp add: store_inv_def)
  ultimately obtain s' where "GetContext i s = (Inl ErrNoRows, s')"
    using GetContext_missing assms(2) by blast
  then show ?thesis using False by (auto simp: GetMessage_def live_row_def)
qed

text \<open>
  The inbox listing of the API clamps what the client asks for and returns exactly the segment of
  the inbox it names: with a healthy storage the answer is 200 with a limit between 1 and 100, a
  non-negative offset, and the unexpired messages of the inbox from that offset on, latest first, at
  most \<open>limit\<close> of them; \<open>hasMore\<close> tells whether more follow.
\<close>

lemma ListInboxMessages_page:
  assumes "faults s = sconst None"
  shows "\<exists>w s' p. ListInboxMessages inbox l off s = (w, s') \<and> rstatus w = 200 \<and> rcontent w = Some (JSON_page p)
    \<and> 1 \<le> pg_Limit p \<and> pg_Limit p \<le> 100 \<and> 0 \<le> pg_Offset p
    \<and> (let rows = inbox_rows (normalizeRecipient (uni s) inbox) (time_Unix (shd (clock s))) (sdb s) in
         pg_Messages p = map (\<lambda>m. toAPISummary (message_of [] m)) (take (nat (pg_Limit p)) (drop (nat (pg_Offset p)) rows))
         \<and> pg_HasMore p = (nat (pg_Offset p) + nat (pg_Limit p) < length rows))"
proof -
  define limit where "limit = (case l of None \<Rightarrow> defaultPageSize | Some l \<Rightarrow> min (max l 1) maxPageSize)"
  define offset where "offset = (case off of None \<Rightarrow> 0 | Some n \<Rightarrow> max n 0)"
  have b: "1 \<le> limit" "limit \<le> 100" "0 \<le> offset"
    by (auto simp: limit_def offset_def defaultPageSize_def maxPageSize_def split: option.split)
  define rows where "rows = inbox_rows (normalizeRecipient (uni s) inbox) (time_Unix (shd (clock s))) (sdb s)"
  obtain s' where lp: "ListPageContext inbox limit offset s =
      (Inr (map (message_of []) (take (nat limit) (drop (nat offset) rows)), nat offset + nat limit < length rows), s')"
    using ListPageContext_page [OF assms, of limit offset inbox] b unfolding rows_def [symmetric] Let_def
    by (metis order_trans prod.collapse zero_le_one)
  have "ListInboxMessages inbox l off s =
      (writeJSON (JSON_page \<lparr>pg_HasMore = (nat offset + nat limit < length rows), pg_Limit = limit,
         pg_Messages = map toAPISummary (map (message_of []) (take (nat limit) (drop (nat offset) rows))),
         pg_Offset = offset\<rparr>) (setSensitiveResponseHeaders no_response), s')"
    unfolding ListInboxMessages_def limit_def [symmetric] offset_def [symmetric] Let_def lp by simp
  then show ?thesis using b by (simp add: rows_def [symmetric] Let_def comp_def)
qed

text \<open>
  C27. Personal data is never cacheable: every 200 answer of the API and of the message views, and
  every inbox page with an address, carries \<^verbatim>\<open>Cache-Control: no-store, private\<close>.
\<close>

theorem mail_responses_not_cacheable:
  "(\<forall>w \<in> {fst (ListInboxMessages inbox l off s), fst (GetMessage lib i s), fst (GetMessageAttachment lib i k s),
       fst (uiMessageHandler lib r i s), fst (uiHTMLHandler lib r i s)}.
      rstatus w = 200 \<longrightarrow> get_header ''Cache-Control'' w = ''no-store, private'')
   \<and> (case rcontent (fst (renderInbox lib r domain name offset requested s)) of
        Some (HTML_inbox d) \<Rightarrow> in_Error d = [] \<longrightarrow>
          get_header ''Cache-Control'' (fst (renderInbox lib r domain name offset requested s)) = ''no-store, private''
      | _ \<Rightarrow> True)"
proof -
  have j: "get_header ''Cache-Control'' (writeJSON c (setSensitiveResponseHeaders w)) = ''no-store, private''" for c w
    by (simp add: writeJSON_def setSensitiveResponseHeaders_def)
  have p: "get_header ''Cache-Control'' (inboxPageReply d) = ''no-store, private''" for d
    by (simp add: inboxPageReply_def setSensitiveResponseHeaders_def)
  have "rstatus (fst (ListInboxMessages inbox l off s)) = 200 \<longrightarrow>
      get_header ''Cache-Control'' (fst (ListInboxMessages inbox l off s)) = ''no-store, private''"
    by (simp add: ListInboxMessages_def Let_def j split: prod.split sum.split)
  moreover have "rstatus (fst (GetMessage lib i s)) = 200 \<longrightarrow>
      get_header ''Cache-Control'' (fst (GetMessage lib i s)) = ''no-store, private''"
    by (simp add: GetMessage_def j split: prod.split sum.split)
  moreover have "rstatus (fst (GetMessageAttachment lib i k s)) = 200 \<longrightarrow>
      get_header ''Cache-Control'' (fst (GetMessageAttachment lib i k s)) = ''no-store, private''"
    by (simp add: GetMessageAttachment_def setSensitiveResponseHeaders_def split: prod.split sum.split option.split)
  moreover have "rstatus (fst (uiMessageHandler lib r i s)) = 200 \<longrightarrow>
      get_header ''Cache-Control'' (fst (uiMessageHandler lib r i s)) = ''no-store, private''"
    by (simp add: uiMessageHandler_def writeUIReadError_def Let_def j split: prod.split sum.split)
  moreover have "rstatus (fst (uiHTMLHandler lib r i s)) = 200 \<longrightarrow>
      get_header ''Cache-Control'' (fst (uiHTMLHandler lib r i s)) = ''no-store, private''"
    by (simp add: uiHTMLHandler_def writeUIReadError_def Let_def setSensitiveResponseHeaders_def split: prod.split sum.split)
  moreover have "case rcontent (fst (renderInbox lib r domain name offset requested s)) of
        Some (HTML_inbox d) \<Rightarrow> in_Error d = [] \<longrightarrow>
          get_header ''Cache-Control'' (fst (renderInbox lib r domain name offset requested s)) = ''no-store, private''
      | _ \<Rightarrow> True"
    by (auto simp: renderInbox_def Let_def p split: prod.split sum.split option.split content.split)
  ultimately show ?thesis by blast
qed

section \<open>The inbox page\<close>

lemma ListPageContext_length:
  assumes "ListPageContext rcpt l off s = (Inr (ms, hm), s')" "0 \<le> l"
  shows "int (length ms) \<le> l"
  using assms
  by (auto simp: ListPageContext_def Let_def now_def split: prod.splits sum.splits if_splits)

lemma inbox_item_simps [simp]: "im_Message (inbox_item lib name offset m) = m" "\<not> im_Loaded (inbox_item lib name offset m)"
  by (simp_all add: inbox_item_def split: prod.split)

lemma load_item_message [simp]: "im_Message (load_item lib full item) = im_Message item"
  by (simp add: load_item_def Let_def)

lemma inbox_items_spec:
  assumes "inbox_items lib r name offset sel k ms s = (Inr items, s')"
  shows "map im_Message items = ms \<and> (\<forall>x \<in> set items. im_Loaded x \<longrightarrow> ID (im_Message x) = sel)"
  using assms
proof (induction ms arbitrary: k s items s')
  case Nil
  then show ?case by simp
next
  case (Cons m ms)
  define head where "head = (if ID m = sel then
       (case GetContext (ID m) s of
          (res, s1) \<Rightarrow>
            if ctx_err r (3, k) then (Inl None, s1)
            else case res of
                Inl e \<Rightarrow> if e = ErrNoRows then (Inr (inbox_item lib name offset m), s1) else (Inl (Some e), s1)
              | Inr full \<Rightarrow> (Inr (load_item lib full (inbox_item lib name offset m)), s1))
     else (Inr (inbox_item lib name offset m), s))"
  obtain y s1 where h: "head = (y, s1)" by fastforce
  have eq: "inbox_items lib r name offset sel k (m # ms) s =
      (if ctx_err r (2, k) then (Inl None, s)
       else case head of (Inl e, s1) \<Rightarrow> (Inl e, s1)
         | (Inr item', s1) \<Rightarrow>
             (case inbox_items lib r name offset sel (Suc k) ms s1 of
                (Inl e, s2) \<Rightarrow> (Inl e, s2)
              | (Inr items, s2) \<Rightarrow> (Inr (item' # items), s2)))"
    by (simp add: head_def Let_def)
  obtain x rest s2 where x: "y = Inr x" "inbox_items lib r name offset sel (Suc k) ms s1 = (Inr rest, s2)" "items = x # rest"
    using Cons.prems unfolding eq h by (auto split: if_splits sum.splits prod.splits)
  have "im_Message x = m \<and> (im_Loaded x \<longrightarrow> ID m = sel)"
    using h x(1) by (auto simp: head_def split: if_splits sum.splits prod.splits)
  with Cons.IH [OF x(2)] x(3) show ?case by auto
qed

lemma selected_id_spec:
  "(ms = [] \<longrightarrow> selected_id ms req = []) \<and> (ms \<noteq> [] \<longrightarrow> selected_id ms req \<in> ID ` set ms)
   \<and> (req \<in> ID ` set ms \<longrightarrow> selected_id ms req = req)"
  by (auto simp: selected_id_def list_ex_iff split: list.split)

text \<open>
  The inbox page is consistent: it lists at most 25 messages of the address, the open message is
  one of those listed (the requested one if it is listed, none if the list is empty), no other
  message's body was loaded, and the page number and the links to newer and older pages are those
  of the offset, for every offset that leaves room for one more page in 64 bits.
\<close>

lemma renderInbox_consistent:
  assumes "renderInbox lib r domain name offset requested s = (w, s')" and "rcontent w = Some (HTML_inbox d)"
    and "name \<noteq> []" and "in_Error d = []" and "0 \<le> offset" and "offset < 2 ^ 63 - 25"
  shows "in_Address d = name @ ''@'' @ domain \<and> length (in_Messages d) \<le> 25
    \<and> (in_Messages d = [] \<longrightarrow> in_SelectedID d = [])
    \<and> (in_Messages d \<noteq> [] \<longrightarrow> in_SelectedID d \<in> (ID \<circ> im_Message) ` set (in_Messages d))
    \<and> (requested \<in> (ID \<circ> im_Message) ` set (in_Messages d) \<longrightarrow> in_SelectedID d = requested)
    \<and> (\<forall>x \<in> set (in_Messages d). im_Loaded x \<longrightarrow> ID (im_Message x) = in_SelectedID d)
    \<and> in_Page d = (offset + 24) div 25 + 1 \<and> in_NewerOffset d = max 0 (offset - 25) \<and> in_OlderOffset d = offset + 25"
proof -
  obtain res s1 where l: "ListPageContext (name @ ''@'' @ domain) defaultPageSize offset s = (res, s1)" by fastforce
  have bad: "\<not> ContainsAny name [CHR ''@'', CHR ''/'', CHR 92]"
    using assms(1-4) by (auto simp: renderInbox_def)
  obtain ms hm where res: "res = Inr (ms, hm)"
    using assms(1,2,3) bad l by (cases res) (auto simp: renderInbox_def Let_def split: if_splits)
  define sel where "sel = selected_id ms requested"
  obtain y s2 where it: "inbox_items lib r name offset sel 0 ms s1 = (y, s2)" by fastforce
  obtain items where items: "y = Inr items"
    using assms(1,2,3) bad l res it
    by (cases y) (auto simp: renderInbox_def Let_def sel_def [symmetric] split: if_splits option.splits)
  have d: "d = (empty_inbox name)\<lparr>in_Address := name @ ''@'' @ domain, in_Messages := items,
       in_Offset := offset, in_HasMore := hm, in_NewerOffset := max 0 (wrap64 (offset - defaultPageSize)),
       in_Page := wrap64 (quot (wrap64 (wrap64 (offset + defaultPageSize) - 1)) defaultPageSize + 1),
       in_OlderOffset := wrap64 (offset + defaultPageSize),
       in_CountLabel := messageCountLabel (int (length items)) offset hm, in_SelectedID := sel\<rparr>"
    using assms(1,2,3) bad l res it items
    by (auto simp: renderInbox_def Let_def sel_def [symmetric] inboxPageReply_def split: if_splits)
  have len: "int (length ms) \<le> 25" using ListPageContext_length [OF l [unfolded res]] by (simp add: defaultPageSize_def)
  have im: "map im_Message items = ms" "\<forall>x \<in> set items. im_Loaded x \<longrightarrow> ID (im_Message x) = sel"
    using inbox_items_spec [OF it [unfolded items]] by auto
  have "(ID \<circ> im_Message) ` set items = ID ` set ms" using im(1) by (metis image_comp list.set_map)
  moreover have "items = [] \<longleftrightarrow> ms = []" "length items \<le> 25" using im(1) len by auto
  moreover note selected_id_spec [of ms requested, folded sel_def]
  moreover have "wrap64 (offset + 25) = offset + 25" "wrap64 (offset - 25) = offset - 25" "wrap64 (offset + 24) = offset + 24"
    "wrap64 ((offset + 24) div 25 + 1) = (offset + 24) div 25 + 1"
    using assms(5,6) by (auto intro!: wrap64_id)
  moreover have "quot (offset + 24) 25 = (offset + 24) div 25" using assms(5) by (simp add: quot_nonneg)
  moreover have "in_Address d = name @ ''@'' @ domain" "in_Messages d = items" "in_SelectedID d = sel"
    "in_Page d = wrap64 (quot (wrap64 (wrap64 (offset + 25) - 1)) 25 + 1)" "in_OlderOffset d = wrap64 (offset + 25)"
    "in_NewerOffset d = max 0 (wrap64 (offset - 25))"
    by (simp_all add: d defaultPageSize_def)
  moreover have "offset + 25 - 1 = offset + 24" by simp
  ultimately show ?thesis using im(2) by presburger
qed

section \<open>Concrete instances\<close>

definition example_handlerlib :: handlerlib where
  "example_handlerlib = \<lparr>mime = nested_mimelib, ParseAddress = (\<lambda>_. None), link_to = (\<lambda>_ f. f), Quote = id\<rparr>"

lemma empty_store_get: "GetContext i empty_store = (Inl ErrNoRows, empty_store)"
  by (simp add: GetContext_def now_def query_def ext_def sql_get_def empty_store_def empty_db_def)

lemma empty_store_list: "ListPageContext rcpt 25 0 empty_store = (Inr ([], False), empty_store)"
  by (simp add: ListPageContext_def now_def query_rows_def query_def ext_def sql_list_def limit_offset_def
      inbox_rows_def empty_store_def empty_db_def Let_def)


theorem mail_responses_not_cacheable_witness:
  "rstatus (fst (ListInboxMessages ''b@t.io'' None None empty_store)) = 200
   \<and> get_header ''Cache-Control'' (fst (ListInboxMessages ''b@t.io'' None None empty_store)) = ''no-store, private''"
proof -
  have "rstatus (fst (ListInboxMessages ''b@t.io'' None None empty_store)) = 200"
    by (simp add: ListInboxMessages_def defaultPageSize_def empty_store_list)
  with mail_responses_not_cacheable [of "''b@t.io''" None None empty_store] show ?thesis by blast
qed

end
