(* ===== verification/HttpServer.thy ===== *)
theory HttpServer
  imports HttpProps
begin

text \<open>
  The small handlers of \<^verbatim>\<open>internal/app/http.go\<close> and \<^verbatim>\<open>internal/app/ui.go\<close> (assets, API specification,
  inbox shortcut, lifetime label) and the composition of the public server (\<^verbatim>\<open>NewHTTPServer\<close>): the
  request multiplexer inside the security headers, the request limit, the rate limit, the access log
  and, where enabled, the analytics wrapper.
\<close>

section \<open>Assets\<close>

definition uiVersion_of :: "string \<Rightarrow> string" where
  "uiVersion_of digest = take 12 digest"

text \<open>\<^verbatim>\<open>assetVersion\<close>: \<open>sha256hex\<close> is the hexadecimal SHA-256 of the concatenated assets.\<close>

definition assetVersion :: "(string \<Rightarrow> string) \<Rightarrow> string list \<Rightarrow> string" where
  "assetVersion sha256hex assets = uiVersion_of (sha256hex (concat assets))"

definition serveUIAsset :: "string \<Rightarrow> string \<Rightarrow> 'c \<Rightarrow> request \<Rightarrow> 'c response" where
  "serveUIAsset uiVersion contentType asset r =
     (set_header ''Cache-Control'' (if rquery r ''v'' = uiVersion then ''public, max-age=31536000, immutable'' else ''no-cache'')
       (set_header ''Content-Type'' contentType no_response))\<lparr>rstatus := 200, rcontent := Some asset\<rparr>"

definition faviconNames :: "string list" where
  "faviconNames = [''favicon.ico'', ''favicon-16x16.png'', ''favicon-32x32.png'', ''apple-touch-icon.png'',
     ''android-chrome-192x192.png'', ''android-chrome-512x512.png'', ''site.webmanifest'']"

text \<open>\<open>asset\<close> is the embedded file, \<^const>\<open>None\<close> where it cannot be read.\<close>

definition serveFaviconAsset :: "string \<Rightarrow> 'c option \<Rightarrow> 'c response" where
  "serveFaviconAsset name asset =
     (case asset of
        None \<Rightarrow> http_Error ''favicon unavailable'' 500 no_response
      | Some a \<Rightarrow>
          (set_header ''Content-Type''
             (if name = ''favicon.ico'' then ''image/x-icon''
              else if name = ''site.webmanifest'' then ''application/manifest+json'' else ''image/png'') no_response)
            \<lparr>rstatus := 200, rcontent := Some a\<rparr>)"

definition serveAPISpec :: "'c option \<Rightarrow> 'c response" where
  "serveAPISpec spec =
     (case spec of
        None \<Rightarrow> http_Error ''API specification unavailable'' 500 no_response
      | Some a \<Rightarrow> (set_header ''Content-Type'' ''application/vnd.oai.openapi+json;version=3.1'' no_response)
            \<lparr>rstatus := 200, rcontent := Some a\<rparr>)"

text \<open>
  \<^verbatim>\<open>GET /{inbox}\<close> redirects to the inbox page; \<open>root_url\<close> encodes the query of the request with the
  inbox set to the path segment.
\<close>

definition inboxShortcut :: "(request \<Rightarrow> string \<Rightarrow> string) \<Rightarrow> string \<Rightarrow> request \<Rightarrow> 'c response" where
  "inboxShortcut root_url inbox r =
     (set_header ''Content-Type'' ''text/html; charset=utf-8'' (set_header ''Location'' (root_url r inbox) no_response))
       \<lparr>rstatus := 302\<rparr>"

section \<open>The lifetime label\<close>

definition unit_part :: "int \<Rightarrow> string \<Rightarrow> string list \<times> int \<Rightarrow> string list \<times> int" where
  "unit_part unit name pt =
     (case pt of (parts, ttl) \<Rightarrow>
        (let count = quot ttl unit in
         if 0 < count then (parts @ [Itoa count @ '' '' @ (if count \<noteq> 1 then name @ ''s'' else name)], ttl - count * unit)
         else (parts, ttl)))"

text \<open>\<open>FormatSeconds\<close> is \<^verbatim>\<open>strconv.FormatFloat(ttl.Seconds(), 'f', -1, 64)\<close>.\<close>

definition second :: int where "second = 1000000000"

definition messageLifetimeLabel :: "(int \<Rightarrow> string) \<Rightarrow> int \<Rightarrow> string" where
  "messageLifetimeLabel FormatSeconds ttl0 =
     (case unit_part (60 * second) ''minute'' (unit_part (3600 * second) ''hour'' (unit_part (86400 * second) ''day'' ([], ttl0))) of
        (parts, ttl) \<Rightarrow>
          Join (if 0 < ttl \<or> parts = []
                then parts @ [FormatSeconds ttl @ '' '' @ (if ttl = second then ''second'' else ''seconds'')]
                else parts) CHR '' '')"

text \<open>The chrome of a page: the style sheet, the version of the assets and the year are arguments.\<close>

definition newPageChrome :: "string \<Rightarrow> string \<Rightarrow> int \<Rightarrow> pageChrome" where
  "newPageChrome uiCSS uiVersion year = \<lparr>CSS = uiCSS, AssetVersion = uiVersion, Year = year, MessageLifetime = []\<rparr>"

definition publicPageChrome :: "string \<Rightarrow> string \<Rightarrow> int \<Rightarrow> (int \<Rightarrow> string) \<Rightarrow> int \<Rightarrow> pageChrome" where
  "publicPageChrome uiCSS uiVersion year FormatSeconds ttl =
     (newPageChrome uiCSS uiVersion year)\<lparr>MessageLifetime := messageLifetimeLabel FormatSeconds ttl\<rparr>"

section \<open>The public server\<close>

definition public_server ::
    "unicode \<Rightarrow> (string \<Rightarrow> string) \<Rightarrow> (string \<Rightarrow> string option) \<Rightarrow> (string \<Rightarrow> 'l \<Rightarrow> bool \<times> 'l) \<Rightarrow> config \<Rightarrow>
     ('c, chan \<times> 's) handler \<Rightarrow> int \<Rightarrow> request \<Rightarrow> string list \<times> 'l \<times> chan \<times> 's \<Rightarrow>
     'c response \<times> string list \<times> 'l \<times> chan \<times> 's" where
  "public_server u quote parseIP reached conf mux elapsedMS =
     requestLogger u quote
       (rateLimitPerIP parseIP reached (limitHTTPRequests (MaxHTTPRequests conf) (securityHeaders mux)) (HTTPRateLimitIPHeader conf))
       (HTTPAccessLogMode conf) (HTTPLogHeaders conf) elapsedMS"

lemma fold_set_header:
  "get_header k (fold (\<lambda>p. set_header (fst p) (snd p)) hs w) =
     (case map_of (rev hs) k of None \<Rightarrow> get_header k w | Some v \<Rightarrow> v)"
  by (induction hs arbitrary: w) (auto simp: map_add_def split: option.splits)

lemma securityHeaders_default:
  assumes "securityHeaders next r s = (w, s')"
  shows "\<exists>resp. next r s = (resp, s') \<and> rstatus w = rstatus resp \<and> rcontent w = rcontent resp \<and>
    (''X-Content-Type-Options'' \<notin> fst ` set (rheaders resp) \<longrightarrow> get_header ''X-Content-Type-Options'' w = ''nosniff'') \<and>
    (''Content-Security-Policy'' \<notin> fst ` set (rheaders resp) \<longrightarrow> get_header ''Content-Security-Policy'' w = defaultCSP)"
proof -
  obtain resp s1 where n: "next r s = (resp, s1)" by fastforce
  define w0 :: "'a response" where "w0 = set_header ''Content-Security-Policy'' defaultCSP
    (set_header ''Referrer-Policy'' ''no-referrer'' (set_header ''X-Content-Type-Options'' ''nosniff'' no_response))"
  have w: "w = resp\<lparr>rheaders := rheaders (fold (\<lambda>p. set_header (fst p) (snd p)) (rheaders resp) w0)\<rparr>" "s' = s1"
    using assms n unfolding securityHeaders_def Let_def w0_def [symmetric] by simp_all
  have g: "get_header k w = get_header k w0" if "k \<notin> fst ` set (rheaders resp)" for k
  proof -
    have "get_header k w = get_header k (fold (\<lambda>p. set_header (fst p) (snd p)) (rheaders resp) w0)"
      unfolding w by (simp add: get_header_def)
    moreover have "map_of (rev (rheaders resp)) k = None" using that by (simp add: map_of_eq_None_iff)
    ultimately show ?thesis by (simp add: fold_set_header)
  qed
  have "get_header ''X-Content-Type-Options'' w0 = ''nosniff''" "get_header ''Content-Security-Policy'' w0 = defaultCSP"
    unfolding w0_def by simp_all
  with g n w show ?thesis by simp
qed



end
