(* ===== verification/AdminServer.thy ===== *)
theory AdminServer
  imports AdminProps SmtpServer HttpServer StoreSteps
begin

text \<open>
  The status document and the handlers of the admin server (\<^verbatim>\<open>status\<close> and the handlers registered by
  \<^verbatim>\<open>NewAdminServer\<close> in \<^verbatim>\<open>internal/app/admin.go\<close>); the server itself is in \<open>AdminRoutes\<close>.
\<close>

section \<open>Status\<close>

record analyticsStatus =
  an_Enabled :: bool
  an_Available :: bool
  an_StorageBytes :: int
  an_MaxStorageBytes :: int
  an_Retention :: int
  an_EarliestEvent :: "int option"
  an_LastIngested :: "time option"
  an_Lag :: int
  an_DroppedEvents :: nat
  an_WriteErrors :: nat
  an_EarlyEvictedEvents :: nat

text \<open>Durations are nanoseconds; the document shows hours and seconds.\<close>

definition Snapshot :: "analytics \<Rightarrow> analyticsStatus \<times> analytics" where
  "Snapshot a =
     (case Snapshot_lag a of
        (lag, a1) \<Rightarrow>
          (\<lparr>an_Enabled = enabled a, an_Available = available a, an_StorageBytes = storageBytes a, an_MaxStorageBytes = maxStorage a,
            an_Retention = eventTTL a, an_EarliestEvent = earliestEvent a, an_LastIngested = lastIngested a, an_Lag = lag,
            an_DroppedEvents = dropped a, an_WriteErrors = writeErrors a, an_EarlyEvictedEvents = earlyEvicted a\<rparr>, a1))"

record adminSettings =
  set_rateLimitRPS :: float64
  set_rateLimitBurst :: int
  set_httpConcurrency :: int
  set_clientIPHeader :: string
  set_smtpPerIP :: int
  set_smtpRecipients :: int
  set_maxMessageBytes :: int
  set_messageTTL :: int
  set_accessLogMode :: string
  set_logHeaders :: "string list"
  set_metricsEnabled :: bool
  set_metricsAddr :: string

definition effective_settings :: "config \<Rightarrow> adminSettings" where
  "effective_settings conf =
     \<lparr>set_rateLimitRPS = (if le_zero (HTTPRateLimitRPS conf) then FFin (of_int defaultRateLimitRPS) else HTTPRateLimitRPS conf),
      set_rateLimitBurst = (if HTTPRateLimitBurst conf \<le> 0 then defaultRateLimitBurst else HTTPRateLimitBurst conf),
      set_httpConcurrency = MaxHTTPRequests conf, set_clientIPHeader = HTTPRateLimitIPHeader conf,
      set_smtpPerIP = MaxSMTPConnectionsPerIP conf,
      set_smtpRecipients = (if MaxSMTPRecipients conf = 0 then 5 else MaxSMTPRecipients conf),
      set_maxMessageBytes = MaxMessageBytes conf, set_messageTTL = MessageTTL conf,
      set_accessLogMode = (if HTTPAccessLogMode conf = [] then ''off'' else HTTPAccessLogMode conf),
      set_logHeaders = HTTPLogHeaders conf, set_metricsEnabled = MetricsEnabled conf, set_metricsAddr = MetricsAddr conf\<rparr>"

text \<open>What the Go runtime says of the process.\<close>

record processReadings =
  rd_now :: time
  rd_uptime :: int
  rd_memory :: int
  rd_goroutines :: int

record adminStatus =
  as_process :: processReadings
  as_retention :: int
  as_storageBudget :: int
  as_messageStorageBudget :: int
  as_settings :: adminSettings
  as_store :: "storeStatus option"
  as_smtp :: "smtpRuntimeStatus option"
  as_analytics :: "analyticsStatus option"
  as_tls :: "serviceStatus \<times> serviceStatus"

text \<open>
  The services the admin server looks at. \<open>status\<close> may reload certificate files: the SMTP server and the
  web reloader come back as it leaves them. \<open>obs\<close> are the looks at the files, of the SMTP status first.
\<close>

record adminServer =
  adm_cfg :: config
  adm_store :: "store option"
  adm_smtp :: "smtpServer option"
  adm_analytics :: "analytics option"
  adm_automatic :: "autoTLS option"
  adm_manualWeb :: "reloader option"

definition no_autoTLS :: autoTLS where
  "no_autoTLS = \<lparr>webDomain = [], mailDomain = [], webEnabled = False, smtpEnabled = False, domains = [],
     certs = Map.empty, ready_closed = False\<rparr>"

definition files_of :: "smtpServer option \<Rightarrow> reloader option" where
  "files_of smtp = (case smtp of None \<Rightarrow> None | Some s \<Rightarrow> (case s_tlsCert s of Some (ProvideFiles r) \<Rightarrow> Some r | _ \<Rightarrow> None))"

definition with_files :: "reloader option \<Rightarrow> smtpServer option \<Rightarrow> smtpServer option" where
  "with_files r smtp =
     (case (r, smtp) of
        (Some x, Some s) \<Rightarrow> (case s_tlsCert s of Some (ProvideFiles _) \<Rightarrow> Some (s\<lparr>s_tlsCert := Some (ProvideFiles x)\<rparr>) | _ \<Rightarrow> smtp)
      | _ \<Rightarrow> smtp)"

definition status ::
    "certinfo \<Rightarrow> processReadings \<Rightarrow> obs \<times> obs \<times> obs \<Rightarrow> time stream \<Rightarrow> adminServer \<Rightarrow> adminStatus \<times> adminServer" where
  "status info rd obs ts s =
     (let conf = adm_cfg s;
          smtp_read = (case adm_smtp s of
              None \<Rightarrow> (None, None, ts)
            | Some x \<Rightarrow> (case SMTP_RuntimeStatus x (case adm_automatic s of None \<Rightarrow> no_autoTLS | Some a \<Rightarrow> a) (fst obs) ts of
                (st, x1, ts1) \<Rightarrow> (Some st, Some x1, ts1)));
          an_read = (case adm_analytics s of None \<Rightarrow> (None, None) | Some a \<Rightarrow> (case Snapshot a of (st, a1) \<Rightarrow> (Some st, Some a1)));
          smtp1 = fst (snd smtp_read); ts1 = snd (snd smtp_read)
      in case tlsOverview info conf \<lparr>src_Automatic = adm_automatic s, src_ManualWeb = adm_manualWeb s, src_smtpCert = files_of smtp1\<rparr>
             (snd obs) (shd ts1, shd (stl ts1)) of
           (tls, src) \<Rightarrow>
             (\<lparr>as_process = rd, as_retention = AnalyticsEventTTL conf, as_storageBudget = AnalyticsMaxStorageBytes conf,
               as_messageStorageBudget = MaxStorageBytes conf, as_settings = effective_settings conf,
               as_store = map_option Status (adm_store s), as_smtp = fst smtp_read, as_analytics = fst an_read, as_tls = tls\<rparr>,
              s\<lparr>adm_smtp := with_files (src_smtpCert src) smtp1, adm_analytics := snd an_read, adm_manualWeb := src_ManualWeb src\<rparr>))"

section \<open>The server\<close>

datatype adminPage = PageStatus adminStatus | PageData admin_content | PageAsset string

text \<open>The assets compiled into the program, and what the outside answers during a request.\<close>

record adminWorld =
  w_info :: certinfo
  w_readings :: processReadings
  w_obs :: "obs \<times> obs \<times> obs"
  w_clock :: "time stream"
  w_query :: adminQuery
  w_seen :: "nat \<Rightarrow> analytics"
  w_ok :: "nat \<Rightarrow> bool"
  w_version :: string
  w_asset :: "string \<Rightarrow> adminPage option"

definition map_content :: "('a \<Rightarrow> 'b) \<Rightarrow> 'a response \<Rightarrow> 'b response" where
  "map_content f w = \<lparr>rstatus = rstatus w, rheaders = rheaders w, rbytes = rbytes w, rcontent = map_option f (rcontent w)\<rparr>"

definition embedded :: "adminWorld \<Rightarrow> string \<Rightarrow> adminPage" where
  "embedded w name = (case w_asset w name of None \<Rightarrow> PageAsset name | Some p \<Rightarrow> p)"

text \<open>The handler registered for a pattern.\<close>

definition admin_handler :: "adminWorld \<Rightarrow> string \<Rightarrow> (adminPage, adminServer) handler" where
  "admin_handler w pat r s =
     (if pat = ''GET /openapi.json'' then (serveAPISpec (w_asset w ''openapi.json''), s)
      else if pat = ''GET /ui.js'' then (adminAsset (w_version w) ''text/javascript; charset=utf-8'' (embedded w ''ui.js'') r, s)
      else if pat = ''GET /admin.js'' then (adminAsset (w_version w) ''text/javascript; charset=utf-8'' (embedded w ''admin.js'') r, s)
      else if pat = ''GET /admin.css'' then (adminAsset (w_version w) ''text/css; charset=utf-8'' (embedded w ''admin.css'') r, s)
      else if pat \<in> (\<lambda>name. ''GET /'' @ name) ` set faviconNames then (serveFaviconAsset (drop 5 pat) (w_asset w (drop 5 pat)), s)
      else if pat = ''GET /api/status'' then
        (case status (w_info w) (w_readings w) (w_obs w) (w_clock w) s of (st, s1) \<Rightarrow> (adminJSON (PageStatus st), s1))
      else if pat = ''GET /api/overview'' then
        (map_content PageData (overview (adm_analytics s) (w_seen w) (w_ok w) (shd (w_clock w)) (w_query w)), s)
      else if pat = ''GET /api/activity'' then
        (map_content PageData (activity_handler (adm_analytics s) (w_ok w) (shd (w_clock w)) (w_query w)), s)
      else (admin_page (PageAsset ''admin.html'') r, s))"

section \<open>Properties\<close>

text \<open>What a request to the admin server may change: certificates reloaded from files, and the clock.\<close>

definition same_records :: "analytics option \<Rightarrow> analytics option \<Rightarrow> bool" where
  "same_records x y \<longleftrightarrow> (\<exists>ts. y = map_option (\<lambda>a. a\<lparr>clock := ts a\<rparr>) x)"

lemma same_records_refl [simp]: "same_records x x"
  unfolding same_records_def by (cases x) (auto intro: exI [of _ clock])

lemma Snapshot_state: "Snapshot a = (st, a') \<Longrightarrow> \<exists>ts. a' = a\<lparr>clock := ts\<rparr>"
  by (auto simp: Snapshot_def Snapshot_lag_def anow_def split: prod.splits if_splits intro: exI [of _ "clock a"])

lemma Snapshot_same: "same_records (Some a) (Some (snd (Snapshot a)))"
  using Snapshot_state [of a "fst (Snapshot a)" "snd (Snapshot a)"] by (auto simp: same_records_def intro: exI [of _ "\<lambda>_. _"])

definition admission_of :: "smtpServer option \<Rightarrow> (smtpAdmission \<times> protocolServer) option" where
  "admission_of x = map_option (\<lambda>s. (s_admission s, s_protocol s)) x"

lemma with_files_admission [simp]: "admission_of (with_files r x) = admission_of x"
  by (auto simp: admission_of_def with_files_def split: option.split certificateProvider.split)

lemma SMTP_RuntimeStatus_admission:
  "SMTP_RuntimeStatus x a ob ts = (st, x', ts') \<Longrightarrow>
   s_admission x' = s_admission x \<and> s_protocol x' = s_protocol x \<and>
   ActiveConnections st = held (sessions (s_admission x)) \<and> ConnectionLimit st = capacity (sessions (s_admission x)) \<and>
   (TLSEnabled st \<longleftrightarrow> s_tlsCert x \<noteq> None)"
  by (auto simp: SMTP_RuntimeStatus_def Let_def split: option.splits prod.splits)

lemma status_reads_only:
  assumes "status info rd obs ts s = (st, s')"
  shows "adm_cfg s' = adm_cfg s \<and> adm_store s' = adm_store s \<and> adm_automatic s' = adm_automatic s
    \<and> admission_of (adm_smtp s') = admission_of (adm_smtp s) \<and> same_records (adm_analytics s) (adm_analytics s')"
proof -
  have an: "same_records (adm_analytics s) (snd (case adm_analytics s of None \<Rightarrow> (None, None)
      | Some a \<Rightarrow> (case Snapshot a of (st, a1) \<Rightarrow> (Some st, Some a1))))"
    using Snapshot_same by (auto split: option.split prod.split) (metis snd_conv)
  have smtp: "admission_of (fst (snd (case adm_smtp s of None \<Rightarrow> (None :: smtpRuntimeStatus option, None, ts)
      | Some x \<Rightarrow> (case SMTP_RuntimeStatus x a (fst obs) ts of (st, x1, ts1) \<Rightarrow> (Some st, Some x1, ts1))))) = admission_of (adm_smtp s)" for a
    using SMTP_RuntimeStatus_admission by (auto simp: admission_of_def split: option.split prod.split)
  show ?thesis using assms an smtp by (auto simp: status_def Let_def split: prod.splits)
qed

text \<open>The answers of the handlers set no policy of their own, and all that carry data forbid caching.\<close>

definition data_patterns :: "string list" where
  "data_patterns = [''GET /api/status'', ''GET /api/overview'', ''GET /api/activity'']"

lemma map_content_simps [simp]:
  "rstatus (map_content f w) = rstatus w" "get_header k (map_content f w) = get_header k w" "rheaders (map_content f w) = rheaders w"
  by (simp_all add: map_content_def get_header_def)

definition no_store :: "'c response \<Rightarrow> bool" where
  "no_store w \<longleftrightarrow> map_of (rev (rheaders w)) ''Cache-Control'' = Some ''no-store''"

lemma no_store_answers [simp]: "no_store (adminJSON v)" "no_store (adminError c e m)" "no_store (map_content f w) = no_store w"
  by (simp_all add: no_store_def adminJSON_def adminError_def admin_headers_def set_header_def no_response_def)

lemma no_store_data [simp]: "no_store (overview src seen ok tnow q)" "no_store (activity_handler src ok tnow q)"
  by (auto simp: overview_def activity_handler_def no_analytics_def query_failed_def split: option.split sum.split)

definition plain_headers :: "'c response \<Rightarrow> bool" where
  "plain_headers w \<longleftrightarrow> fst ` set (rheaders w) \<inter> {''Content-Security-Policy'', ''Referrer-Policy''} = {}"

lemma plain_set_header:
  "k \<notin> {''Content-Security-Policy'', ''Referrer-Policy''} \<Longrightarrow> plain_headers w \<Longrightarrow> plain_headers (set_header k v w)"
  by (auto simp: plain_headers_def set_header_def)

lemma plain_updates [simp]:
  "plain_headers (w\<lparr>rstatus := c\<rparr>) = plain_headers w" "plain_headers (w\<lparr>rcontent := x\<rparr>) = plain_headers w"
  "plain_headers (w\<lparr>rbytes := n\<rparr>) = plain_headers w" "plain_headers (map_content f w) = plain_headers w" "plain_headers no_response"
  by (simp_all add: plain_headers_def no_response_def)

lemma plain_answers [simp]:
  "plain_headers (adminJSON v)" "plain_headers (adminError c e m)" "plain_headers (http_Error msg code no_response)"
  "plain_headers (adminAsset ver ct asset r)" "plain_headers (serveAPISpec a)" "plain_headers (serveFaviconAsset n a)"
  "plain_headers (admin_page p r)"
  by (auto simp: adminJSON_def adminError_def admin_headers_def http_Error_def adminAsset_def Let_def serveAPISpec_def
      serveFaviconAsset_def admin_page_def intro!: plain_set_header split: option.split)

lemma plain_data [simp]: "plain_headers (overview src seen ok tnow q)" "plain_headers (activity_handler src ok tnow q)"
  by (auto simp: overview_def activity_handler_def no_analytics_def query_failed_def split: option.split sum.split)

lemma admin_handler_plain: "plain_headers (fst (admin_handler w pat r s))"
  by (simp add: admin_handler_def split: prod.split)

lemma admin_handler_no_store: "pat \<in> set data_patterns \<Longrightarrow> no_store (fst (admin_handler w pat r s))"
  by (auto simp: admin_handler_def data_patterns_def faviconNames_def split: prod.split)

lemma admin_handler_reads_only:
  assumes "admin_handler w pat r s = (resp, s')"
  shows "adm_cfg s' = adm_cfg s \<and> adm_store s' = adm_store s \<and> admission_of (adm_smtp s') = admission_of (adm_smtp s)
    \<and> same_records (adm_analytics s) (adm_analytics s')"
  using assms status_reads_only [of "w_info w" "w_readings w" "w_obs w" "w_clock w" s]
  unfolding admin_handler_def by (auto split: if_splits prod.splits)

text \<open>
  C40. The status shows what is enforced. The rate limit and burst are those the limiter is made with, the
  number of recipients the one the SMTP engine gets; the number of SMTP connections is exact and within
  the limit shown; and the stored bytes and messages are those of the tables, pending deletions included,
  unless a storage fault is on record.
\<close>
theorem admin_status_truthful:
  assumes "status info rd obs ts s = (st, s')"
    and "adm_smtp s = Some server" "adm_reachable (adm_cfg s) (s_admission server)"
    and "NewSMTPServerWithCertificate (adm_cfg s) provider an ob = Inr server0" "s_protocol server = s_protocol server0"
    and "adm_store s = Some store" "store_reachable store"
  shows "newRateLimiter (HTTPRateLimitRPS (adm_cfg s)) (HTTPRateLimitBurst (adm_cfg s)) =
      (set_rateLimitRPS (as_settings st), set_rateLimitBurst (as_settings st))
    \<and> set_smtpRecipients (as_settings st) = ps_MaxRecipients (s_protocol server)
    \<and> set_maxMessageBytes (as_settings st) = ps_MaxMessageBytes (s_protocol server)
    \<and> (\<exists>smtp. as_smtp st = Some smtp \<and> ActiveConnections smtp = length (open_conns (s_admission server))
        \<and> ActiveConnections smtp \<le> ConnectionLimit smtp \<and> (TLSEnabled smtp \<longleftrightarrow> s_tlsCert server \<noteq> None))
    \<and> (\<exists>x. as_store st = Some x \<and> (storageFault store = None \<longrightarrow> StoredMessages x = int (length (t_messages (sdb store)))
        \<and> StoredBytes x = sum_blobs (sdb store) + sum_pending (sdb store)))"
proof -
  have "store_inv store" using reachable_housed [OF assms(7)] by (simp add: housed_def)
  then have acc: "storageFault store = None \<longrightarrow> accounted store" by (simp add: store_inv_def)
  have parts: "as_settings st = effective_settings (adm_cfg s)" "as_store st = Some (Status store)"
    using assms(1,6) by (auto simp: status_def Let_def split: prod.splits)
  obtain smtp x1 ts1 where r: "SMTP_RuntimeStatus server (case adm_automatic s of None \<Rightarrow> no_autoTLS | Some a \<Rightarrow> a) (fst obs) ts = (smtp, x1, ts1)"
    by (rule prod_cases3)
  have smtp: "as_smtp st = Some smtp" using assms(1,2) r by (auto simp: status_def Let_def split: prod.splits)
  have inv: "held (sessions (s_admission server)) = length (open_conns (s_admission server))"
      "held (sessions (s_admission server)) \<le> capacity (sessions (s_admission server))"
    using adm_reachable_inv [OF assms(3)] by (simp_all add: adm_inv_def)
  note adm = SMTP_RuntimeStatus_admission [OF r] NewSMTPServer_settings(2,4) [OF assms(4)]
  show ?thesis using adm inv smtp acc parts assms(5)
    by (simp add: newRateLimiter_def effective_settings_def maxRecipients_def Status_def accounted_def)
qed

definition example_adminWorld :: adminWorld where
  "example_adminWorld = \<lparr>w_info = \<lparr>issuer_of = (\<lambda>_. []), dns_of = covers, fingerprint_of = (\<lambda>_. [])\<rparr>,
     w_readings = \<lparr>rd_now = 0, rd_uptime = 0, rd_memory = 0, rd_goroutines = 0\<rparr>, w_obs = (ready_obs, ready_obs, ready_obs),
     w_clock = sconst 0, w_query = example_query, w_seen = (\<lambda>_. example_rows), w_ok = (\<lambda>_. True), w_version = ''v'', w_asset = (\<lambda>_. None)\<rparr>"

definition example_adminServer :: "store \<Rightarrow> smtpServer \<Rightarrow> adminServer" where
  "example_adminServer st smtp = \<lparr>adm_cfg = example_config, adm_store = Some st, adm_smtp = Some smtp, adm_analytics = Some example_rows,
     adm_automatic = None, adm_manualWeb = None\<rparr>"

definition example_get :: "string \<Rightarrow> request" where
  "example_get p = \<lparr>Method = ''GET'', Host = ''t.io'', Path = p, RemoteAddr = [], rheader = (\<lambda>_. []), rquery = (\<lambda>_. []), ctx_err = (\<lambda>_. False)\<rparr>"

theorem admin_status_truthful_witness:
  "\<exists>store smtp st s'. store_reachable store \<and>
     status (w_info example_adminWorld) (w_readings example_adminWorld) (w_obs example_adminWorld) (sconst 0) (example_adminServer store smtp) = (st, s')
     \<and> set_smtpRecipients (as_settings st) = ps_MaxRecipients (s_protocol smtp)"
proof -
  obtain s where s: "OpenStore CurrentTables ''/d/messages'' example_config empty_store = (None, s)" using empty_opens by blast
  have reach: "store_reachable s"
    by (rule store_reachable.opened [of "''/d''" example_config empty_store])
      (use s in \<open>simp_all add: crashed_names empty_store_def plain_unicode_ok\<close>)
  obtain smtp where n: "NewSMTPServerWithCertificate example_config None None ready_obs = Inr smtp"
    by (simp add: NewSMTPServerWithCertificate_def Let_def example_config_def)
  have a: "adm_reachable example_config (s_admission smtp)"
    using NewSMTPServer_settings(5) [OF n] adm_reachable.start by simp
  obtain st s' where st: "status (w_info example_adminWorld) (w_readings example_adminWorld) (w_obs example_adminWorld) (sconst 0)
      (example_adminServer s smtp) = (st, s')" by (metis surj_pair)
  from admin_status_truthful [OF st, of smtp None None ready_obs smtp s] a n reach
  have "set_smtpRecipients (as_settings st) = ps_MaxRecipients (s_protocol smtp)"
    by (simp add: example_adminServer_def)
  with st reach show ?thesis by blast
qed

end
