(* ===== verification/ConfigLoad.thy ===== *)
theory ConfigLoad
  imports Admission GoPath TlsHost "HOL-Library.Multiset"
begin

text \<open>
  Loading the configuration from the environment (\<^verbatim>\<open>LoadConfig\<close> of
  \<^verbatim>\<open>internal/app/config.go\<close>). The environment is a function from the variables to their values,
  the empty string where a variable is not set, as \<^verbatim>\<open>os.Getenv\<close> has it. Every error return of the
  code is a value of \<open>config_error\<close>. Duration and float syntax (\<^verbatim>\<open>time.ParseDuration\<close>,
  \<^verbatim>\<open>strconv.ParseFloat\<close>) are parameters, and so is the order in which Go visits the entries of a
  map.
\<close>

datatype envvar =
    ADMIN_ENABLED | ANALYTICS_ENABLED | ANALYTICS_EVENT_TTL | ANALYTICS_MAX_STORAGE_BYTES
  | MESSAGE_TTL | MAX_MESSAGE_BYTES | MAX_STORAGE_BYTES
  | SMTP_MAX_CONNECTIONS | SMTP_MAX_CONNECTIONS_PER_IP | SMTP_MAX_RECIPIENTS
  | SMTP_TLS_CERT_FILE | SMTP_TLS_KEY_FILE | HTTPS_TLS_CERT_FILE | HTTPS_TLS_KEY_FILE
  | HTTP_MAX_CONCURRENT_REQUESTS | MAIL_DOMAIN | HTTP_LOG_HEADERS | HTTP_ACCESS_LOG_MODE
  | HTTP_RATE_LIMIT_IP_HEADER | HTTP_RATE_LIMIT_RPS | HTTP_RATE_LIMIT_BURST
  | AUTO_TLS_ENABLED | AUTO_TLS_WEB_ENABLED | AUTO_TLS_SMTP_ENABLED
  | ACME_ACCEPT_TOS | ACME_STAGING | ACME_DEBUG | ACME_EMAIL | ACME_CACHE_DIR
  | WEB_DOMAIN | HTTPS_ADDR | HTTP_ADDR | SMTP_ADDR | METRICS_ENABLED | METRICS_ADDR | ADMIN_ADDR | DATA_DIR

datatype value_error =
    NotPositiveInteger | NotPositiveNumber | NotNonNegativeInteger | NotHeaderName string

datatype config_error =
    NotBoolean envvar
  | NotDuration envvar
  | BadValue envvar value_error
  | NotTogether envvar envvar
  | NotDomainName
  | NotLogMode
  | NotIPHeader
  | WebTLSCombined
  | SMTPTLSCombined
  | TermsNotAccepted
  | BadHost envvar host_error
  | BadPort envvar
  | SamePort envvar envvar

record configlib =
  hosts :: hostlib
  ParseDuration :: "string \<Rightarrow> int option"
  ParseFloat :: "string \<Rightarrow> float64 option"

type_synonym getenv = "envvar \<Rightarrow> string"

section \<open>Values\<close>

definition env_or :: "getenv \<Rightarrow> envvar \<Rightarrow> string \<Rightarrow> string" where
  "env_or e key fallback = (if e key \<noteq> [] then e key else fallback)"

definition positiveInt :: "string \<Rightarrow> value_error + int" where
  "positiveInt v = (case Atoi v of None \<Rightarrow> Inl NotPositiveInteger | Some n \<Rightarrow> if n \<le> 0 then Inl NotPositiveInteger else Inr n)"

definition positiveFloat :: "configlib \<Rightarrow> string \<Rightarrow> value_error + float64" where
  "positiveFloat lib v =
     (case ParseFloat lib v of None \<Rightarrow> Inl NotPositiveNumber | Some n \<Rightarrow> if le_zero n then Inl NotPositiveNumber else Inr n)"

definition nonNegativeInt :: "string \<Rightarrow> value_error + int" where
  "nonNegativeInt v = (case Atoi v of None \<Rightarrow> Inl NotNonNegativeInteger | Some n \<Rightarrow> if n < 0 then Inl NotNonNegativeInteger else Inr n)"

text \<open>\<^verbatim>\<open>strconv.ParseBool\<close> and \<^verbatim>\<open>strconv.FormatBool\<close>.\<close>

definition ParseBool :: "string \<Rightarrow> bool option" where
  "ParseBool s =
     (if s \<in> set [''1'', ''t'', ''T'', ''TRUE'', ''true'', ''True''] then Some True
      else if s \<in> set [''0'', ''f'', ''F'', ''FALSE'', ''false'', ''False''] then Some False
      else None)"

definition FormatBool :: "bool \<Rightarrow> string" where
  "FormatBool b = (if b then ''true'' else ''false'')"

definition bool_var :: "getenv \<Rightarrow> envvar \<Rightarrow> string \<Rightarrow> config_error + bool" where
  "bool_var e key fallback =
     (case ParseBool (env_or e key fallback) of None \<Rightarrow> Inl (NotBoolean key) | Some b \<Rightarrow> Inr b)"

definition in_var :: "envvar \<Rightarrow> value_error + 'a \<Rightarrow> config_error + 'a" where
  "in_var key r = (case r of Inl x \<Rightarrow> Inl (BadValue key x) | Inr y \<Rightarrow> Inr y)"

definition host_var :: "envvar \<Rightarrow> host_error + 'a \<Rightarrow> config_error + 'a" where
  "host_var key r = (case r of Inl x \<Rightarrow> Inl (BadHost key x) | Inr y \<Rightarrow> Inr y)"

text \<open>\<open>upper\<close> is the largest duration the code accepts, if it gives one.\<close>

definition duration_var :: "configlib \<Rightarrow> getenv \<Rightarrow> envvar \<Rightarrow> string \<Rightarrow> int option \<Rightarrow> config_error + int" where
  "duration_var lib e key fallback upper =
     (case ParseDuration lib (env_or e key fallback) of
        None \<Rightarrow> Inl (NotDuration key)
      | Some d \<Rightarrow> if d \<le> 0 \<or> (case upper of None \<Rightarrow> False | Some m \<Rightarrow> m < d) then Inl (NotDuration key) else Inr d)"

subsection \<open>Header names\<close>

definition token_char :: "char \<Rightarrow> bool" where
  "token_char c \<longleftrightarrow> (48 \<le> byte c \<and> byte c \<le> 57) \<or> (65 \<le> byte c \<and> byte c \<le> 90) \<or> (97 \<le> byte c \<and> byte c \<le> 122) \<or>
     byte c \<in> set [33, 35, 36, 37, 38, 39, 42, 43, 45, 46, 94, 95, 96, 124, 126]"

definition validHeaderName :: "string \<Rightarrow> bool" where
  "validHeaderName name \<longleftrightarrow> name \<noteq> [] \<and> list_all token_char name"

text \<open>\<^verbatim>\<open>http.CanonicalHeaderKey\<close>: a token is capitalised after its start and every hyphen.\<close>

definition ascii_upper :: "char \<Rightarrow> char" where
  "ascii_upper c = (if 97 \<le> byte c \<and> byte c \<le> 122 then char_of (byte c - 32) else c)"

fun canonical_from :: "bool \<Rightarrow> string \<Rightarrow> string" where
  "canonical_from upper [] = []"
| "canonical_from upper (c # cs) =
     (if upper then ascii_upper c else ascii_lower c) # canonical_from (c = CHR ''-'') cs"

definition CanonicalHeaderKey :: "string \<Rightarrow> string" where
  "CanonicalHeaderKey s = (if list_all token_char s then canonical_from True s else s)"

fun log_headers :: "string list \<Rightarrow> string list \<Rightarrow> value_error + string list" where
  "log_headers [] headers = Inr headers"
| "log_headers (h # hs) headers =
     (let header = TrimSpace h in
      if \<not> validHeaderName header then Inl (NotHeaderName header)
      else
        (let canonical = CanonicalHeaderKey header in
         log_headers hs (if canonical \<in> set headers then headers else headers @ [canonical])))"

definition parseHTTPLogHeaders :: "string \<Rightarrow> value_error + string list" where
  "parseHTTPLogHeaders v = log_headers (Split v CHR '','') []"

section \<open>The sections of LoadConfig\<close>

text \<open>The limits, up to \<^verbatim>\<open>SMTP_MAX_RECIPIENTS\<close>.\<close>

record limits =
  l_admin :: bool
  l_analytics :: bool
  l_analyticsTTL :: int
  l_analyticsStorage :: int
  l_ttl :: int
  l_maxMessage :: int
  l_maxStorage :: int
  l_maxConnections :: int
  l_maxPerIP :: int
  l_maxRecipients :: int

definition hour :: int where "hour = 3600 * 1000000000"

definition defaultMaxSMTPRecipients :: int where "defaultMaxSMTPRecipients = 5"

definition load_limits :: "configlib \<Rightarrow> getenv \<Rightarrow> config_error + limits" where
  "load_limits lib e =
     bnd (bool_var e ADMIN_ENABLED ''false'') (\<lambda>admin.
     bnd (bool_var e ANALYTICS_ENABLED ''false'') (\<lambda>analytics.
     bnd (duration_var lib e ANALYTICS_EVENT_TTL ''720h'' (Some (30 * 24 * hour))) (\<lambda>analyticsTTL.
     bnd (in_var ANALYTICS_MAX_STORAGE_BYTES (positiveInt (env_or e ANALYTICS_MAX_STORAGE_BYTES ''1073741824''))) (\<lambda>analyticsStorage.
     bnd (duration_var lib e MESSAGE_TTL ''1h'' None) (\<lambda>ttl.
     bnd (in_var MAX_MESSAGE_BYTES (positiveInt (env_or e MAX_MESSAGE_BYTES ''2097152''))) (\<lambda>maxMessage.
     bnd (in_var MAX_STORAGE_BYTES (positiveInt (env_or e MAX_STORAGE_BYTES ''21474836480''))) (\<lambda>maxStorage.
     bnd (in_var SMTP_MAX_CONNECTIONS (positiveInt (env_or e SMTP_MAX_CONNECTIONS (Itoa defaultMaxSMTPConnections)))) (\<lambda>maxConnections.
     bnd (in_var SMTP_MAX_CONNECTIONS_PER_IP (nonNegativeInt (env_or e SMTP_MAX_CONNECTIONS_PER_IP ''10''))) (\<lambda>maxPerIP.
     bnd (in_var SMTP_MAX_RECIPIENTS (positiveInt (env_or e SMTP_MAX_RECIPIENTS (Itoa defaultMaxSMTPRecipients)))) (\<lambda>maxRecipients.
       Inr \<lparr>l_admin = admin, l_analytics = analytics, l_analyticsTTL = analyticsTTL, l_analyticsStorage = analyticsStorage,
         l_ttl = ttl, l_maxMessage = maxMessage, l_maxStorage = maxStorage, l_maxConnections = maxConnections,
         l_maxPerIP = maxPerIP, l_maxRecipients = maxRecipients\<rparr>))))))))))"

text \<open>Certificate files, mail domain and the HTTP settings.\<close>

record front =
  f_smtpCert :: string
  f_smtpKey :: string
  f_httpsCert :: string
  f_httpsKey :: string
  f_maxHTTP :: int
  f_domain :: string
  f_logHeaders :: "string list"
  f_logMode :: string
  f_ipHeader :: string
  f_rps :: float64
  f_burst :: int

definition ip_header :: "getenv \<Rightarrow> config_error + string" where
  "ip_header e =
     (let h = TrimSpace (e HTTP_RATE_LIMIT_IP_HEADER) in
      if h = [] then Inr [] else if \<not> validHeaderName h then Inl NotIPHeader else Inr (CanonicalHeaderKey h))"

definition load_front :: "configlib \<Rightarrow> getenv \<Rightarrow> config_error + front" where
  "load_front lib e =
     (let smtpCert = TrimSpace (e SMTP_TLS_CERT_FILE); smtpKey = TrimSpace (e SMTP_TLS_KEY_FILE);
          httpsCert = TrimSpace (e HTTPS_TLS_CERT_FILE); httpsKey = TrimSpace (e HTTPS_TLS_KEY_FILE);
          domain = ToLower (host_un (hosts lib)) (TrimSpace (e MAIL_DOMAIN));
          logMode = ToLower (host_un (hosts lib)) (env_or e HTTP_ACCESS_LOG_MODE ''errors'') in
      bnd (guard ((smtpCert = []) = (smtpKey = [])) (NotTogether SMTP_TLS_CERT_FILE SMTP_TLS_KEY_FILE)) (\<lambda>_.
      bnd (guard ((httpsCert = []) = (httpsKey = [])) (NotTogether HTTPS_TLS_CERT_FILE HTTPS_TLS_KEY_FILE)) (\<lambda>_.
      bnd (in_var HTTP_MAX_CONCURRENT_REQUESTS (nonNegativeInt (env_or e HTTP_MAX_CONCURRENT_REQUESTS ''512''))) (\<lambda>maxHTTP.
      bnd (guard (\<not> (domain = [] \<or> ContainsAny domain [CHR ''@'', CHR '' '', CHR ''/'', CHR 92])) NotDomainName) (\<lambda>_.
      bnd (in_var HTTP_LOG_HEADERS (parseHTTPLogHeaders (env_or e HTTP_LOG_HEADERS ''User-Agent''))) (\<lambda>logHeaders.
      bnd (guard (logMode = ''all'' \<or> logMode = ''errors'' \<or> logMode = ''off'') NotLogMode) (\<lambda>_.
      bnd (ip_header e) (\<lambda>ipHeader.
      bnd (in_var HTTP_RATE_LIMIT_RPS (positiveFloat lib (env_or e HTTP_RATE_LIMIT_RPS (Itoa defaultRateLimitRPS)))) (\<lambda>rps.
      bnd (in_var HTTP_RATE_LIMIT_BURST (positiveInt (env_or e HTTP_RATE_LIMIT_BURST (Itoa defaultRateLimitBurst)))) (\<lambda>burst.
        Inr \<lparr>f_smtpCert = smtpCert, f_smtpKey = smtpKey, f_httpsCert = httpsCert, f_httpsKey = httpsKey, f_maxHTTP = maxHTTP,
          f_domain = domain, f_logHeaders = logHeaders, f_logMode = logMode, f_ipHeader = ipHeader, f_rps = rps,
          f_burst = burst\<rparr>))))))))))"

text \<open>The switches of automatic TLS.\<close>

record switches =
  s_web :: bool
  s_smtp :: bool
  s_tos :: bool
  s_staging :: bool
  s_debug :: bool

definition load_switches :: "getenv \<Rightarrow> config_error + switches" where
  "load_switches e =
     bnd (bool_var e AUTO_TLS_ENABLED ''false'') (\<lambda>autoTLS.
     bnd (bool_var e AUTO_TLS_WEB_ENABLED (FormatBool autoTLS)) (\<lambda>web.
     bnd (bool_var e AUTO_TLS_SMTP_ENABLED (FormatBool autoTLS)) (\<lambda>smtp.
     bnd (bool_var e ACME_ACCEPT_TOS ''false'') (\<lambda>tos.
     bnd (bool_var e ACME_STAGING ''false'') (\<lambda>staging.
     bnd (bool_var e ACME_DEBUG ''false'') (\<lambda>debug.
       Inr \<lparr>s_web = web, s_smtp = smtp, s_tos = tos, s_staging = staging, s_debug = debug\<rparr>))))))"

subsection \<open>Ports\<close>

definition tcp_port :: "string \<Rightarrow> int option" where
  "tcp_port addr =
     (case SplitHostPort addr of
        None \<Rightarrow> None
      | Some (_, port) \<Rightarrow> (case Atoi port of None \<Rightarrow> None | Some n \<Rightarrow> if n < 1 \<or> n > 65535 then None else Some n))"

fun check_ports :: "(envvar \<times> string) list \<Rightarrow> (string \<times> envvar) list \<Rightarrow> config_error + unit" where
  "check_ports [] ports = Inr ()"
| "check_ports ((name, addr) # rest) ports =
     (case tcp_port addr of
        None \<Rightarrow> Inl (BadPort name)
      | Some n \<Rightarrow>
          (case map_of ports (Itoa n) of
             Some previous \<Rightarrow> Inl (SamePort name previous)
           | None \<Rightarrow> check_ports rest ((Itoa n, name) # ports)))"

definition addresses :: "getenv \<Rightarrow> bool \<Rightarrow> bool \<Rightarrow> (envvar \<times> string) list" where
  "addresses e https admin =
     [(HTTP_ADDR, env_or e HTTP_ADDR '':8080''), (SMTP_ADDR, env_or e SMTP_ADDR '':25'')] @
     (if https then [(HTTPS_ADDR, env_or e HTTPS_ADDR '':8443'')] else []) @
     (if env_or e METRICS_ENABLED ''false'' = ''true'' then [(METRICS_ADDR, env_or e METRICS_ADDR ''127.0.0.1:9090'')] else []) @
     (if admin then [(ADMIN_ADDR, env_or e ADMIN_ADDR ''127.0.0.1:8081'')] else [])"

text \<open>The checks of the TLS settings; the result is the web and the mail domain. \<open>order\<close> is the order of the map.\<close>

type_synonym order = "(envvar \<times> string) list \<Rightarrow> (envvar \<times> string) list"

definition tls_checks :: "configlib \<Rightarrow> order \<Rightarrow> getenv \<Rightarrow> bool \<Rightarrow> front \<Rightarrow> switches \<Rightarrow> config_error + (string \<times> string)" where
  "tls_checks lib order e admin f sw =
     (let autoTLS = (s_web sw \<or> s_smtp sw); manual = (f_httpsCert f \<noteq> []); https = (s_web sw \<or> manual) in
      bnd (guard (\<not> (s_web sw \<and> manual)) WebTLSCombined) (\<lambda>_.
      bnd (if https then host_var WEB_DOMAIN (normalizeTLSHost (hosts lib) (env_or e WEB_DOMAIN (f_domain f)))
           else Inr (env_or e WEB_DOMAIN (f_domain f))) (\<lambda>webDomain.
      if \<not> (autoTLS \<or> manual) then Inr (webDomain, f_domain f)
      else
        bnd (guard (\<not> (autoTLS \<and> \<not> s_tos sw)) TermsNotAccepted) (\<lambda>_.
        bnd (guard (\<not> (s_smtp sw \<and> f_smtpCert f \<noteq> [])) SMTPTLSCombined) (\<lambda>_.
        bnd (if s_smtp sw then host_var MAIL_DOMAIN (normalizeTLSHost (hosts lib) (f_domain f)) else Inr (f_domain f)) (\<lambda>domain.
        bnd (if s_web sw then host_var WEB_DOMAIN (normalizeTLSHost (hosts lib) webDomain) else Inr webDomain) (\<lambda>webDomain'.
        bnd (check_ports (order (addresses e https admin)) []) (\<lambda>_.
          Inr (webDomain', domain)))))))))"

definition make_config :: "getenv \<Rightarrow> limits \<Rightarrow> front \<Rightarrow> switches \<Rightarrow> string \<times> string \<Rightarrow> config" where
  "make_config e l f sw domains =
     \<lparr>AutoTLSEnabled = (s_web sw \<or> s_smtp sw), AutoTLSWebEnabled = s_web sw, AutoTLSSMTPEnabled = s_smtp sw,
      WebDomain = fst domains, HTTPSAddr = env_or e HTTPS_ADDR '':8443'',
      HTTPSTLSCertFile = f_httpsCert f, HTTPSTLSKeyFile = f_httpsKey f,
      ACMEEmail = TrimSpace (e ACME_EMAIL), ACMEAcceptTOS = s_tos sw, ACMEStaging = s_staging sw, ACMEDebug = s_debug sw,
      ACMECacheDir = env_or e ACME_CACHE_DIR (filepath_Join (env_or e DATA_DIR ''/data'') ''acme''),
      AdminEnabled = l_admin l, AdminAddr = env_or e ADMIN_ADDR ''127.0.0.1:8081'',
      AnalyticsEnabled = l_analytics l, AnalyticsEventTTL = l_analyticsTTL l, AnalyticsMaxStorageBytes = l_analyticsStorage l,
      MailDomain = snd domains, DataDir = env_or e DATA_DIR ''/data'', SMTPAddr = env_or e SMTP_ADDR '':25'',
      SMTPTLSCertFile = f_smtpCert f, SMTPTLSKeyFile = f_smtpKey f, HTTPAddr = env_or e HTTP_ADDR '':8080'',
      MetricsAddr = env_or e METRICS_ADDR ''127.0.0.1:9090'', MessageTTL = l_ttl l, MaxMessageBytes = l_maxMessage l,
      MaxStorageBytes = l_maxStorage l, MaxSMTPConnections = l_maxConnections l, MaxSMTPConnectionsPerIP = l_maxPerIP l,
      MaxSMTPRecipients = l_maxRecipients l, MaxHTTPRequests = f_maxHTTP f,
      MetricsEnabled = (env_or e METRICS_ENABLED ''false'' = ''true''), HTTPAccessLogMode = f_logMode f,
      HTTPLogHeaders = f_logHeaders f, HTTPRateLimitRPS = f_rps f, HTTPRateLimitBurst = f_burst f,
      HTTPRateLimitIPHeader = f_ipHeader f\<rparr>"

definition LoadConfig :: "configlib \<Rightarrow> order \<Rightarrow> getenv \<Rightarrow> config_error + config" where
  "LoadConfig lib order e =
     bnd (load_limits lib e) (\<lambda>l.
     bnd (load_front lib e) (\<lambda>f.
     bnd (load_switches e) (\<lambda>sw.
     bnd (tls_checks lib order e (l_admin l) f sw) (\<lambda>domains.
       Inr (make_config e l f sw domains)))))"

end
