(* ===== verification/ConfigProps.thy ===== *)
theory ConfigProps
  imports ConfigLoad
begin

text \<open>
  What a loaded configuration guarantees to the rest of the program: limits in their ranges, TLS
  settings that fit together, listeners on different ports, and a result that does not depend on the
  order in which the listeners are checked.
\<close>

section \<open>Single values\<close>

lemma positiveInt_ok [result_rules]: "positiveInt v = Inr n \<longleftrightarrow> Atoi v = Some n \<and> 0 < n"
  by (auto simp: positiveInt_def split: option.splits)

lemma nonNegativeInt_ok [result_rules]: "nonNegativeInt v = Inr n \<longleftrightarrow> Atoi v = Some n \<and> 0 \<le> n"
  by (auto simp: nonNegativeInt_def split: option.splits)

lemma positiveFloat_ok [result_rules]: "positiveFloat lib v = Inr x \<longleftrightarrow> ParseFloat lib v = Some x \<and> \<not> le_zero x"
  by (auto simp: positiveFloat_def split: option.splits)

lemma in_var_ok [result_rules]: "in_var key r = Inr y \<longleftrightarrow> r = Inr y"
  by (cases r) (simp_all add: in_var_def)

lemma host_var_ok [result_rules]: "host_var key r = Inr y \<longleftrightarrow> r = Inr y"
  by (cases r) (simp_all add: host_var_def)

lemma duration_var_ok [result_rules]:
  "duration_var lib e key fb upper = Inr d \<longleftrightarrow>
   ParseDuration lib (env_or e key fb) = Some d \<and> 0 < d \<and> (\<forall>m. upper = Some m \<longrightarrow> d \<le> m)"
  by (auto simp: duration_var_def split: option.splits)

subsection \<open>Header names\<close>

lemma ascii_upper_lower [simp]: "ascii_upper (ascii_upper c) = ascii_upper c"
  by (auto simp: ascii_upper_def)

lemma byte_hyphen: "byte (CHR ''-'') = 45"
  by (simp add: byte_def)

lemma hyphen_case [simp]: "ascii_upper c = CHR ''-'' \<longleftrightarrow> c = CHR ''-''" "ascii_lower c = CHR ''-'' \<longleftrightarrow> c = CHR ''-''"
proof -
  have "byte (ascii_upper c) = 45 \<longleftrightarrow> byte c = 45" by (auto simp: ascii_upper_def)
  then show "ascii_upper c = CHR ''-'' \<longleftrightarrow> c = CHR ''-''" using byte_inject byte_hyphen by metis
  have "byte (ascii_lower c) = 45 \<longleftrightarrow> byte c = 45" by (auto simp: ascii_lower_def)
  then show "ascii_lower c = CHR ''-'' \<longleftrightarrow> c = CHR ''-''" using byte_inject byte_hyphen by metis
qed

lemma canonical_from_idem [simp]: "canonical_from b (canonical_from b s) = canonical_from b s"
  by (induction b s rule: canonical_from.induct) auto

lemma token_char_letter: "65 \<le> byte c \<and> byte c \<le> 90 \<or> 97 \<le> byte c \<and> byte c \<le> 122 \<Longrightarrow> token_char c"
  by (auto simp: token_char_def)

lemma token_char_case: "token_char c \<Longrightarrow> token_char (ascii_upper c) \<and> token_char (ascii_lower c)"
proof -
  assume t: "token_char c"
  have "ascii_upper c = c \<or> 65 \<le> byte (ascii_upper c) \<and> byte (ascii_upper c) \<le> 90"
    by (auto simp: ascii_upper_def)
  moreover have "ascii_lower c = c \<or> 97 \<le> byte (ascii_lower c) \<and> byte (ascii_lower c) \<le> 122"
    by (auto simp: ascii_lower_def)
  ultimately show ?thesis using t token_char_letter by metis
qed

lemma canonical_from_tokens: "list_all token_char s \<Longrightarrow> list_all token_char (canonical_from b s)"
  by (induction b s rule: canonical_from.induct) (auto simp: token_char_case)

lemma CanonicalHeaderKey_idem [simp]: "CanonicalHeaderKey (CanonicalHeaderKey s) = CanonicalHeaderKey s"
  by (simp add: CanonicalHeaderKey_def canonical_from_tokens)

lemma CanonicalHeaderKey_valid: "validHeaderName s \<Longrightarrow> validHeaderName (CanonicalHeaderKey s)"
  by (cases s) (auto simp: validHeaderName_def CanonicalHeaderKey_def canonical_from_tokens token_char_case)

definition header_key :: "string \<Rightarrow> bool" where
  "header_key h \<longleftrightarrow> validHeaderName h \<and> CanonicalHeaderKey h = h"

lemma log_headers_ok:
  "log_headers hs acc = Inr out \<Longrightarrow> distinct acc \<Longrightarrow> list_all header_key acc \<Longrightarrow>
   distinct out \<and> list_all header_key out \<and> set out = set acc \<union> (\<lambda>h. CanonicalHeaderKey (TrimSpace h)) ` set hs"
proof (induction hs acc rule: log_headers.induct)
  case (2 h hs acc)
  from "2.prems"(1) have v: "validHeaderName (TrimSpace h)" by (auto simp: Let_def split: if_splits)
  let ?c = "CanonicalHeaderKey (TrimSpace h)"
  let ?acc = "if ?c \<in> set acc then acc else acc @ [?c]"
  have "log_headers hs ?acc = Inr out" using "2.prems"(1) v by (simp add: Let_def)
  moreover have "distinct ?acc" "list_all header_key ?acc"
    using "2.prems"(2,3) CanonicalHeaderKey_valid [OF v] by (simp_all add: header_key_def list_all_iff)
  ultimately have "distinct out \<and> list_all header_key out \<and> set out = set ?acc \<union> (\<lambda>h. CanonicalHeaderKey (TrimSpace h)) ` set hs"
    by (intro "2.IH" [OF refl _ refl]) (use v in simp_all)
  then show ?case by auto
qed simp

lemma parseHTTPLogHeaders_ok:
  assumes "parseHTTPLogHeaders v = Inr hs"
  shows "hs \<noteq> [] \<and> distinct hs \<and> list_all header_key hs"
proof -
  note ok = log_headers_ok [OF assms [unfolded parseHTTPLogHeaders_def]]
  then have "set hs = (\<lambda>h. CanonicalHeaderKey (TrimSpace h)) ` set (Split v CHR '','')" by simp
  then have "hs \<noteq> []" using Split_not_Nil [of v "CHR '',''"] by (metis image_is_empty set_empty)
  with ok show ?thesis by simp
qed

lemma ip_header_ok: "ip_header e = Inr h \<Longrightarrow> h = [] \<or> header_key h"
  by (auto simp: ip_header_def header_key_def Let_def CanonicalHeaderKey_valid split: if_splits)

subsection \<open>Ports\<close>

lemma tcp_port_range: "tcp_port a = Some n \<Longrightarrow> 1 \<le> n \<and> n \<le> 65535"
  by (auto simp: tcp_port_def split: option.splits if_splits)

lemma Itoa_port_inj: "tcp_port a = Some m \<Longrightarrow> tcp_port b = Some n \<Longrightarrow> Itoa m = Itoa n \<longleftrightarrow> m = n"
proof
  assume p: "tcp_port a = Some m" "tcp_port b = Some n" and eq: "Itoa m = Itoa n"
  have small: "- (2 ^ 63) \<le> k \<and> k < 2 ^ 63" if "1 \<le> k \<and> k \<le> 65535" for k :: int
    using that by simp
  have a: "Atoi (Itoa m) = Some m" "Atoi (Itoa n) = Some n"
    using small [OF tcp_port_range [OF p(1)]] small [OF tcp_port_range [OF p(2)]] by (blast intro: Atoi_Itoa)+
  have "Some m = Some n" unfolding a(1) [symmetric] a(2) [symmetric] by (rule arg_cong [OF eq])
  then show "m = n" by (rule option.inject [THEN iffD1])
qed (rule arg_cong)

definition ports_ok :: "string list \<Rightarrow> bool" where
  "ports_ok addrs \<longleftrightarrow> (\<forall>a \<in> set addrs. tcp_port a \<noteq> None) \<and> distinct (map tcp_port addrs)"

lemma check_ports_iff:
  "check_ports as ports = Inr () \<longleftrightarrow>
   ports_ok (map snd as) \<and> (\<forall>a \<in> set as. map_of ports (Itoa (the (tcp_port (snd a)))) = None)"
proof (induction as ports rule: check_ports.induct)
  case (2 name addr rest ports)
  show ?case
  proof (cases "tcp_port addr")
    case None
    then show ?thesis by (simp add: ports_ok_def)
  next
    case (Some n)
    have key: "Itoa (the (tcp_port (snd a))) = Itoa n \<longleftrightarrow> tcp_port (snd a) = Some n"
      if "tcp_port (snd a) \<noteq> None" for a :: "envvar \<times> string"
      using that Itoa_port_inj Some by (cases "tcp_port (snd a)") auto
    show ?thesis
      using "2.IH" [OF Some] key Some by (cases "map_of ports (Itoa n)") (fastforce simp: ports_ok_def image_iff)+
  qed
qed (simp add: ports_ok_def)

definition order_ok :: "order \<Rightarrow> bool" where
  "order_ok order \<longleftrightarrow> (\<forall>xs. mset (order xs) = mset xs)"

lemma check_ports_order:
  assumes "order_ok order"
  shows "check_ports (order as) [] = Inr () \<longleftrightarrow> ports_ok (map snd as)"
proof -
  have m: "mset (order as) = mset as" using assms by (simp add: order_ok_def)
  have "mset (map (tcp_port \<circ> snd) (order as)) = mset (map (tcp_port \<circ> snd) as)" using m by simp
  then have "distinct (map (tcp_port \<circ> snd) (order as)) = distinct (map (tcp_port \<circ> snd) as)"
    by (rule mset_eq_imp_distinct_iff)
  moreover have "set (order as) = set as" using m by (rule mset_eq_setD)
  ultimately show ?thesis by (simp add: check_ports_iff ports_ok_def)
qed

section \<open>The sections\<close>

definition limits_ok :: "limits \<Rightarrow> bool" where
  "limits_ok l \<longleftrightarrow> 0 < l_analyticsTTL l \<and> l_analyticsTTL l \<le> 720 * hour \<and> 0 < l_analyticsStorage l \<and> 0 < l_ttl l \<and>
     0 < l_maxMessage l \<and> 0 < l_maxStorage l \<and> 0 < l_maxConnections l \<and> 0 \<le> l_maxPerIP l \<and> 0 < l_maxRecipients l"

lemma load_limits_ok: "load_limits lib e = Inr l \<Longrightarrow> limits_ok l"
  by (auto simp: load_limits_def result_rules limits_ok_def)

definition front_ok :: "front \<Rightarrow> bool" where
  "front_ok f \<longleftrightarrow> (f_smtpCert f = []) = (f_smtpKey f = []) \<and> (f_httpsCert f = []) = (f_httpsKey f = []) \<and> 0 \<le> f_maxHTTP f \<and>
     f_domain f \<noteq> [] \<and> \<not> ContainsAny (f_domain f) [CHR ''@'', CHR '' '', CHR ''/'', CHR 92] \<and>
     f_logHeaders f \<noteq> [] \<and> distinct (f_logHeaders f) \<and> list_all header_key (f_logHeaders f) \<and>
     f_logMode f \<in> {''all'', ''errors'', ''off''} \<and> (f_ipHeader f = [] \<or> header_key (f_ipHeader f)) \<and>
     \<not> le_zero (f_rps f) \<and> 0 < f_burst f"

lemma load_front_ok: "load_front lib e = Inr f \<Longrightarrow> front_ok f"
  unfolding load_front_def Let_def bnd_Inr guard_Inr in_var_ok sum.inject
  by (elim exE conjE, hypsubst)
    (simp add: front_ok_def nonNegativeInt_ok positiveInt_ok positiveFloat_ok parseHTTPLogHeaders_ok ip_header_ok)

definition listeners :: "config \<Rightarrow> string list" where
  "listeners c = [HTTPAddr c, SMTPAddr c] @ (if AutoTLSWebEnabled c \<or> HTTPSTLSCertFile c \<noteq> [] then [HTTPSAddr c] else []) @
     (if MetricsEnabled c then [MetricsAddr c] else []) @ (if AdminEnabled c then [AdminAddr c] else [])"

lemma listeners_make:
  "listeners (make_config e l f sw ds) = map snd (addresses e (s_web sw \<or> f_httpsCert f \<noteq> []) (l_admin l))"
  by (simp add: listeners_def make_config_def addresses_def)

definition tls_ok :: "configlib \<Rightarrow> getenv \<Rightarrow> bool \<Rightarrow> front \<Rightarrow> switches \<Rightarrow> string \<times> string \<Rightarrow> bool" where
  "tls_ok lib e admin f sw ds \<longleftrightarrow>
     \<not> (s_web sw \<and> f_httpsCert f \<noteq> []) \<and> \<not> (s_smtp sw \<and> f_smtpCert f \<noteq> []) \<and> (s_web sw \<or> s_smtp sw \<longrightarrow> s_tos sw) \<and>
     (s_web sw \<or> f_httpsCert f \<noteq> [] \<longrightarrow> valid_host (hosts lib) (fst ds)) \<and>
     (if s_smtp sw then valid_host (hosts lib) (snd ds) else snd ds = f_domain f) \<and>
     (s_web sw \<or> s_smtp sw \<or> f_httpsCert f \<noteq> [] \<longrightarrow>
        ports_ok (map snd (addresses e (s_web sw \<or> f_httpsCert f \<noteq> []) admin)))"

lemma tls_checks_ok:
  assumes "tls_checks lib order e admin f sw = Inr ds" "order_ok order"
  shows "tls_ok lib e admin f sw ds"
  using assms(1) check_ports_order [OF assms(2)] normalizeTLSHost_ok
  by (auto simp: tls_checks_def tls_ok_def result_rules Let_def split: if_splits)

section \<open>The configuration\<close>

definition config_ok :: "hostlib \<Rightarrow> config \<Rightarrow> bool" where
  "config_ok lib c \<longleftrightarrow>
     0 < MessageTTL c \<and> 0 < MaxMessageBytes c \<and> 0 < MaxStorageBytes c \<and>
     0 < MaxSMTPConnections c \<and> 0 \<le> MaxSMTPConnectionsPerIP c \<and> 0 < MaxSMTPRecipients c \<and>
     0 < AnalyticsEventTTL c \<and> AnalyticsEventTTL c \<le> 720 * hour \<and> 0 < AnalyticsMaxStorageBytes c \<and>
     0 \<le> MaxHTTPRequests c \<and> \<not> le_zero (HTTPRateLimitRPS c) \<and> 0 < HTTPRateLimitBurst c \<and>
     HTTPAccessLogMode c \<in> {''all'', ''errors'', ''off''} \<and>
     HTTPLogHeaders c \<noteq> [] \<and> distinct (HTTPLogHeaders c) \<and> list_all header_key (HTTPLogHeaders c) \<and>
     (HTTPRateLimitIPHeader c = [] \<or> header_key (HTTPRateLimitIPHeader c)) \<and>
     MailDomain c \<noteq> [] \<and> \<not> ContainsAny (MailDomain c) [CHR ''@'', CHR '' '', CHR ''/'', CHR 92] \<and>
     (SMTPTLSCertFile c = []) = (SMTPTLSKeyFile c = []) \<and> (HTTPSTLSCertFile c = []) = (HTTPSTLSKeyFile c = []) \<and>
     AutoTLSEnabled c = (AutoTLSWebEnabled c \<or> AutoTLSSMTPEnabled c) \<and> (AutoTLSEnabled c \<longrightarrow> ACMEAcceptTOS c) \<and>
     (AutoTLSWebEnabled c \<longrightarrow> HTTPSTLSCertFile c = []) \<and> (AutoTLSSMTPEnabled c \<longrightarrow> SMTPTLSCertFile c = []) \<and>
     (AutoTLSWebEnabled c \<or> HTTPSTLSCertFile c \<noteq> [] \<longrightarrow> valid_host lib (WebDomain c)) \<and>
     (AutoTLSSMTPEnabled c \<longrightarrow> valid_host lib (MailDomain c)) \<and>
     (AutoTLSEnabled c \<or> HTTPSTLSCertFile c \<noteq> [] \<longrightarrow> ports_ok (listeners c))"

lemma make_config_ok:
  assumes l: "limits_ok l" and f: "front_ok f" and t: "tls_ok lib e (l_admin l) f sw ds"
  shows "config_ok (hosts lib) (make_config e l f sw ds)"
proof -
  have v: "h \<noteq> [] \<and> \<not> ContainsAny h [CHR ''@'', CHR '' '', CHR ''/'', CHR 92]" if "valid_host (hosts lib) h" for h
    using valid_host_last [OF that] valid_host_not_any [OF that, of "[CHR ''@'', CHR '' '', CHR ''/'', CHR 92]"]
    by (simp add: byte_def)
  have "snd ds \<noteq> [] \<and> \<not> ContainsAny (snd ds) [CHR ''@'', CHR '' '', CHR ''/'', CHR 92]"
    using t v f by (cases "s_smtp sw") (simp_all add: tls_ok_def front_ok_def)
  then show ?thesis
    using l f t unfolding config_ok_def listeners_make
    by (simp add: make_config_def limits_ok_def front_ok_def tls_ok_def)
qed

lemma LoadConfig_parts:
  assumes "LoadConfig lib order e = Inr c"
  obtains l f sw ds where "load_limits lib e = Inr l" "load_front lib e = Inr f" "load_switches e = Inr sw"
    "tls_checks lib order e (l_admin l) f sw = Inr ds" "c = make_config e l f sw ds"
  using assms by (auto simp: LoadConfig_def result_rules)

lemma LoadConfig_config_ok:
  assumes "LoadConfig lib order e = Inr c" and "order_ok order"
  shows "config_ok (hosts lib) c"
proof -
  obtain l f sw ds where p: "load_limits lib e = Inr l" "load_front lib e = Inr f" "load_switches e = Inr sw"
    "tls_checks lib order e (l_admin l) f sw = Inr ds" "c = make_config e l f sw ds"
    by (rule LoadConfig_parts [OF assms(1)])
  show ?thesis
    unfolding p(5) by (rule make_config_ok [OF load_limits_ok [OF p(1)] load_front_ok [OF p(2)] tls_checks_ok [OF p(4) assms(2)]])
qed


lemma tls_checks_order:
  assumes "order_ok order" "order_ok order'"
  shows "tls_checks lib order e admin f sw = Inr ds \<longleftrightarrow> tls_checks lib order' e admin f sw = Inr ds"
proof -
  have c: "check_ports (order as) [] = Inr u \<longleftrightarrow> check_ports (order' as) [] = Inr u" for as and u :: unit
    using check_ports_order [OF assms(1)] check_ports_order [OF assms(2)] by (cases u) simp
  show ?thesis unfolding tls_checks_def Let_def by (simp add: bnd_Inr c)
qed

text \<open>
  Whether and with what result a configuration loads does not depend on the order in which the
  runtime visits the map of listener addresses; only the reported error can.
\<close>

lemma LoadConfig_deterministic:
  assumes "order_ok order" and "order_ok order'"
  shows "LoadConfig lib order e = Inr c \<longleftrightarrow> LoadConfig lib order' e = Inr c"
  by (simp add: LoadConfig_def bnd_Inr tls_checks_order [OF assms])

section \<open>A concrete configuration\<close>

text \<open>A deployment with automatic TLS, every other setting at its default.\<close>

definition example_configlib :: configlib where
  "example_configlib = \<lparr>hosts = \<lparr>host_un = plain_unicode, ToASCII = Some, ParseIP = (\<lambda>_. None)\<rparr>,
     ParseDuration = (\<lambda>s. if s = ''720h'' then Some (720 * hour) else if s = ''1h'' then Some hour else None),
     ParseFloat = (\<lambda>s. if s = ''10'' then Some (FFin 10) else None)\<rparr>"

definition example_env :: getenv where
  "example_env key = (case key of MAIL_DOMAIN \<Rightarrow> ''t.io'' | AUTO_TLS_ENABLED \<Rightarrow> ''true'' | ACME_ACCEPT_TOS \<Rightarrow> ''1'' | _ \<Rightarrow> [])"

lemma Atoi_defaults: "Atoi ''1073741824'' = Some 1073741824" "Atoi ''2097152'' = Some 2097152"
  "Atoi ''21474836480'' = Some 21474836480" "Atoi ''10'' = Some 10" "Atoi ''512'' = Some 512"
  by (simp_all add: Atoi_def Let_def is_digit_def byte_def)

lemma ports_defaults: "tcp_port '':8080'' = Some 8080" "tcp_port '':25'' = Some 25" "tcp_port '':8443'' = Some 8443"
  by (simp_all add: tcp_port_def SplitHostPort_def HasPrefix_def Atoi_def Let_def is_digit_def byte_def)

lemma example_limits: "\<exists>l. load_limits example_configlib example_env = Inr l \<and> \<not> l_admin l"
  by (simp add: load_limits_def bool_var_def env_or_def example_env_def ParseBool_def duration_var_def example_configlib_def
    in_var_def positiveInt_def nonNegativeInt_def Atoi_defaults Atoi_Itoa hour_def defaultMaxSMTPConnections_def defaultMaxSMTPRecipients_def)

lemma example_trim: "TrimSpace ''t.io'' = ''t.io''" "TrimSpace ''User-Agent'' = ''User-Agent''"
  by (rule TrimSpace_ascii; auto simp: byte_def)+

lemma example_headers: "parseHTTPLogHeaders ''User-Agent'' = Inr [''User-Agent'']"
  by (simp add: parseHTTPLogHeaders_def example_trim validHeaderName_def token_char_def byte_def CanonicalHeaderKey_def ascii_upper_def ascii_lower_def Let_def)

lemma example_lower: "ToLower u ''t.io'' = ''t.io''" "ToLower u ''errors'' = ''errors''"
  by (simp_all add: ToLower_def is_ascii_def ascii_lower_def byte_def)

lemma Itoa_ten: "Itoa 10 = ''10''" by code_simp

lemma example_front: "\<exists>f. load_front example_configlib example_env = Inr f \<and> f_domain f = ''t.io'' \<and> f_smtpCert f = [] \<and> f_httpsCert f = []"
  by (simp add: load_front_def Let_def example_lower example_trim example_headers env_or_def example_env_def guard_def in_var_def nonNegativeInt_def
    Atoi_defaults positiveInt_def positiveFloat_def ip_header_def Atoi_Itoa defaultRateLimitRPS_def defaultRateLimitBurst_def example_configlib_def
    ContainsAny_def Itoa_ten le_zero_def)

lemma example_switches: "load_switches example_env = Inr \<lparr>s_web = True, s_smtp = True, s_tos = True, s_staging = False, s_debug = False\<rparr>"
  by (simp add: load_switches_def bool_var_def ParseBool_def FormatBool_def env_or_def example_env_def)

lemma example_host: "normalizeTLSHost (hosts example_configlib) ''t.io'' = Inr ''t.io''"
  by (rule normalizeTLSHost_valid) (simp_all add: valid_host_def example_configlib_def host_label_def host_char_def byte_def)

lemma example_tls:
  assumes "f_domain f = ''t.io''" "f_smtpCert f = []" "f_httpsCert f = []" "order_ok order"
  shows "tls_checks example_configlib order example_env False f \<lparr>s_web = True, s_smtp = True, s_tos = True, s_staging = False, s_debug = False\<rparr> = Inr (''t.io'', ''t.io'')"
proof -
  have "ports_ok (map snd (addresses example_env True False))"
    by (simp add: addresses_def env_or_def example_env_def ports_ok_def ports_defaults)
  then have "check_ports (order (addresses example_env True False)) [] = Inr ()" by (simp add: check_ports_order [OF assms(4)])
  then show ?thesis
    using assms by (simp add: tls_checks_def Let_def guard_def host_var_def example_host env_or_def example_env_def)
qed

lemma example_loads:
  assumes "order_ok order"
  shows "\<exists>c. LoadConfig example_configlib order example_env = Inr c \<and> MailDomain c = ''t.io'' \<and> AutoTLSEnabled c
    \<and> AutoTLSWebEnabled c \<and> AutoTLSSMTPEnabled c"
proof -
  obtain l where l: "load_limits example_configlib example_env = Inr l" "\<not> l_admin l" using example_limits by blast
  obtain f where f: "load_front example_configlib example_env = Inr f" "f_domain f = ''t.io''" "f_smtpCert f = []" "f_httpsCert f = []"
    using example_front by blast
  show ?thesis
    using l example_tls [OF f(2-4) assms] by (simp add: LoadConfig_def f(1) example_switches make_config_def)
qed

text \<open>
  A remark on floating point: the check for a positive rate lets \<^verbatim>\<open>NaN\<close> pass, since every comparison
  with it is false.
\<close>

lemma positiveFloat_NaN: "ParseFloat lib v = Some FNaN \<Longrightarrow> positiveFloat lib v = Inr FNaN"
  by (simp add: positiveFloat_def le_zero_def)

lemma rev_order: "order_ok rev"
  by (simp add: order_ok_def)


end
