(* ===== verification/Main_Program.thy ===== *)
theory Main_Program
  imports AdminServer ConfigProps
begin

text \<open>
  The entry point (\<^verbatim>\<open>cmd/tmpmail/main.go\<close>): the order in which the services are opened and what
  makes the program give up, the handlers of the plain and the secure listener, the health check and
  the order of the shutdown. The goroutines themselves are the step relations of the components.
\<close>

section \<open>Start\<close>

datatype startup_error =
    BadConfig config_error | DataDirFailed nat | StoreFailed goerr | CleanupFailed goerr | AutoTLSFailed tls_error
  | SMTPFailed loadError | ManualHTTPSFailed manual_error | BindHTTPFailed nat | BindHTTPSFailed nat

text \<open>What the process finds: the environment, the files, the answers of the operating system.\<close>

record machine =
  m_env :: getenv
  m_mkdir :: "nat option"
  m_schema :: schema
  m_store :: store
  m_analytics :: analytics
  m_auto_mkdir :: "nat option"
  m_auto_probe :: "nat option"
  m_smtp_obs :: obs
  m_web_obs :: "obs \<times> obs"
  m_clock :: "time stream"
  m_bind_http :: "nat option"
  m_bind_https :: "nat option"

record process =
  p_cfg :: config
  p_store :: store
  p_analytics :: analytics
  p_auto :: "autoTLS option"
  p_smtp :: smtpServer
  p_manual :: "manualHTTPS option"
  p_https :: bool
  p_admin :: bool
  p_metrics :: bool

definition failed :: "'e option \<Rightarrow> ('e \<Rightarrow> startup_error) \<Rightarrow> startup_error + unit" where
  "failed err f = (case err of None \<Rightarrow> Inr () | Some e \<Rightarrow> Inl (f e))"

definition wrapped :: "('e \<Rightarrow> startup_error) \<Rightarrow> 'e + 'a \<Rightarrow> startup_error + 'a" where
  "wrapped f r = (case r of Inl e \<Rightarrow> Inl (f e) | Inr x \<Rightarrow> Inr x)"

definition startup :: "configlib \<Rightarrow> order \<Rightarrow> machine \<Rightarrow> startup_error + process" where
  "startup lib order w =
     bnd (wrapped BadConfig (LoadConfig lib order (m_env w))) (\<lambda>conf.
     bnd (failed (m_mkdir w) DataDirFailed) (\<lambda>_.
     (case OpenStore (m_schema w) (filepath_Join (DataDir conf) ''messages'') conf (m_store w) of (err, store) \<Rightarrow>
     bnd (failed err StoreFailed) (\<lambda>_.
     (case Cleanup store of (err, store1) \<Rightarrow>
     bnd (failed err CleanupFailed) (\<lambda>_.
     (let an = OpenAnalytics conf (m_analytics w) in
     bnd (if AutoTLSEnabled conf then wrapped AutoTLSFailed (map_sum id Some (NewAutoTLS (m_auto_mkdir w) (m_auto_probe w) conf)) else Inr None) (\<lambda>auto.
     bnd (wrapped SMTPFailed (NewSMTPServerWithCertificate conf
            (if AutoTLSEnabled conf \<and> AutoTLSSMTPEnabled conf then Some ProvideAutomatic else None) (Some an) (m_smtp_obs w))) (\<lambda>smtp.
     bnd (if HTTPSTLSCertFile conf \<noteq> [] then
            wrapped ManualHTTPSFailed (map_sum id Some (fst (NewManualHTTPS (hosts lib) conf (fst (m_web_obs w)) (snd (m_web_obs w)) (m_clock w))))
          else Inr None) (\<lambda>manual.
     (let https = (manual \<noteq> None \<or> auto \<noteq> None \<and> AutoTLSWebEnabled conf) in
     bnd (if auto \<noteq> None \<or> manual \<noteq> None then failed (m_bind_http w) BindHTTPFailed else Inr ()) (\<lambda>_.
     bnd (if https then failed (m_bind_https w) BindHTTPSFailed else Inr ()) (\<lambda>_.
     Inr \<lparr>p_cfg = conf, p_store = store1, p_analytics = an, p_auto = auto, p_smtp = smtp, p_manual = manual, p_https = https,
       p_admin = AdminEnabled conf, p_metrics = MetricsEnabled conf\<rparr>)))))))))))))"

section \<open>Listeners\<close>

text \<open>
  The handlers run on one state: the automatic certificates with their clock, the manual ones with
  theirs, and the application. The manual handlers expect the manual part in front.
\<close>

type_synonym 'x web_state = "(manualHTTPS \<times> obs stream \<times> time stream \<times> 'x) auto_state"

definition manual_first :: "'x web_state \<Rightarrow> (autoTLS \<times> time stream \<times> 'x) manual_state" where
  "manual_first s = (case s of (a, ts, m, os, tm, x) \<Rightarrow> (m, os, tm, a, ts, x))"

definition auto_first :: "(autoTLS \<times> time stream \<times> 'x) manual_state \<Rightarrow> 'x web_state" where
  "auto_first s = (case s of (m, os, tm, a, ts, x) \<Rightarrow> (a, ts, m, os, tm, x))"

definition lift_manual :: "('c, (autoTLS \<times> time stream \<times> 'x) manual_state) handler \<Rightarrow> ('c, 'x web_state) handler" where
  "lift_manual h r s = (case h r (manual_first s) of (w, s1) \<Rightarrow> (w, auto_first s1))"

definition lower_manual :: "('c, 'x web_state) handler \<Rightarrow> ('c, (autoTLS \<times> time stream \<times> 'x) manual_state) handler" where
  "lower_manual h r s = (case h r (auto_first s) of (w, s1) \<Rightarrow> (w, manual_first s1))"

definition http_handler ::
    "hostlib \<Rightarrow> (string \<Rightarrow> request \<Rightarrow> string) \<Rightarrow> (string \<Rightarrow> 'c) \<Rightarrow> (('c, 'x web_state) handler \<Rightarrow> ('c, 'x web_state) handler) \<Rightarrow>
     process \<Rightarrow> ('c, 'x web_state) handler \<Rightarrow> ('c, 'x web_state) handler" where
  "http_handler lib https_url page manager p application =
     (let h1 = (if p_manual p \<noteq> None then lift_manual (manual_HTTPHandler lib https_url page) else application);
          h2 = (if p_auto p \<noteq> None then auto_HTTPHandler lib https_url page manager (Some h1) else h1)
      in if p_manual p \<noteq> None then lift_manual (GuardHealth lib (lower_manual h2)) else h2)"

definition https_handler :: "hostlib \<Rightarrow> process \<Rightarrow> ('c, 'x web_state) handler \<Rightarrow> ('c, 'x web_state) handler option" where
  "https_handler lib p application =
     (if p_auto p \<noteq> None \<and> AutoTLSWebEnabled (p_cfg p) then Some (auto_HTTPSHandler lib application)
      else if p_manual p \<noteq> None then Some (lift_manual (manual_HTTPSHandler lib (lower_manual application)))
      else None)"

text \<open>The goroutine of the SMTP server: whether it comes to listen.\<close>

definition smtp_listens :: "process \<Rightarrow> autoTLS stream \<Rightarrow> time stream \<Rightarrow> bool stream \<Rightarrow> bool option" where
  "smtp_listens p tables ts done =
     (if AutoTLSSMTPEnabled (p_cfg p)
      then (case WaitSMTPReady tables ts done of None \<Rightarrow> None | Some (x, _) \<Rightarrow> Some (x = CertReady))
      else Some True)"

section \<open>Shutdown\<close>

text \<open>What ends the main select: the signal, or the first result a server sends.\<close>

datatype serve_error = ServerClosed | ServeFailed nat

datatype ending = Signal | ServerEnded "serve_error option"

datatype service = HTTP | HTTPS | MetricsHTTP | AdminHTTP | SMTPService | AnalyticsService | StoreService

text \<open>A failed server ends the process at once; otherwise the servers stop in order, then the deferred closes run.\<close>

definition shutdown :: "process \<Rightarrow> ending \<Rightarrow> service list option" where
  "shutdown p e =
     (case e of
        ServerEnded (Some k) \<Rightarrow> None
      | _ \<Rightarrow> Some ([HTTP] @ (if p_https p then [HTTPS] else []) @ (if p_metrics p then [MetricsHTTP] else []) @
          (if p_admin p then [AdminHTTP] else []) @ [SMTPService, AnalyticsService, StoreService]))"

section \<open>Health check\<close>

datatype health_error = BadHTTPAddr | ProbeFailed nat | ProbeStatus int

text \<open>\<open>probe\<close> is the answer of the local listener to a GET without following redirects.\<close>

definition healthcheck :: "(string \<Rightarrow> string) \<Rightarrow> (string \<Rightarrow> nat + int) \<Rightarrow> string \<Rightarrow> health_error option" where
  "healthcheck escapeHost probe addr =
     (case healthcheckURL escapeHost addr of
        None \<Rightarrow> Some BadHTTPAddr
      | Some target \<Rightarrow>
          (case probe target of Inl k \<Rightarrow> Some (ProbeFailed k) | Inr st \<Rightarrow> if st \<noteq> 204 then Some (ProbeStatus st) else None))"

end
