(* ===== verification/MainProps.thy ===== *)
theory MainProps
  imports Main_Program
begin

text \<open>
  What a successful start guarantees, and what the plain HTTP listener may say once HTTPS is on.
\<close>

lemma wrapped_Inr [result_rules]: "wrapped f r = Inr x \<longleftrightarrow> r = Inr x"
  by (cases r) (auto simp: wrapped_def)

lemma failed_Inr [result_rules]: "failed err f = Inr u \<longleftrightarrow> err = None"
  by (auto simp: failed_def split: option.split)

lemma map_sum_Inr: "map_sum id g r = Inr y \<longleftrightarrow> (\<exists>x. r = Inr x \<and> y = g x)"
  by (cases r) auto

lemma startup_parts:
  assumes "startup lib order w = Inr p"
  obtains conf store where "LoadConfig lib order (m_env w) = Inr conf"
    "OpenStore (m_schema w) (filepath_Join (DataDir conf) ''messages'') conf (m_store w) = (None, store)"
    "Cleanup store = (None, p_store p)" "p_cfg p = conf"
    "NewSMTPServerWithCertificate conf (if AutoTLSEnabled conf \<and> AutoTLSSMTPEnabled conf then Some ProvideAutomatic else None)
       (Some (p_analytics p)) (m_smtp_obs w) = Inr (p_smtp p)"
    "p_manual p \<noteq> None \<longleftrightarrow> HTTPSTLSCertFile conf \<noteq> []" "p_auto p \<noteq> None \<longleftrightarrow> AutoTLSEnabled conf"
    "p_https p \<longleftrightarrow> p_manual p \<noteq> None \<or> p_auto p \<noteq> None \<and> AutoTLSWebEnabled conf"
    "\<And>a. p_auto p = Some a \<Longrightarrow> NewAutoTLS (m_auto_mkdir w) (m_auto_probe w) conf = Inr a"
  using assms unfolding startup_def Let_def result_rules
  by (fastforce simp: result_rules map_sum_Inr split: prod.splits if_splits)


section \<open>The plain listener\<close>

lemma fallback_ignores_application:
  "webTLSHTTPFallback https_url page domain True ready isHealthy app = webTLSHTTPFallback https_url page domain True ready isHealthy app'"
  by (intro ext) (simp add: webTLSHTTPFallback_def)

lemma auto_HTTPHandler_ignores_application:
  assumes "webEnabled (fst s)"
  shows "auto_HTTPHandler lib https_url page manager app r s = auto_HTTPHandler lib https_url page manager app' r s"
  unfolding auto_HTTPHandler_def Let_def using assms fallback_ignores_application [of https_url page _ _ _ app app'] by simp

text \<open>
  C13. Once HTTPS is on, mail never leaves over the plain listener: after a successful start with
  certificate files or automatic web certificates, the answer of the plain HTTP listener to any request,
  in any state the certificate workers can reach, is the same whatever the application behind it would
  say. Whatever the certificate manager does with its fallback is included.
\<close>
theorem plain_http_ignores_application:
  assumes "startup lib order w = Inr p" and "p_https p"
    and "p_auto p \<noteq> None \<Longrightarrow> auto_running (p_cfg p) (fst s)"
  shows "http_handler l https_url page manager p application r s = http_handler l https_url page manager p application' r s"
proof (cases "p_manual p = None")
  case True
  then have a: "p_auto p \<noteq> None" "AutoTLSWebEnabled (p_cfg p)"
    using assms(2) by (auto intro: startup_parts [OF assms(1)])
  then have "webEnabled (fst s)" using auto_running_inv [OF assms(3)] by simp
  from auto_HTTPHandler_ignores_application [OF this] show ?thesis using True a(1) by (simp add: http_handler_def)
next
  case False
  then show ?thesis by (simp add: http_handler_def)
qed

section \<open>Examples\<close>

definition example_machine :: machine where
  "example_machine = \<lparr>m_env = example_env, m_mkdir = None, m_schema = CurrentTables, m_store = empty_store, m_analytics = example_world,
     m_auto_mkdir = None, m_auto_probe = None, m_smtp_obs = ready_obs, m_web_obs = (ready_obs, ready_obs), m_clock = sconst 0,
     m_bind_http = None, m_bind_https = None\<rparr>"

lemma example_starts: "\<exists>p. startup example_configlib rev example_machine = Inr p \<and> p_https p"
proof -
  obtain c where c: "LoadConfig example_configlib rev example_env = Inr c" "AutoTLSEnabled c" "AutoTLSWebEnabled c" "AutoTLSSMTPEnabled c"
    using example_loads [OF rev_order] by blast
  have ok: "config_ok (hosts example_configlib) c" by (rule LoadConfig_config_ok [OF c(1) rev_order])
  then have cert: "HTTPSTLSCertFile c = []" "SMTPTLSCertFile c = []" "ACMEAcceptTOS c" using c by (simp_all add: config_ok_def)
  obtain s where s: "OpenStore CurrentTables (filepath_Join (DataDir c) ''messages'') c empty_store = (None, s)" "quiet s"
    using empty_opens_quiet by blast
  have "recovered empty_store s"
    using OpenStore_recovered [OF _ _ _ _ s(1)] db_ok_empty plain_unicode_ok
    by (simp add: empty_store_def files_ok_def empty_db_def blob_paths_def)
  then have "store_inv s" by (simp add: recovered_def)
  then have "fst (Cleanup s) = None"
    using cleanup_loop_quiet [of "s\<lparr>clock := stl (clock s)\<rparr>"] s(2) touches_files(1) [of "{}" s "s\<lparr>clock := stl (clock s)\<rparr>"]
    by (simp add: Cleanup_def now_def)
  then obtain s1 where s1: "Cleanup s = (None, s1)" by (metis prod.collapse)
  obtain a where a: "NewAutoTLS None None c = Inr a" using c cert by (auto simp: NewAutoTLS_def Let_def)
  obtain smtp where m: "NewSMTPServerWithCertificate c (Some ProvideAutomatic) (Some (OpenAnalytics c example_world)) ready_obs = Inr smtp"
    by (simp add: NewSMTPServerWithCertificate_def Let_def)
  show ?thesis using c cert s(1) s1 a m
    by (simp add: startup_def example_machine_def wrapped_def failed_def Let_def)
qed


theorem plain_http_ignores_application_witness:
  "\<exists>p a. startup example_configlib rev example_machine = Inr p \<and> p_auto p = Some a
    \<and> http_handler (hosts example_configlib) (\<lambda>_ _. []) (\<lambda>_. ()) (\<lambda>f. f) p (\<lambda>r s. (no_response\<lparr>rcontent := Some ()\<rparr>, s)) (example_get ''/'')
          (a, sconst 0, undefined, sconst ready_obs, sconst 0, ())
      = http_handler (hosts example_configlib) (\<lambda>_ _. []) (\<lambda>_. ()) (\<lambda>f. f) p (\<lambda>r s. (no_response, s)) (example_get ''/'')
          (a, sconst 0, undefined, sconst ready_obs, sconst 0, ())"
proof -
  obtain p where p: "startup example_configlib rev example_machine = Inr p" "p_https p" using example_starts by blast
  obtain a where a: "p_auto p = Some a" "auto_running (p_cfg p) a"
  proof (rule startup_parts [OF p(1)])
    fix conf store
    assume h: "LoadConfig example_configlib rev (m_env example_machine) = Inr conf" "p_cfg p = conf" "p_auto p \<noteq> None \<longleftrightarrow> AutoTLSEnabled conf"
      "\<And>a. p_auto p = Some a \<Longrightarrow> NewAutoTLS (m_auto_mkdir example_machine) (m_auto_probe example_machine) conf = Inr a"
    obtain c where "LoadConfig example_configlib rev example_env = Inr c" "AutoTLSEnabled c" using example_loads [OF rev_order] by blast
    with h obtain a where "p_auto p = Some a" by (auto simp: example_machine_def)
    with h that show thesis using auto_reachable.start unfolding auto_running_def by metis
  qed
  have "auto_running (p_cfg p) (fst (a, sconst 0, undefined, sconst ready_obs, sconst 0, ()))" using a(2) by simp
  from plain_http_ignores_application [OF p this] p(1) a(1) show ?thesis by blast
qed

end
