(* ===== verification/Canary.thy ===== *)
theory Canary
  imports GoNet GoText "HOL-Library.Stream"
begin

text \<open>
  The canary (\<^verbatim>\<open>canary/cmd/canary\<close>): a separate program that sends probe mail over SMTP and looks
  for it through the API and the inbox page. What the network answers is a state of streams, one
  element for every operation that asks; what the canary says is kept as a transcript. An operation that
  can fail is a function on that state with a sum as its result, and \<open>cbind\<close> is Go's
  \<^verbatim>\<open>if err != nil { return err }\<close>.
\<close>

section \<open>State\<close>

datatype canary_error =
    RandFailed | BadURL | Transport nat | HTTPStatus int | DecodeFailed | ReadFailed
  | DialFailed nat | BadAddress | WriteFailed nat | SMTPRead nat | SMTPStatus int | SendFailed canary_error
  | Deadline | WrongRecipient | WrongFrom | WrongSubject | BodyMissing | BadProbe
  | PageWithoutBody | PageWithoutScript | PageWithoutStyles
  | AttachmentCount nat | WrongFilename | WrongSize | WrongContent

record canaryConfig =
  c_HTTPAddr :: string
  c_Interval :: int
  c_Timeout :: int
  c_SMTPAddr :: string
  c_APIURL :: string
  c_MailDomain :: string
  c_From :: string

record attachmentSummary =
  at_Index :: int
  at_Filename :: string
  at_Size :: int

record messageSummary =
  ms_ID :: string
  ms_Recipient :: string
  ms_From :: string
  ms_Subject :: string

record messageDetail = messageSummary +
  md_Body :: string
  md_Attachments :: "attachmentSummary list"

text \<open>An HTTP answer: its status, and the body as far as it can be read (\<open>None\<close> when reading fails).\<close>

type_synonym http_answer = "nat + int \<times> string option"

datatype said = HTTP_GET string | Say string

record network =
  clocks :: "time stream"
  rand_reads :: "string option stream"
  answers :: "http_answer stream"
  dials :: "nat option stream"
  writes :: "nat option stream"
  replies :: "(nat + int \<times> string) stream"
  waits :: "bool stream" \<comment> \<open>what a wait ends with: the context (\<open>True\<close>) or the timer\<close>
  transcript :: "said list" \<comment> \<open>history variable\<close>

text \<open>The packages the canary uses: escaping, JSON, base64, the date format, and which URLs are valid.\<close>

record canarylib =
  url_ok :: "string \<Rightarrow> bool"
  PathEscape :: "string \<Rightarrow> string"
  QueryEscape :: "string \<Rightarrow> string"
  decodePage :: "string \<Rightarrow> messageSummary list option"
  decodeDetail :: "string \<Rightarrow> messageDetail option"
  encodeBase64 :: "string \<Rightarrow> string"
  rfc1123z :: "time \<Rightarrow> string"
  png :: string \<comment> \<open>the bytes of the embedded image\<close>

type_synonym 'a action = "network \<Rightarrow> (canary_error + 'a) \<times> network"

definition cbind :: "'a action \<Rightarrow> ('a \<Rightarrow> 'b action) \<Rightarrow> 'b action" where
  "cbind m f n = (case m n of (Inl e, n1) \<Rightarrow> (Inl e, n1) | (Inr x, n1) \<Rightarrow> f x n1)"

definition creturn :: "'a \<Rightarrow> 'a action" where "creturn x n = (Inr x, n)"
definition cfail :: "canary_error \<Rightarrow> 'a action" where "cfail e n = (Inl e, n)"
definition cguard :: "bool \<Rightarrow> canary_error \<Rightarrow> unit action" where
  "cguard b e = (if b then creturn () else cfail e)"

definition cwrap :: "(canary_error \<Rightarrow> canary_error) \<Rightarrow> 'a action \<Rightarrow> 'a action" where
  "cwrap f m n = (case m n of (Inl e, n1) \<Rightarrow> (Inl (f e), n1) | (Inr x, n1) \<Rightarrow> (Inr x, n1))"

definition cnow :: "time action" where
  "cnow n = (Inr (shd (clocks n)), n\<lparr>clocks := stl (clocks n)\<rparr>)"

text \<open>\<^verbatim>\<open>http.NewRequestWithContext\<close> and \<^verbatim>\<open>Client.Do\<close>.\<close>

definition http_get :: "canarylib \<Rightarrow> string \<Rightarrow> (int \<times> string option) action" where
  "http_get lib target n =
     (if \<not> url_ok lib target then (Inl BadURL, n)
      else (let n1 = n\<lparr>answers := stl (answers n), transcript := transcript n @ [HTTP_GET target]\<rparr> in
        case shd (answers n) of Inl k \<Rightarrow> (Inl (Transport k), n1) | Inr r \<Rightarrow> (Inr r, n1)))"

section \<open>SMTP client\<close>

definition smtp_dial :: "unit action" where
  "smtp_dial n = ((case shd (dials n) of None \<Rightarrow> Inr () | Some k \<Rightarrow> Inl (DialFailed k)), n\<lparr>dials := stl (dials n)\<rparr>)"

definition smtp_write :: "string \<Rightarrow> unit action" where
  "smtp_write v n =
     ((case shd (writes n) of None \<Rightarrow> Inr () | Some k \<Rightarrow> Inl (WriteFailed k)),
      n\<lparr>writes := stl (writes n), transcript := transcript n @ [Say v]\<rparr>)"

text \<open>\<^verbatim>\<open>textproto.ReadResponse\<close> already fails on another code than the expected one.\<close>

definition smtp_response :: "int \<Rightarrow> string list action" where
  "smtp_response expected n =
     ((case shd (replies n) of
         Inl k \<Rightarrow> Inl (SMTPRead k)
       | Inr (code, message) \<Rightarrow> if code \<noteq> expected then Inl (SMTPStatus code) else Inr (Split message (CHR 10))),
      n\<lparr>replies := stl (replies n)\<rparr>)"

definition crlf :: string where "crlf = [CHR 13, CHR 10]"

definition smtp_command :: "int \<Rightarrow> string \<Rightarrow> unit action" where
  "smtp_command expected c = cbind (smtp_write (c @ crlf)) (\<lambda>_. cbind (smtp_response expected) (\<lambda>_. creturn ()))"

definition smtp_ehlo :: "string \<Rightarrow> string list action" where
  "smtp_ehlo host = cbind (smtp_write (''EHLO '' @ host @ crlf)) (\<lambda>_. smtp_response 250)"

definition smtpDeliver :: "string \<Rightarrow> string \<Rightarrow> string \<Rightarrow> string \<Rightarrow> unit action" where
  "smtpDeliver address sender to message =
     cbind smtp_dial (\<lambda>_.
     (case SplitHostPort address of
        None \<Rightarrow> cfail BadAddress
      | Some (host, _) \<Rightarrow>
          cbind (smtp_response 220) (\<lambda>_.
          cbind (smtp_ehlo host) (\<lambda>_.
          cbind (smtp_command 250 (''MAIL FROM:<'' @ sender @ ''>'')) (\<lambda>_.
          cbind (smtp_command 250 (''RCPT TO:<'' @ to @ ''>'')) (\<lambda>_.
          cbind (smtp_command 354 ''DATA'') (\<lambda>_.
          cbind (smtp_write (message @ ''.'' @ crlf)) (\<lambda>_.
          cbind (smtp_response 250) (\<lambda>_.
          smtp_command 221 ''QUIT'')))))))))"

definition probe_headers :: "string \<Rightarrow> string \<Rightarrow> string \<Rightarrow> string \<Rightarrow> string" where
  "probe_headers to sender subject date =
     ''To: '' @ to @ crlf @ ''From: '' @ sender @ crlf @ ''Subject: '' @ subject @ crlf @ ''Date: '' @ date @ crlf"

definition smtpSend :: "canarylib \<Rightarrow> string \<Rightarrow> string \<Rightarrow> string \<Rightarrow> string \<Rightarrow> string \<Rightarrow> unit action" where
  "smtpSend lib address sender to subject body =
     cbind cnow (\<lambda>t. smtpDeliver address sender to (probe_headers to sender subject (rfc1123z lib t) @ crlf @ body @ crlf))"

definition dquote :: string where "dquote = [CHR 34]"

definition multipart_message :: "canarylib \<Rightarrow> string \<Rightarrow> string \<Rightarrow> string \<Rightarrow> string \<Rightarrow> string \<Rightarrow> string \<Rightarrow> string" where
  "multipart_message lib heads body filename ctype attachment boundary =
     heads @ ''MIME-Version: 1.0'' @ crlf @ ''Content-Type: multipart/mixed; boundary='' @ dquote @ boundary @ dquote @ crlf @ crlf @
     ''--'' @ boundary @ crlf @ ''Content-Type: text/plain; charset=utf-8'' @ crlf @ crlf @ body @ crlf @
     ''--'' @ boundary @ crlf @ ''Content-Type: '' @ ctype @ ''; name='' @ dquote @ filename @ dquote @ crlf @
     ''Content-Disposition: attachment; filename='' @ dquote @ filename @ dquote @ crlf @ ''Content-Transfer-Encoding: base64'' @ crlf @ crlf @
     encodeBase64 lib attachment @ crlf @ ''--'' @ boundary @ ''--'' @ crlf"

definition smtpSendWithAttachment ::
    "canarylib \<Rightarrow> string \<Rightarrow> string \<Rightarrow> string \<Rightarrow> string \<Rightarrow> string \<Rightarrow> string \<Rightarrow> string \<Rightarrow> string \<Rightarrow> unit action" where
  "smtpSendWithAttachment lib address sender to subject body filename ctype attachment =
     cbind cnow (\<lambda>t. smtpDeliver address sender to
       (multipart_message lib (probe_headers to sender subject (rfc1123z lib t)) body filename ctype attachment ''canary-boundary''))"

section \<open>API client\<close>

definition body_or_fail :: "(string \<Rightarrow> 'a option) \<Rightarrow> string option \<Rightarrow> 'a action" where
  "body_or_fail decode body =
     (case body of None \<Rightarrow> cfail DecodeFailed | Some b \<Rightarrow> (case decode b of None \<Rightarrow> cfail DecodeFailed | Some x \<Rightarrow> creturn x))"

definition getMessage :: "canarylib \<Rightarrow> string \<Rightarrow> string \<Rightarrow> messageDetail option action" where
  "getMessage lib apiURL i =
     cbind (http_get lib (apiURL @ ''/api/v1/messages/'' @ PathEscape lib i)) (\<lambda>(st, body).
     cbind (cguard (st = 200) (HTTPStatus st)) (\<lambda>_.
     cbind (body_or_fail (decodeDetail lib) body) (\<lambda>m. creturn (Some m))))"

definition findMessage :: "canarylib \<Rightarrow> string \<Rightarrow> string \<Rightarrow> string \<Rightarrow> messageDetail option action" where
  "findMessage lib apiURL recipient subject =
     cbind (http_get lib (apiURL @ ''/api/v1/inboxes/'' @ PathEscape lib recipient @ ''?limit=25'')) (\<lambda>(st, body).
     cbind (cguard (st = 200) (HTTPStatus st)) (\<lambda>_.
     cbind (body_or_fail (decodePage lib) body) (\<lambda>page.
     (case find (\<lambda>s. ms_Subject s = subject) page of
        Some s \<Rightarrow> getMessage lib apiURL (ms_ID s)
      | None \<Rightarrow> creturn None))))"

text \<open>The wait polls until the message is there or the context is done; it may go on as long as neither happens.\<close>

partial_function (option) waitForMessage ::
    "canarylib \<Rightarrow> string \<Rightarrow> string \<Rightarrow> string \<Rightarrow> network \<Rightarrow> ((canary_error + messageDetail) \<times> network) option" where
  "waitForMessage lib apiURL recipient subject n =
     (case findMessage lib apiURL recipient subject n of
        (Inl e, n1) \<Rightarrow> Some (Inl e, n1)
      | (Inr (Some m), n1) \<Rightarrow> Some (Inr m, n1)
      | (Inr None, n1) \<Rightarrow>
          if shd (waits n1) then Some (Inl Deadline, n1\<lparr>waits := stl (waits n1)\<rparr>)
          else waitForMessage lib apiURL recipient subject (n1\<lparr>waits := stl (waits n1)\<rparr>))"

definition Contains :: "string \<Rightarrow> string \<Rightarrow> bool" where
  "Contains s sub \<longleftrightarrow> list_ex (\<lambda>i. HasPrefix (drop i s) sub) [0..<Suc (length s)]"

definition downloadAttachment :: "canarylib \<Rightarrow> string \<Rightarrow> string \<Rightarrow> int \<Rightarrow> string action" where
  "downloadAttachment lib apiURL i index =
     cbind (http_get lib (apiURL @ ''/api/v1/messages/'' @ PathEscape lib i @ ''/attachments/'' @ Itoa index)) (\<lambda>(st, body).
     cbind (cguard (st = 200) (HTTPStatus st)) (\<lambda>_.
     (case body of None \<Rightarrow> cfail ReadFailed | Some b \<Rightarrow> creturn (take (10 * 1048576) b))))"

definition verifyInboxUI :: "canarylib \<Rightarrow> string \<Rightarrow> string \<Rightarrow> string \<Rightarrow> unit action" where
  "verifyInboxUI lib apiURL recipient body =
     (case Cut recipient (CHR ''@'') of
        (inbox, _, ok) \<Rightarrow>
          cbind (cguard (ok \<and> inbox \<noteq> []) BadProbe) (\<lambda>_.
          cbind (http_get lib (apiURL @ ''/?inbox='' @ QueryEscape lib inbox)) (\<lambda>(st, page).
          cbind (cguard (st = 200) (HTTPStatus st)) (\<lambda>_.
          (case page of
             None \<Rightarrow> cfail ReadFailed
           | Some p \<Rightarrow>
               (let contents = take (3 * 1048576) p in
                cbind (cguard (Contains contents body) PageWithoutBody) (\<lambda>_.
                cbind (cguard (Contains contents ''/ui.js?v='') PageWithoutScript) (\<lambda>_.
                cguard (Contains contents ''<style>/* tmpmail UI.'' \<or> Contains contents ''/ui.css?v='') PageWithoutStyles))))))))"

section \<open>Checks\<close>

definition randomToken :: "string action" where
  "randomToken n =
     ((case shd (rand_reads n) of None \<Rightarrow> Inl RandFailed | Some raw \<Rightarrow> Inr (concat (map hex_byte raw))),
      n\<lparr>rand_reads := stl (rand_reads n)\<rparr>)"

text \<open>Steps that may go on for ever: \<^const>\<open>None\<close> is not returning.\<close>

type_synonym 'a paction = "network \<Rightarrow> ((canary_error + 'a) \<times> network) option"

definition total :: "'a action \<Rightarrow> 'a paction" where "total m n = Some (m n)"

definition pbind :: "'a paction \<Rightarrow> ('a \<Rightarrow> 'b paction) \<Rightarrow> 'b paction" where
  "pbind m f n = (case m n of None \<Rightarrow> None | Some (Inl e, n1) \<Rightarrow> Some (Inl e, n1) | Some (Inr x, n1) \<Rightarrow> f x n1)"

definition apiHealth :: "canarylib \<Rightarrow> canaryConfig \<Rightarrow> unit paction" where
  "apiHealth lib conf =
     total (cbind (http_get lib (c_APIURL conf @ ''/healthz'')) (\<lambda>(st, _). cguard (st = 204) (HTTPStatus st)))"

definition mail_recipient :: "canaryConfig \<Rightarrow> string \<Rightarrow> string" where
  "mail_recipient conf token = ''canary-'' @ token @ ''@'' @ c_MailDomain conf"

definition mailFlow :: "canarylib \<Rightarrow> canaryConfig \<Rightarrow> unit paction" where
  "mailFlow lib conf =
     pbind (total randomToken) (\<lambda>token.
       (let recipient = mail_recipient conf token; subject = ''canary '' @ token; body = ''canary message '' @ token in
        pbind (total (cwrap SendFailed (smtpSend lib (c_SMTPAddr conf) (c_From conf) recipient subject body))) (\<lambda>_.
        pbind (waitForMessage lib (c_APIURL conf) recipient subject) (\<lambda>m.
        total (cbind (cguard (ms_Recipient m = recipient) WrongRecipient) (\<lambda>_.
               cbind (cguard (ms_From m = c_From conf) WrongFrom) (\<lambda>_.
               cbind (cguard (ms_Subject m = subject) WrongSubject) (\<lambda>_.
               cbind (cguard (Contains (md_Body m) body) BodyMissing) (\<lambda>_.
               verifyInboxUI lib (c_APIURL conf) recipient body)))))))))"

definition attachmentFlow :: "canarylib \<Rightarrow> canaryConfig \<Rightarrow> unit paction" where
  "attachmentFlow lib conf =
     pbind (total randomToken) (\<lambda>token.
       (let recipient = ''canary-attachment-'' @ token @ ''@'' @ c_MailDomain conf; subject = ''canary attachment '' @ token;
            body = ''canary attachment message '' @ token; filename = ''canary-'' @ token @ ''.png''; attachment = png lib in
        pbind (total (cwrap SendFailed (smtpSendWithAttachment lib (c_SMTPAddr conf) (c_From conf) recipient subject body filename
                 ''image/png'' attachment))) (\<lambda>_.
        pbind (waitForMessage lib (c_APIURL conf) recipient subject) (\<lambda>m.
        (case md_Attachments m of
           [got] \<Rightarrow>
             total (cbind (cguard (at_Filename got = filename) WrongFilename) (\<lambda>_.
                    cbind (cguard (at_Size got = int (length attachment)) WrongSize) (\<lambda>_.
                    cbind (downloadAttachment lib (c_APIURL conf) (ms_ID m) (at_Index got)) (\<lambda>downloaded.
                    cguard (downloaded = attachment) WrongContent))))
         | ats \<Rightarrow> total (cfail (AttachmentCount (length ats))))))))"

record checkResult =
  ck_Name :: string
  ck_Status :: string
  ck_Message :: "canary_error option"
  ck_CheckedAt :: time
  ck_LatencyMS :: int

definition timedCheck :: "string \<Rightarrow> unit paction \<Rightarrow> network \<Rightarrow> (checkResult \<times> network) option" where
  "timedCheck name fn n =
     (case fn (n\<lparr>clocks := stl (clocks n)\<rparr>) of
        None \<Rightarrow> None
      | Some (res, n1) \<Rightarrow>
          Some (\<lparr>ck_Name = name,
                 ck_Status = (case res of Inl _ \<Rightarrow> ''unhealthy'' | Inr _ \<Rightarrow> ''healthy''),
                 ck_Message = (case res of Inl e \<Rightarrow> Some e | Inr _ \<Rightarrow> None),
                 ck_CheckedAt = shd (clocks n), ck_LatencyMS = quot (shd (clocks n1) - shd (clocks n)) 1000000\<rparr>,
                n1\<lparr>clocks := stl (clocks n1)\<rparr>))"

record healthStatus =
  hs_Status :: string
  hs_LastCheckedAt :: "time option"
  hs_Checks :: "checkResult list"

definition newRunner :: healthStatus where
  "newRunner = \<lparr>hs_Status = ''starting'', hs_LastCheckedAt = None, hs_Checks = []\<rparr>"

text \<open>Running checks in their order.\<close>

fun run_checks :: "(string \<times> unit paction) list \<Rightarrow> network \<Rightarrow> (checkResult list \<times> network) option" where
  "run_checks [] n = Some ([], n)"
| "run_checks ((name, fn) # cs) n =
     (case timedCheck name fn n of
        None \<Rightarrow> None
      | Some (r, n1) \<Rightarrow> (case run_checks cs n1 of None \<Rightarrow> None | Some (rs, n2) \<Rightarrow> Some (r # rs, n2)))"

definition all_checks :: "canarylib \<Rightarrow> canaryConfig \<Rightarrow> (string \<times> unit paction) list" where
  "all_checks lib conf = [(''api-health'', apiHealth lib conf), (''smtp-to-api-and-ui-message-flow'', mailFlow lib conf),
     (''smtp-attachment-download'', attachmentFlow lib conf)]"

definition runOnce :: "canarylib \<Rightarrow> canaryConfig \<Rightarrow> network \<Rightarrow> (healthStatus \<times> network) option" where
  "runOnce lib conf n =
     (case run_checks (all_checks lib conf) n of
        None \<Rightarrow> None
      | Some (results, n1) \<Rightarrow>
          Some (\<lparr>hs_Status = (if list_all (\<lambda>r. ck_Status r = ''healthy'') results then ''healthy'' else ''unhealthy''),
                 hs_LastCheckedAt = Some (shd (clocks n1)), hs_Checks = results\<rparr>, n1\<lparr>clocks := stl (clocks n1)\<rparr>))"

text \<open>A run at the start, then one at every tick; the state of the runner is the result of the last.\<close>

fun runner_run :: "canarylib \<Rightarrow> canaryConfig \<Rightarrow> nat \<Rightarrow> network \<Rightarrow> (healthStatus \<times> network) option" where
  "runner_run lib conf 0 n = runOnce lib conf n"
| "runner_run lib conf (Suc ticks) n =
     (case runner_run lib conf ticks n of None \<Rightarrow> None | Some (_, n1) \<Rightarrow> runOnce lib conf n1)"

text \<open>The health endpoint and the liveness endpoint.\<close>

definition canary_healthz :: "healthStatus \<Rightarrow> int \<times> healthStatus" where
  "canary_healthz current = ((if hs_Status current \<noteq> ''healthy'' then 503 else 200), current)"

text \<open>The body is a raw string literal: its last two characters are a backslash and an n.\<close>

definition canary_livez :: "int \<times> string" where
  "canary_livez = (200, [CHR ''{'', CHR 34] @ ''status'' @ [CHR 34, CHR '':'', CHR 34] @ ''ok'' @ [CHR 34, CHR ''}'', CHR 92, CHR ''n''])"

section \<open>Configuration\<close>

definition canary_env :: "(string \<Rightarrow> string) \<Rightarrow> string \<Rightarrow> string \<Rightarrow> string" where
  "canary_env getenv key fallback = (if getenv key \<noteq> [] then getenv key else fallback)"

definition positiveDuration :: "(string \<Rightarrow> int option) \<Rightarrow> (string \<Rightarrow> string) \<Rightarrow> string \<Rightarrow> string \<Rightarrow> string + int" where
  "positiveDuration parseDuration getenv key fallback =
     (case parseDuration (canary_env getenv key fallback) of
        None \<Rightarrow> Inl key
      | Some d \<Rightarrow> if d \<le> 0 then Inl key else Inr d)"

definition trim_slashes :: "string \<Rightarrow> string" where
  "trim_slashes s = rev (dropWhile (\<lambda>c. c = CHR ''/'') (rev s))"

text \<open>\<^verbatim>\<open>loadConfig\<close>; \<open>Inl\<close> names the variable that is wrong.\<close>

definition loadConfig :: "unicode \<Rightarrow> (string \<Rightarrow> int option) \<Rightarrow> (string \<Rightarrow> string) \<Rightarrow> string + canaryConfig" where
  "loadConfig u parseDuration getenv =
     bnd (positiveDuration parseDuration getenv ''CANARY_INTERVAL'' ''1m'') (\<lambda>interval.
     bnd (positiveDuration parseDuration getenv ''CANARY_TIMEOUT'' ''10s'') (\<lambda>timeout.
     (let domain = ToLower u (TrimSpace (getenv ''CANARY_MAIL_DOMAIN'')) in
     bnd (guard (\<not> (domain = [] \<or> ContainsAny domain (''@ /'' @ [CHR 92]))) ''CANARY_MAIL_DOMAIN'') (\<lambda>_.
     Inr \<lparr>c_HTTPAddr = canary_env getenv ''CANARY_HTTP_ADDR'' '':8081'', c_Interval = interval, c_Timeout = timeout,
       c_SMTPAddr = canary_env getenv ''CANARY_SMTP_ADDR'' ''tmpmail:2525'',
       c_APIURL = trim_slashes (canary_env getenv ''CANARY_API_URL'' ''http://tmpmail:8080''), c_MailDomain = domain,
       c_From = canary_env getenv ''CANARY_FROM'' ''canary@monitor.invalid''\<rparr>))))"

end
