(* ===== verification/CanaryProps.thy ===== *)
theory CanaryProps
  imports Canary
begin

text \<open>
  What the canary's verdict means: a healthy mail check has had the whole conversation over SMTP, found
  the probe through the API with the right fields and seen it on the inbox page; a run ends when the
  context does; the health endpoint answers 200 exactly after a run with three healthy checks.
\<close>

section \<open>Actions that succeed\<close>

named_theorems canary_ok

lemma cbind_ok [canary_ok]: "cbind m f n = (Inr y, n') \<longleftrightarrow> (\<exists>x n1. m n = (Inr x, n1) \<and> f x n1 = (Inr y, n'))"
  by (auto simp: cbind_def split: prod.split sum.split)

lemma cguard_ok [canary_ok]: "cguard b e n = (Inr u, n') \<longleftrightarrow> b \<and> n' = n"
  by (auto simp: cguard_def creturn_def cfail_def)

lemma creturn_ok [canary_ok]: "creturn x n = (Inr y, n') \<longleftrightarrow> y = x \<and> n' = n"
  by (auto simp: creturn_def)

lemma cfail_ok [canary_ok]: "cfail e n = (Inr y, n') \<longleftrightarrow> False"
  by (simp add: cfail_def)

lemma cwrap_ok [canary_ok]: "cwrap f m n = (Inr y, n') \<longleftrightarrow> m n = (Inr y, n')"
  by (auto simp: cwrap_def split: prod.split sum.split)

lemma pbind_ok [canary_ok]: "pbind m f n = Some (Inr y, n') \<longleftrightarrow> (\<exists>x n1. m n = Some (Inr x, n1) \<and> f x n1 = Some (Inr y, n'))"
  by (auto simp: pbind_def split: option.split prod.split sum.split)

lemma total_ok [canary_ok]: "total m n = Some r \<longleftrightarrow> m n = r"
  by (simp add: total_def)

text \<open>The operations on the network: what they say and which answers they take.\<close>

definition took :: "int list \<Rightarrow> said list \<Rightarrow> network \<Rightarrow> network \<Rightarrow> bool" where
  "took codes says n n' \<longleftrightarrow>
     (\<exists>ms. length ms = length codes \<and> stake (length codes) (replies n) = map Inr (zip codes ms)) \<and>
     replies n' = sdrop (length codes) (replies n) \<and> transcript n' = transcript n @ says \<and>
     waits n' = waits n \<and> answers n' = answers n"

lemma took_refl: "took [] [] n n"
  by (simp add: took_def)

lemma took_trans: "took cs ss n n1 \<Longrightarrow> took cs' ss' n1 n2 \<Longrightarrow> took (cs @ cs') (ss @ ss') n n2"
proof -
  assume a: "took cs ss n n1" and b: "took cs' ss' n1 n2"
  from a obtain ms where m: "length ms = length cs" "stake (length cs) (replies n) = map Inr (zip cs ms)" by (auto simp: took_def)
  from b a obtain ms' where m': "length ms' = length cs'" "stake (length cs') (sdrop (length cs) (replies n)) = map Inr (zip cs' ms')"
    by (auto simp: took_def)
  have "stake (length (cs @ cs')) (replies n) = map Inr (zip (cs @ cs') (ms @ ms'))"
    using m m' by (simp add: stake_add [symmetric])
  then show ?thesis using a b m m' unfolding took_def by (auto simp: sdrop_add intro!: exI [of _ "ms @ ms'"])
qed

lemma write_ok: "smtp_write v n = (Inr u, n') \<Longrightarrow> took [] [Say v] n n'"
  by (auto simp: smtp_write_def took_def split: option.splits)

lemma response_ok: "smtp_response c n = (Inr u, n') \<Longrightarrow> took [c] [] n n'"
  by (auto simp: smtp_response_def took_def split: sum.splits prod.splits if_splits intro: exI [of _ "[_]"])

lemma command_ok: "smtp_command c v n = (Inr u, n') \<Longrightarrow> took [c] [Say (v @ crlf)] n n'"
  using took_trans [OF write_ok response_ok, of "v @ crlf" n _ _ c]
  by (auto simp: smtp_command_def canary_ok)

lemma ehlo_ok: "smtp_ehlo h n = (Inr u, n') \<Longrightarrow> took [250] [Say (''EHLO '' @ h @ crlf)] n n'"
  using took_trans [OF write_ok response_ok, of "''EHLO '' @ h @ crlf" n _ _ 250]
  by (auto simp: smtp_ehlo_def canary_ok)

lemma dial_ok: "smtp_dial n = (Inr u, n') \<Longrightarrow> took [] [] n n'"
  by (auto simp: smtp_dial_def took_def split: option.splits)

definition conversation :: "string \<Rightarrow> string \<Rightarrow> string \<Rightarrow> string \<Rightarrow> said list" where
  "conversation host sender to message =
     [Say (''EHLO '' @ host @ crlf), Say (''MAIL FROM:<'' @ sender @ ''>'' @ crlf), Say (''RCPT TO:<'' @ to @ ''>'' @ crlf),
      Say (''DATA'' @ crlf), Say (message @ ''.'' @ crlf), Say (''QUIT'' @ crlf)]"

lemma deliver_ok:
  assumes "smtpDeliver address sender to message n = (Inr u, n')"
  shows "\<exists>host port. SplitHostPort address = Some (host, port) \<and>
    took [220, 250, 250, 250, 354, 250, 221] (conversation host sender to message) n n'"
proof -
  obtain host port where h: "SplitHostPort address = Some (host, port)"
    using assms by (auto simp: smtpDeliver_def canary_ok split: option.splits)
  obtain u0 n0 u1 n1 u2 n2 u3 n3 u4 n4 u5 n5 u6 n6 u7 n7 where
      s: "smtp_dial n = (Inr u0, n0)" "smtp_response 220 n0 = (Inr u1, n1)" "smtp_ehlo host n1 = (Inr u2, n2)"
      "smtp_command 250 (''MAIL FROM:<'' @ sender @ ''>'') n2 = (Inr u3, n3)" "smtp_command 250 (''RCPT TO:<'' @ to @ ''>'') n3 = (Inr u4, n4)"
      "smtp_command 354 ''DATA'' n4 = (Inr u5, n5)" "smtp_write (message @ ''.'' @ crlf) n5 = (Inr u6, n6)"
      "smtp_response 250 n6 = (Inr u7, n7)" "smtp_command 221 ''QUIT'' n7 = (Inr u, n')"
    using assms unfolding smtpDeliver_def by (auto simp: canary_ok h)
  note took_trans [OF dial_ok [OF s(1)] took_trans [OF response_ok [OF s(2)] took_trans [OF ehlo_ok [OF s(3)]
    took_trans [OF command_ok [OF s(4)] took_trans [OF command_ok [OF s(5)] took_trans [OF command_ok [OF s(6)]
    took_trans [OF write_ok [OF s(7)] took_trans [OF response_ok [OF s(8)] command_ok [OF s(9)]]]]]]]]]
  then show ?thesis using h by (simp add: conversation_def)
qed

section \<open>Finding the message\<close>

lemma http_get_ok: "http_get lib target n = (Inr r, n') \<Longrightarrow>
    transcript n' = transcript n @ [HTTP_GET target] \<and> waits n' = waits n \<and> shd (answers n) = Inr r \<and> answers n' = stl (answers n)"
  by (auto simp: http_get_def Let_def split: if_splits sum.splits)

lemma http_get_waits: "http_get lib target n = (r, n') \<Longrightarrow> waits n' = waits n"
  by (auto simp: http_get_def Let_def split: if_splits sum.splits)

lemma body_or_fail_net: "body_or_fail d b n = (r, n') \<Longrightarrow> n' = n"
  by (auto simp: body_or_fail_def cfail_def creturn_def split: option.splits)

lemma body_or_fail_ok [canary_ok]: "body_or_fail d b n = (Inr x, n') \<longleftrightarrow> n' = n \<and> (\<exists>s. b = Some s \<and> d s = Some x)"
  by (auto simp: body_or_fail_def cfail_def creturn_def split: option.splits)

lemma cguard_net: "cguard b e n = (r, n') \<Longrightarrow> n' = n"
  by (auto simp: cguard_def cfail_def creturn_def split: if_splits)

lemma getMessage_waits: "getMessage lib api i n = (r, n') \<Longrightarrow> waits n' = waits n"
  by (auto simp: getMessage_def cbind_def creturn_def split: prod.splits sum.splits dest!: http_get_waits cguard_net body_or_fail_net)

lemma findMessage_waits: "findMessage lib api recipient subject n = (r, n') \<Longrightarrow> waits n' = waits n"
  by (auto simp: findMessage_def cbind_def creturn_def split: prod.splits sum.splits option.splits
      dest!: http_get_waits cguard_net body_or_fail_net getMessage_waits)

lemma waitForMessage_step:
  "waitForMessage lib api recipient subject n =
     (case findMessage lib api recipient subject n of
        (Inl e, n1) \<Rightarrow> Some (Inl e, n1)
      | (Inr (Some m), n1) \<Rightarrow> Some (Inr m, n1)
      | (Inr None, n1) \<Rightarrow>
          if shd (waits n1) then Some (Inl Deadline, n1\<lparr>waits := stl (waits n1)\<rparr>)
          else waitForMessage lib api recipient subject (n1\<lparr>waits := stl (waits n1)\<rparr>))"
  by (rule waitForMessage.simps)

text \<open>The wait returns once its context is done, and leaves a later part of the stream of waits.\<close>

lemma waitForMessage_returns:
  "waits n !! k \<Longrightarrow> \<exists>r n' m. waitForMessage lib api recipient subject n = Some (r, n') \<and> waits n' = sdrop m (waits n)"
proof (induction k arbitrary: n)
  case (0 n)
  obtain r n1 where f: "findMessage lib api recipient subject n = (r, n1)" by fastforce
  then have w: "waits n1 = waits n" by (rule findMessage_waits)
  consider e where "r = Inl e" | m where "r = Inr (Some m)" | "r = Inr None" by (metis option.exhaust sum.exhaust)
  then show ?case
  proof cases
    case 3
    with 0 f w show ?thesis by (subst waitForMessage_step) (auto intro: exI [of _ 1])
  qed (use f w in \<open>subst waitForMessage_step; auto intro: exI [of _ 0]\<close>)+
next
  case (Suc k n)
  obtain r n1 where f: "findMessage lib api recipient subject n = (r, n1)" by fastforce
  then have w: "waits n1 = waits n" by (rule findMessage_waits)
  let ?n = "n1\<lparr>waits := stl (waits n1)\<rparr>"
  have "waits ?n !! k" using Suc.prems w by simp
  from Suc.IH [OF this] obtain r' n' m where
    ih: "waitForMessage lib api recipient subject ?n = Some (r', n')" "waits n' = sdrop m (waits ?n)" by blast
  then have later: "waits n' = sdrop (Suc m) (waits n)" using w by simp
  consider e where "r = Inl e" | m where "r = Inr (Some m)" | "r = Inr None" by (metis option.exhaust sum.exhaust)
  then show ?case
  proof cases
    case 3
    with f w ih(1) later show ?thesis by (subst waitForMessage_step) (cases "shd (waits n1)"; auto intro: exI [of _ 1] exI [of _ "Suc m"])
  qed (use f w in \<open>subst waitForMessage_step; auto intro: exI [of _ 0]\<close>)+
qed

text \<open>
  A message that is found: after \<open>k\<close> fruitless polls an inbox page lists its subject, and the next
  answer is the document of the first entry that does.
\<close>

definition list_url :: "canarylib \<Rightarrow> string \<Rightarrow> string \<Rightarrow> string" where
  "list_url lib api recipient = api @ ''/api/v1/inboxes/'' @ PathEscape lib recipient @ ''?limit=25''"

definition was_found :: "canarylib \<Rightarrow> string \<Rightarrow> string \<Rightarrow> string \<Rightarrow> network \<Rightarrow> network \<Rightarrow> messageDetail \<Rightarrow> bool" where
  "was_found lib api recipient subject n n' m \<longleftrightarrow>
     (\<exists>k pagebody page entry body.
        answers n !! k = Inr (200, Some pagebody) \<and> decodePage lib pagebody = Some page \<and>
        find (\<lambda>s. ms_Subject s = subject) page = Some entry \<and>
        answers n !! Suc k = Inr (200, Some body) \<and> decodeDetail lib body = Some m \<and>
        transcript n' = transcript n @ replicate (Suc k) (HTTP_GET (list_url lib api recipient)) @
          [HTTP_GET (api @ ''/api/v1/messages/'' @ PathEscape lib (ms_ID entry))] \<and>
        answers n' = sdrop (Suc (Suc k)) (answers n))"

lemma getMessage_ok:
  assumes "getMessage lib api i n = (Inr (Some m), n')"
  shows "\<exists>body. shd (answers n) = Inr (200, Some body) \<and> decodeDetail lib body = Some m \<and> answers n' = stl (answers n) \<and>
    transcript n' = transcript n @ [HTTP_GET (api @ ''/api/v1/messages/'' @ PathEscape lib i)]"
  using assms by (auto simp: getMessage_def canary_ok split: prod.splits dest!: http_get_ok)

lemma findMessage_found:
  assumes "findMessage lib api recipient subject n = (Inr (Some m), n')"
  shows "was_found lib api recipient subject n n' m"
proof -
  obtain page entry pagebody n1 where p: "shd (answers n) = Inr (200, Some pagebody)" "decodePage lib pagebody = Some page"
      "find (\<lambda>s. ms_Subject s = subject) page = Some entry" "answers n1 = stl (answers n)"
      "transcript n1 = transcript n @ [HTTP_GET (list_url lib api recipient)]" "getMessage lib api (ms_ID entry) n1 = (Inr (Some m), n')"
    using assms by (auto simp: findMessage_def canary_ok list_url_def split: prod.splits option.splits dest!: http_get_ok)
  obtain body where "shd (answers n1) = Inr (200, Some body)" "decodeDetail lib body = Some m" "answers n' = stl (answers n1)"
      "transcript n' = transcript n1 @ [HTTP_GET (api @ ''/api/v1/messages/'' @ PathEscape lib (ms_ID entry))]"
    using getMessage_ok [OF p(6)] by blast
  with p show ?thesis unfolding was_found_def
    by (intro exI [of _ 0] exI [of _ pagebody] exI [of _ page] exI [of _ entry] exI [of _ body]) simp
qed

lemma findMessage_none:
  assumes "findMessage lib api recipient subject n = (Inr None, n')"
  shows "answers n' = stl (answers n) \<and> transcript n' = transcript n @ [HTTP_GET (list_url lib api recipient)]"
proof -
  have "getMessage lib api i n1 \<noteq> (Inr None, n2)" for i n1 n2
    by (auto simp: getMessage_def canary_ok split: prod.splits)
  with assms show ?thesis
    by (auto simp: findMessage_def canary_ok list_url_def split: prod.splits option.splits dest!: http_get_ok)
qed

lemma was_found_later:
  assumes "was_found lib api recipient subject n1 n' m" "answers n1 = stl (answers n)"
    "transcript n1 = transcript n @ [HTTP_GET (list_url lib api recipient)]"
  shows "was_found lib api recipient subject n n' m"
proof -
  obtain k pagebody page entry body where f: "answers n1 !! k = Inr (200, Some pagebody)" "decodePage lib pagebody = Some page"
        "find (\<lambda>s. ms_Subject s = subject) page = Some entry" "answers n1 !! Suc k = Inr (200, Some body)" "decodeDetail lib body = Some m"
        "transcript n' = transcript n1 @ replicate (Suc k) (HTTP_GET (list_url lib api recipient)) @
          [HTTP_GET (api @ ''/api/v1/messages/'' @ PathEscape lib (ms_ID entry))]" "answers n' = sdrop (Suc (Suc k)) (answers n1)"
    using assms(1) unfolding was_found_def by blast
  then show ?thesis using assms(2,3) unfolding was_found_def
    by (intro exI [of _ "Suc k"] exI [of _ pagebody] exI [of _ page] exI [of _ entry] exI [of _ body]) simp
qed

lemma waitForMessage_found:
  assumes "waitForMessage lib api recipient subject n = Some (Inr m, n')"
  shows "was_found lib api recipient subject n n' m"
proof -
  have "fst r = Inr m \<longrightarrow> was_found lib api recipient subject n (snd r) m"
    if "waitForMessage lib api recipient subject n = Some r" for r
    using that
  proof (rule waitForMessage.raw_induct [rotated], goal_cases)
    case (1 f lib api recipient subject n r)
    obtain x n1 where g: "findMessage lib api recipient subject n = (x, n1)" by fastforce
    consider e where "x = Inl e" | m where "x = Inr (Some m)" | "x = Inr None" by (metis option.exhaust sum.exhaust)
    then show ?case
    proof cases
      case 2
      then show ?thesis using 1(2) g findMessage_found by auto
    next
      case 3
      then have d: "answers n1 = stl (answers n)" "transcript n1 = transcript n @ [HTTP_GET (list_url lib api recipient)]"
        using findMessage_none g by auto
      show ?thesis
      proof (cases "shd (waits n1)")
        case False
        then have "f lib api recipient subject (n1\<lparr>waits := stl (waits n1)\<rparr>) = Some r" using 1(2) g 3 by simp
        from 1(1) [OF this] show ?thesis using was_found_later [of lib api recipient subject "n1\<lparr>waits := stl (waits n1)\<rparr>" "snd r" m n] d by simp
      qed (use 1(2) g 3 in auto)
    qed (use 1(2) g in auto)
  qed
  from this [OF assms] show ?thesis by simp
qed

section \<open>The mail check\<close>

lemma Contains_iff: "Contains s sub \<longleftrightarrow> (\<exists>a b. s = a @ sub @ b)"
proof
  assume "Contains s sub"
  then obtain i where "HasPrefix (drop i s) sub" unfolding Contains_def list_ex_iff by blast
  then show "\<exists>a b. s = a @ sub @ b" unfolding HasPrefix_iff by (metis append_take_drop_id)
next
  assume "\<exists>a b. s = a @ sub @ b"
  then obtain a b where "s = a @ sub @ b" by blast
  then have "length a \<in> set [0..<Suc (length s)]" "HasPrefix (drop (length a) s) sub" by (auto simp: HasPrefix_iff)
  then show "Contains s sub" unfolding Contains_def list_ex_iff by blast
qed

lemma send_ok:
  assumes "smtpSend lib address sender to subject body n = (Inr u, n')"
  shows "\<exists>host port date. SplitHostPort address = Some (host, port) \<and>
    took [220, 250, 250, 250, 354, 250, 221]
      (conversation host sender to (probe_headers to sender subject date @ crlf @ body @ crlf)) n n'"
proof -
  obtain t n1 where "cnow n = (Inr t, n1)"
      "smtpDeliver address sender to (probe_headers to sender subject (rfc1123z lib t) @ crlf @ body @ crlf) n1 = (Inr u, n')"
    using assms by (auto simp: smtpSend_def canary_ok)
  then show ?thesis using deliver_ok by (fastforce simp: cnow_def took_def)
qed

lemma verifyInboxUI_ok:
  assumes "verifyInboxUI lib api recipient body n = (Inr u, n')"
  shows "\<exists>inbox rest page. recipient = inbox @ ''@'' @ rest \<and> CHR ''@'' \<notin> set inbox \<and> shd (answers n) = Inr (200, Some page) \<and>
    Contains page body \<and> transcript n' = transcript n @ [HTTP_GET (api @ ''/?inbox='' @ QueryEscape lib inbox)]"
proof -
  obtain inbox rest ok where c: "Cut recipient (CHR ''@'') = (inbox, rest, ok)" by (rule prod_cases3)
  have sub: "Contains (take k p) v \<Longrightarrow> Contains p v" for k :: nat and p v
    unfolding Contains_iff by (metis append.assoc append_take_drop_id)
  have "ok" using assms c unfolding verifyInboxUI_def by (simp only: canary_ok prod.case) blast
  with c have "recipient = inbox @ ''@'' @ rest \<and> CHR ''@'' \<notin> set inbox" by (cases rule: Cut_cases [of recipient "CHR ''@''"]) simp_all
  moreover obtain page where "shd (answers n) = Inr (200, Some page)" "Contains page body"
      "transcript n' = transcript n @ [HTTP_GET (api @ ''/?inbox='' @ QueryEscape lib inbox)]"
  proof -
    obtain r n1 where g: "http_get lib (api @ ''/?inbox='' @ QueryEscape lib inbox) n = (Inr r, n1)"
        "(case r of (st, page) \<Rightarrow>
          cbind (cguard (st = 200) (HTTPStatus st)) (\<lambda>_.
          (case page of
             None \<Rightarrow> cfail ReadFailed
           | Some p \<Rightarrow>
               cbind (cguard (Contains (take (3 * 1048576) p) body) PageWithoutBody) (\<lambda>_.
               cbind (cguard (Contains (take (3 * 1048576) p) ''/ui.js?v='') PageWithoutScript) (\<lambda>_.
               cguard (Contains (take (3 * 1048576) p) ''<style>/* tmpmail UI.'' \<or> Contains (take (3 * 1048576) p) ''/ui.css?v='') PageWithoutStyles)))))
          n1 = (Inr u, n')"
      using assms c unfolding verifyInboxUI_def Let_def by (force simp only: canary_ok prod.case)
    obtain st pg where r: "r = (st, pg)" by fastforce
    then obtain p where "st = 200" "pg = Some p" "Contains (take (3 * 1048576) p) body" "n' = n1"
      using g(2) by (auto simp: canary_ok simp del: take_Suc split: option.splits)
    then show thesis using that g(1) r http_get_ok [OF g(1)] sub by blast
  qed
  ultimately show ?thesis by blast
qed

lemma took_clocks: "took cs ss (n\<lparr>rand_reads := x\<rparr>) n' = took cs ss n n'" "took cs ss (n\<lparr>clocks := y\<rparr>) n' = took cs ss n n'"
  by (simp_all add: took_def)

lemma mailFlow_ok:
  assumes "mailFlow lib conf n = Some (Inr u, n')"
  shows "\<exists>token m n1 n2. (\<exists>host port date. SplitHostPort (c_SMTPAddr conf) = Some (host, port) \<and>
      took [220, 250, 250, 250, 354, 250, 221]
        (conversation host (c_From conf) (mail_recipient conf token)
          (probe_headers (mail_recipient conf token) (c_From conf) (''canary '' @ token) date @ crlf @ (''canary message '' @ token) @ crlf)) n n1)
    \<and> was_found lib (c_APIURL conf) (mail_recipient conf token) (''canary '' @ token) n1 n2 m
    \<and> ms_Recipient m = mail_recipient conf token \<and> ms_From m = c_From conf \<and> ms_Subject m = ''canary '' @ token
    \<and> Contains (md_Body m) (''canary message '' @ token)
    \<and> verifyInboxUI lib (c_APIURL conf) (mail_recipient conf token) (''canary message '' @ token) n2 = (Inr u, n')"
proof -
  obtain token n0 where t: "randomToken n = (Inr token, n0)" using assms by (auto simp: mailFlow_def canary_ok)
  then have n0: "n0 = n\<lparr>rand_reads := stl (rand_reads n)\<rparr>" by (auto simp: randomToken_def)
  let ?r = "mail_recipient conf token" and ?s = "''canary '' @ token" and ?b = "''canary message '' @ token"
  obtain v n1 m n2 where s: "smtpSend lib (c_SMTPAddr conf) (c_From conf) ?r ?s ?b n0 = (Inr v, n1)"
      "waitForMessage lib (c_APIURL conf) ?r ?s n1 = Some (Inr m, n2)"
      "ms_Recipient m = ?r" "ms_From m = c_From conf" "ms_Subject m = ?s" "Contains (md_Body m) ?b"
      "verifyInboxUI lib (c_APIURL conf) ?r ?b n2 = (Inr u, n')"
    using assms t unfolding mailFlow_def Let_def by (fastforce simp: canary_ok)
  from send_ok [OF s(1)] waitForMessage_found [OF s(2)] s(3-7) show ?thesis
    unfolding n0 took_clocks by blast
qed

text \<open>
  C34. A healthy mail check means that mail works. When the check of the mail flow reports healthy, the
  whole SMTP conversation took place, every command answered with the expected code; after it the API
  listed a message with the subject of the probe and returned it with the probe's recipient and sender
  and a body that contains the token; and the inbox page, asked for last, contains the probe's body.
\<close>
theorem healthy_mail_check_saw_the_probe:
  assumes "timedCheck name (mailFlow lib conf) n = Some (res, n')" and "ck_Status res = ''healthy''"
  shows "\<exists>token m n1 n2 page. (\<exists>host port date. SplitHostPort (c_SMTPAddr conf) = Some (host, port) \<and>
      took [220, 250, 250, 250, 354, 250, 221]
        (conversation host (c_From conf) (mail_recipient conf token)
          (probe_headers (mail_recipient conf token) (c_From conf) (''canary '' @ token) date @ crlf @ (''canary message '' @ token) @ crlf)) n n1)
    \<and> was_found lib (c_APIURL conf) (mail_recipient conf token) (''canary '' @ token) n1 n2 m
    \<and> ms_Recipient m = mail_recipient conf token \<and> ms_From m = c_From conf \<and> ms_Subject m = ''canary '' @ token
    \<and> Contains (md_Body m) (''canary message '' @ token)
    \<and> shd (answers n2) = Inr (200, Some page) \<and> Contains page (''canary message '' @ token)
    \<and> (\<exists>inbox. transcript n' = transcript n2 @ [HTTP_GET (c_APIURL conf @ ''/?inbox='' @ QueryEscape lib inbox)])"
proof -
  obtain u n3 where f: "mailFlow lib conf (n\<lparr>clocks := stl (clocks n)\<rparr>) = Some (Inr u, n3)" "transcript n' = transcript n3"
    using assms by (auto simp: timedCheck_def split: option.splits prod.splits sum.splits)
  obtain token m n1 n2 where
      m: "\<exists>host port date. SplitHostPort (c_SMTPAddr conf) = Some (host, port) \<and>
        took [220, 250, 250, 250, 354, 250, 221]
          (conversation host (c_From conf) (mail_recipient conf token)
            (probe_headers (mail_recipient conf token) (c_From conf) (''canary '' @ token) date @ crlf @ (''canary message '' @ token) @ crlf)) n n1"
      "was_found lib (c_APIURL conf) (mail_recipient conf token) (''canary '' @ token) n1 n2 m"
      "ms_Recipient m = mail_recipient conf token" "ms_From m = c_From conf" "ms_Subject m = ''canary '' @ token"
      "Contains (md_Body m) (''canary message '' @ token)"
      "verifyInboxUI lib (c_APIURL conf) (mail_recipient conf token) (''canary message '' @ token) n2 = (Inr u, n3)"
    using mailFlow_ok [OF f(1)] unfolding took_clocks by blast
  from verifyInboxUI_ok [OF m(7)] f(2) obtain page inbox where "shd (answers n2) = Inr (200, Some page)"
      "Contains page (''canary message '' @ token)" "transcript n' = transcript n2 @ [HTTP_GET (c_APIURL conf @ ''/?inbox='' @ QueryEscape lib inbox)]"
    by auto
  with m(1-6) show ?thesis by blast
qed

section \<open>A run ends\<close>

definition keeps_waits :: "'a action \<Rightarrow> bool" where
  "keeps_waits m \<longleftrightarrow> (\<forall>n. waits (snd (m n)) = waits n)"

definition fair :: "bool stream \<Rightarrow> bool" where
  "fair ws \<longleftrightarrow> (\<forall>k. \<exists>j \<ge> k. ws !! j)"

definition ends :: "'a paction \<Rightarrow> bool" where
  "ends m \<longleftrightarrow> (\<forall>n. fair (waits n) \<longrightarrow> (\<exists>r n'. m n = Some (r, n') \<and> fair (waits n')))"

lemma fair_sdrop: "fair ws \<Longrightarrow> fair (sdrop k ws)"
  unfolding fair_def
proof
  fix i
  assume "\<forall>k. \<exists>j \<ge> k. ws !! j"
  then obtain j where "k + i \<le> j" "ws !! j" by blast
  then have "i \<le> j - k" "sdrop k ws !! (j - k)" by (auto simp: sdrop_snth)
  then show "\<exists>j \<ge> i. sdrop k ws !! j" by blast
qed

lemma keeps_waits_cbind: "keeps_waits m \<Longrightarrow> (\<And>x. keeps_waits (f x)) \<Longrightarrow> keeps_waits (cbind m f)"
  unfolding keeps_waits_def cbind_def by (simp split: prod.split sum.split) (metis snd_conv)

lemma keeps_waits_basic:
  "keeps_waits (creturn x)" "keeps_waits (cfail e)" "keeps_waits (cguard b e)" "keeps_waits cnow" "keeps_waits smtp_dial" "keeps_waits (smtp_write v)"
  "keeps_waits (smtp_response c)" "keeps_waits (http_get lib t)" "keeps_waits randomToken"
  by (auto simp: keeps_waits_def creturn_def cfail_def cguard_def cnow_def smtp_dial_def smtp_write_def smtp_response_def http_get_def
      randomToken_def Let_def split: sum.split)

lemma keeps_waits_cwrap: "keeps_waits m \<Longrightarrow> keeps_waits (cwrap f m)"
  unfolding keeps_waits_def cwrap_def by (simp split: prod.split sum.split) (metis snd_conv)

lemma keeps_waits_deliver: "keeps_waits (smtpDeliver a s t m)"
  unfolding smtpDeliver_def smtp_command_def smtp_ehlo_def
  by (auto intro!: keeps_waits_cbind keeps_waits_basic split: option.split)

lemma keeps_waits_client:
  "keeps_waits (smtpSend lib a s t sub b)" "keeps_waits (smtpSendWithAttachment lib a s t sub b fn ct att)" "keeps_waits (verifyInboxUI lib api r b)"
  "keeps_waits (downloadAttachment lib api i k)"
  unfolding smtpSend_def smtpSendWithAttachment_def verifyInboxUI_def downloadAttachment_def
  by (auto simp: Let_def intro!: keeps_waits_cbind keeps_waits_basic keeps_waits_deliver split: option.split prod.split)

lemma ends_total: "keeps_waits m \<Longrightarrow> ends (total m)"
  by (auto simp: ends_def keeps_waits_def total_def) (metis surj_pair snd_conv)

lemma ends_pbind:
  assumes "ends m" "\<And>x. ends (f x)"
  shows "ends (pbind m f)"
  unfolding ends_def
proof (intro allI impI)
  fix n :: network
  assume "fair (waits n)"
  then obtain r n1 where r: "m n = Some (r, n1)" "fair (waits n1)" using assms(1) unfolding ends_def by blast
  then show "\<exists>r n'. pbind m f n = Some (r, n') \<and> fair (waits n')"
    using assms(2) unfolding ends_def pbind_def by (cases r) auto
qed

lemma ends_wait: "ends (waitForMessage lib api r s)"
  unfolding ends_def
proof (intro allI impI)
  fix n :: network
  assume f: "fair (waits n)"
  then obtain k where "waits n !! k" unfolding fair_def by blast
  from waitForMessage_returns [OF this, of lib api r s] f
  show "\<exists>x n'. waitForMessage lib api r s n = Some (x, n') \<and> fair (waits n')" using fair_sdrop by metis
qed

lemma ends_checks: "c \<in> set (all_checks lib conf) \<Longrightarrow> ends (snd c)"
  by (auto simp: all_checks_def apiHealth_def mailFlow_def attachmentFlow_def Let_def
      intro!: ends_total ends_pbind ends_wait keeps_waits_cbind keeps_waits_basic keeps_waits_client keeps_waits_cwrap split: prod.split list.split)

lemma run_checks_ends:
  "\<forall>c \<in> set cs. ends (snd c) \<Longrightarrow> fair (waits n) \<Longrightarrow>
   \<exists>rs n'. run_checks cs n = Some (rs, n') \<and> fair (waits n') \<and> map ck_Name rs = map fst cs \<and>
     (\<forall>r \<in> set rs. ck_Status r \<in> {''healthy'', ''unhealthy''} \<and> (ck_Status r = ''healthy'' \<longleftrightarrow> ck_Message r = None))"
proof (induction cs arbitrary: n)
  case (Cons c cs)
  obtain name fn where c: "c = (name, fn)" by fastforce
  obtain x n1 where x: "fn (n\<lparr>clocks := stl (clocks n)\<rparr>) = Some (x, n1)" "fair (waits n1)"
    using Cons.prems c unfolding ends_def by (metis list.set_intros(1) network.select_convs(7) network.surjective network.update_convs(1) snd_conv)
  obtain r n2 where t: "timedCheck name fn n = Some (r, n2)" "waits n2 = waits n1" "ck_Name r = name"
      "ck_Status r \<in> {''healthy'', ''unhealthy''}" "ck_Status r = ''healthy'' \<longleftrightarrow> ck_Message r = None"
    using x(1) by (cases x) (auto simp: timedCheck_def)
  from Cons.IH [of n2] Cons.prems x(2) t c show ?case by auto
qed simp

definition verdict_ok :: "healthStatus \<Rightarrow> bool" where
  "verdict_ok h \<longleftrightarrow>
     map ck_Name (hs_Checks h) = [''api-health'', ''smtp-to-api-and-ui-message-flow'', ''smtp-attachment-download''] \<and>
     (\<forall>r \<in> set (hs_Checks h). ck_Status r = ''healthy'' \<longleftrightarrow> ck_Message r = None) \<and>
     (fst (canary_healthz h) = 200 \<longleftrightarrow> (\<forall>r \<in> set (hs_Checks h). ck_Message r = None))"

lemma runOnce_verdict:
  assumes "fair (waits n)"
  shows "\<exists>h n'. runOnce lib conf n = Some (h, n') \<and> fair (waits n') \<and> verdict_ok h"
proof -
  obtain rs n1 where r: "run_checks (all_checks lib conf) n = Some (rs, n1)" "fair (waits n1)" "map ck_Name rs = map fst (all_checks lib conf)"
      "\<forall>r \<in> set rs. ck_Status r \<in> {''healthy'', ''unhealthy''} \<and> (ck_Status r = ''healthy'' \<longleftrightarrow> ck_Message r = None)"
    using run_checks_ends [of "all_checks lib conf" n] ends_checks assms by blast
  then show ?thesis
    by (auto simp: runOnce_def verdict_ok_def canary_healthz_def all_checks_def list_all_iff)
qed

lemma runner_run_verdict:
  "fair (waits n) \<Longrightarrow> \<exists>h n'. runner_run lib conf ticks n = Some (h, n') \<and> fair (waits n') \<and> verdict_ok h"
proof (induction ticks)
  case (Suc ticks)
  then obtain h n1 where "runner_run lib conf ticks n = Some (h, n1)" "fair (waits n1)" by blast
  with runOnce_verdict [of n1 lib conf] show ?case by simp
qed (use runOnce_verdict in simp)

section \<open>An example run\<close>

definition example_canary :: canaryConfig where
  "example_canary = \<lparr>c_HTTPAddr = '':8081'', c_Interval = 60, c_Timeout = 10, c_SMTPAddr = ''h:25'', c_APIURL = ''u'', c_MailDomain = ''t.io'',
     c_From = ''c@m''\<rparr>"

definition example_detail :: messageDetail where
  "example_detail = \<lparr>ms_ID = ''i'', ms_Recipient = ''canary-00@t.io'', ms_From = ''c@m'', ms_Subject = ''canary 00'',
     md_Body = ''canary message 00'', md_Attachments = []\<rparr>"

definition example_canarylib :: canarylib where
  "example_canarylib = \<lparr>url_ok = (\<lambda>_. True), PathEscape = (\<lambda>s. s), QueryEscape = (\<lambda>s. s),
     decodePage = (\<lambda>_. Some [\<lparr>ms_ID = ''i'', ms_Recipient = ''canary-00@t.io'', ms_From = ''c@m'', ms_Subject = ''canary 00''\<rparr>]),
     decodeDetail = (\<lambda>_. Some example_detail), encodeBase64 = (\<lambda>s. s), rfc1123z = (\<lambda>_. []), png = ''x''\<rparr>"

definition example_page :: string where
  "example_page = ''canary message 00'' @ ''/ui.js?v='' @ ''/ui.css?v=''"

definition example_network :: network where
  "example_network = \<lparr>clocks = sconst 0, rand_reads = sconst (Some [CHR 0x00]), answers = sconst (Inr (200, Some example_page)),
     dials = sconst None, writes = sconst None,
     replies = map (\<lambda>c. Inr (c, [])) [220, 250, 250, 250, 354, 250, 221] @- sconst (Inl 0), waits = sconst True, transcript = []\<rparr>"

lemma example_contains:
  "Contains (take (3 * 1048576) example_page) ''canary message 00''" "Contains (take (3 * 1048576) example_page) ''/ui.js?v=''"
  "Contains (take (3 * 1048576) example_page) ''/ui.css?v=''" "Contains ''canary message 00'' ''canary message 00''"
proof -
  have t: "take (3 * 1048576) example_page = example_page" by (rule take_all) (simp add: example_page_def)
  have c: "s = a @ sub @ b \<Longrightarrow> Contains s sub" for s a sub b unfolding Contains_iff by blast
  show "Contains (take (3 * 1048576) example_page) ''canary message 00''"
    unfolding t by (rule c [of _ "[]" _ "''/ui.js?v='' @ ''/ui.css?v=''"]) (simp add: example_page_def)
  show "Contains (take (3 * 1048576) example_page) ''/ui.js?v=''"
    unfolding t by (rule c [of _ "''canary message 00''" _ "''/ui.css?v=''"]) (simp add: example_page_def)
  show "Contains (take (3 * 1048576) example_page) ''/ui.css?v=''"
    unfolding t by (rule c [of _ "''canary message 00'' @ ''/ui.js?v=''" _ "[]"]) (simp add: example_page_def)
  show "Contains ''canary message 00'' ''canary message 00''"
    by (rule c [of _ "[]" _ "[]"]) simp
qed

lemma example_mail_check:
  "\<exists>res n'. timedCheck ''m'' (mailFlow example_canarylib example_canary) example_network = Some (res, n') \<and> ck_Status res = ''healthy''"
proof -
  have tok: "concat (map hex_byte [CHR 0x00]) = ''00''" by code_simp
  have host: "SplitHostPort ''h:25'' = Some (''h'', ''25'')" by code_simp
  let ?n = "example_network\<lparr>clocks := stl (clocks example_network)\<rparr>"
  obtain n0 where n0: "randomToken ?n = (Inr ''00'', n0)" "n0 = ?n\<lparr>rand_reads := stl (rand_reads ?n)\<rparr>"
    using tok by (simp add: randomToken_def example_network_def)
  obtain n1 where n1: "smtpSend example_canarylib ''h:25'' ''c@m'' ''canary-00@t.io'' ''canary 00'' ''canary message 00'' n0 = (Inr (), n1)"
      "answers n1 = sconst (Inr (200, Some example_page))"
    by (simp add: n0(2) smtpSend_def smtpDeliver_def host cbind_def cnow_def smtp_dial_def smtp_response_def smtp_ehlo_def smtp_command_def
        smtp_write_def creturn_def example_network_def)
  have "\<exists>n2. waitForMessage example_canarylib ''u'' ''canary-00@t.io'' ''canary 00'' n1 = Some (Inr example_detail, n2)
      \<and> answers n2 = sconst (Inr (200, Some example_page))"
    by (subst waitForMessage_step) (simp add: findMessage_def getMessage_def cbind_def http_get_def n1(2) example_canarylib_def cguard_def creturn_def
        body_or_fail_def Let_def)
  then obtain n2 where n2: "waitForMessage example_canarylib ''u'' ''canary-00@t.io'' ''canary 00'' n1 = Some (Inr example_detail, n2)"
      "answers n2 = sconst (Inr (200, Some example_page))" by blast
  have cut: "Cut ''canary-00@t.io'' (CHR ''@'') = (''canary-00'', ''t.io'', True)" by simp
  obtain n3 where "verifyInboxUI example_canarylib ''u'' ''canary-00@t.io'' ''canary message 00'' n2 = (Inr (), n3)"
    by (simp add: verifyInboxUI_def cut cbind_def cguard_def creturn_def http_get_def n2(2) example_contains [simplified] Let_def example_canarylib_def)
  then show ?thesis using n0(1) n1(1) n2(1) example_contains(4)
    by (simp add: timedCheck_def mailFlow_def pbind_def total_def Let_def mail_recipient_def cwrap_def example_canary_def cbind_def cguard_def
        creturn_def example_detail_def)
qed

theorem healthy_mail_check_saw_the_probe_witness:
  "\<exists>res n'. timedCheck ''m'' (mailFlow example_canarylib example_canary) example_network = Some (res, n')
     \<and> (\<exists>token (m :: messageDetail). ms_Subject m = ''canary '' @ token \<and> Contains (md_Body m) (''canary message '' @ token))"
proof -
  obtain res n' where r: "timedCheck ''m'' (mailFlow example_canarylib example_canary) example_network = Some (res, n')" "ck_Status res = ''healthy''"
    using example_mail_check by blast
  from healthy_mail_check_saw_the_probe [OF r] r(1) show ?thesis by blast
qed

section \<open>Configuration\<close>

lemma trim_slashes_end: "trim_slashes s \<noteq> [] \<Longrightarrow> last (trim_slashes s) \<noteq> CHR ''/''"
  unfolding trim_slashes_def by (metis (mono_tags, lifting) hd_dropWhile last_rev rev_is_Nil_conv)

lemma loadConfig_sound:
  assumes "loadConfig u parseDuration getenv = Inr conf"
  shows "0 < c_Interval conf \<and> 0 < c_Timeout conf \<and> c_MailDomain conf \<noteq> [] \<and> CHR ''@'' \<notin> set (c_MailDomain conf)
    \<and> (c_APIURL conf = [] \<or> last (c_APIURL conf) \<noteq> CHR ''/'')"
proof -
  have "positiveDuration p g k v = Inr d \<Longrightarrow> 0 < d" for p g k v d
    by (auto simp: positiveDuration_def split: option.splits if_splits)
  with assms show ?thesis
    using trim_slashes_end unfolding loadConfig_def Let_def result_rules by (auto simp: ContainsAny_def list_ex_iff)
qed

text \<open>The body of the liveness endpoint does not end with a newline but with the two characters of its escape.\<close>

lemma canary_livez_body: "drop 15 (snd canary_livez) = [CHR 92, CHR ''n'']"
  by (simp add: canary_livez_def)

end
