(* ===== verification/ServeMux.thy ===== *)
theory ServeMux
  imports GoPath TlsFront
begin

text \<open>
  The request multiplexer of \<^verbatim>\<open>net/http\<close> as the program uses it: patterns of a method and a path with
  literals, wildcards and a trailing slash, without hosts. Registering a pattern that conflicts with an earlier
  one panics. A request goes to the most specific pattern: at every segment a literal is tried first, then a
  wildcard, then a rest of the path. Paths are cleaned by a redirect; a path that only other methods have is
  answered with 405.

  The checks of the library for malformed patterns are left out: the patterns are constants of the program.
\<close>

section \<open>Percent encoding\<close>

definition unhex :: "char \<Rightarrow> nat option" where
  "unhex c =
     (let b = byte c in
      if 48 \<le> b \<and> b \<le> 57 then Some (b - 48)
      else if 97 \<le> b \<and> b \<le> 102 then Some (b - 87)
      else if 65 \<le> b \<and> b \<le> 70 then Some (b - 55) else None)"

text \<open>\<^verbatim>\<open>url.PathUnescape\<close>, \<^const>\<open>None\<close> for a broken escape.\<close>

fun PathUnescape :: "string \<Rightarrow> string option" where
  "PathUnescape [] = Some []"
| "PathUnescape (c # cs) =
     (if c = CHR ''%'' then
        (case cs of
           a # b # rest \<Rightarrow>
             (case (unhex a, unhex b, PathUnescape rest) of
                (Some x, Some y, Some t) \<Rightarrow> Some (char_of (16 * x + y) # t)
              | _ \<Rightarrow> None)
         | _ \<Rightarrow> None)
      else map_option ((#) c) (PathUnescape cs))"

definition pathUnescape :: "string \<Rightarrow> string" where
  "pathUnescape s = (case PathUnescape s of None \<Rightarrow> s | Some t \<Rightarrow> t)"

lemma PathUnescape_plain: "CHR ''%'' \<notin> set s \<Longrightarrow> PathUnescape s = Some s"
  by (induction s) auto

lemma pathUnescape_plain [simp]: "CHR ''%'' \<notin> set s \<Longrightarrow> pathUnescape s = s"
  by (simp add: pathUnescape_def PathUnescape_plain)

section \<open>Patterns\<close>

datatype segment = Lit string | Wild string | Multi string

record pattern =
  pat_str :: string
  pat_method :: string
  pat_segs :: "segment list"

definition parse_segment :: "string \<Rightarrow> segment" where
  "parse_segment s =
     (if HasPrefix s ''{'' then
        (let name = butlast (tl s) in
         if name = ''$'' then Lit ''/''
         else if HasSuffix name ''...'' then Multi (TrimSuffix name ''...'') else Wild name)
      else Lit (pathUnescape s))"

fun parse_segments :: "string list \<Rightarrow> segment list" where
  "parse_segments [] = []"
| "parse_segments (s # ss) = (if s = [] \<and> ss = [] then [Multi []] else parse_segment s # parse_segments ss)"

definition parsePattern :: "string \<Rightarrow> pattern" where
  "parsePattern s =
     (case Cut s CHR '' '' of
        (a, b, found) \<Rightarrow>
          (let path = (if found then b else a) in
           \<lparr>pat_str = s, pat_method = (if found then a else []), pat_segs = parse_segments (tl (Split path CHR ''/''))\<rparr>))"

fun wild_names :: "segment list \<Rightarrow> string list" where
  "wild_names [] = []"
| "wild_names (Lit _ # ss) = wild_names ss"
| "wild_names (Wild n # ss) = n # wild_names ss"
| "wild_names (Multi n # ss) = (if n = [] then [] else [n]) @ wild_names ss"

section \<open>Conflicts\<close>

datatype relationship = Equivalent | MoreGeneral | MoreSpecific | Disjoint | Overlaps

definition compareSegments :: "segment \<Rightarrow> segment \<Rightarrow> relationship" where
  "compareSegments s1 s2 =
     (case (s1, s2) of
        (Multi _, Multi _) \<Rightarrow> Equivalent
      | (Multi _, _) \<Rightarrow> MoreGeneral
      | (_, Multi _) \<Rightarrow> MoreSpecific
      | (Wild _, Wild _) \<Rightarrow> Equivalent
      | (Wild _, Lit t) \<Rightarrow> if t = ''/'' then Disjoint else MoreGeneral
      | (Lit t, Wild _) \<Rightarrow> if t = ''/'' then Disjoint else MoreSpecific
      | (Lit t, Lit t') \<Rightarrow> if t = t' then Equivalent else Disjoint)"

definition combineRelationships :: "relationship \<Rightarrow> relationship \<Rightarrow> relationship" where
  "combineRelationships r1 r2 =
     (case r1 of
        Equivalent \<Rightarrow> r2
      | Disjoint \<Rightarrow> Disjoint
      | Overlaps \<Rightarrow> if r2 = Disjoint then Disjoint else Overlaps
      | MoreGeneral \<Rightarrow> (case r2 of Equivalent \<Rightarrow> MoreGeneral | MoreSpecific \<Rightarrow> Overlaps | _ \<Rightarrow> r2)
      | MoreSpecific \<Rightarrow> (case r2 of Equivalent \<Rightarrow> MoreSpecific | MoreGeneral \<Rightarrow> Overlaps | _ \<Rightarrow> r2))"

definition is_multi :: "segment \<Rightarrow> bool" where
  "is_multi s = (case s of Multi _ \<Rightarrow> True | _ \<Rightarrow> False)"

definition ends_multi :: "segment list \<Rightarrow> bool" where
  "ends_multi ss \<longleftrightarrow> ss \<noteq> [] \<and> is_multi (last ss)"

fun compare_from :: "bool \<Rightarrow> bool \<Rightarrow> relationship \<Rightarrow> segment list \<Rightarrow> segment list \<Rightarrow> relationship" where
  "compare_from m1 m2 rel [] [] = rel"
| "compare_from m1 m2 rel [] (s # ss) = (if m1 then combineRelationships rel MoreGeneral else Disjoint)"
| "compare_from m1 m2 rel (s # ss) [] = (if m2 then combineRelationships rel MoreSpecific else Disjoint)"
| "compare_from m1 m2 rel (s # ss) (t # ts) =
     (let rel' = combineRelationships rel (compareSegments s t)
      in if rel' = Disjoint then Disjoint else compare_from m1 m2 rel' ss ts)"

definition comparePaths :: "segment list \<Rightarrow> segment list \<Rightarrow> relationship" where
  "comparePaths p1 p2 =
     (if length p1 \<noteq> length p2 \<and> \<not> ends_multi p1 \<and> \<not> ends_multi p2 then Disjoint
      else compare_from (ends_multi p1) (ends_multi p2) Equivalent p1 p2)"

definition compareMethods :: "string \<Rightarrow> string \<Rightarrow> relationship" where
  "compareMethods m1 m2 =
     (if m1 = m2 then Equivalent
      else if m1 = [] then MoreGeneral
      else if m2 = [] then MoreSpecific
      else if m1 = ''GET'' \<and> m2 = ''HEAD'' then MoreGeneral
      else if m2 = ''GET'' \<and> m1 = ''HEAD'' then MoreSpecific
      else Disjoint)"

definition conflictsWith :: "pattern \<Rightarrow> pattern \<Rightarrow> bool" where
  "conflictsWith p1 p2 \<longleftrightarrow>
     (let mrel = compareMethods (pat_method p1) (pat_method p2) in
      mrel \<noteq> Disjoint \<and> combineRelationships mrel (comparePaths (pat_segs p1) (pat_segs p2)) \<in> {Equivalent, Overlaps})"

text \<open>Registering in order; \<^const>\<open>None\<close> is the panic at a conflict.\<close>

type_synonym 'h table = "(pattern \<times> 'h) list"

definition HandleFunc :: "string \<times> 'h \<Rightarrow> 'h table option \<Rightarrow> 'h table option" where
  "HandleFunc ph mux =
     (case mux of
        None \<Rightarrow> None
      | Some t \<Rightarrow>
          (let p = parsePattern (fst ph) in
           if list_ex (\<lambda>e. conflictsWith p (fst e)) t then None else Some (t @ [(p, snd ph)])))"

definition NewServeMux :: "(string \<times> 'h) list \<Rightarrow> 'h table option" where
  "NewServeMux routes = fold HandleFunc routes (Some [])"

section \<open>Matching\<close>

text \<open>A node of the routing tree is the list of what is left of the patterns that lead through it.\<close>

type_synonym 'e routing_node = "(segment list \<times> 'e) list"

definition emptyChild :: "'e routing_node \<Rightarrow> 'e routing_node" where
  "emptyChild n = concat (map (\<lambda>(ss, e). case ss of Wild _ # rest \<Rightarrow> [(rest, e)] | _ \<Rightarrow> []) n)"

definition findChild :: "string \<Rightarrow> 'e routing_node \<Rightarrow> 'e routing_node" where
  "findChild seg n =
     (if seg = [] then emptyChild n
      else concat (map (\<lambda>(ss, e). case ss of Lit t # rest \<Rightarrow> if t = seg then [(rest, e)] else [] | _ \<Rightarrow> []) n))"

definition multiChild :: "'e routing_node \<Rightarrow> (string \<times> 'e) option" where
  "multiChild n =
     (case concat (map (\<lambda>(ss, e). case ss of Multi t # _ \<Rightarrow> [(t, e)] | _ \<Rightarrow> []) n) of [] \<Rightarrow> None | x # _ \<Rightarrow> Some x)"

definition leaf :: "'e routing_node \<Rightarrow> 'e option" where
  "leaf n = (case filter (\<lambda>x. fst x = []) n of [] \<Rightarrow> None | x # _ \<Rightarrow> Some (snd x))"

definition firstSegment :: "string \<Rightarrow> string \<times> string" where
  "firstSegment path =
     (if path = ''/'' then (''/'', [])
      else (pathUnescape (takeWhile (\<lambda>c. c \<noteq> CHR ''/'') (tl path)), dropWhile (\<lambda>c. c \<noteq> CHR ''/'') (tl path)))"

lemma firstSegment_rest: "path \<noteq> [] \<Longrightarrow> length (snd (firstSegment path)) < length path"
  using length_dropWhile_le [of "\<lambda>c. c \<noteq> CHR ''/''" "tl path"] by (cases path) (auto simp: firstSegment_def)

definition or_else :: "'a option \<Rightarrow> 'a option \<Rightarrow> 'a option" where
  "or_else x y = (case x of None \<Rightarrow> y | Some _ \<Rightarrow> x)"

function matchPath :: "'e routing_node \<Rightarrow> string \<Rightarrow> string list \<Rightarrow> ('e \<times> string list) option" where
  "matchPath n path matches =
     (if path = [] then map_option (\<lambda>e. (e, matches)) (leaf n)
      else case firstSegment path of
          (seg, rest) \<Rightarrow>
            or_else (matchPath (findChild seg n) rest matches)
              (or_else (if seg \<noteq> ''/'' then matchPath (emptyChild n) rest (matches @ [seg]) else None)
                (map_option (\<lambda>(name, e). (e, if name \<noteq> [] then matches @ [pathUnescape (tl path)] else matches)) (multiChild n))))"
  by pat_completeness auto
termination
  by (relation "measure (\<lambda>(_, path, _). length path)") (auto, (metis firstSegment_rest snd_conv)+)

declare matchPath.simps [simp del]

definition method_node :: "string \<Rightarrow> 'h table \<Rightarrow> (pattern \<times> 'h) routing_node" where
  "method_node m t = map (\<lambda>e. (pat_segs (fst e), e)) (filter (\<lambda>e. pat_method (fst e) = m) t)"

definition matchMethodAndPath :: "string \<Rightarrow> string \<Rightarrow> 'h table \<Rightarrow> ((pattern \<times> 'h) \<times> string list) option" where
  "matchMethodAndPath method path t =
     or_else (if method \<noteq> [] then matchPath (method_node method t) path [] else None)
       (or_else (if method = ''HEAD'' then matchPath (method_node ''GET'' t) path [] else None)
         (matchPath (method_node [] t) path []))"

text \<open>\<^verbatim>\<open>cleanPath\<close>: the path with its trailing slash, if any.\<close>

definition cleanPath :: "string \<Rightarrow> string" where
  "cleanPath p0 =
     (if p0 = [] then ''/''
      else (let p = (if hd p0 \<noteq> CHR ''/'' then CHR ''/'' # p0 else p0); np = filepath_Clean p in
            if last p = CHR ''/'' \<and> np \<noteq> ''/'' then np @ ''/'' else np))"

definition exactMatch :: "pattern \<Rightarrow> string \<Rightarrow> bool" where
  "exactMatch p path \<longleftrightarrow>
     (if \<not> ends_multi (pat_segs p) then True
      else if path \<noteq> [] \<and> last path \<noteq> CHR ''/'' then False
      else length (pat_segs p) = length (filter (\<lambda>c. c = CHR ''/'') path))"

text \<open>\<open>Inl\<close> is the redirect to the path with a slash.\<close>

definition matchOrRedirect :: "string \<Rightarrow> string \<Rightarrow> 'h table \<Rightarrow> unit + ((pattern \<times> 'h) \<times> string list) option" where
  "matchOrRedirect method path t =
     (let n = matchMethodAndPath method path t in
      if (case n of None \<Rightarrow> True | Some ((p, _), _) \<Rightarrow> \<not> exactMatch p path) \<and> \<not> HasSuffix path ''/'' \<and> path \<noteq> []
      then (case matchMethodAndPath method (path @ ''/'') t of
              None \<Rightarrow> Inr n
            | Some ((p, _), _) \<Rightarrow> if exactMatch p (path @ ''/'') then Inl () else Inr n)
      else Inr n)"

definition matching_at :: "string \<Rightarrow> 'h table \<Rightarrow> string set" where
  "matching_at path t =
     (let ms = {m \<in> set (map (pat_method \<circ> fst) t). m \<noteq> [] \<and> matchPath (method_node m t) path [] \<noteq> None}
      in ms \<union> (if ''GET'' \<in> ms then {''HEAD''} else {}))"

definition matchingMethods :: "string \<Rightarrow> 'h table \<Rightarrow> string list" where
  "matchingMethods path t =
     sorted_list_of_set (matching_at path t \<union> (if \<not> HasSuffix path ''/'' then matching_at (path @ ''/'') t else {}))"

section \<open>Serving\<close>

text \<open>
  What the library says of a request: its path as sent, its target, the URL of another path with the query of the
  request, and the status of redirects (301, from Go 1.26 on 307).
\<close>

record muxlib =
  EscapedPath :: "request \<Rightarrow> string"
  RequestURI :: "request \<Rightarrow> string"
  URLWithPath :: "request \<Rightarrow> string \<Rightarrow> string"
  redirectStatus :: int

datatype 'h choice = Chosen pattern 'h "string list" | Moved string | NotAllowed "string list" | NoPattern

definition findHandler :: "muxlib \<Rightarrow> 'h table \<Rightarrow> request \<Rightarrow> 'h choice" where
  "findHandler lib t r =
     (let escaped = EscapedPath lib r; path = (if Method r = ''CONNECT'' then escaped else cleanPath escaped) in
      case matchOrRedirect (Method r) path t of
        Inl _ \<Rightarrow> Moved (URLWithPath lib r (path @ ''/''))
      | Inr n \<Rightarrow>
          if path \<noteq> escaped then Moved (URLWithPath lib r path)
          else (case n of
              Some ((p, h), matches) \<Rightarrow> Chosen p h matches
            | None \<Rightarrow> (let ms = matchingMethods path t in if ms \<noteq> [] then NotAllowed ms else NoPattern)))"

fun join_commas :: "string list \<Rightarrow> string" where
  "join_commas [] = []"
| "join_commas [m] = m"
| "join_commas (m # ms) = m @ '', '' @ join_commas ms"

text \<open>A handler reads the wildcards of its pattern by name (\<^verbatim>\<open>r.PathValue\<close>).\<close>

definition PathValue :: "pattern \<Rightarrow> string list \<Rightarrow> string \<Rightarrow> string" where
  "PathValue p matches name = (case map_of (zip (wild_names (pat_segs p)) matches) name of None \<Rightarrow> [] | Some v \<Rightarrow> v)"

type_synonym ('c, 's) path_handler = "(string \<Rightarrow> string) \<Rightarrow> ('c, 's) handler"

definition mux_ServeHTTP :: "muxlib \<Rightarrow> ('c, 's) path_handler table \<Rightarrow> ('c, 's) handler" where
  "mux_ServeHTTP lib t r s =
     (if RequestURI lib r = ''*'' then ((set_header ''Connection'' ''close'' no_response)\<lparr>rstatus := 400\<rparr>, s)
      else case findHandler lib t r of
          Chosen p h matches \<Rightarrow> h (PathValue p matches) r s
        | Moved url \<Rightarrow> (http_Redirect url (redirectStatus lib) no_response, s)
        | NotAllowed ms \<Rightarrow>
            (http_Error ''Method Not Allowed'' 405 (set_header ''Allow'' (join_commas ms) no_response), s)
        | NoPattern \<Rightarrow> (http_NotFound_any no_response, s))"

end
