(* ===== verification/MuxProps.thy ===== *)
theory MuxProps
  imports ServeMux
begin

text \<open>
  What the multiplexer does with any table: a table is accepted when no two of its patterns conflict, matching
  works segment by segment, a path that survives cleaning has no empty segment, and only the methods of the
  table reach a handler.
\<close>

section \<open>Registration\<close>

fun conflict_free :: "pattern list \<Rightarrow> pattern list \<Rightarrow> bool" where
  "conflict_free seen [] = True"
| "conflict_free seen (p # ps) = (list_all (\<lambda>q. \<not> conflictsWith p q) seen \<and> conflict_free (seen @ [p]) ps)"

definition entries :: "(string \<times> 'h) list \<Rightarrow> 'h table" where
  "entries routes = map (\<lambda>(s, h). (parsePattern s, h)) routes"

lemma fold_HandleFunc_None [simp]: "fold HandleFunc routes None = None"
  by (induction routes) (simp_all add: HandleFunc_def)

lemma fold_HandleFunc:
  "conflict_free (map fst t) (map (parsePattern \<circ> fst) routes) \<Longrightarrow> fold HandleFunc routes (Some t) = Some (t @ entries routes)"
proof (induction routes arbitrary: t)
  case Nil
  then show ?case by (simp add: entries_def)
next
  case (Cons r rs)
  have "HandleFunc r (Some t) = Some (t @ [(parsePattern (fst r), snd r)])"
    using Cons.prems by (auto simp: HandleFunc_def list_ex_iff list_all_iff)
  with Cons show ?case by (simp add: entries_def split_beta)
qed

lemma NewServeMux_ok:
  "conflict_free [] (map (parsePattern \<circ> fst) routes) \<Longrightarrow> NewServeMux routes = Some (entries routes)"
  using fold_HandleFunc [of "[]" routes] by (simp add: NewServeMux_def)

section \<open>Segments\<close>

function path_segs :: "string \<Rightarrow> string list" where
  "path_segs path = (if path = [] then [] else fst (firstSegment path) # path_segs (snd (firstSegment path)))"
  by pat_completeness auto
termination
  by (relation "measure length") (auto intro: firstSegment_rest)

declare path_segs.simps [simp del]

fun match_segs :: "'e routing_node \<Rightarrow> string list \<Rightarrow> string list \<Rightarrow> ('e \<times> string list) option" where
  "match_segs n [] matches = map_option (\<lambda>e. (e, matches)) (leaf n)"
| "match_segs n (seg # rest) matches =
     or_else (match_segs (findChild seg n) rest matches)
       (or_else (if seg \<noteq> ''/'' then match_segs (emptyChild n) rest (matches @ [seg]) else None)
         (map_option (\<lambda>(_, e). (e, matches)) (multiChild n)))"

definition nameless :: "'e routing_node \<Rightarrow> bool" where
  "nameless n \<longleftrightarrow> (\<forall>x \<in> set n. \<forall>m. Multi m \<in> set (fst x) \<longrightarrow> m = [])"

lemma nameless_children: "nameless n \<Longrightarrow> nameless (findChild seg n)" "nameless n \<Longrightarrow> nameless (emptyChild n)"
  by (fastforce simp: nameless_def findChild_def emptyChild_def split: list.splits segment.splits if_splits)+

lemma multiChild_mem: "multiChild n = Some (m, e) \<Longrightarrow> \<exists>ss. (Multi m # ss, e) \<in> set n"
proof -
  assume m: "multiChild n = Some (m, e)"
  then obtain rest where "concat (map (\<lambda>(ss, e). case ss of Multi t # _ \<Rightarrow> [(t, e)] | _ \<Rightarrow> []) n) = (m, e) # rest"
    by (auto simp: multiChild_def split: list.splits)
  then have "(m, e) \<in> set (concat (map (\<lambda>(ss, e). case ss of Multi t # _ \<Rightarrow> [(t, e)] | _ \<Rightarrow> []) n))" by simp
  then show ?thesis by (auto split: list.splits segment.splits)
qed

lemma matchPath_segs: "nameless n \<Longrightarrow> matchPath n path matches = match_segs n (path_segs path) matches"
proof (induction n path matches rule: matchPath.induct)
  case (1 n path matches)
  show ?case
  proof (cases "path = []")
    case True
    then show ?thesis by (simp add: matchPath.simps path_segs.simps)
  next
    case False
    obtain seg rest where f: "firstSegment path = (seg, rest)" by (rule prod.exhaust)
    have m: "map_option (\<lambda>(name, e). (e, if name \<noteq> [] then matches @ [pathUnescape (tl path)] else matches)) (multiChild n)
        = map_option (\<lambda>(_, e). (e, matches)) (multiChild n)"
      using multiChild_mem [of n] "1.prems" by (cases "multiChild n") (auto simp: nameless_def)
    show ?thesis
      using False f m 1 nameless_children [OF "1.prems"] by (simp add: matchPath.simps [of n] path_segs.simps [of path])
  qed
qed

text \<open>Children of a node that is given pattern by pattern.\<close>

lemma node_Nil: "findChild seg [] = []" "emptyChild [] = []" "multiChild [] = None" "leaf [] = None"
  by (simp_all add: findChild_def emptyChild_def multiChild_def leaf_def)

lemma findChild_Cons:
  "seg \<noteq> [] \<Longrightarrow> findChild seg (([], e) # n) = findChild seg n"
  "seg \<noteq> [] \<Longrightarrow> findChild seg ((Lit t # rest, e) # n) = (if seg = t then (rest, e) # findChild seg n else findChild seg n)"
  "seg \<noteq> [] \<Longrightarrow> findChild seg ((Wild t # rest, e) # n) = findChild seg n"
  "seg \<noteq> [] \<Longrightarrow> findChild seg ((Multi t # rest, e) # n) = findChild seg n"
  by (auto simp: findChild_def)

lemma other_children_Cons:
  "emptyChild (([], e) # n) = emptyChild n" "emptyChild ((Lit t # rest, e) # n) = emptyChild n"
  "emptyChild ((Wild t # rest, e) # n) = (rest, e) # emptyChild n" "emptyChild ((Multi t # rest, e) # n) = emptyChild n"
  "multiChild (([], e) # n) = multiChild n" "multiChild ((Lit t # rest, e) # n) = multiChild n"
  "multiChild ((Wild t # rest, e) # n) = multiChild n" "multiChild ((Multi t # rest, e) # n) = Some (t, e)"
  "leaf (([], e) # n) = Some e" "leaf ((x # xs, e) # n) = leaf n"
  by (simp_all add: emptyChild_def multiChild_def leaf_def)

lemmas node_simps = node_Nil findChild_Cons other_children_Cons

lemma match_segs_empty [simp]: "match_segs [] segs ms = None"
  by (induction segs arbitrary: ms) (simp_all add: node_Nil or_else_def)

text \<open>Matching does not look at what the patterns lead to.\<close>

definition relabel :: "('a \<Rightarrow> 'b) \<Rightarrow> 'a routing_node \<Rightarrow> 'b routing_node" where
  "relabel f n = map (\<lambda>x. (fst x, f (snd x))) n"

lemma relabel_children:
  "findChild seg (relabel f n) = relabel f (findChild seg n)" "emptyChild (relabel f n) = relabel f (emptyChild n)"
  "leaf (relabel f n) = map_option f (leaf n)" "multiChild (relabel f n) = map_option (apsnd f) (multiChild n)"
proof -
  show e: "emptyChild (relabel f n) = relabel f (emptyChild n)"
    by (induction n) (auto simp: emptyChild_def relabel_def split: list.split segment.split)
  show "findChild seg (relabel f n) = relabel f (findChild seg n)"
  proof (cases "seg = []")
    case False
    then show ?thesis
      by (induction n) (auto simp: findChild_def relabel_def split: list.split segment.split)
  qed (simp add: findChild_def e)
  show "leaf (relabel f n) = map_option f (leaf n)"
    by (induction n) (auto simp: leaf_def relabel_def)
  show "multiChild (relabel f n) = map_option (apsnd f) (multiChild n)"
  proof -
    let ?m = "\<lambda>n. concat (map (\<lambda>(ss, e). case ss of Multi t # _ \<Rightarrow> [(t, e)] | _ \<Rightarrow> []) n)"
    have "?m (relabel f n) = map (apsnd f) (?m n)"
      by (induction n) (auto simp: relabel_def split: list.split segment.split)
    then show ?thesis unfolding multiChild_def by (cases "?m n") (simp_all only: list.simps option.simps)
  qed
qed

lemma or_else_map [simp]: "or_else (map_option f x) (map_option f y) = map_option f (or_else x y)"
  by (cases x) (simp_all add: or_else_def)

lemma or_else_simps [simp]: "or_else None y = y" "or_else (Some x) y = Some x" "or_else z None = z"
  by (simp_all add: or_else_def split: option.split)

lemma match_segs_relabel: "match_segs (relabel f n) segs matches = map_option (apfst f) (match_segs n segs matches)"
proof (induction n segs matches rule: match_segs.induct)
  case (1 n matches)
  then show ?case by (cases "leaf n") (simp_all add: relabel_children)
next
  case (2 n seg rest matches)
  have "map_option (\<lambda>(_, e). (e, matches)) (multiChild (relabel f n)) = map_option (apfst f) (map_option (\<lambda>(_, e). (e, matches)) (multiChild n))"
    by (cases "multiChild n") (auto simp: relabel_children)
  with 2 show ?case by (cases "seg = ''/''") (simp_all add: relabel_children)
qed

lemma child_labels:
  "snd ` set (findChild seg n) \<subseteq> snd ` set n" "snd ` set (emptyChild n) \<subseteq> snd ` set n"
  by (force simp: findChild_def emptyChild_def split: list.splits segment.splits if_splits)+

lemma match_segs_mem: "match_segs n segs ms = Some (e, ms') \<Longrightarrow> e \<in> snd ` set n"
proof (induction n segs ms rule: match_segs.induct)
  case (1 n matches)
  then show ?case by (force simp: leaf_def filter_eq_Cons_iff split: list.splits)
next
  case (2 n seg rest matches)
  from "2.prems" consider (lit) "match_segs (findChild seg n) rest matches = Some (e, ms')"
    | (wild) "seg \<noteq> ''/''" "match_segs (emptyChild n) rest (matches @ [seg]) = Some (e, ms')"
    | (multi) m where "multiChild n = Some (m, e)"
    by (auto simp: or_else_def split: option.splits if_splits)
  then show ?case
  proof cases
    case lit
    from subsetD [OF child_labels(1) "2.IH"(1) [OF lit]] show ?thesis .
  next
    case wild
    from subsetD [OF child_labels(2) "2.IH"(2) [OF wild]] show ?thesis .
  next
    case multi
    from multiChild_mem [OF this] show ?thesis by force
  qed
qed

declare match_segs.simps [simp del]

lemma leaf_match: "[] \<notin> set segs \<Longrightarrow> match_segs [([], e)] segs ms = (if segs = [] then Some (e, ms) else None)"
  by (cases segs) (auto simp: node_simps match_segs.simps)

section \<open>Clean paths\<close>

lemma PathUnescape_not_Nil: "PathUnescape s = Some [] \<Longrightarrow> s = []"
  by (cases s) (auto split: if_splits list.splits option.splits)

lemma pathUnescape_Nil [simp]: "pathUnescape s = [] \<longleftrightarrow> s = []"
  using PathUnescape_not_Nil [of s] by (auto simp: pathUnescape_def split: option.splits)

lemma path_segs_Nil [simp]: "path_segs [] = []"
  by (simp add: path_segs.simps)

lemma path_segs_slash [simp]: "path_segs ''/'' = [''/'']"
  by (simp add: path_segs.simps firstSegment_def)

lemma path_segs_part:
  assumes "c \<noteq> []" and "CHR ''/'' \<notin> set c" and "rest = [] \<or> hd rest = CHR ''/''"
  shows "path_segs (CHR ''/'' # c @ rest) = pathUnescape c # path_segs rest"
proof -
  have "takeWhile (\<lambda>x. x \<noteq> CHR ''/'') (c @ rest) = c" "dropWhile (\<lambda>x. x \<noteq> CHR ''/'') (c @ rest) = rest"
    using assms(2,3) by (cases rest; simp add: takeWhile_tail dropWhile_append3; auto simp: takeWhile_append dropWhile_append)+
  with assms(1) show ?thesis by (simp add: path_segs.simps [of "CHR ''/'' # c @ rest"] firstSegment_def)
qed

lemma path_segs_Join:
  assumes "cs \<noteq> []" and "\<forall>c \<in> set cs. c \<noteq> [] \<and> CHR ''/'' \<notin> set c" and "rest = [] \<or> hd rest = CHR ''/''"
  shows "path_segs (CHR ''/'' # Join cs CHR ''/'' @ rest) = map pathUnescape cs @ path_segs rest"
  using assms
proof (induction cs "CHR ''/''" rule: Join.induct)
  case (2 p)
  then show ?case by (simp add: path_segs_part)
next
  case (3 p q ps)
  then show ?case
    using path_segs_part [of p "CHR ''/'' # Join (q # ps) CHR ''/'' @ rest"] by simp
qed simp

text \<open>A path that cleaning leaves alone is the root or a sequence of names, with or without a slash at the end.\<close>

lemma clean_path_shape:
  assumes "cleanPath path = path"
  obtains (root) "path = ''/''"
  | (names) cs rest where "cs \<noteq> []" "\<forall>c \<in> set cs. c \<noteq> [] \<and> CHR ''/'' \<notin> set c" "rest \<in> {[], ''/''}"
      "path = CHR ''/'' # Join cs CHR ''/'' @ rest"
proof -
  define p where "p = (if path \<noteq> [] \<and> hd path \<noteq> CHR ''/'' then CHR ''/'' # path else path)"
  define cs where "cs = clean_parts True [] (Split p CHR ''/'')"
  have ne: "path \<noteq> []" using assms by (auto simp: cleanPath_def)
  then have r: "is_rooted p" by (cases path) (auto simp: p_def is_rooted_def HasPrefix_def)
  have np: "filepath_Clean p = CHR ''/'' # Join cs CHR ''/''" using r by (simp add: filepath_Clean_def cs_def Let_def)
  have "good_stack True (rev cs)" unfolding cs_def by (rule clean_parts_good) (auto dest: Split_parts)
  then have good: "\<forall>c \<in> set cs. c \<noteq> [] \<and> CHR ''/'' \<notin> set c"
    using good_stack_parts [of True "rev cs"] by (auto simp: good_part_def)
  have "path = (if last p = CHR ''/'' \<and> filepath_Clean p \<noteq> ''/'' then filepath_Clean p @ ''/'' else filepath_Clean p)"
    using assms ne unfolding cleanPath_def p_def [symmetric] by (simp add: Let_def p_def split: if_splits)
  then consider "path = ''/''" | "cs \<noteq> []" "path = CHR ''/'' # Join cs CHR ''/'' @ ''/''" | "cs \<noteq> []" "path = CHR ''/'' # Join cs CHR ''/'' @ []"
    using np by (cases cs) (auto split: if_splits)
  then show thesis by cases (use root names good in blast)+
qed

lemma unescaped_parts: "\<forall>c \<in> set cs. c \<noteq> [] \<and> P c \<Longrightarrow> [] \<notin> set (map pathUnescape cs)"
  by (metis (no_types, lifting) imageE list.set_map pathUnescape_Nil)

lemma clean_path_segs:
  assumes "cleanPath path = path"
  shows "[] \<notin> set (path_segs path)" "path_segs path \<noteq> []" "hd path = CHR ''/''" "path \<noteq> []"
proof -
  have "[] \<notin> set (path_segs path) \<and> path_segs path \<noteq> [] \<and> hd path = CHR ''/'' \<and> path \<noteq> []"
    using assms
  proof (cases rule: clean_path_shape)
    case (names cs rest)
    then have "path_segs path = map pathUnescape cs @ path_segs rest" using path_segs_Join [of cs rest] by auto
    with names unescaped_parts [OF names(2)] show ?thesis by auto
  qed simp
  then show "[] \<notin> set (path_segs path)" "path_segs path \<noteq> []" "hd path = CHR ''/''" "path \<noteq> []" by simp_all
qed

lemma Join_last_part: "cs \<noteq> [] \<Longrightarrow> \<forall>c \<in> set cs. c \<noteq> [] \<and> x \<notin> set c \<Longrightarrow> Join cs x \<noteq> [] \<and> last (Join cs x) \<noteq> x"
proof (induction cs x rule: Join.induct)
  case (2 p c)
  then show ?case by (metis Join.simps(2) last_in_set list.set_intros(1))
qed auto

lemma clean_path_slash:
  assumes "cleanPath path = path" and "\<not> HasSuffix path ''/''"
  shows "path_segs (path @ ''/'') = path_segs path @ [''/'']"
  using assms(1)
proof (cases rule: clean_path_shape)
  case (names cs rest)
  then have "rest = []" using assms(2) by (auto simp: HasSuffix_iff)
  with names path_segs_Join [of cs "''/''"] path_segs_Join [of cs "[]"] show ?thesis by simp
qed (use assms(2) in \<open>simp add: HasSuffix_def\<close>)

section \<open>Tables of one method\<close>

definition only_get :: "'h table \<Rightarrow> bool" where
  "only_get t \<longleftrightarrow> list_all (\<lambda>e. pat_method (fst e) = ''GET'') t"

lemma matchPath_Nil_node [simp]: "matchPath ([] :: 'a routing_node) path ms = None"
proof -
  show ?thesis using matchPath_segs [of "[] :: 'a routing_node" path ms] by (simp add: nameless_def)
qed

lemma only_get_node: "only_get t \<Longrightarrow> m \<noteq> ''GET'' \<Longrightarrow> method_node m t = []"
  by (auto simp: only_get_def method_node_def list_all_iff filter_empty_conv)

lemma only_get_match:
  assumes "only_get t"
  shows "matchMethodAndPath m path t = (if m \<in> {''GET'', ''HEAD''} then matchPath (method_node ''GET'' t) path [] else None)"
  using only_get_node [OF assms] by (auto simp: matchMethodAndPath_def)

section \<open>Sites\<close>

text \<open>
  A site: patterns for GET that do not conflict, one of them the root, and the routing they mean. The
  multiplexer then sends every GET and HEAD request for a clean path where \<open>route\<close> says.
\<close>

definition pattern_node :: "string list \<Rightarrow> string routing_node" where
  "pattern_node patterns = map (\<lambda>p. (pat_segs (parsePattern p), p)) patterns"

locale get_site =
  fixes patterns :: "string list" and route :: "string list \<Rightarrow> string \<times> string list"
  assumes no_conflict: "conflict_free [] (map parsePattern patterns)"
    and get_only: "p \<in> set patterns \<Longrightarrow> pat_method (parsePattern p) = ''GET''"
    and distinct_patterns: "distinct patterns"
    and no_names: "nameless (pattern_node patterns)"
    and route_match: "segs \<noteq> [] \<Longrightarrow> [] \<notin> set segs \<Longrightarrow> match_segs (pattern_node patterns) segs [] = Some (route segs)"
    and route_slash: "segs \<noteq> [] \<Longrightarrow> [] \<notin> set segs \<Longrightarrow> fst (route (segs @ [''/''])) = ''GET /''"
begin

lemma registers: "map fst routes = patterns \<Longrightarrow> NewServeMux routes = Some (entries routes)"
  using NewServeMux_ok [of routes] no_conflict by (simp flip: map_map)

lemma entries_get:
  assumes "map fst routes = patterns"
  shows "only_get (entries routes)"
proof -
  have "pat_method (parsePattern (fst x)) = ''GET''" if "x \<in> set routes" for x
    using get_only [of "fst x"] imageI [OF that, of fst] assms by (metis list.set_map)
  then show ?thesis by (simp add: only_get_def entries_def list_all_iff split_beta)
qed

lemma get_node:
  assumes "map fst routes = patterns"
  shows "method_node ''GET'' (entries routes) = relabel (\<lambda>(p, h). (parsePattern p, h)) (map (\<lambda>x. (pat_segs (parsePattern (fst x)), x)) routes)"
    and "pattern_node patterns = relabel fst (map (\<lambda>x. (pat_segs (parsePattern (fst x)), x)) routes)"
proof -
  have "filter (\<lambda>e. pat_method (fst e) = ''GET'') (entries routes) = entries routes"
    using entries_get [OF assms] by (simp add: only_get_def list_all_iff)
  then show "method_node ''GET'' (entries routes) = relabel (\<lambda>(p, h). (parsePattern p, h)) (map (\<lambda>x. (pat_segs (parsePattern (fst x)), x)) routes)"
    by (simp add: method_node_def relabel_def entries_def split_beta comp_def)
  show "pattern_node patterns = relabel fst (map (\<lambda>x. (pat_segs (parsePattern (fst x)), x)) routes)"
    by (simp add: pattern_node_def relabel_def assms [symmetric] comp_def)
qed

lemma nameless_node: "map fst routes = patterns \<Longrightarrow> nameless (method_node ''GET'' (entries routes))"
  using no_names get_node [of routes] by (auto simp: nameless_def relabel_def)

text \<open>The pattern and the handler a clean path leads to.\<close>

lemma get_match:
  assumes r: "map fst routes = patterns" and s: "path_segs path \<noteq> []" "[] \<notin> set (path_segs path)"
  obtains h where "map_of routes (fst (route (path_segs path))) = Some h"
    "matchPath (method_node ''GET'' (entries routes)) path [] =
       Some ((parsePattern (fst (route (path_segs path))), h), snd (route (path_segs path)))"
proof -
  let ?n = "map (\<lambda>x. (pat_segs (parsePattern (fst x)), x)) routes"
  from route_match [OF s] obtain x where x: "match_segs ?n (path_segs path) [] = Some x" "apfst fst x = route (path_segs path)"
    unfolding get_node(2) [OF r] match_segs_relabel by auto
  obtain p h ms where "x = ((p, h), ms)" by (metis surj_pair)
  with x have m: "match_segs ?n (path_segs path) [] = Some ((p, h), snd (route (path_segs path)))" "p = fst (route (path_segs path))"
    by (metis apfst_conv fst_conv snd_conv)+
  have "(p, h) \<in> set routes" using match_segs_mem [OF m(1)] by auto
  then have "map_of routes p = Some h" using distinct_patterns r by (simp add: map_of_eq_Some_iff)
  moreover have "matchPath (method_node ''GET'' (entries routes)) path [] = Some ((parsePattern p, h), snd (route (path_segs path)))"
    using m(1) matchPath_segs [OF nameless_node [OF r]] get_node(1) [OF r] by (simp add: match_segs_relabel)
  ultimately show thesis using that m(2) by blast
qed

lemma no_slash_redirect:
  assumes r: "map fst routes = patterns" and c: "cleanPath path = path"
  shows "matchOrRedirect m path (entries routes) = Inr (matchMethodAndPath m path (entries routes))"
proof (cases "m \<in> {''GET'', ''HEAD''} \<and> \<not> HasSuffix path ''/''")
  case True
  let ?segs = "path_segs path @ [''/'']"
  note segs = clean_path_segs [OF c]
  have e: "path_segs (path @ ''/'') = ?segs" using True by (simp add: clean_path_slash [OF c])
  obtain h where "matchPath (method_node ''GET'' (entries routes)) (path @ ''/'') [] = Some ((parsePattern ''GET /'', h), snd (route ?segs))"
    using get_match [OF r, of "path @ ''/''"] e segs route_slash [OF segs(2,1)] by (metis append_is_Nil_conv in_set_conv_decomp list.distinct(1) not_Cons_self2 set_ConsD set_append Un_iff empty_iff list.set(1) list.set(2) insert_iff)
  moreover have "\<not> exactMatch (parsePattern ''GET /'') (path @ ''/'')"
    using segs(3,4) by (cases path) (auto simp: exactMatch_def parsePattern_def ends_multi_def is_multi_def)
  ultimately show ?thesis
    using True by (auto simp: matchOrRedirect_def only_get_match [OF entries_get [OF r]] Let_def)
next
  case False
  then show ?thesis by (auto simp: matchOrRedirect_def only_get_match [OF entries_get [OF r]] Let_def)
qed

lemma find_get:
  assumes r: "map fst routes = patterns" and c: "cleanPath (EscapedPath lib q) = EscapedPath lib q" and m: "Method q \<in> {''GET'', ''HEAD''}"
  shows "\<exists>h. map_of routes (fst (route (path_segs (EscapedPath lib q)))) = Some h \<and>
    findHandler lib (entries routes) q =
      Chosen (parsePattern (fst (route (path_segs (EscapedPath lib q))))) h (snd (route (path_segs (EscapedPath lib q))))"
proof -
  note segs = clean_path_segs [OF c]
  from get_match [OF r segs(2,1)] obtain h where h: "map_of routes (fst (route (path_segs (EscapedPath lib q)))) = Some h"
    "matchPath (method_node ''GET'' (entries routes)) (EscapedPath lib q) [] =
       Some ((parsePattern (fst (route (path_segs (EscapedPath lib q)))), h), snd (route (path_segs (EscapedPath lib q))))" .
  have "matchMethodAndPath (Method q) (EscapedPath lib q) (entries routes) = matchPath (method_node ''GET'' (entries routes)) (EscapedPath lib q) []"
    using m by (simp only: only_get_match [OF entries_get [OF r]] if_True)
  with h m c show ?thesis by (auto simp: findHandler_def no_slash_redirect [OF r c] Let_def)
qed

lemma find_other:
  assumes r: "map fst routes = patterns" and c: "cleanPath (EscapedPath lib q) = EscapedPath lib q" and m: "Method q \<notin> {''GET'', ''HEAD''}"
  shows "findHandler lib (entries routes) q = NotAllowed [''GET'', ''HEAD'']"
proof -
  let ?p = "EscapedPath lib q" and ?t = "entries routes"
  note segs = clean_path_segs [OF c]
  have methods: "set (map (pat_method \<circ> fst) ?t) \<subseteq> {''GET''}"
    using entries_get [OF r] by (auto simp: only_get_def list_all_iff)
  obtain h where h: "matchPath (method_node ''GET'' ?t) ?p [] = Some h" using get_match [OF r segs(2,1)] by metis
  then have "?t \<noteq> []" by (auto simp: method_node_def)
  with methods have "set (map (pat_method \<circ> fst) ?t) = {''GET''}" by (cases ?t) auto
  then have "{m \<in> set (map (pat_method \<circ> fst) ?t). m \<noteq> [] \<and> matchPath (method_node m ?t) x [] \<noteq> None} =
      (if matchPath (method_node ''GET'' ?t) x [] \<noteq> None then {''GET''} else {})" for x
    by auto
  then have ms: "matching_at x ?t = (if matchPath (method_node ''GET'' ?t) x [] \<noteq> None then {''GET'', ''HEAD''} else {})" for x
    unfolding matching_at_def by (simp only: Let_def) auto
  have at: "matching_at ?p ?t = {''GET'', ''HEAD''}" using h by (simp only: ms) simp
  have sub: "matching_at x ?t \<subseteq> {''GET'', ''HEAD''}" for x by (simp only: ms) simp
  from at have "matchingMethods ?p ?t = sorted_list_of_set {''GET'', ''HEAD''}"
    unfolding matchingMethods_def at by (cases "HasSuffix ?p ''/''") (simp_all only: if_True if_False not_True_eq_False not_False_eq_True Un_empty_right Un_absorb2 [OF sub])
  also have "\<dots> = [''GET'', ''HEAD'']" by (simp add: less_list_code insort_key.simps)
  finally have mm: "matchingMethods ?p ?t = [''GET'', ''HEAD'']" .
  have "matchMethodAndPath (Method q) ?p ?t = None" using m by (simp only: only_get_match [OF entries_get [OF r]] if_False)
  with mm c show ?thesis by (auto simp: findHandler_def no_slash_redirect [OF r c] Let_def)
qed

lemma find_chosen:
  assumes r: "map fst routes = patterns" and f: "findHandler lib (entries routes) q = Chosen p h ms"
  shows "Method q \<in> {''GET'', ''HEAD''} \<and> cleanPath (EscapedPath lib q) = EscapedPath lib q \<and> h \<in> snd ` set routes"
proof -
  have m: "Method q \<in> {''GET'', ''HEAD''}"
  proof (rule ccontr)
    assume "Method q \<notin> {''GET'', ''HEAD''}"
    then have "matchMethodAndPath (Method q) path (entries routes) = None" for path
      by (simp only: only_get_match [OF entries_get [OF r]] if_False)
    with f show False by (auto simp: findHandler_def matchOrRedirect_def Let_def split: if_splits)
  qed
  then have c: "cleanPath (EscapedPath lib q) = EscapedPath lib q"
    using f by (auto simp: findHandler_def Let_def split: sum.splits if_splits)
  from find_get [OF r c m] f show ?thesis
    using m c by (auto dest!: map_of_SomeD intro: rev_image_eqI)
qed

end

text \<open>A library for the examples: paths arrive as they are.\<close>

definition example_mux :: muxlib where
  "example_mux = \<lparr>EscapedPath = Path, RequestURI = Path, URLWithPath = (\<lambda>r p. p), redirectStatus = 307\<rparr>"

end
