(* ===== verification/Supervisor.thy ===== *)
theory Supervisor
  imports MainProps MuxProps
begin

text \<open>
  The running process (\<^verbatim>\<open>main\<close> of \<^verbatim>\<open>cmd/tmpmail/main.go\<close> after the start): one goroutine per server, the
  buffered channel of their results, the select that waits for a signal or the first result, and the shutdown.
\<close>

section \<open>The command\<close>

datatype command =
  Health "health_error option"
| NotStarted startup_error
| Serving process

text \<open>The first argument is the name of the program.\<close>

definition tmpmail ::
    "configlib \<Rightarrow> order \<Rightarrow> (string \<Rightarrow> string) \<Rightarrow> (string \<Rightarrow> nat + int) \<Rightarrow> string list \<Rightarrow> machine \<Rightarrow> command" where
  "tmpmail lib order escapeHost probe args w =
     (if length args = 2 \<and> args ! 1 = ''healthcheck'' then Health (healthcheck escapeHost probe (m_env w HTTP_ADDR))
      else case startup lib order w of Inl e \<Rightarrow> NotStarted e | Inr p \<Rightarrow> Serving p)"

section \<open>Servers\<close>

text \<open>Durations are nanoseconds.\<close>

record httpServer =
  hs_Addr :: string
  hs_ReadHeaderTimeout :: int
  hs_ReadTimeout :: int
  hs_WriteTimeout :: int
  hs_IdleTimeout :: int
  hs_MaxHeaderBytes :: int

definition newHTTPServer :: "string \<Rightarrow> httpServer" where
  "newHTTPServer addr =
     \<lparr>hs_Addr = addr, hs_ReadHeaderTimeout = 5 * 10 ^ 9, hs_ReadTimeout = 15 * 10 ^ 9, hs_WriteTimeout = 90 * 10 ^ 9,
      hs_IdleTimeout = 60 * 10 ^ 9, hs_MaxHeaderBytes = 16 * 1024\<rparr>"

definition http_servers :: "process \<Rightarrow> (service \<times> httpServer) list" where
  "http_servers p =
     [(HTTP, newHTTPServer (HTTPAddr (p_cfg p)))] @
     (if p_https p then [(HTTPS, newHTTPServer (HTTPSAddr (p_cfg p)))] else []) @
     (if p_metrics p then [(MetricsHTTP, newHTTPServer (MetricsAddr (p_cfg p)))] else []) @
     (if p_admin p then [(AdminHTTP, newHTTPServer (AdminAddr (p_cfg p)))] else [])"

text \<open>The server of the metrics has one pattern; \<open>scrape\<close> is the handler of the Prometheus library.\<close>

definition NewMetricsServer :: "('c, 's) path_handler \<Rightarrow> ('c, 's) path_handler table option" where
  "NewMetricsServer scrape = NewServeMux [(''GET /metrics'', scrape)]"

lemma metrics_match: "matchPath [([Lit ''metrics''], e)] ''/metrics'' [] = Some (e, [])"
proof -
  have "path_segs ''/metrics'' = [''metrics'']" using path_segs_part [of "''metrics''" "[]"] by simp
  then show ?thesis
    using matchPath_segs [of "[([Lit ''metrics''], e)]" "''/metrics''" "[]"] by (simp add: nameless_def match_segs.simps node_simps)
qed

lemma NewMetricsServer_serves:
  assumes "RequestURI mx r = ''/metrics''" and "EscapedPath mx r = ''/metrics''" and "Method r = ''GET''"
  shows "\<exists>t pv. NewMetricsServer scrape = Some t \<and> mux_ServeHTTP mx t r s = scrape pv r s"
proof -
  have p: "parsePattern ''GET /metrics'' = \<lparr>pat_str = ''GET /metrics'', pat_method = ''GET'', pat_segs = [Lit ''metrics'']\<rparr>"
    by code_simp
  have c: "cleanPath ''/metrics'' = ''/metrics''" by code_simp
  have "findHandler mx (entries [(''GET /metrics'', scrape)]) r = Chosen (parsePattern ''GET /metrics'') scrape []"
    using assms by (simp add: metrics_match findHandler_def c matchOrRedirect_def matchMethodAndPath_def method_node_def entries_def p exactMatch_def
        ends_multi_def is_multi_def Let_def)
  moreover have "NewMetricsServer scrape = Some (entries [(''GET /metrics'', scrape)])"
    unfolding NewMetricsServer_def by (rule NewServeMux_ok) simp
  ultimately show ?thesis using assms(1) by (auto simp: mux_ServeHTTP_def)
qed

section \<open>The select\<close>

definition goroutines :: "process \<Rightarrow> service list" where
  "goroutines p = [SMTPService] @ (if p_https p then [HTTPS] else []) @ [HTTP] @ (if p_metrics p then [MetricsHTTP] else []) @
     (if p_admin p then [AdminHTTP] else [])"

text \<open>An HTTP server that was closed has no error; the result of the SMTP server is sent as it is.\<close>

definition sent_result :: "service \<Rightarrow> serve_error option \<Rightarrow> serve_error option" where
  "sent_result svc r = (if svc \<noteq> SMTPService \<and> r = Some ServerClosed then None else r)"

text \<open>\<open>serving\<close> are the goroutines that have not sent yet; \<open>outcome\<close> is what the select received.\<close>

record running =
  serving :: "service list"
  errCh :: "serve_error option list"
  outcome :: "ending option"

definition errCh_capacity :: nat where "errCh_capacity = 5"

definition started :: "process \<Rightarrow> running" where
  "started p = \<lparr>serving = goroutines p, errCh = [], outcome = None\<rparr>"

text \<open>
  A server that returns sends its result as soon as the channel has room. The goroutine of the SMTP server may
  leave without a result when the process ends before its certificate is there. The select takes the signal
  or the oldest result, once.
\<close>

inductive run_step :: "process \<Rightarrow> running \<Rightarrow> running \<Rightarrow> bool" for p where
  returns: "svc \<in> set (serving s) \<Longrightarrow> length (errCh s) < errCh_capacity \<Longrightarrow>
    run_step p s (s\<lparr>serving := remove1 svc (serving s), errCh := errCh s @ [sent_result svc r]\<rparr>)"
| gives_up: "SMTPService \<in> set (serving s) \<Longrightarrow> AutoTLSSMTPEnabled (p_cfg p) \<Longrightarrow>
    run_step p s (s\<lparr>serving := remove1 SMTPService (serving s)\<rparr>)"
| signalled: "outcome s = None \<Longrightarrow> run_step p s (s\<lparr>outcome := Some Signal\<rparr>)"
| received: "outcome s = None \<Longrightarrow> errCh s = r # rs \<Longrightarrow>
    run_step p s (s\<lparr>errCh := rs, outcome := Some (ServerEnded r)\<rparr>)"

inductive run_reachable :: "process \<Rightarrow> running \<Rightarrow> bool" for p where
  start: "run_reachable p (started p)"
| step: "run_reachable p s \<Longrightarrow> run_step p s s' \<Longrightarrow> run_reachable p s'"

lemma goroutines_few: "length (goroutines p) \<le> errCh_capacity" "distinct (goroutines p)"
  by (simp_all add: goroutines_def errCh_capacity_def)

lemma run_inv:
  "run_reachable p s \<Longrightarrow>
   length (serving s) + length (errCh s) \<le> errCh_capacity \<and> distinct (serving s) \<and> set (serving s) \<subseteq> set (goroutines p)"
proof (induction rule: run_reachable.induct)
  case start
  then show ?case by (simp add: started_def goroutines_few)
next
  case (step s s')
  have l: "svc \<in> set (serving s) \<Longrightarrow> length (serving s) = Suc (length (remove1 svc (serving s)))" for svc
    using length_pos_if_in_set [of svc "serving s"] by (auto simp: length_remove1)
  have sub: "set (remove1 svc (serving s)) \<subseteq> set (goroutines p)" for svc
    using step(3) set_remove1_subset [of svc "serving s"] by blast
  from step(2) show ?case
  proof (cases rule: run_step.cases)
    case (returns svc r)
    with step(3) l [of svc] sub [of svc] show ?thesis by simp
  next
    case gives_up
    with step(3) l [of SMTPService] sub [of SMTPService] show ?thesis by simp
  qed (use step(3) in simp_all)
qed

text \<open>
  C29. The main goroutine supervises the servers soundly. The channel of results has room for every server that
  still runs, so whenever one returns it can deliver its result and no goroutine is left blocked, also after the
  select is over; while the select waits, a delivered result can be received. When the process ends in an orderly
  way, it stops exactly the servers that were started, the listeners before the SMTP server, and then closes the
  analytics and, last, the store; when a server failed it does not.
\<close>

theorem main_supervision:
  assumes "run_reachable p s"
  shows "(\<forall>svc \<in> set (serving s). \<forall>r. \<exists>s'. run_step p s s' \<and> svc \<notin> set (serving s') \<and> errCh s' = errCh s @ [sent_result svc r])
    \<and> (outcome s = None \<and> errCh s \<noteq> [] \<longrightarrow> run_step p s (s\<lparr>errCh := tl (errCh s), outcome := Some (ServerEnded (hd (errCh s)))\<rparr>))
    \<and> (\<forall>e. outcome s = Some e \<longrightarrow> shutdown p e =
         (if \<exists>k. e = ServerEnded (Some k) then None
          else Some (filter (\<lambda>x. x \<in> set (goroutines p)) [HTTP, HTTPS, MetricsHTTP, AdminHTTP, SMTPService] @ [AnalyticsService, StoreService])))"
proof (intro conjI ballI allI impI)
  fix svc r assume svc: "svc \<in> set (serving s)"
  note inv = run_inv [OF assms]
  have "0 < length (serving s)" using svc by (cases "serving s") auto
  then have "length (errCh s) < errCh_capacity" using inv by linarith
  from run_step.returns [OF svc this, of p r] inv
  show "\<exists>s'. run_step p s s' \<and> svc \<notin> set (serving s') \<and> errCh s' = errCh s @ [sent_result svc r]"
    by (intro exI [of _ "s\<lparr>serving := remove1 svc (serving s), errCh := errCh s @ [sent_result svc r]\<rparr>"]) simp
next
  assume "outcome s = None \<and> errCh s \<noteq> []"
  then show "run_step p s (s\<lparr>errCh := tl (errCh s), outcome := Some (ServerEnded (hd (errCh s)))\<rparr>)"
    by (intro run_step.received) auto
next
  fix e assume "outcome s = Some e"
  show "shutdown p e = (if \<exists>k. e = ServerEnded (Some k) then None
      else Some (filter (\<lambda>x. x \<in> set (goroutines p)) [HTTP, HTTPS, MetricsHTTP, AdminHTTP, SMTPService] @ [AnalyticsService, StoreService]))"
    by (auto simp: shutdown_def goroutines_def split: ending.split option.split)
qed

theorem main_supervision_witness:
  "\<exists>p s'. startup example_configlib rev example_machine = Inr p \<and> run_step p (started p) s' \<and> HTTPS \<notin> set (serving s') \<and>
     errCh s' = [None]"
proof -
  obtain p where p: "startup example_configlib rev example_machine = Inr p" "p_https p" using example_starts by blast
  have "HTTPS \<in> set (serving (started p))" using p(2) by (simp add: started_def goroutines_def)
  with main_supervision [OF run_reachable.start, of p] obtain s' where
    "run_step p (started p) s'" "HTTPS \<notin> set (serving s')" "errCh s' = errCh (started p) @ [sent_result HTTPS (Some ServerClosed)]"
    by blast
  with p(1) show ?thesis by (auto simp: started_def sent_result_def)
qed

section \<open>Expiry in the background\<close>

text \<open>\<^verbatim>\<open>RunCleanup\<close>: a cleanup at every tick until the process ends; an error is only logged.\<close>

fun RunCleanup :: "nat \<Rightarrow> store \<Rightarrow> store" where
  "RunCleanup 0 s = s"
| "RunCleanup (Suc k) s = RunCleanup k (snd (Cleanup s))"

text \<open>It is one of the interleavings the store is proved for: all it does are steps of the store.\<close>

lemma cleanup_loop_reachable: "store_reachable s \<Longrightarrow> store_reachable (snd (cleanup_loop before s))"
proof (induction before s rule: cleanup_loop.induct)
  case (1 before s)
  obtain again err s1 where i: "cleanup_iteration before s = ((again, err), s1)" by (rule prod_cases3) (metis surj_pair)
  have "store_reachable s1" using store_reachable.step [OF "1.prems" store_step.expire, of before] i by simp
  then show ?case using "1.IH" i by (subst cleanup_loop.simps) (simp split: if_split)
qed

lemma RunCleanup_reachable: "store_reachable s \<Longrightarrow> store_reachable (RunCleanup k s)"
proof (induction k arbitrary: s)
  case (Suc k)
  have "store_reachable (s\<lparr>faults := faults s, clock := stl (clock s), rands := rands s\<rparr>)"
    by (rule store_reachable.step [OF Suc.prems store_step.world])
  then have "store_reachable (s\<lparr>clock := stl (clock s)\<rparr>)" by simp
  from cleanup_loop_reachable [OF this] Suc.IH show ?case by (simp add: Cleanup_def now_def)
qed simp

lemma RunCleanup_inv: "store_reachable s \<Longrightarrow> store_inv (RunCleanup k s)"
  using reachable_housed [OF RunCleanup_reachable] by (simp add: housed_def)

end
