(* ===== verification/CanaryMain.thy ===== *)
theory CanaryMain
  imports CanaryProps Supervisor
begin

text \<open>
  The process of the canary (\<^verbatim>\<open>src/canary/cmd/canary/main.go\<close>): its two endpoints behind the multiplexer and
  the select that waits for a signal or for the end of its HTTP server.
\<close>

section \<open>Endpoints\<close>

datatype canaryPage = Status_JSON healthStatus | Livez_body string

text \<open>The handlers run on the status the runner keeps.\<close>

definition canary_routes :: "(string \<times> (canaryPage, healthStatus) path_handler) list" where
  "canary_routes =
     (let json = set_header ''Content-Type'' ''application/json; charset=utf-8'' no_response
      in [(''GET /healthz'', \<lambda>pv r current.
             (json\<lparr>rstatus := fst (canary_healthz current), rcontent := Some (Status_JSON (snd (canary_healthz current)))\<rparr>, current)),
          (''GET /livez'', \<lambda>pv r current.
             (json\<lparr>rstatus := fst canary_livez, rcontent := Some (Livez_body (snd canary_livez))\<rparr>, current))])"

record canaryServer =
  cs_Addr :: string
  cs_ReadHeaderTimeout :: int

definition canary_server :: "canaryConfig \<Rightarrow> canaryServer" where
  "canary_server conf = \<lparr>cs_Addr = c_HTTPAddr conf, cs_ReadHeaderTimeout = 5 * 10 ^ 9\<rparr>"

text \<open>What ends the process: only a signal or a closed server lead to the shutdown.\<close>

definition canary_orderly :: "ending \<Rightarrow> bool" where
  "canary_orderly e = (e = Signal \<or> e = ServerEnded (Some ServerClosed))"

lemma canary_node:
  "matchPath [([Lit ''healthz''], e), ([Lit ''livez''], e')] ''/healthz'' [] = Some (e, [])"
  "matchPath [([Lit ''healthz''], e), ([Lit ''livez''], e')] ''/livez'' [] = Some (e', [])"
proof -
  have "path_segs ''/healthz'' = [''healthz'']" "path_segs ''/livez'' = [''livez'']"
    using path_segs_part [of "''healthz''" "[]"] path_segs_part [of "''livez''" "[]"] by simp_all
  then show "matchPath [([Lit ''healthz''], e), ([Lit ''livez''], e')] ''/healthz'' [] = Some (e, [])"
    "matchPath [([Lit ''healthz''], e), ([Lit ''livez''], e')] ''/livez'' [] = Some (e', [])"
    using matchPath_segs [of "[([Lit ''healthz''], e), ([Lit ''livez''], e')]" _ "[]"]
    by (simp_all add: nameless_def match_segs.simps node_simps)
qed

text \<open>
  The table has no conflict, and the health endpoint answers 200 exactly while the last run was healthy; it
  never changes what the runner keeps.
\<close>

lemma canary_registers: "NewServeMux canary_routes = Some (entries canary_routes)"
  by (rule NewServeMux_ok) (simp add: canary_routes_def Let_def, code_simp)

lemma canary_answers:
  assumes "RequestURI mx r = EscapedPath mx r" and "Method r = ''GET''" and "EscapedPath mx r = ''/healthz''"
  shows "rstatus (fst (mux_ServeHTTP mx (entries canary_routes) r current)) = 200 \<longleftrightarrow> hs_Status current = ''healthy''"
    "snd (mux_ServeHTTP mx (entries canary_routes) r current) = current"
    "hs_Status current \<noteq> ''healthy'' \<Longrightarrow> rstatus (fst (mux_ServeHTTP mx (entries canary_routes) r current)) = 503"
proof -
  have p: "parsePattern ''GET /healthz'' = \<lparr>pat_str = ''GET /healthz'', pat_method = ''GET'', pat_segs = [Lit ''healthz'']\<rparr>"
    "parsePattern ''GET /livez'' = \<lparr>pat_str = ''GET /livez'', pat_method = ''GET'', pat_segs = [Lit ''livez'']\<rparr>"
    by code_simp+
  have c: "cleanPath ''/healthz'' = ''/healthz''" by code_simp
  have "findHandler mx (entries canary_routes) r = Chosen (parsePattern ''GET /healthz'') (snd (canary_routes ! 0)) []"
    using assms by (simp add: canary_node findHandler_def c matchOrRedirect_def matchMethodAndPath_def method_node_def entries_def p
        exactMatch_def ends_multi_def is_multi_def Let_def canary_routes_def)
  then show "rstatus (fst (mux_ServeHTTP mx (entries canary_routes) r current)) = 200 \<longleftrightarrow> hs_Status current = ''healthy''"
    "snd (mux_ServeHTTP mx (entries canary_routes) r current) = current"
    "hs_Status current \<noteq> ''healthy'' \<Longrightarrow> rstatus (fst (mux_ServeHTTP mx (entries canary_routes) r current)) = 503"
    using assms(1,3) by (simp_all add: mux_ServeHTTP_def canary_routes_def canary_healthz_def Let_def)
qed

text \<open>
  C35. The canary keeps running and its verdict is the conjunction of its checks. If the context of the waits is
  done again and again (every run has a deadline), the run at the start and the run of every tick return; the
  last one ran the three checks in their order, each of them is healthy exactly if it has no error, and a GET of
  \<^verbatim>\<open>/healthz\<close> at the multiplexer of the canary is then answered with 200 exactly if all three are healthy, and
  with 503 before the first run has finished.
\<close>
theorem canary_run_verdict:
  assumes "fair (waits n)"
    and "RequestURI mx r = EscapedPath mx r" and "Method r = ''GET''" and "EscapedPath mx r = ''/healthz''"
  shows "\<exists>h n' t. runner_run lib conf k n = Some (h, n') \<and> NewServeMux canary_routes = Some t
    \<and> map ck_Name (hs_Checks h) = [''api-health'', ''smtp-to-api-and-ui-message-flow'', ''smtp-attachment-download'']
    \<and> (\<forall>c \<in> set (hs_Checks h). ck_Status c = ''healthy'' \<longleftrightarrow> ck_Message c = None)
    \<and> (rstatus (fst (mux_ServeHTTP mx t r h)) = 200 \<longleftrightarrow> (\<forall>c \<in> set (hs_Checks h). ck_Message c = None))
    \<and> rstatus (fst (mux_ServeHTTP mx t r newRunner)) = 503"
proof -
  have "rstatus (fst (mux_ServeHTTP mx (entries canary_routes) r newRunner)) = 503"
    using canary_answers(3) [OF assms(2-4), of newRunner] by (simp add: newRunner_def)
  moreover obtain h n' where "runner_run lib conf k n = Some (h, n')" "verdict_ok h"
    using runner_run_verdict [OF assms(1), of lib conf k] by blast
  ultimately show ?thesis
    unfolding verdict_ok_def canary_registers
    by (intro exI [of _ h] exI [of _ n'] exI [of _ "entries canary_routes"]) (simp add: canary_answers(1) [OF assms(2-4)] canary_healthz_def split: if_splits)
qed

theorem canary_run_verdict_witness:
  "\<exists>h n'. runner_run example_canarylib example_canary 2 example_network = Some (h, n') \<and> length (hs_Checks h) = 3"
proof -
  have "fair (waits example_network)" by (auto simp: fair_def example_network_def)
  from canary_run_verdict [OF this, of example_mux "example_request\<lparr>Path := ''/healthz''\<rparr>" example_canarylib example_canary 2]
  obtain h n' where h: "runner_run example_canarylib example_canary 2 example_network = Some (h, n')"
    "map ck_Name (hs_Checks h) = [''api-health'', ''smtp-to-api-and-ui-message-flow'', ''smtp-attachment-download'']"
    by (auto simp: example_mux_def example_request_def)
  from arg_cong [OF h(2), of length] have "length (hs_Checks h) = 3" by simp
  with h(1) show ?thesis by blast
qed

end
