(* ===== verification/Metrics.thy ===== *)
theory Metrics
  imports StoreOps
begin

text \<open>
  The labels and counters of \<^verbatim>\<open>internal/app/metrics.go\<close>. A counter vector is a function from label
  values to a total; the histograms keep the number and the sum of their observations. The registry and
  the scrape format belong to the Prometheus library.
\<close>

definition statusClass :: "string \<Rightarrow> string" where
  "statusClass st =
     (if length st = 3 \<and> st ! 0 \<in> set ''2345'' then take 1 st @ ''xx'' else ''unknown'')"

definition trim_slash :: "string \<Rightarrow> string" where
  "trim_slash s = rev (dropWhile (\<lambda>c. c = CHR ''/'') (rev (dropWhile (\<lambda>c. c = CHR ''/'') s)))"

definition fixed_paths :: "string list" where
  "fixed_paths = [''/'', ''/privacy'', ''/healthz'', ''/openapi.json'', ''/ui.css'', ''/ui.js'', ''/metrics'']"

definition metricRoute :: "string \<Rightarrow> string \<Rightarrow> string" where
  "metricRoute path pat =
     (if path \<in> set fixed_paths then path
      else if pat = ''GET /{inbox}'' then ''/{inbox}''
      else if pat = [] \<and> count_list (trim_slash path) (CHR ''/'') = 0 \<and> path \<noteq> ''/'' then ''/{inbox}''
      else if HasPrefix path ''/api/v1/inboxes/'' then ''/api/v1/inboxes/{inbox}''
      else if HasPrefix path ''/api/v1/messages/'' then ''/api/v1/messages/{id}''
      else if HasPrefix path ''/ui/messages/'' \<and> HasSuffix path ''/html'' then ''/ui/messages/{id}/html''
      else if HasPrefix path ''/ui/messages/'' then ''/ui/messages/{id}''
      else path)"

definition metricResult :: "'e option \<Rightarrow> string" where
  "metricResult err = (case err of Some _ \<Rightarrow> ''error'' | None \<Rightarrow> ''success'')"

type_synonym labels = "string \<times> string"

record metrics =
  httpRequests :: "labels \<Rightarrow> int"
  httpDuration :: "labels \<Rightarrow> int \<times> rat" \<comment> \<open>number and sum of the observations\<close>
  httpResponseBytes :: "labels \<Rightarrow> int"
  cleanupMessages :: "string \<Rightarrow> int"
  cleanupBytes :: "string \<Rightarrow> int"
  storageGauge :: "int \<times> int"

definition observeHTTP :: "string \<Rightarrow> string \<Rightarrow> int \<Rightarrow> rat \<Rightarrow> metrics \<Rightarrow> metrics" where
  "observeHTTP route st n seconds m =
     (let k = (route, st); d = (route, statusClass st) in
      m\<lparr>httpRequests := (httpRequests m)(k := httpRequests m k + 1),
        httpDuration := (httpDuration m)(d := (fst (httpDuration m d) + 1, snd (httpDuration m d) + seconds)),
        httpResponseBytes := (httpResponseBytes m)(k := httpResponseBytes m k + n)\<rparr>)"

definition observeCleanup :: "cleanupStats \<Rightarrow> metrics \<Rightarrow> metrics" where
  "observeCleanup stats m =
     (let m1 = (if 0 < Expired stats
            then m\<lparr>cleanupMessages := (cleanupMessages m)(''expired'' := cleanupMessages m ''expired'' + int (Expired stats)),
                   cleanupBytes := (cleanupBytes m)(''expired'' := cleanupBytes m ''expired'' + ExpiredBytes stats)\<rparr>
            else m)
      in if 0 < Evicted stats
         then m1\<lparr>cleanupMessages := (cleanupMessages m1)(''storage_limit'' := cleanupMessages m1 ''storage_limit'' + int (Evicted stats)),
                 cleanupBytes := (cleanupBytes m1)(''storage_limit'' := cleanupBytes m1 ''storage_limit'' + EvictedBytes stats)\<rparr>
         else m1)"

definition observeStorageUsage :: "int \<Rightarrow> int \<Rightarrow> metrics \<Rightarrow> metrics" where
  "observeStorageUsage n k m = m\<lparr>storageGauge := (n, k)\<rparr>"

section \<open>Collectors\<close>

text \<open>
  The collectors by the name of their variable; all have the namespace \<^verbatim>\<open>tmpmail\<close>. \<open>registered\<close> is the order in
  which \<^verbatim>\<open>init\<close> hands them to the Prometheus library, which panics at a second collector of one name.
\<close>

datatype collectorKind = Counter | Gauge | Histogram | CounterVec | GaugeVec | HistogramVec

record collector =
  col_kind :: collectorKind
  col_Name :: string
  col_Help :: string
  col_labels :: "string list"

definition collectors :: "(string \<times> collector) list" where
  "collectors =
     [
      (''smtpMessages'', \<lparr>col_kind = CounterVec, col_Name = ''smtp_messages_total'',
        col_Help = ''SMTP message delivery attempts by result.'', col_labels = [''result'']\<rparr>),
      (''smtpMessageBytes'', \<lparr>col_kind = Counter, col_Name = ''smtp_message_bytes_total'',
        col_Help = ''Bytes accepted through SMTP.'', col_labels = []\<rparr>),
      (''smtpConnections'', \<lparr>col_kind = Gauge, col_Name = ''smtp_connections_active'',
        col_Help = ''SMTP sessions currently being handled.'', col_labels = []\<rparr>),
      (''smtpConnectionsTotal'', \<lparr>col_kind = CounterVec, col_Name = ''smtp_connections_total'',
        col_Help = ''SMTP connection admission attempts by result.'', col_labels = [''result'']\<rparr>),
      (''smtpSessionsTotal'', \<lparr>col_kind = CounterVec, col_Name = ''smtp_sessions_total'',
        col_Help = ''SMTP sessions that completed HELO or EHLO by TLS state.'', col_labels = [''tls'']\<rparr>),
      (''smtpSessionDuration'', \<lparr>col_kind = HistogramVec, col_Name = ''smtp_session_duration_seconds'',
        col_Help = ''Time spent handling admitted SMTP sessions.'', col_labels = [''result'']\<rparr>),
      (''smtpRejections'', \<lparr>col_kind = CounterVec, col_Name = ''smtp_rejections_total'',
        col_Help = ''SMTP admission and delivery rejections by reason.'', col_labels = [''reason'']\<rparr>),
      (''smtpTLSCertificateNotAfter'', \<lparr>col_kind = Gauge, col_Name = ''smtp_tls_certificate_not_after_timestamp'',
        col_Help = ''Unix timestamp at which the active SMTP TLS certificate expires; zero when SMTP TLS is disabled.'', col_labels = []\<rparr>),
      (''smtpDeliveryDuration'', \<lparr>col_kind = HistogramVec, col_Name = ''smtp_delivery_duration_seconds'',
        col_Help = ''Time to read and persist an SMTP DATA transaction.'', col_labels = [''result'']\<rparr>),
      (''httpRequests'', \<lparr>col_kind = CounterVec, col_Name = ''http_requests_total'',
        col_Help = ''HTTP requests by normalized route and status.'', col_labels = [''route'', ''status'']\<rparr>),
      (''httpDuration'', \<lparr>col_kind = HistogramVec, col_Name = ''http_request_duration_seconds'',
        col_Help = ''HTTP request duration by normalized route and outcome class.'', col_labels = [''route'', ''outcome'']\<rparr>),
      (''httpResponseBytes'', \<lparr>col_kind = CounterVec, col_Name = ''http_response_bytes_total'',
        col_Help = ''HTTP response body bytes by normalized route and status.'', col_labels = [''route'', ''status'']\<rparr>),
      (''httpRequestsInFlight'', \<lparr>col_kind = Gauge, col_Name = ''http_requests_in_flight'',
        col_Help = ''HTTP requests currently being handled.'', col_labels = []\<rparr>),
      (''httpOverloadRejections'', \<lparr>col_kind = Counter, col_Name = ''http_overload_rejections_total'',
        col_Help = ''HTTP requests rejected by the application concurrency limit.'', col_labels = []\<rparr>),
      (''httpCanceled'', \<lparr>col_kind = Counter, col_Name = ''http_canceled_requests_total'',
        col_Help = ''HTTP requests whose context was canceled while being handled.'', col_labels = []\<rparr>),
      (''cleanupMessages'', \<lparr>col_kind = CounterVec, col_Name = ''cleanup_messages_total'',
        col_Help = ''Messages removed by cleanup reason.'', col_labels = [''reason'']\<rparr>),
      (''cleanupBytes'', \<lparr>col_kind = CounterVec, col_Name = ''cleanup_bytes_total'',
        col_Help = ''Raw blob bytes released from message references by cleanup reason; physical reclamation may be pending.'', col_labels = [''reason'']\<rparr>),
      (''storageBytes'', \<lparr>col_kind = Gauge, col_Name = ''storage_bytes'',
        col_Help = ''Raw message file bytes charged to storage, including pending deletions.'', col_labels = []\<rparr>),
      (''storageMessages'', \<lparr>col_kind = Gauge, col_Name = ''storage_messages'',
        col_Help = ''Messages currently stored.'', col_labels = []\<rparr>),
      (''storageErrors'', \<lparr>col_kind = CounterVec, col_Name = ''storage_errors_total'',
        col_Help = ''Storage operation errors by operation.'', col_labels = [''operation'']\<rparr>),
      (''storageSaveDuration'', \<lparr>col_kind = HistogramVec, col_Name = ''storage_save_duration_seconds'',
        col_Help = ''Time to persist a raw message and its metadata.'', col_labels = [''result'']\<rparr>),
      (''storageWriteLockWait'', \<lparr>col_kind = Histogram, col_Name = ''storage_write_lock_wait_seconds'',
        col_Help = ''Time spent waiting for the serialized storage write lock.'', col_labels = []\<rparr>),
      (''storageReadDuration'', \<lparr>col_kind = HistogramVec, col_Name = ''storage_read_duration_seconds'',
        col_Help = ''Time to read inbox listings and messages from storage.'', col_labels = [''operation'', ''result'']\<rparr>),
      (''storageSaveStageDuration'', \<lparr>col_kind = HistogramVec, col_Name = ''storage_save_stage_duration_seconds'',
        col_Help = ''Time spent in each message persistence stage.'', col_labels = [''stage'', ''result'']\<rparr>),
      (''storageDBOpenConnections'', \<lparr>col_kind = Gauge, col_Name = ''storage_db_open_connections'',
        col_Help = ''Open SQLite database connections.'', col_labels = []\<rparr>),
      (''storageDBInUseConnections'', \<lparr>col_kind = Gauge, col_Name = ''storage_db_in_use_connections'',
        col_Help = ''SQLite database connections currently in use.'', col_labels = []\<rparr>),
      (''cleanupErrors'', \<lparr>col_kind = Counter, col_Name = ''cleanup_errors_total'',
        col_Help = ''Cleanup runs that returned an error.'', col_labels = []\<rparr>),
      (''cleanupDuration'', \<lparr>col_kind = HistogramVec, col_Name = ''cleanup_duration_seconds'',
        col_Help = ''Time spent removing expired or evicted messages.'', col_labels = [''result'']\<rparr>)]"

definition fqName :: "collector \<Rightarrow> string" where
  "fqName c = ''tmpmail_'' @ col_Name c"

definition registered :: "string list" where
  "registered =
     [''smtpMessages'', ''smtpMessageBytes'', ''smtpConnections'', ''smtpConnectionsTotal'', ''smtpSessionsTotal'',
      ''smtpSessionDuration'', ''smtpRejections'', ''smtpTLSCertificateNotAfter'', ''smtpDeliveryDuration'', ''httpRequests'',
      ''httpDuration'', ''httpResponseBytes'', ''httpRequestsInFlight'', ''httpOverloadRejections'', ''httpCanceled'',
      ''cleanupMessages'', ''cleanupBytes'', ''storageBytes'', ''storageMessages'', ''storageErrors'',
      ''storageSaveDuration'', ''storageWriteLockWait'', ''storageReadDuration'', ''storageSaveStageDuration'', ''storageDBOpenConnections'',
      ''storageDBInUseConnections'', ''cleanupErrors'', ''cleanupDuration'']"

text \<open>Every collector is registered, once, under a name of its own, and exactly the vectors have labels.\<close>

lemma collectors_registered: "map fst collectors = registered" "distinct registered"
  by code_simp+

lemma collectors_names: "distinct (map (fqName \<circ> snd) collectors)"
  by code_simp

lemma collectors_labels:
  "list_all (\<lambda>c. col_kind (snd c) \<in> {CounterVec, GaugeVec, HistogramVec} \<longleftrightarrow> col_labels (snd c) \<noteq> []) collectors"
  by code_simp

section \<open>Labels\<close>

lemma statusClass_bounded: "statusClass st \<in> {''2xx'', ''3xx'', ''4xx'', ''5xx'', ''unknown''}"
proof (cases "length st = 3 \<and> st ! 0 \<in> set ''2345''")
  case True
  then obtain c r where "st = c # r" by (cases st) auto
  with True show ?thesis by (auto simp: statusClass_def)
next
  case False
  then show ?thesis unfolding statusClass_def by (simp only: if_False) simp
qed

text \<open>The routes the program knows; \<open>metricRoute\<close> stays within them but for its last branch.\<close>

definition known_labels :: "string list" where
  "known_labels = fixed_paths @ [''/{inbox}'', ''/api/v1/inboxes/{inbox}'', ''/api/v1/messages/{id}'', ''/ui/messages/{id}/html'',
     ''/ui/messages/{id}'']"

lemma metricRoute_label: "metricRoute path pat \<in> set known_labels \<or> metricRoute path pat = path"
  by (auto simp: metricRoute_def known_labels_def)

lemma slash_inside: "x \<noteq> CHR ''/'' \<Longrightarrow> y \<noteq> CHR ''/'' \<Longrightarrow> trim_slash (CHR ''/'' # x # s @ [y]) = x # s @ [y]"
  by (simp add: trim_slash_def)

lemma metricRoute_raw: "metricRoute (''/x/'' @ replicate (Suc k) (CHR ''y'')) [] = ''/x/'' @ replicate (Suc k) (CHR ''y'')"
proof -
  have t: "trim_slash (''/x/'' @ replicate (Suc k) (CHR ''y'')) = ''x/'' @ replicate (Suc k) (CHR ''y'')"
    using slash_inside [of "CHR ''x''" "CHR ''y''" "''/'' @ replicate k (CHR ''y'')"] by (simp add: replicate_append_same)
  show ?thesis by (simp add: metricRoute_def t [simplified] fixed_paths_def HasPrefix_def)
qed

lemma metricRoute_unbounded: "infinite (range (\<lambda>path. metricRoute path []))"
proof -
  let ?f = "\<lambda>k. ''/x/'' @ replicate (Suc k) (CHR ''y'')"
  have "inj ?f" by (rule injI) (metis append_same_eq length_replicate same_append_eq Suc_inject)
  then have "infinite (range ?f)" using infinite_UNIV_nat finite_imageD by blast
  moreover have "range ?f \<subseteq> range (\<lambda>path. metricRoute path [])" using metricRoute_raw by (metis (mono_tags, lifting) image_subsetI rangeI)
  ultimately show ?thesis by (rule infinite_super [rotated])
qed

section \<open>Counters\<close>

text \<open>What a cleanup reports adds up: the counters of the two reasons grow by exactly its statistics.\<close>

lemma observeCleanup_exact:
  assumes "Expired stats = 0 \<longrightarrow> ExpiredBytes stats = 0" "Evicted stats = 0 \<longrightarrow> EvictedBytes stats = 0"
  shows "cleanupMessages (observeCleanup stats m) = (cleanupMessages m)
      (''expired'' := cleanupMessages m ''expired'' + int (Expired stats), ''storage_limit'' := cleanupMessages m ''storage_limit'' + int (Evicted stats))"
    and "cleanupBytes (observeCleanup stats m) = (cleanupBytes m)
      (''expired'' := cleanupBytes m ''expired'' + ExpiredBytes stats, ''storage_limit'' := cleanupBytes m ''storage_limit'' + EvictedBytes stats)"
  using assms by (auto simp: observeCleanup_def Let_def)

end
