(* ===== verification/AcmeDiag.thy ===== *)
theory AcmeDiag
  imports GoText
begin

text \<open>
  The diagnostics of ACME responses (\<^verbatim>\<open>internal/app/acme_diagnostics.go\<close>): what the client reads is
  captured up to a limit and summarised once. The JSON decoder is a parameter; a log line is a value of
  the type \<open>diag\<close> with the texts it prints.
\<close>

definition acmeDiagnosticLimit :: nat where "acmeDiagnosticLimit = 65536"

section \<open>Texts\<close>

text \<open>\<^verbatim>\<open>[]rune(s)\<close>, every code point as its encoding; an invalid byte becomes U+FFFD.\<close>

function runes :: "string \<Rightarrow> string list" where
  "runes s =
     (if s = [] then []
      else if rune_len s = 0 then bytes [239, 191, 189] # runes (drop 1 s)
      else take (rune_len s) s # runes (drop (rune_len s) s))"
  by pat_completeness auto
termination
  by (relation "measure length") auto

declare runes.simps [simp del]

definition diagnosticText :: "string \<Rightarrow> string" where
  "diagnosticText v =
     (if 1000 < length (runes v) then concat (take 1000 (runes v)) @ bytes [226, 128, 166] else v)"

section \<open>The captured body\<close>

record diagnosticBody =
  captured :: string
  truncated :: bool
  once :: bool
  endpoint :: string

record acmeProblem =
  p_Type :: string
  p_Detail :: string

record acmeChallenge =
  c_Type :: string
  c_Status :: string
  c_Error :: "acmeProblem option"

record acmeData =
  d_Status :: string
  d_Type :: string
  d_Detail :: string
  d_Identifier :: string
  d_Error :: "acmeProblem option"
  d_Challenges :: "acmeChallenge list"

datatype diag =
    DState string string string
  | DProblem string string string string
  | DChallenge string string string

definition problem_line :: "string \<Rightarrow> acmeProblem option \<Rightarrow> string \<Rightarrow> diag list" where
  "problem_line ep p challenge =
     (case p of None \<Rightarrow> []
      | Some q \<Rightarrow> [DProblem ep (diagnosticText challenge) (diagnosticText (p_Type q)) (diagnosticText (p_Detail q))])"

definition report_lines :: "string \<Rightarrow> acmeData \<Rightarrow> diag list" where
  "report_lines ep d =
     (if d_Status d \<noteq> [] then [DState ep (diagnosticText (d_Identifier d)) (diagnosticText (d_Status d))] else []) @
     (if HasPrefix (d_Type d) ''urn:ietf:params:acme:error:''
      then problem_line ep (Some \<lparr>p_Type = d_Type d, p_Detail = d_Detail d\<rparr>) [] else []) @
     problem_line ep (d_Error d) (d_Type d) @
     concat (map (\<lambda>c. DChallenge ep (diagnosticText (c_Type c)) (diagnosticText (c_Status c)) #
       problem_line ep (c_Error c) (c_Type c)) (d_Challenges d))"

definition report :: "(string \<Rightarrow> acmeData option) \<Rightarrow> diagnosticBody \<Rightarrow> diag list \<times> diagnosticBody" where
  "report Unmarshal b =
     (if once b then ([], b)
      else
        (if truncated b then []
         else case Unmarshal (captured b) of None \<Rightarrow> [] | Some d \<Rightarrow> report_lines (endpoint b) d,
         b\<lparr>once := True\<rparr>))"

text \<open>\<open>chunk\<close> is what the wrapped reader returned, \<open>eof\<close> whether it reported the end.\<close>

definition body_Read :: "(string \<Rightarrow> acmeData option) \<Rightarrow> string \<Rightarrow> bool \<Rightarrow> diagnosticBody \<Rightarrow> diag list \<times> diagnosticBody" where
  "body_Read Unmarshal chunk eof b =
     (let remaining = acmeDiagnosticLimit - length (captured b);
          b1 = (if remaining < length chunk then b\<lparr>truncated := True, captured := captured b @ take remaining chunk\<rparr>
                else b\<lparr>captured := captured b @ chunk\<rparr>)
      in if eof then report Unmarshal b1 else ([], b1))"

definition body_Close :: "(string \<Rightarrow> acmeData option) \<Rightarrow> diagnosticBody \<Rightarrow> diag list \<times> diagnosticBody" where
  "body_Close Unmarshal b = report Unmarshal b"

section \<open>Bounds\<close>

datatype body_op = ReadOp string bool | CloseOp

fun body_run :: "(string \<Rightarrow> acmeData option) \<Rightarrow> body_op list \<Rightarrow> diagnosticBody \<Rightarrow> diag list \<times> diagnosticBody" where
  "body_run U [] b = ([], b)"
| "body_run U (ReadOp chunk eof # ops) b =
     (case body_Read U chunk eof b of (l, b1) \<Rightarrow> (case body_run U ops b1 of (l', b2) \<Rightarrow> (l @ l', b2)))"
| "body_run U (CloseOp # ops) b =
     (case body_Close U b of (l, b1) \<Rightarrow> (case body_run U ops b1 of (l', b2) \<Rightarrow> (l @ l', b2)))"

definition all_read :: "body_op list \<Rightarrow> string" where
  "all_read ops = concat (map (\<lambda>x. case x of ReadOp chunk _ \<Rightarrow> chunk | CloseOp \<Rightarrow> []) ops)"

text \<open>What a body knows after the bytes \<open>r\<close> were read.\<close>

definition has_read :: "string \<Rightarrow> diagnosticBody \<Rightarrow> bool" where
  "has_read r b \<longleftrightarrow> captured b = take acmeDiagnosticLimit r \<and> (truncated b \<longleftrightarrow> acmeDiagnosticLimit < length r)"

lemma has_read_chunk:
  assumes "has_read r b" "body_Read U chunk eof b = (l, b')"
  shows "has_read (r @ chunk) b' \<and> endpoint b' = endpoint b \<and> (once b \<longrightarrow> l = [] \<and> once b') \<and>
    (l \<noteq> [] \<longrightarrow> once b' \<and> length (r @ chunk) \<le> acmeDiagnosticLimit \<and>
       (\<exists>d. U (r @ chunk) = Some d \<and> l = report_lines (endpoint b) d))"
  using assms
  by (auto simp: has_read_def body_Read_def report_def Let_def take_all_iff split: if_splits option.splits)

lemma has_read_close:
  assumes "has_read r b" "body_Close U b = (l, b')"
  shows "has_read r b' \<and> endpoint b' = endpoint b \<and> (once b \<longrightarrow> l = []) \<and> once b' \<and>
    (l \<noteq> [] \<longrightarrow> length r \<le> acmeDiagnosticLimit \<and> (\<exists>d. U r = Some d \<and> l = report_lines (endpoint b) d))"
  using assms by (auto simp: has_read_def body_Close_def report_def split: if_splits option.splits)

lemma body_run_once: "once b \<Longrightarrow> body_run U ops b = (l, b') \<Longrightarrow> l = []"
proof (induction U ops b arbitrary: l b' rule: body_run.induct)
  case (2 U chunk eof ops b)
  then show ?case by (auto simp: body_Read_def report_def Let_def split: prod.splits if_splits)
next
  case (3 U ops b)
  then show ?case by (auto simp: body_Close_def report_def split: prod.splits if_splits)
qed simp

lemma all_read_simps [simp]:
  "all_read [] = []" "all_read (ReadOp chunk eof # ops) = chunk @ all_read ops" "all_read (CloseOp # ops) = all_read ops"
  by (simp_all add: all_read_def)

text \<open>Nothing was logged, or the summary of all that had been read at some moment.\<close>

definition one_report :: "(string \<Rightarrow> acmeData option) \<Rightarrow> string \<Rightarrow> string \<Rightarrow> body_op list \<Rightarrow> diag list \<Rightarrow> bool" where
  "one_report U ep r ops l \<longleftrightarrow> l = [] \<or> (\<exists>ops1 ops2 d. ops = ops1 @ ops2 \<and> length (r @ all_read ops1) \<le> acmeDiagnosticLimit \<and>
     U (r @ all_read ops1) = Some d \<and> l = report_lines ep d)"

lemma one_report_later:
  "one_report U ep (r @ all_read [x]) ops l \<Longrightarrow> one_report U ep r (x # ops) l"
proof -
  assume o: "one_report U ep (r @ all_read [x]) ops l"
  have e: "(r @ all_read [x]) @ all_read ops1 = r @ all_read (x # ops1)" for ops1 by (cases x) simp_all
  from o consider "l = []" | ops1 ops2 d where "ops = ops1 @ ops2" "length (r @ all_read (x # ops1)) \<le> acmeDiagnosticLimit"
      "U (r @ all_read (x # ops1)) = Some d" "l = report_lines ep d"
    unfolding one_report_def e by blast
  then show ?thesis unfolding one_report_def by cases (blast, metis append_Cons)
qed

lemma one_report_now:
  "length (r @ all_read [x]) \<le> acmeDiagnosticLimit \<Longrightarrow> U (r @ all_read [x]) = Some d \<Longrightarrow> one_report U ep r (x # ops) (report_lines ep d)"
  unfolding one_report_def by (metis append_Cons append_Nil)

lemma body_run_read:
  "has_read r b \<Longrightarrow> body_run U ops b = (l, b') \<Longrightarrow>
   has_read (r @ all_read ops) b' \<and> one_report U (endpoint b) r ops l"
proof (induction U ops b arbitrary: r l b' rule: body_run.induct)
  case (2 U chunk eof ops b)
  obtain l1 b1 where g: "body_Read U chunk eof b = (l1, b1)" by fastforce
  obtain l2 where h: "body_run U ops b1 = (l2, b')" and l: "l = l1 @ l2"
    using "2.prems"(2) g by (auto split: prod.splits)
  note c = has_read_chunk [OF "2.prems"(1) g]
  note IH = "2.IH" [OF g [symmetric] conjunct1 [OF c] h]
  show ?case
  proof (cases "l1 = []")
    case True
    with IH c l one_report_later [of U "endpoint b" r "ReadOp chunk eof"] show ?thesis by simp
  next
    case False
    then have "l2 = []" using body_run_once [OF _ h] c by blast
    with IH c l False one_report_now [of r "ReadOp chunk eof"] show ?thesis by auto
  qed
next
  case (3 U ops b)
  obtain l1 b1 where g: "body_Close U b = (l1, b1)" by fastforce
  obtain l2 where h: "body_run U ops b1 = (l2, b')" and l: "l = l1 @ l2"
    using "3.prems"(2) g by (auto split: prod.splits)
  note c = has_read_close [OF "3.prems"(1) g]
  have l2: "l2 = []" using body_run_once [OF _ h] c by blast
  note IH = "3.IH" [OF g [symmetric] conjunct1 [OF c] h]
  show ?case using IH c l l2 one_report_now [of r CloseOp] by (cases "l1 = []") (simp add: one_report_def, auto)
qed (simp add: one_report_def)

section \<open>Sizes\<close>

lemma rune_len_le_4: "rune_len s \<le> 4"
  by (cases s) (auto simp: rune_len.simps(2) Let_def split: list.splits)

lemma runes_size: "list_all (\<lambda>x. length x \<le> 4) (runes s) \<and> length s \<le> 4 * length (runes s)"
proof (induction s rule: runes.induct)
  case (1 s)
  show ?case
  proof (cases "s = [] \<or> rune_len s = 0")
    case True
    with 1 show ?thesis by (cases "s = []") (auto simp: runes.simps [of s] runes.simps [of "[]"] bytes_def)
  next
    case False
    with 1 rune_len_le_4 [of s] show ?thesis by (auto simp: runes.simps [of s] min_def)
  qed
qed

lemma concat_size: "list_all (\<lambda>x. length x \<le> k) xs \<Longrightarrow> length (concat xs) \<le> k * length xs"
  by (induction xs) auto

lemma diagnosticText_size: "length (diagnosticText v) \<le> 4003"
proof (cases "1000 < length (runes v)")
  case True
  have "list_all (\<lambda>x. length x \<le> 4) (take 1000 (runes v))"
    using runes_size [of v] by (auto simp: list_all_iff dest: in_set_takeD)
  then have "length (concat (take 1000 (runes v))) \<le> 4 * 1000" using concat_size [of 4 "take 1000 (runes v)"] True by simp
  with True show ?thesis by (simp add: diagnosticText_def bytes_def)
next
  case False
  with runes_size [of v] show ?thesis by (simp add: diagnosticText_def)
qed

definition diag_texts :: "diag \<Rightarrow> string list" where
  "diag_texts l = (case l of DState ep i s \<Rightarrow> [i, s] | DProblem ep c t d \<Rightarrow> [c, t, d] | DChallenge ep t s \<Rightarrow> [t, s])"

lemma report_lines_texts:
  "l \<in> set (report_lines ep d) \<Longrightarrow> x \<in> set (diag_texts l) \<Longrightarrow> length x \<le> 4003"
  by (auto simp: report_lines_def problem_line_def diag_texts_def diagnosticText_size split: if_splits option.splits)

definition new_body :: "string \<Rightarrow> diagnosticBody" where
  "new_body ep = \<lparr>captured = [], truncated = False, once = False, endpoint = ep\<rparr>"

text \<open>
  Tracing a response stays within bounds however the client reads it: what is captured is the first
  64 KiB of what was read, a longer body is marked as truncated, at most one summary is logged, only of a
  body within the limit, and every text in it is at most 4003 bytes long.
\<close>

lemma acme_capture_bounded:
  assumes "body_run Unmarshal ops (new_body ep) = (logs, b)"
  shows "captured b = take acmeDiagnosticLimit (all_read ops) \<and> (truncated b \<longleftrightarrow> acmeDiagnosticLimit < length (all_read ops))
    \<and> (logs = [] \<or> (\<exists>ops1 ops2 d. ops = ops1 @ ops2 \<and> length (all_read ops1) \<le> acmeDiagnosticLimit \<and>
         Unmarshal (all_read ops1) = Some d \<and> logs = report_lines ep d))
    \<and> (\<forall>l \<in> set logs. \<forall>x \<in> set (diag_texts l). length x \<le> 4003)"
proof -
  have "has_read [] (new_body ep)" by (simp add: has_read_def new_body_def)
  from body_run_read [OF this assms] have r: "has_read (all_read ops) b" "one_report Unmarshal ep [] ops logs"
    by (simp_all add: new_body_def)
  then have "\<forall>l \<in> set logs. \<forall>x \<in> set (diag_texts l). length x \<le> 4003"
    using report_lines_texts by (auto simp: one_report_def)
  with r show ?thesis by (simp add: has_read_def one_report_def)
qed

section \<open>The traced transport\<close>

text \<open>
  \<^verbatim>\<open>acmeLogTransport.RoundTrip\<close> of \<^verbatim>\<open>autotls.go\<close>: the answer of the wrapped transport is a
  failure or a status, the value of the header \<^verbatim>\<open>Retry-After\<close> and whether there is a body. The
  response goes on unchanged; \<open>wrapped_body\<close> says whether its body is captured for diagnostics.
\<close>

datatype acmeLine =
    RequestStarted string string | RequestFailed string string nat | ResponseLogged string string int | RetryRequested string string

record acmeRequest =
  acme_Method :: string
  acme_Host :: string
  acme_EscapedPath :: string
  acme_Query :: string

definition acme_endpoint :: "acmeRequest \<Rightarrow> string" where
  "acme_endpoint req = acme_Host req @ acme_EscapedPath req"

definition RoundTrip :: "bool \<Rightarrow> acmeRequest \<Rightarrow> nat + int \<times> string \<times> bool \<Rightarrow> (nat + int \<times> string \<times> bool) \<times> bool \<times> acmeLine list" where
  "RoundTrip debug req answer =
     (let endpoint = acme_endpoint req; started = (if debug then [RequestStarted (acme_Method req) endpoint] else []) in
      case answer of
        Inl k \<Rightarrow> (answer, False, started @ [RequestFailed (acme_Method req) endpoint k])
      | Inr (code, retryAfter, body) \<Rightarrow>
          (answer, debug \<and> body,
           started @ (if debug \<or> 400 \<le> code then [ResponseLogged (acme_Method req) endpoint code] else []) @
           (if 400 \<le> code \<and> retryAfter \<noteq> [] then [RetryRequested endpoint retryAfter] else [])))"

text \<open>Failures and refusals are always logged; no line depends on the query, and bodies are kept only for debugging.\<close>

lemma RoundTrip_logs:
  assumes "RoundTrip debug req answer = (answer', wrapped_body, ls)"
  shows "answer' = answer \<and> (wrapped_body \<longrightarrow> debug)
    \<and> (\<forall>k. answer = Inl k \<longrightarrow> RequestFailed (acme_Method req) (acme_endpoint req) k \<in> set ls)
    \<and> (\<forall>code h b. answer = Inr (code, h, b) \<and> 400 \<le> code \<longrightarrow> ResponseLogged (acme_Method req) (acme_endpoint req) code \<in> set ls)
    \<and> (\<not> debug \<and> (\<exists>code h b. answer = Inr (code, h, b) \<and> code < 400) \<longrightarrow> ls = [])
    \<and> RoundTrip debug (req\<lparr>acme_Query := q\<rparr>) answer = (answer', wrapped_body, ls)"
  using assms by (auto simp: RoundTrip_def Let_def acme_endpoint_def split: sum.splits prod.splits if_splits)

end
