(* ===== verification/ApiBindings.thy ===== *)
theory ApiBindings
  imports HttpHandlers ServeMux
begin

text \<open>
  The server side of the API contract (\<^verbatim>\<open>internal/api/openapi.gen.go\<close>): the wrapper that turns path and
  query into typed parameters before it calls a handler, the errors it answers with, and the patterns it
  registers. The conversions themselves belong to the runtime package of the generator; \<open>apilib\<close> holds them.
  A failed conversion is its message, or \<open>Missing\<close> for a required query argument that is absent.
\<close>

section \<open>Errors\<close>

datatype paramError =
  UnescapedCookieParamError string string
| UnmarshalingParamError string string
| RequiredParamError string
| RequiredHeaderError string string
| InvalidParamFormatError string string
| TooManyValuesForParamError string int

text \<open>The text of an error; the last string of a constructor is the text of the error it wraps.\<close>

definition param_Error :: "paramError \<Rightarrow> string" where
  "param_Error e =
     (case e of
        UnescapedCookieParamError name err \<Rightarrow> ''error unescaping cookie parameter '' @ [CHR 39] @ name @ [CHR 39]
      | UnmarshalingParamError name err \<Rightarrow> ''Error unmarshaling parameter '' @ name @ '' as JSON: '' @ err
      | RequiredParamError name \<Rightarrow> ''Query argument '' @ name @ '' is required, but not found''
      | RequiredHeaderError name err \<Rightarrow> ''Header parameter '' @ name @ '' is required, but not found''
      | InvalidParamFormatError name err \<Rightarrow> ''Invalid format for parameter '' @ name @ '': '' @ err
      | TooManyValuesForParamError name n \<Rightarrow> ''Expected one value for '' @ name @ '', got '' @ Itoa n)"

text \<open>\<^verbatim>\<open>Unwrap\<close>: the wrapped error, where the type has the method.\<close>

definition param_Unwrap :: "paramError \<Rightarrow> string option" where
  "param_Unwrap e =
     (case e of
        UnescapedCookieParamError name err \<Rightarrow> Some err
      | UnmarshalingParamError name err \<Rightarrow> Some err
      | RequiredHeaderError name err \<Rightarrow> Some err
      | InvalidParamFormatError name err \<Rightarrow> Some err
      | _ \<Rightarrow> None)"

datatype bindError = Missing | BadFormat string

definition query_error :: "string \<Rightarrow> bindError \<Rightarrow> paramError" where
  "query_error name e = (case e of Missing \<Rightarrow> RequiredParamError name | BadFormat err \<Rightarrow> InvalidParamFormatError name err)"

section \<open>The wrapper\<close>

record apilib =
  bindEmail :: "string \<Rightarrow> string \<Rightarrow> string + string"
  bindString :: "string \<Rightarrow> string \<Rightarrow> string + string"
  bindInt :: "string \<Rightarrow> string \<Rightarrow> string + int"
  bindQueryInt :: "string \<Rightarrow> request \<Rightarrow> bindError + int option"

record ListInboxMessagesParams =
  par_Limit :: "int option"
  par_Offset :: "int option"

record ('c, 's) ServerInterface =
  si_ListInboxMessages :: "string \<Rightarrow> ListInboxMessagesParams \<Rightarrow> ('c, 's) handler"
  si_GetMessage :: "string \<Rightarrow> ('c, 's) handler"
  si_GetMessageAttachment :: "string \<Rightarrow> int \<Rightarrow> ('c, 's) handler"
  si_Healthcheck :: "('c, 's) handler"

record ('c, 's) ServerInterfaceWrapper =
  siw_Handler :: "('c, 's) ServerInterface"
  siw_HandlerMiddlewares :: "(('c, 's) handler \<Rightarrow> ('c, 's) handler) list"
  siw_ErrorHandlerFunc :: "paramError \<Rightarrow> ('c, 's) handler"

definition with_middlewares :: "('c, 's) ServerInterfaceWrapper \<Rightarrow> ('c, 's) handler \<Rightarrow> ('c, 's) handler" where
  "with_middlewares siw h = fold (\<lambda>middleware h. middleware h) (siw_HandlerMiddlewares siw) h"

definition siw_ListInboxMessages :: "apilib \<Rightarrow> ('c, 's) ServerInterfaceWrapper \<Rightarrow> ('c, 's) path_handler" where
  "siw_ListInboxMessages lib siw pathValue r =
     (case bindEmail lib ''inbox'' (pathValue ''inbox'') of
        Inl err \<Rightarrow> siw_ErrorHandlerFunc siw (InvalidParamFormatError ''inbox'' err) r
      | Inr inbox \<Rightarrow>
          (case bindQueryInt lib ''limit'' r of
             Inl e \<Rightarrow> siw_ErrorHandlerFunc siw (query_error ''limit'' e) r
           | Inr limit \<Rightarrow>
               (case bindQueryInt lib ''offset'' r of
                  Inl e \<Rightarrow> siw_ErrorHandlerFunc siw (query_error ''offset'' e) r
                | Inr offset \<Rightarrow> with_middlewares siw (si_ListInboxMessages (siw_Handler siw) inbox \<lparr>par_Limit = limit, par_Offset = offset\<rparr>) r)))"

definition siw_GetMessage :: "apilib \<Rightarrow> ('c, 's) ServerInterfaceWrapper \<Rightarrow> ('c, 's) path_handler" where
  "siw_GetMessage lib siw pathValue r =
     (case bindString lib ''id'' (pathValue ''id'') of
        Inl err \<Rightarrow> siw_ErrorHandlerFunc siw (InvalidParamFormatError ''id'' err) r
      | Inr i \<Rightarrow> with_middlewares siw (si_GetMessage (siw_Handler siw) i) r)"

definition siw_GetMessageAttachment :: "apilib \<Rightarrow> ('c, 's) ServerInterfaceWrapper \<Rightarrow> ('c, 's) path_handler" where
  "siw_GetMessageAttachment lib siw pathValue r =
     (case bindString lib ''id'' (pathValue ''id'') of
        Inl err \<Rightarrow> siw_ErrorHandlerFunc siw (InvalidParamFormatError ''id'' err) r
      | Inr i \<Rightarrow>
          (case bindInt lib ''index'' (pathValue ''index'') of
             Inl err \<Rightarrow> siw_ErrorHandlerFunc siw (InvalidParamFormatError ''index'' err) r
           | Inr index \<Rightarrow> with_middlewares siw (si_GetMessageAttachment (siw_Handler siw) i index) r))"

definition siw_Healthcheck :: "('c, 's) ServerInterfaceWrapper \<Rightarrow> ('c, 's) path_handler" where
  "siw_Healthcheck siw pathValue r = with_middlewares siw (si_Healthcheck (siw_Handler siw)) r"

section \<open>Registration\<close>

text \<open>
  A router is the list of the patterns registered so far, in order; \<open>BaseRouter\<close> is \<^const>\<open>None\<close> for a nil router, and
  registering appends. Conflicts between patterns are checked when the list becomes a multiplexer (\<open>NewServeMux\<close>).
\<close>

type_synonym ('c, 's) router = "(string \<times> ('c, 's) path_handler) list"

record ('c, 's) StdHTTPServerOptions =
  BaseURL :: string
  BaseRouter :: "('c, 's) router option"
  Middlewares :: "(('c, 's) handler \<Rightarrow> ('c, 's) handler) list"
  ErrorHandlerFunc :: "(paramError \<Rightarrow> ('c, 's) handler) option"

definition default_error_handler :: "paramError \<Rightarrow> ('c, 's) handler" where
  "default_error_handler e r s = (http_Error (param_Error e) 400 no_response, s)"

definition HandlerWithOptions ::
    "apilib \<Rightarrow> ('c, 's) ServerInterface \<Rightarrow> ('c, 's) StdHTTPServerOptions \<Rightarrow> ('c, 's) router" where
  "HandlerWithOptions lib si opts =
     (let m = (case BaseRouter opts of None \<Rightarrow> [] | Some m \<Rightarrow> m);
          siw = \<lparr>siw_Handler = si, siw_HandlerMiddlewares = Middlewares opts,
            siw_ErrorHandlerFunc = (case ErrorHandlerFunc opts of None \<Rightarrow> default_error_handler | Some f \<Rightarrow> f)\<rparr>
      in m @
         [(''GET '' @ BaseURL opts @ ''/healthz'', siw_Healthcheck siw),
          (''GET '' @ BaseURL opts @ ''/api/v1/inboxes/{inbox}'', siw_ListInboxMessages lib siw),
          (''GET '' @ BaseURL opts @ ''/api/v1/messages/{id}'', siw_GetMessage lib siw),
          (''GET '' @ BaseURL opts @ ''/api/v1/messages/{id}/attachments/{index}'', siw_GetMessageAttachment lib siw)])"

definition no_options :: "('c, 's) StdHTTPServerOptions" where
  "no_options = \<lparr>BaseURL = [], BaseRouter = None, Middlewares = [], ErrorHandlerFunc = None\<rparr>"

definition Handler :: "apilib \<Rightarrow> ('c, 's) ServerInterface \<Rightarrow> ('c, 's) router" where
  "Handler lib si = HandlerWithOptions lib si no_options"

definition HandlerFromMux :: "apilib \<Rightarrow> ('c, 's) ServerInterface \<Rightarrow> ('c, 's) router \<Rightarrow> ('c, 's) router" where
  "HandlerFromMux lib si m = HandlerWithOptions lib si (no_options\<lparr>BaseRouter := Some m\<rparr>)"

definition HandlerFromMuxWithBaseURL :: "apilib \<Rightarrow> ('c, 's) ServerInterface \<Rightarrow> ('c, 's) router \<Rightarrow> string \<Rightarrow> ('c, 's) router" where
  "HandlerFromMuxWithBaseURL lib si m baseURL =
     HandlerWithOptions lib si (no_options\<lparr>BaseURL := baseURL, BaseRouter := Some m\<rparr>)"

text \<open>The patterns of the interface come after those of the router, which keep their handlers.\<close>

lemma HandlerFromMux_appends: "HandlerFromMux lib si m = m @ Handler lib si"
  by (simp add: HandlerFromMux_def Handler_def HandlerWithOptions_def no_options_def Let_def)

section \<open>The embedded specification\<close>

text \<open>
  The document is compiled in as chunks of base64 text of a compressed stream. Decoding, decompressing (reading, then
  closing the reader) and loading are outside; \<open>loadFromData\<close> gets the function that reads external references.
\<close>

record 'spec speclib =
  base64_DecodeString :: "string \<Rightarrow> string + string"
  flate_read :: "string \<Rightarrow> string + string"
  flate_close :: "string \<Rightarrow> string option"
  loadFromData :: "(string \<Rightarrow> string + string) \<Rightarrow> string \<Rightarrow> string + 'spec"

definition decodeSpec :: "'spec speclib \<Rightarrow> string list \<Rightarrow> string + string" where
  "decodeSpec lib swaggerSpec =
     (case base64_DecodeString lib (concat swaggerSpec) of
        Inl err \<Rightarrow> Inl (''error base64 decoding spec: '' @ err)
      | Inr compressed \<Rightarrow>
          (case flate_read lib compressed of
             Inl err \<Rightarrow> Inl (''read flate: '' @ err)
           | Inr data \<Rightarrow>
               (case flate_close lib compressed of
                  Some err \<Rightarrow> Inl (''close flate reader: '' @ err)
                | None \<Rightarrow> Inr data)))"

text \<open>The result is kept at the start of the program, so every later call gives the same.\<close>

definition GetSpecJSON :: "'spec speclib \<Rightarrow> string list \<Rightarrow> string + string" where
  "GetSpecJSON lib swaggerSpec = decodeSpec lib swaggerSpec"

definition PathToRawSpec :: "'spec speclib \<Rightarrow> string list \<Rightarrow> string \<Rightarrow> (string \<rightharpoonup> string + string)" where
  "PathToRawSpec lib swaggerSpec pathToFile =
     (if 0 < length pathToFile then [pathToFile \<mapsto> GetSpecJSON lib swaggerSpec] else Map.empty)"

definition ReadFromURI :: "'spec speclib \<Rightarrow> string list \<Rightarrow> string \<Rightarrow> string + string" where
  "ReadFromURI lib swaggerSpec url =
     (let pathToFile = filepath_Clean url
      in case PathToRawSpec lib swaggerSpec [] pathToFile of
           None \<Rightarrow> Inl (''path not found: '' @ pathToFile)
         | Some getSpec \<Rightarrow> getSpec)"

definition GetSpec :: "'spec speclib \<Rightarrow> string list \<Rightarrow> string + 'spec" where
  "GetSpec lib swaggerSpec =
     bnd (GetSpecJSON lib swaggerSpec) (loadFromData lib (ReadFromURI lib swaggerSpec))"

definition GetSwagger :: "'spec speclib \<Rightarrow> string list \<Rightarrow> string + 'spec" where
  "GetSwagger lib swaggerSpec = GetSpec lib swaggerSpec"

text \<open>No external reference of the document is ever resolved.\<close>

lemma no_external_reference: "ReadFromURI lib swaggerSpec url = Inl (''path not found: '' @ filepath_Clean url)"
  by (simp add: ReadFromURI_def PathToRawSpec_def Let_def)

section \<open>The handlers\<close>

text \<open>The handlers of \<^verbatim>\<open>internal/app/http.go\<close> behind the interface.\<close>

definition apiServer :: "handlerlib \<Rightarrow> (content, store) ServerInterface" where
  "apiServer lib =
     \<lparr>si_ListInboxMessages = (\<lambda>inbox params r. ListInboxMessages inbox (par_Limit params) (par_Offset params)),
      si_GetMessage = (\<lambda>i r. GetMessage lib i),
      si_GetMessageAttachment = (\<lambda>i index r. GetMessageAttachment lib i index),
      si_Healthcheck = (\<lambda>r s. (Healthcheck, s))\<rparr>"

end
