(* ===== verification/PublicRoutes.thy ===== *)
theory PublicRoutes
  imports HttpServer ApiBindings MuxProps
begin

text \<open>
  The patterns of the public server and what answers them (\<^verbatim>\<open>NewHTTPServer\<close> of \<^verbatim>\<open>internal/app/http.go\<close>).
\<close>

section \<open>The table\<close>

text \<open>
  The files compiled into the program and what the handlers ask of other packages: the URL of the inbox page for a
  request and an inbox (\<^verbatim>\<open>query.Encode\<close>), the year, the text of a number of seconds.
\<close>

record publicWorld =
  pw_uiCSS :: string
  pw_uiScript :: string
  pw_uiVersion :: string
  pw_favicon :: "string \<Rightarrow> string option"
  pw_speclib :: "unit speclib"
  pw_swaggerSpec :: "string list"
  pw_root_url :: "request \<Rightarrow> string \<Rightarrow> string"
  pw_year :: int
  pw_FormatSeconds :: "int \<Rightarrow> string"

definition privacyHandler :: "publicWorld \<Rightarrow> store \<Rightarrow> reply \<times> store" where
  "privacyHandler pw s =
     (respond (HTML_privacy (publicPageChrome (pw_uiCSS pw) (pw_uiVersion pw) (pw_year pw) (pw_FormatSeconds pw) (MessageTTL (cfg s))))
        (set_header ''Content-Type'' ''text/html; charset=utf-8'' no_response), s)"

definition public_routes ::
    "apilib \<Rightarrow> handlerlib \<Rightarrow> publicWorld \<Rightarrow> config \<Rightarrow> (string \<times> (content, store) path_handler) list" where
  "public_routes al lib pw conf =
     HandlerFromMux al (apiServer lib)
      (map (\<lambda>name. (''GET /'' @ name, \<lambda>pv r s. (serveFaviconAsset name (map_option Raw_bytes (pw_favicon pw name)), s))) faviconNames @
     [(''GET /ui.css'', \<lambda>pv r s. (serveUIAsset (pw_uiVersion pw) ''text/css; charset=utf-8'' (Raw_bytes (pw_uiCSS pw)) r, s)),
      (''GET /ui.js'', \<lambda>pv r s. (serveUIAsset (pw_uiVersion pw) ''application/javascript; charset=utf-8'' (Raw_bytes (pw_uiScript pw)) r, s)),
      (''GET /metrics'', \<lambda>pv r s. (http_NotFound no_response, s)),
      (''GET /ui/messages/{id}'', \<lambda>pv r. uiMessageHandler lib r (pv ''id'')),
      (''GET /ui/messages/{id}/html'', \<lambda>pv r. uiHTMLHandler lib r (pv ''id''))]) @
     [(''GET /openapi.json'', \<lambda>pv r s. (serveAPISpec (case GetSpecJSON (pw_speclib pw) (pw_swaggerSpec pw) of Inl _ \<Rightarrow> None | Inr a \<Rightarrow> Some (Raw_bytes a)), s)),
      (''GET /privacy'', \<lambda>pv r. privacyHandler pw),
      (''GET /{inbox}'', \<lambda>pv r s. (inboxShortcut (pw_root_url pw) (pv ''inbox'') r, s)),
      (''GET /'', \<lambda>pv r. renderInbox lib r (MailDomain conf) (TrimSpace (rquery r ''inbox'')) (pageOffset (rquery r ''offset'')) (rquery r ''message''))]"

text \<open>
  The whole server; \<^const>\<open>None\<close> is a panic while registering the patterns. \<open>mux\<close> runs on the store alone, the
  layers around it keep the log, the limiter and the slots. \<open>recorded\<close> says that analytics were enabled at the start.
\<close>

definition on_store :: "('c, 's) handler \<Rightarrow> ('c, chan \<times> 's) handler" where
  "on_store h r cs = (case h r (snd cs) of (w, s) \<Rightarrow> (w, fst cs, s))"

record publicLib =
  pl_unicode :: unicode
  pl_quote :: "string \<Rightarrow> string"
  pl_parseIP :: "string \<Rightarrow> string option"
  pl_mux :: muxlib
  pl_api :: apilib
  pl_handlers :: handlerlib
  pl_world :: publicWorld

text \<open>What the outside says during a request: its duration in the log, the identifier and times of its event.\<close>

record requestWorld =
  rw_elapsedMS :: int
  rw_eventID :: string
  rw_started :: time
  rw_ended :: time

definition NewHTTPServer ::
    "publicLib \<Rightarrow> (string \<Rightarrow> 'l \<Rightarrow> bool \<times> 'l) \<Rightarrow> config \<Rightarrow> bool \<Rightarrow>
     (requestWorld \<Rightarrow> (content, analytics \<times> string list \<times> 'l \<times> chan \<times> store) handler) option" where
  "NewHTTPServer pl reached conf recorded =
     map_option (\<lambda>t rw r st.
       (let public = public_server (pl_unicode pl) (pl_quote pl) (pl_parseIP pl) reached conf
              (on_store (mux_ServeHTTP (pl_mux pl) t)) (rw_elapsedMS rw)
        in if recorded
           then analyticsHTTP (pl_parseIP pl) public (HTTPRateLimitIPHeader conf) (MailDomain conf) (rw_eventID rw)
                  (rw_started rw) (rw_ended rw) r st
           else (case public r (snd st) of (w, s) \<Rightarrow> (w, fst st, s))))
     (NewServeMux (public_routes (pl_api pl) (pl_handlers pl) (pl_world pl) conf))"

section \<open>Routing\<close>

definition public_names :: "string list" where
  "public_names = faviconNames @ [''ui.css'', ''ui.js'', ''metrics'', ''healthz'', ''openapi.json'', ''privacy'']"

text \<open>Where a path goes, by its segments; a slash is the segment of an empty end of the path.\<close>

fun public_route :: "string list \<Rightarrow> string \<times> string list" where
  "public_route [a] =
     (if a \<in> set public_names then (''GET /'' @ a, []) else if a \<noteq> ''/'' then (''GET /{inbox}'', [a]) else (''GET /'', []))"
| "public_route [a, b, c] =
     (if a = ''ui'' \<and> b = ''messages'' \<and> c \<noteq> ''/'' then (''GET /ui/messages/{id}'', [c]) else (''GET /'', []))"
| "public_route [a, b, c, d] =
     (if a = ''ui'' \<and> b = ''messages'' \<and> c \<noteq> ''/'' \<and> d = ''html'' then (''GET /ui/messages/{id}/html'', [c])
      else if a = ''api'' \<and> b = ''v1'' \<and> c = ''inboxes'' \<and> d \<noteq> ''/'' then (''GET /api/v1/inboxes/{inbox}'', [d])
      else if a = ''api'' \<and> b = ''v1'' \<and> c = ''messages'' \<and> d \<noteq> ''/'' then (''GET /api/v1/messages/{id}'', [d])
      else (''GET /'', []))"
| "public_route [a, b, c, d, e, f] =
     (if a = ''api'' \<and> b = ''v1'' \<and> c = ''messages'' \<and> d \<noteq> ''/'' \<and> e = ''attachments'' \<and> f \<noteq> ''/''
      then (''GET /api/v1/messages/{id}/attachments/{index}'', [d, f]) else (''GET /'', []))"
| "public_route _ = (''GET /'', [])"

definition public_patterns :: "string list" where
  "public_patterns =
     [''GET /favicon.ico'', ''GET /favicon-16x16.png'', ''GET /favicon-32x32.png'', ''GET /apple-touch-icon.png'',
      ''GET /android-chrome-192x192.png'', ''GET /android-chrome-512x512.png'', ''GET /site.webmanifest'',
      ''GET /ui.css'', ''GET /ui.js'', ''GET /metrics'', ''GET /ui/messages/{id}'', ''GET /ui/messages/{id}/html'',
      ''GET /healthz'', ''GET /api/v1/inboxes/{inbox}'', ''GET /api/v1/messages/{id}'',
      ''GET /api/v1/messages/{id}/attachments/{index}'', ''GET /openapi.json'', ''GET /privacy'', ''GET /{inbox}'', ''GET /'']"

lemma public_routes_patterns: "map fst (public_routes al lib pw conf) = public_patterns"
  by (simp add: public_routes_def public_patterns_def faviconNames_def HandlerFromMux_def HandlerWithOptions_def no_options_def Let_def)

lemma public_segs:
  "map (pat_segs \<circ> parsePattern) public_patterns =
     map (\<lambda>n. [Lit n]) (faviconNames @ [''ui.css'', ''ui.js'', ''metrics'']) @
     [[Lit ''ui'', Lit ''messages'', Wild ''id''], [Lit ''ui'', Lit ''messages'', Wild ''id'', Lit ''html''],
      [Lit ''healthz''], [Lit ''api'', Lit ''v1'', Lit ''inboxes'', Wild ''inbox''],
      [Lit ''api'', Lit ''v1'', Lit ''messages'', Wild ''id''],
      [Lit ''api'', Lit ''v1'', Lit ''messages'', Wild ''id'', Lit ''attachments'', Wild ''index''],
      [Lit ''openapi.json''], [Lit ''privacy''], [Wild ''inbox''], [Multi []]]"
  by code_simp

lemma public_methods: "list_all (\<lambda>p. pat_method (parsePattern p) = ''GET'') public_patterns"
  by code_simp

lemma public_no_conflict: "conflict_free [] (map parsePattern public_patterns)"
  by code_simp

text \<open>The routing tree, one level at a time.\<close>

definition api_node :: "string routing_node" where
  "api_node =
     [([Lit ''v1'', Lit ''inboxes'', Wild ''inbox''], ''GET /api/v1/inboxes/{inbox}''),
      ([Lit ''v1'', Lit ''messages'', Wild ''id''], ''GET /api/v1/messages/{id}''),
      ([Lit ''v1'', Lit ''messages'', Wild ''id'', Lit ''attachments'', Wild ''index''],
        ''GET /api/v1/messages/{id}/attachments/{index}'')]"

definition ui_node :: "string routing_node" where
  "ui_node =
     [([Lit ''messages'', Wild ''id''], ''GET /ui/messages/{id}''),
      ([Lit ''messages'', Wild ''id'', Lit ''html''], ''GET /ui/messages/{id}/html'')]"

lemma public_node:
  "pattern_node public_patterns =
     map (\<lambda>n. ([Lit n], ''GET /'' @ n)) (faviconNames @ [''ui.css'', ''ui.js'', ''metrics'']) @
     map (apfst ((#) (Lit ''ui''))) ui_node @ [([Lit ''healthz''], ''GET /healthz'')] @
     map (apfst ((#) (Lit ''api''))) api_node @
     [([Lit ''openapi.json''], ''GET /openapi.json''), ([Lit ''privacy''], ''GET /privacy''),
      ([Wild ''inbox''], ''GET /{inbox}''), ([Multi []], ''GET /'')]"
  by code_simp

lemma public_children:
  "multiChild (pattern_node public_patterns) = Some ([], ''GET /'')"
  "emptyChild (pattern_node public_patterns) = [([], ''GET /{inbox}'')]"
  "a \<noteq> [] \<Longrightarrow> findChild a (pattern_node public_patterns) =
     (if a \<in> set public_names then [([], ''GET /'' @ a)] else if a = ''ui'' then ui_node else if a = ''api'' then api_node else [])"
proof -
  show "multiChild (pattern_node public_patterns) = Some ([], ''GET /'')" "emptyChild (pattern_node public_patterns) = [([], ''GET /{inbox}'')]"
    unfolding public_node faviconNames_def ui_node_def api_node_def by (simp_all add: node_simps)
  assume a: "a \<noteq> []"
  show "findChild a (pattern_node public_patterns) =
     (if a \<in> set public_names then [([], ''GET /'' @ a)] else if a = ''ui'' then ui_node else if a = ''api'' then api_node else [])"
  proof (cases "a \<in> set public_names \<or> a = ''ui'' \<or> a = ''api''")
    case True
    then show ?thesis
      unfolding public_names_def public_node faviconNames_def ui_node_def api_node_def by (auto simp: node_simps)
  next
    case False
    then show ?thesis
      using a unfolding public_names_def public_node faviconNames_def ui_node_def api_node_def by (simp add: node_simps)
  qed
qed

lemma ui_match:
  "[] \<notin> set segs \<Longrightarrow> match_segs ui_node segs [] =
     (case segs of
        [b, c] \<Rightarrow> if b = ''messages'' \<and> c \<noteq> ''/'' then Some (''GET /ui/messages/{id}'', [c]) else None
      | [b, c, d] \<Rightarrow> if b = ''messages'' \<and> c \<noteq> ''/'' \<and> d = ''html'' then Some (''GET /ui/messages/{id}/html'', [c]) else None
      | _ \<Rightarrow> None)"
  by (auto simp: ui_node_def node_simps match_segs.simps split: list.split)

definition messages_node :: "string routing_node" where
  "messages_node = [([], ''GET /api/v1/messages/{id}''),
     ([Lit ''attachments'', Wild ''index''], ''GET /api/v1/messages/{id}/attachments/{index}'')]"

lemma api_children:
  "leaf api_node = None" "emptyChild api_node = []" "multiChild api_node = None"
  "b \<noteq> [] \<Longrightarrow> findChild b api_node =
     (if b = ''v1''
      then (Lit ''inboxes'' # [Wild ''inbox''], ''GET /api/v1/inboxes/{inbox}'') # map (apfst (\<lambda>ss. Lit ''messages'' # Wild ''id'' # ss)) messages_node
      else [])"
  by (simp_all add: api_node_def messages_node_def node_simps)

lemma messages_match:
  "[] \<notin> set segs \<Longrightarrow> match_segs messages_node segs ms =
     (case segs of
        [] \<Rightarrow> Some (''GET /api/v1/messages/{id}'', ms)
      | [e, f] \<Rightarrow> if e = ''attachments'' \<and> f \<noteq> ''/'' then Some (''GET /api/v1/messages/{id}/attachments/{index}'', ms @ [f]) else None
      | _ \<Rightarrow> None)"
  by (auto simp: messages_node_def node_simps match_segs.simps split: list.split)

lemma v1_match:
  assumes "[] \<notin> set segs"
  shows "match_segs ((Lit ''inboxes'' # [Wild ''inbox''], ''GET /api/v1/inboxes/{inbox}'') # map (apfst (\<lambda>ss. Lit ''messages'' # Wild ''id'' # ss)) messages_node) segs [] =
     (case segs of
        c # d # rest \<Rightarrow>
          if c = ''inboxes'' \<and> d \<noteq> ''/'' \<and> rest = [] then Some (''GET /api/v1/inboxes/{inbox}'', [d])
          else if c = ''messages'' \<and> d \<noteq> ''/'' then match_segs messages_node rest [d] else None
      | _ \<Rightarrow> None)"
proof (cases segs)
  case (Cons c ds)
  with assms show ?thesis
  proof (cases ds)
    case (Cons d rest)
    with assms \<open>segs = c # ds\<close> show ?thesis
      by (cases rest) (auto simp: messages_node_def node_simps match_segs.simps)
  qed (auto simp: messages_node_def node_simps match_segs.simps)
qed (simp add: messages_node_def node_simps match_segs.simps)

lemma api_match:
  assumes "[] \<notin> set segs"
  shows "match_segs api_node segs [] =
     (case segs of
        [b, c, d] \<Rightarrow>
          if b = ''v1'' \<and> c = ''inboxes'' \<and> d \<noteq> ''/'' then Some (''GET /api/v1/inboxes/{inbox}'', [d])
          else if b = ''v1'' \<and> c = ''messages'' \<and> d \<noteq> ''/'' then Some (''GET /api/v1/messages/{id}'', [d]) else None
      | [b, c, d, e, f] \<Rightarrow>
          if b = ''v1'' \<and> c = ''messages'' \<and> d \<noteq> ''/'' \<and> e = ''attachments'' \<and> f \<noteq> ''/''
          then Some (''GET /api/v1/messages/{id}/attachments/{index}'', [d, f]) else None
      | _ \<Rightarrow> None)"
proof (cases segs)
  case (Cons b cs)
  with assms have "b \<noteq> []" by auto
  with Cons have "match_segs api_node segs [] = (if b = ''v1'' then
      match_segs ((Lit ''inboxes'' # [Wild ''inbox''], ''GET /api/v1/inboxes/{inbox}'') # map (apfst (\<lambda>ss. Lit ''messages'' # Wild ''id'' # ss)) messages_node) cs [] else None)"
    by (simp add: api_children match_segs.simps(2))
  moreover have "[] \<notin> set cs" using assms Cons by simp
  ultimately show ?thesis using Cons by (auto simp: v1_match messages_match split: list.split)
qed (simp add: api_children match_segs.simps)

lemma public_match:
  assumes "segs \<noteq> []" and "[] \<notin> set segs"
  shows "match_segs (pattern_node public_patterns) segs [] = Some (public_route segs)"
proof -
  obtain a rest where segs: "segs = a # rest" using assms(1) by (cases segs) auto
  with assms(2) have a: "a \<noteq> []" "[] \<notin> set rest" by auto
  have names: "''ui'' \<notin> set public_names" "''api'' \<notin> set public_names" "''/'' \<notin> set public_names"
    by (simp_all add: public_names_def faviconNames_def)
  have root: "match_segs (pattern_node public_patterns) segs [] =
      or_else (match_segs (if a \<in> set public_names then [([], ''GET /'' @ a)] else if a = ''ui'' then ui_node else if a = ''api'' then api_node else []) rest [])
        (or_else (if a \<noteq> ''/'' \<and> rest = [] then Some (''GET /{inbox}'', [a]) else None) (Some (''GET /'', [])))"
    unfolding segs using a by (cases "rest = []") (simp_all add: public_children node_simps leaf_match match_segs.simps(2))
  consider "a \<in> set public_names" | "a = ''ui''" | "a = ''api''" | "a \<notin> set public_names" "a \<noteq> ''ui''" "a \<noteq> ''api''" by blast
  then show ?thesis
  proof cases
    case 1
    then have "a \<noteq> ''ui''" "a \<noteq> ''api''" "a \<noteq> ''/''" using names by auto
    with 1 show ?thesis
      unfolding root using segs a(2) by (cases segs rule: public_route.cases) (auto simp: leaf_match or_else_def)
  next
    case 2
    then show ?thesis
      unfolding root using segs a(2) names by (cases segs rule: public_route.cases) (auto simp: ui_match)
  next
    case 3
    then show ?thesis
      unfolding root using segs a(2) names by (cases segs rule: public_route.cases) (auto simp: api_match)
  next
    case 4
    then show ?thesis
      unfolding root using segs a(2) by (cases segs rule: public_route.cases) (auto simp: node_simps match_segs.simps(1))
  qed
qed

interpretation pub: get_site public_patterns public_route
proof
  show "conflict_free [] (map parsePattern public_patterns)" by (rule public_no_conflict)
  show "distinct public_patterns" by code_simp
  show "nameless (pattern_node public_patterns)"
    by (simp add: nameless_def public_node faviconNames_def ui_node_def api_node_def)
  fix segs :: "string list" assume s: "segs \<noteq> []" "[] \<notin> set segs"
  show "match_segs (pattern_node public_patterns) segs [] = Some (public_route segs)" by (rule public_match [OF s])
  show "fst (public_route (segs @ [''/''])) = ''GET /''"
    using s by (cases segs rule: public_route.cases) simp_all
next
  fix p assume "p \<in> set public_patterns"
  then show "pat_method (parsePattern p) = ''GET''" using public_methods by (simp add: list_all_iff)
qed

end
