(* ===== verification/PublicProps.thy ===== *)
theory PublicProps
  imports PublicRoutes
begin

text \<open>
  What the public server answers to whom: the routes of its table, that requests only read, and that a message is
  found under its identifier.
\<close>

section \<open>Answers\<close>

lemma mux_get:
  assumes "RequestURI mx r \<noteq> ''*''" and "cleanPath (EscapedPath mx r) = EscapedPath mx r" and "Method r \<in> {''GET'', ''HEAD''}"
  shows "\<exists>h. map_of (public_routes al lib pw conf) (fst (public_route (path_segs (EscapedPath mx r)))) = Some h \<and>
    mux_ServeHTTP mx (entries (public_routes al lib pw conf)) r s =
      h (PathValue (parsePattern (fst (public_route (path_segs (EscapedPath mx r))))) (snd (public_route (path_segs (EscapedPath mx r))))) r s"
  using pub.find_get [OF public_routes_patterns assms(2,3), of al lib pw conf] assms(1) by (auto simp: mux_ServeHTTP_def)

text \<open>Examples: parameters are taken as text.\<close>

definition example_api :: apilib where
  "example_api = \<lparr>bindEmail = (\<lambda>_ v. Inr v), bindString = (\<lambda>_ v. Inr v), bindInt = (\<lambda>_ v. case Atoi v of None \<Rightarrow> Inl ''not a number'' | Some n \<Rightarrow> Inr n),
     bindQueryInt = (\<lambda>_ _. Inr None)\<rparr>"

definition example_publicWorld :: publicWorld where
  "example_publicWorld = \<lparr>pw_uiCSS = [], pw_uiScript = [], pw_uiVersion = ''1'', pw_favicon = (\<lambda>_. None), pw_speclib = \<lparr>base64_DecodeString = Inr, flate_read = Inr, flate_close = (\<lambda>_. None), loadFromData = (\<lambda>_ _. Inr ())\<rparr>,
     pw_swaggerSpec = [],
     pw_root_url = (\<lambda>_ i. ''/?inbox='' @ i), pw_year = 2026, pw_FormatSeconds = (\<lambda>_. ''0'')\<rparr>"

text \<open>
  C24. The routes of the public server. Registering its patterns does not panic: no two of them conflict. A GET
  or HEAD request for a clean path goes to the pattern \<open>public_route\<close> names for its segments, with the values of
  its wildcards; in particular a single segment is the shortcut to an inbox unless it is one of the reserved
  names, and every path that is not served goes to the inbox page. Any other method is answered with 405
  and the methods that are allowed, without running a handler.
\<close>

theorem public_routing:
  assumes "RequestURI mx r \<noteq> ''*''" and "cleanPath (EscapedPath mx r) = EscapedPath mx r"
  shows "\<exists>t. NewServeMux (public_routes al lib pw conf) = Some t \<and>
    mux_ServeHTTP mx t r s =
      (if Method r \<in> {''GET'', ''HEAD''}
       then (case public_route (path_segs (EscapedPath mx r)) of
               (pat, values) \<Rightarrow> the (map_of (public_routes al lib pw conf) pat) (PathValue (parsePattern pat) values) r s)
       else (http_Error ''Method Not Allowed'' 405 (set_header ''Allow'' ''GET, HEAD'' no_response), s))"
proof (cases "Method r \<in> {''GET'', ''HEAD''}")
  case True
  from mux_get [OF assms True, of al lib pw conf s] True show ?thesis
    by (auto simp: pub.registers [OF public_routes_patterns] split_beta)
next
  case False
  have "findHandler mx (entries (public_routes al lib pw conf)) r = NotAllowed [''GET'', ''HEAD'']"
    by (rule pub.find_other [OF public_routes_patterns assms(2) False])
  with assms(1) False show ?thesis
    by (auto simp: pub.registers [OF public_routes_patterns] mux_ServeHTTP_def)
qed

theorem public_routing_witness:
  "\<exists>t. NewServeMux (public_routes example_api example_handlerlib example_publicWorld example_config) = Some t \<and>
     rstatus (fst (mux_ServeHTTP example_mux t (example_request\<lparr>Path := ''/healthz''\<rparr>) empty_store)) = 204"
proof -
  let ?r = "example_request\<lparr>Path := ''/healthz''\<rparr>"
  have p: "RequestURI example_mux ?r = ''/healthz''" "EscapedPath example_mux ?r = ''/healthz''" "Method ?r = ''GET''"
    by (simp_all add: example_mux_def example_request_def)
  have "cleanPath ''/healthz'' = ''/healthz''" by code_simp
  moreover have "path_segs ''/healthz'' = [''healthz'']" using path_segs_part [of "''healthz''" "[]"] by simp
  moreover have "public_route [''healthz''] = (''GET /healthz'', [])" by (simp add: public_names_def)
  moreover have "map_of (public_routes example_api example_handlerlib example_publicWorld example_config) ''GET /healthz'' =
      Some (siw_Healthcheck \<lparr>siw_Handler = apiServer example_handlerlib, siw_HandlerMiddlewares = [],
        siw_ErrorHandlerFunc = default_error_handler\<rparr>)"
    by (simp add: public_routes_def faviconNames_def HandlerFromMux_def HandlerWithOptions_def no_options_def Let_def)
  ultimately show ?thesis
    using public_routing [of example_mux ?r example_api example_handlerlib example_publicWorld example_config empty_store] p
    by (auto simp: siw_Healthcheck_def with_middlewares_def apiServer_def Healthcheck_def)
qed

text \<open>Identifiers of messages are hexadecimal, so their path is clean and is one segment.\<close>

definition plain_segment :: "string \<Rightarrow> bool" where
  "plain_segment i \<longleftrightarrow> i \<noteq> [] \<and> CHR ''/'' \<notin> set i \<and> CHR ''%'' \<notin> set i \<and> CHR ''.'' \<notin> set i"

lemma message_path:
  assumes "plain_segment i"
  shows "cleanPath (''/api/v1/messages/'' @ i) = ''/api/v1/messages/'' @ i"
    "path_segs (''/api/v1/messages/'' @ i) = [''api'', ''v1'', ''messages'', i]"
proof -
  have i: "i \<noteq> []" "CHR ''/'' \<notin> set i" "CHR ''%'' \<notin> set i" "i \<noteq> ''.''" "i \<noteq> ''..''"
    using assms by (auto simp: plain_segment_def)
  have "Split (''/api/v1/messages'' @ CHR ''/'' # i) CHR ''/'' = [[], ''api'', ''v1'', ''messages'', i]"
    using Split_snoc [OF i(2), of "''/api/v1/messages''"] by simp
  then have "clean_parts True [] (Split (''/api/v1/messages/'' @ i) CHR ''/'') = [''api'', ''v1'', ''messages'', i]"
    using i by simp
  moreover have "is_rooted (''/api/v1/messages/'' @ i)" by (simp add: is_rooted_def HasPrefix_def)
  ultimately have "filepath_Clean (''/api/v1/messages/'' @ i) = ''/api/v1/messages/'' @ i"
    by (simp add: filepath_Clean_def Let_def)
  moreover have "last (''/api/v1/messages/'' @ i) \<noteq> CHR ''/''" 
    unfolding last_appendR [OF i(1)] using i(2) last_in_set [OF i(1)] by auto
  ultimately show "cleanPath (''/api/v1/messages/'' @ i) = ''/api/v1/messages/'' @ i"
    by (simp add: cleanPath_def Let_def)
  show "path_segs (''/api/v1/messages/'' @ i) = [''api'', ''v1'', ''messages'', i]"
    using path_segs_Join [of "[''api'', ''v1'', ''messages'', i]" "[]"] i by simp
qed

lemma mux_GetMessage:
  assumes "RequestURI mx r \<noteq> ''*''" and "Method r = ''GET''" and "EscapedPath mx r = ''/api/v1/messages/'' @ i"
    and "plain_segment i" and "bindString al ''id'' i = Inr i"
  shows "mux_ServeHTTP mx (entries (public_routes al lib pw conf)) r s = GetMessage lib i s"
proof -
  define siw where "siw = \<lparr>siw_Handler = apiServer lib, siw_HandlerMiddlewares = [], siw_ErrorHandlerFunc = default_error_handler\<rparr>"
  have m: "map_of (public_routes al lib pw conf) ''GET /api/v1/messages/{id}'' = Some (siw_GetMessage al siw)"
    by (simp add: public_routes_def faviconNames_def HandlerFromMux_def HandlerWithOptions_def no_options_def Let_def siw_def)
  have pv: "PathValue (parsePattern ''GET /api/v1/messages/{id}'') [i] ''id'' = i"
    by (simp add: PathValue_def parsePattern_def parse_segment_def HasPrefix_def HasSuffix_def TrimSuffix_def)
  have route: "public_route [''api'', ''v1'', ''messages'', i] = (''GET /api/v1/messages/{id}'', [i])"
    using assms(4) by (auto simp: plain_segment_def)
  have ep: "path_segs (EscapedPath mx r) = [''api'', ''v1'', ''messages'', i]" "cleanPath (EscapedPath mx r) = EscapedPath mx r"
    by (simp_all only: assms(3) message_path [OF assms(4)])
  have "mux_ServeHTTP mx (entries (public_routes al lib pw conf)) r s =
      siw_GetMessage al siw (PathValue (parsePattern ''GET /api/v1/messages/{id}'') [i]) r s"
    using mux_get [OF assms(1) ep(2), of al lib pw conf s] assms(2) unfolding ep(1) route fst_conv snd_conv m by simp
  also have "\<dots> = GetMessage lib i s"
    by (simp add: siw_GetMessage_def pv assms(5) with_middlewares_def apiServer_def siw_def)
  finally show ?thesis .
qed

section \<open>Reading only\<close>

lemma read_only_refl [simp]: "read_only s s"
  unfolding read_only_def by (intro exI [of _ "clock s"] exI [of _ "faults s"]) simp

lemma read_only_trans: "read_only s s' \<Longrightarrow> read_only s' s'' \<Longrightarrow> read_only s s''"
  unfolding read_only_def by (elim exE) (simp, intro exI, rule refl)

lemma message_handlers_read:
  "read_only s (snd (uiMessageHandler lib r i s))" "read_only s (snd (uiHTMLHandler lib r i s))"
  "read_only s (snd (GetMessage lib i s))" "read_only s (snd (GetMessageAttachment lib i index s))"
  "read_only s (snd (ListInboxMessages inbox limit offset s))"
proof -
  obtain x s' where g: "GetContext i s = (x, s')" by fastforce
  show "read_only s (snd (uiMessageHandler lib r i s))" "read_only s (snd (uiHTMLHandler lib r i s))"
    "read_only s (snd (GetMessage lib i s))" "read_only s (snd (GetMessageAttachment lib i index s))"
    using GetContext_read_only [OF g]
    by (simp_all add: uiMessageHandler_def uiHTMLHandler_def GetMessage_def GetMessageAttachment_def g Let_def
        split: sum.split prod.split option.split)
  show "read_only s (snd (ListInboxMessages inbox limit offset s))"
    using ListPageContext_read_only [of inbox _ _ s]
    by (auto simp: ListInboxMessages_def Let_def split: sum.split prod.split)
qed

lemma inbox_items_read: "read_only s (snd (inbox_items lib r name offset sel k ms s))"
proof (induction ms arbitrary: k s)
  case (Cons m ms)
  obtain x s1 where g: "GetContext (ID m) s = (x, s1)" by fastforce
  from GetContext_read_only [OF g] Cons [of s "Suc k"] Cons [of s1 "Suc k"] show ?case
    by (auto simp: g Let_def split: sum.split prod.split if_splits elim: read_only_trans)
qed simp

lemma renderInbox_read: "read_only s (snd (renderInbox lib r domain name offset requested s))"
proof -
  obtain x s1 where g: "ListPageContext (name @ CHR ''@'' # domain) defaultPageSize offset s = (x, s1)" by fastforce
  note r1 = ListPageContext_read_only [OF g]
  show ?thesis
  proof (cases x)
    case (Inr y)
    obtain messages hasMore where y: "y = (messages, hasMore)" by fastforce
    obtain z s2 where i: "inbox_items lib r name offset (selected_id messages requested) 0 messages s1 = (z, s2)" by fastforce
    have "read_only s s2" using read_only_trans [OF r1] inbox_items_read [of s1 lib r name offset "selected_id messages requested" 0 messages] i by simp
    with r1 Inr y show ?thesis by (simp add: renderInbox_def g i Let_def split: sum.split option.split)
  qed (use r1 in \<open>simp add: renderInbox_def g Let_def\<close>)
qed

lemma public_handlers_read:
  assumes "h \<in> snd ` set (public_routes al lib pw conf)"
  shows "read_only s (snd (h pv r s))"
proof -
  have err: "read_only s (snd (default_error_handler e r s))" for e :: paramError
    by (simp add: default_error_handler_def)
  have api: "read_only s (snd (h pv r s))" if "(pat, h) \<in> set (Handler al (apiServer lib))" for pat
    using that by (auto simp: Handler_def HandlerWithOptions_def no_options_def Let_def siw_GetMessage_def siw_ListInboxMessages_def
        siw_GetMessageAttachment_def siw_Healthcheck_def with_middlewares_def apiServer_def err message_handlers_read split: sum.split)
  from assms obtain pat where "(pat, h) \<in> set (public_routes al lib pw conf)" by auto
  then show ?thesis
    unfolding public_routes_def HandlerFromMux_appends by (auto simp: message_handlers_read privacyHandler_def renderInbox_read intro: api)
qed

lemma mux_reads:
  "read_only s (snd (mux_ServeHTTP mx (entries (public_routes al lib pw conf)) r s))"
  "Method r \<notin> {''GET'', ''HEAD''} \<Longrightarrow> snd (mux_ServeHTTP mx (entries (public_routes al lib pw conf)) r s) = s"
proof -
  have h: "h \<in> snd ` set (public_routes al lib pw conf) \<and> Method r \<in> {''GET'', ''HEAD''}"
    if "findHandler mx (entries (public_routes al lib pw conf)) r = Chosen p h ms" for p h ms
    using pub.find_chosen [OF public_routes_patterns that] by simp
  show "read_only s (snd (mux_ServeHTTP mx (entries (public_routes al lib pw conf)) r s))"
  proof (cases "findHandler mx (entries (public_routes al lib pw conf)) r")
    case (Chosen p h' ms)
    from public_handlers_read [of h' al lib pw conf] h [OF this] show ?thesis by (simp add: mux_ServeHTTP_def Chosen)
  qed (simp_all add: mux_ServeHTTP_def)
  show "snd (mux_ServeHTTP mx (entries (public_routes al lib pw conf)) r s) = s" if "Method r \<notin> {''GET'', ''HEAD''}"
  proof (cases "findHandler mx (entries (public_routes al lib pw conf)) r")
    case (Chosen p h' ms)
    from h [OF this] that show ?thesis by simp
  qed (simp_all add: mux_ServeHTTP_def)
qed

text \<open>The layers around the multiplexer run it at most once.\<close>

lemma public_server_state:
  assumes "public_server u quote parseIP reached conf (on_store mux) el r (logs, l, c, s) = (w, logs', l', c', s')"
  shows "s' = s \<or> (\<exists>r1. Method r1 = Method r \<and> s' = snd (mux r1 s))"
proof -
  let ?in = "limitHTTPRequests (MaxHTTPRequests conf) (securityHeaders (on_store mux))"
  obtain w1 l1 c1 s1 where rl: "rateLimitPerIP parseIP reached ?in (HTTPRateLimitIPHeader conf) r (l, c, s) = (w1, l1, c1, s1)"
    by (rule prod_cases4)
  have w: "s' = s1"
    using assms rl by (auto simp: public_server_def requestLogger_def Let_def split: if_splits)
  have run: "s1 = s \<or> s1 = snd (mux r1 s)" if i: "(w1, c1, s1) = ?in r1 (c, s)" for r1
  proof -
    obtain resp s2 where m: "mux r1 s = (resp, s2)" by fastforce
    then have "snd (snd (securityHeaders (on_store mux) r1 (k, s))) = s2" for k
      by (simp add: securityHeaders_def on_store_def Let_def)
    then have "s1 = snd (mux r1 s)" if "(w1, c', s1) = securityHeaders (on_store mux) r1 (k, s)" for k c'
      using that m by (metis snd_conv)
    note inner = this
    show ?thesis
    proof (cases "MaxHTTPRequests conf = 0 \<or> try_send c = None")
      case True
      then show ?thesis using i inner [of c1 c] by (auto simp: limitHTTPRequests_def split: if_splits)
    next
      case False
      then obtain k where k: "MaxHTTPRequests conf \<noteq> 0" "try_send c = Some k" by auto
      obtain w2 c2 s3 where x: "securityHeaders (on_store mux) r1 (k, s) = (w2, c2, s3)" by (rule prod_cases3)
      from i k x have "w1 = w2" "s1 = s3" by (simp_all add: limitHTTPRequests_def)
      with x inner [of c2 k] show ?thesis by simp
    qed
  qed
  from rateLimitPerIP_cases [OF rl] run w show ?thesis by (auto split: if_splits)
qed

text \<open>
  C25. The public server only reads. It always comes up (no panic while registering), and whatever a request says,
  it leaves mail, files and counters of the store as they are: only the clock and the answers of the outside world
  are consumed. A request with another method than GET or HEAD does not even read.
\<close>

theorem public_server_only_reads:
  "\<exists>h. NewHTTPServer pl reached conf recorded = Some h \<and>
     (\<forall>rw r a logs l c s. case h rw r (a, logs, l, c, s) of
        (w, a', logs', l', c', s') \<Rightarrow> read_only s s' \<and> (Method r \<in> {''GET'', ''HEAD''} \<or> s' = s))"
proof -
  let ?t = "entries (public_routes (pl_api pl) (pl_handlers pl) (pl_world pl) conf)"
  let ?public = "\<lambda>rw. public_server (pl_unicode pl) (pl_quote pl) (pl_parseIP pl) reached conf (on_store (mux_ServeHTTP (pl_mux pl) ?t)) (rw_elapsedMS rw)"
  have p: "read_only s s' \<and> (Method r \<in> {''GET'', ''HEAD''} \<or> s' = s)"
    if "?public rw r (logs, l, c, s) = (w, logs', l', c', s')" for rw r logs l c s w logs' l' c' s'
    using public_server_state [OF that]
  proof
    assume "\<exists>r1. Method r1 = Method r \<and> s' = snd (mux_ServeHTTP (pl_mux pl) ?t r1 s)"
    then obtain r1 where r1: "Method r1 = Method r" "s' = snd (mux_ServeHTTP (pl_mux pl) ?t r1 s)" by blast
    have "s' = s" if "Method r \<notin> {''GET'', ''HEAD''}"
      unfolding r1(2) by (rule mux_reads(2)) (use that r1(1) in simp)
    moreover have "read_only s s'" unfolding r1(2) by (rule mux_reads(1))
    ultimately show ?thesis by blast
  qed simp
  let ?h = "\<lambda>rw r st. (let public = ?public rw in if recorded
         then analyticsHTTP (pl_parseIP pl) public (HTTPRateLimitIPHeader conf) (MailDomain conf) (rw_eventID rw)
                (rw_started rw) (rw_ended rw) r st
         else (case public r (snd st) of (w, s) \<Rightarrow> (w, fst st, s)))"
  have k: "case ?h rw r (a, logs, l, c, s) of
      (w, a', logs', l', c', s') \<Rightarrow> read_only s s' \<and> (Method r \<in> {''GET'', ''HEAD''} \<or> s' = s)" for rw r a logs l c s
  proof -
    obtain w logs' l' c' s' where x: "?public rw r (logs, l, c, s) = (w, logs', l', c', s')" by (rule prod_cases5)
    from p [OF x] show ?thesis by (simp add: Let_def analyticsHTTP_def x)
  qed
  have n: "NewHTTPServer pl reached conf recorded = Some ?h"
    by (simp add: NewHTTPServer_def pub.registers [OF public_routes_patterns])
  show ?thesis by (rule exI [of _ ?h], rule conjI [OF n], intro allI, rule k)
qed

section \<open>Identifiers\<close>

definition hex_digits :: "char set" where
  "hex_digits = set ''0123456789abcdef''"

definition hex_id :: "string \<Rightarrow> bool" where
  "hex_id i \<longleftrightarrow> set i \<subseteq> hex_digits"

lemma hex_digit_mem: "n < 16 \<Longrightarrow> hex_digit n \<in> hex_digits"
  unfolding hex_digit_def hex_digits_def by (rule nth_mem) simp

lemma newID_hex:
  assumes "newID s = (i, s')"
  shows "hex_id i"
proof -
  have "(of_char c :: nat) div 16 < 16" for c
    by (rule less_mult_imp_div_less) (use byte_less [of c] in \<open>simp add: byte_def\<close>)
  then have "hex_id (hex_byte c)" for c by (simp add: hex_id_def hex_byte_def hex_digit_mem)
  then show ?thesis using assms by (fastforce simp: newID_def rand_read_def hex_id_def dest: subsetD)
qed

lemma plain_hex: "hex_id i \<Longrightarrow> i \<noteq> [] \<Longrightarrow> plain_segment i"
  unfolding hex_id_def plain_segment_def
  using subsetD [of "set i" hex_digits] by (auto simp: hex_digits_def)

lemma insert_messages_hex:
  "insert_messages rs from subject t texp sz b s = (Inr ms, s') \<Longrightarrow> list_all (\<lambda>m. hex_id (ID m)) ms"
proof (induction rs "from" subject t texp sz b s arbitrary: ms s' rule: insert_messages.induct)
  case (2 r rs sdr subject t texp sz b s)
  obtain i s1 where i: "newID s = (i, s1)" by fastforce
  from 2 i newID_hex [OF i] show ?case by (auto simp: Let_def split: option.splits prod.splits sum.splits)
qed simp

lemma save_commit_hex: "save_commit rs from subject t b path sz s = (Inr ms, s') \<Longrightarrow> list_all (\<lambda>m. hex_id (ID m)) ms"
  by (auto simp: save_commit_def inTx_def save_tx_def Let_def split: prod.splits sum.splits option.splits
      dest: insert_messages_hex)

lemma Save_hex:
  assumes "Save rcpts sdr raw s = (Inr ms, s')" and "m \<in> set ms"
  shows "hex_id (ID m)"
proof -
  have "list_all (\<lambda>m. hex_id (ID m)) ms"
    using assms(1)
    by (auto simp: Save_def save_locked_def save_file_def save_staged_def Let_def dest: save_commit_hex
        split: prod.splits sum.splits option.splits if_splits)
  with assms(2) show ?thesis by (simp add: list_all_iff)
qed

text \<open>A request for one message by its identifier.\<close>

definition message_request :: "muxlib \<Rightarrow> apilib \<Rightarrow> request \<Rightarrow> string \<Rightarrow> bool" where
  "message_request mx al r i \<longleftrightarrow>
     Method r = ''GET'' \<and> RequestURI mx r \<noteq> ''*'' \<and> EscapedPath mx r = ''/api/v1/messages/'' @ i \<and> i \<noteq> [] \<and>
     bindString al ''id'' i = Inr i"

lemma message_request_served:
  "message_request mx al r i \<Longrightarrow> hex_id i \<Longrightarrow>
   mux_ServeHTTP mx (entries (public_routes al lib pw conf)) r s = GetMessage lib i s"
  using mux_GetMessage [of mx r i al lib pw conf s] plain_hex [of i] by (simp add: message_request_def)

end
