(* ===== verification/AdminRoutes.thy ===== *)
theory AdminRoutes
  imports AdminServer MuxProps
begin

text \<open>
  The admin server (\<^verbatim>\<open>NewAdminServer\<close> of \<^verbatim>\<open>internal/app/admin.go\<close>): its patterns behind the multiplexer, inside
  the headers every answer carries.
\<close>

section \<open>The table\<close>

definition admin_patterns :: "string list" where
  "admin_patterns =
     [''GET /openapi.json'', ''GET /ui.js'', ''GET /admin.js'', ''GET /admin.css''] @ map (\<lambda>name. ''GET /'' @ name) faviconNames @
     [''GET /api/status'', ''GET /api/overview'', ''GET /api/activity'', ''GET /'']"

definition admin_routes :: "adminWorld \<Rightarrow> (string \<times> (adminPage, adminServer) path_handler) list" where
  "admin_routes w = map (\<lambda>pat. (pat, \<lambda>_. admin_handler w pat)) admin_patterns"

text \<open>\<^const>\<open>None\<close> is a panic while registering.\<close>

definition NewAdminServer :: "muxlib \<Rightarrow> adminWorld \<Rightarrow> (adminPage, adminServer) handler option" where
  "NewAdminServer mx w =
     map_option (\<lambda>t r s.
       (let h = set_header ''Content-Security-Policy'' adminCSP
                  (set_header ''Referrer-Policy'' ''no-referrer''
                    (set_header ''X-Content-Type-Options'' ''nosniff'' (no_response :: adminPage response)))
        in case mux_ServeHTTP mx t r s of
             (resp, s1) \<Rightarrow> (resp\<lparr>rheaders := rheaders (fold (\<lambda>p. set_header (fst p) (snd p)) (rheaders resp) h)\<rparr>, s1)))
     (NewServeMux (admin_routes w))"

section \<open>Routing\<close>

definition admin_names :: "string list" where
  "admin_names = faviconNames @ [''openapi.json'', ''ui.js'', ''admin.js'', ''admin.css'']"

fun admin_route :: "string list \<Rightarrow> string \<times> string list" where
  "admin_route [a] = (if a \<in> set admin_names then (''GET /'' @ a, []) else (''GET /'', []))"
| "admin_route [a, b] =
     (if a = ''api'' \<and> b \<in> {''status'', ''overview'', ''activity''} then (''GET /api/'' @ b, []) else (''GET /'', []))"
| "admin_route _ = (''GET /'', [])"

lemma admin_routes_patterns: "map fst (admin_routes w) = admin_patterns"
  by (simp add: admin_routes_def comp_def)

lemma admin_no_conflict: "conflict_free [] (map parsePattern admin_patterns)"
  by code_simp

lemma admin_methods: "list_all (\<lambda>p. pat_method (parsePattern p) = ''GET'') admin_patterns"
  by code_simp

lemma admin_node:
  "pattern_node admin_patterns =
     [([Lit ''openapi.json''], ''GET /openapi.json''), ([Lit ''ui.js''], ''GET /ui.js''), ([Lit ''admin.js''], ''GET /admin.js''),
      ([Lit ''admin.css''], ''GET /admin.css'')] @ map (\<lambda>n. ([Lit n], ''GET /'' @ n)) faviconNames @
     [([Lit ''api'', Lit ''status''], ''GET /api/status''), ([Lit ''api'', Lit ''overview''], ''GET /api/overview''),
      ([Lit ''api'', Lit ''activity''], ''GET /api/activity''), ([Multi []], ''GET /'')]"
  by code_simp

definition admin_api_node :: "string routing_node" where
  "admin_api_node = map (\<lambda>n. ([Lit n], ''GET /api/'' @ n)) [''status'', ''overview'', ''activity'']"

lemma admin_children:
  "multiChild (pattern_node admin_patterns) = Some ([], ''GET /'')" "emptyChild (pattern_node admin_patterns) = []"
  "a \<noteq> [] \<Longrightarrow> findChild a (pattern_node admin_patterns) =
     (if a \<in> set admin_names then [([], ''GET /'' @ a)] else if a = ''api'' then admin_api_node else [])"
proof -
  show "multiChild (pattern_node admin_patterns) = Some ([], ''GET /'')" "emptyChild (pattern_node admin_patterns) = []"
    unfolding admin_node faviconNames_def by (simp_all add: node_simps)
  assume a: "a \<noteq> []"
  show "findChild a (pattern_node admin_patterns) =
     (if a \<in> set admin_names then [([], ''GET /'' @ a)] else if a = ''api'' then admin_api_node else [])"
  proof (cases "a \<in> set admin_names \<or> a = ''api''")
    case True
    then show ?thesis unfolding admin_names_def admin_node faviconNames_def admin_api_node_def by (auto simp: node_simps)
  next
    case False
    then show ?thesis
      using a unfolding admin_names_def admin_node faviconNames_def admin_api_node_def by (simp add: node_simps)
  qed
qed

lemma admin_api_match:
  "[] \<notin> set segs \<Longrightarrow> match_segs admin_api_node segs [] =
     (case segs of [b] \<Rightarrow> if b \<in> {''status'', ''overview'', ''activity''} then Some (''GET /api/'' @ b, []) else None | _ \<Rightarrow> None)"
  by (auto simp: admin_api_node_def node_simps match_segs.simps split: list.split)

lemma admin_match:
  assumes "segs \<noteq> []" and "[] \<notin> set segs"
  shows "match_segs (pattern_node admin_patterns) segs [] = Some (admin_route segs)"
proof -
  obtain a rest where segs: "segs = a # rest" using assms(1) by (cases segs) auto
  with assms(2) have a: "a \<noteq> []" "[] \<notin> set rest" by auto
  have names: "''api'' \<notin> set admin_names" by (simp add: admin_names_def faviconNames_def)
  have root: "match_segs (pattern_node admin_patterns) segs [] =
      or_else (match_segs (if a \<in> set admin_names then [([], ''GET /'' @ a)] else if a = ''api'' then admin_api_node else []) rest [])
        (Some (''GET /'', []))"
    unfolding segs using a by (simp add: admin_children match_segs.simps(2))
  show ?thesis
  proof (cases "a \<in> set admin_names")
    case True
    then have "a \<noteq> ''api''" using names by auto
    with True show ?thesis
      unfolding root using segs a(2) by (cases segs rule: admin_route.cases) (auto simp: leaf_match or_else_def)
  next
    case False
    then show ?thesis
      unfolding root using segs a(2) by (cases segs rule: admin_route.cases) (auto simp: admin_api_match)
  qed
qed

interpretation adm: get_site admin_patterns admin_route
proof
  show "conflict_free [] (map parsePattern admin_patterns)" by (rule admin_no_conflict)
  show "distinct admin_patterns" by code_simp
  show "nameless (pattern_node admin_patterns)" by (simp add: nameless_def admin_node faviconNames_def)
  fix segs :: "string list" assume s: "segs \<noteq> []" "[] \<notin> set segs"
  show "match_segs (pattern_node admin_patterns) segs [] = Some (admin_route segs)" by (rule admin_match [OF s])
  show "fst (admin_route (segs @ [''/''])) = ''GET /''"
    using s by (cases segs rule: admin_route.cases) simp_all
next
  fix p assume "p \<in> set admin_patterns"
  then show "pat_method (parsePattern p) = ''GET''" using admin_methods by (simp add: list_all_iff)
qed

section \<open>Answers\<close>

lemma plain_mux_answers [simp]:
  "plain_headers (http_Redirect url code no_response)" "plain_headers (http_NotFound_any no_response)"
  "plain_headers (http_Error msg code (set_header ''Allow'' v no_response))"
  "plain_headers ((set_header ''Connection'' v no_response)\<lparr>rstatus := code\<rparr>)"
  by (simp_all add: http_Redirect_def http_NotFound_any_def http_Error_def plain_set_header)

lemma admin_mux_cases:
  assumes "mux_ServeHTTP mx (entries (admin_routes w)) r s = (resp, s')"
  obtains (handled) pat where "resp = fst (admin_handler w pat r s)" "s' = snd (admin_handler w pat r s)"
      "Method r \<in> {''GET'', ''HEAD''}" "pat = fst (admin_route (path_segs (EscapedPath mx r)))"
  | (other) "plain_headers resp" "s' = s"
      "\<not> (Method r \<in> {''GET'', ''HEAD''} \<and> RequestURI mx r \<noteq> ''*'' \<and> cleanPath (EscapedPath mx r) = EscapedPath mx r)"
proof (cases "Method r \<in> {''GET'', ''HEAD''} \<and> RequestURI mx r \<noteq> ''*'' \<and> cleanPath (EscapedPath mx r) = EscapedPath mx r")
  case True
  let ?pat = "fst (admin_route (path_segs (EscapedPath mx r)))"
  from True have m: "Method r \<in> {''GET'', ''HEAD''}" and c: "cleanPath (EscapedPath mx r) = EscapedPath mx r" by auto
  from adm.find_get [OF admin_routes_patterns c m, of w] obtain h where
    h: "map_of (admin_routes w) ?pat = Some h" "findHandler mx (entries (admin_routes w)) r = Chosen (parsePattern ?pat) h (snd (admin_route (path_segs (EscapedPath mx r))))"
    by blast
  from map_of_SomeD [OF h(1)] have "h = (\<lambda>_. admin_handler w ?pat)" by (auto simp: admin_routes_def)
  then have "(resp, s') = admin_handler w ?pat r s" using assms True h(2) by (simp add: mux_ServeHTTP_def)
  then show thesis by (intro handled [of ?pat]) (use m in \<open>simp_all add: prod_eq_iff\<close>)
next
  case False
  have "plain_headers resp \<and> s' = s"
  proof (cases "RequestURI mx r = ''*''")
    case True
    with assms show ?thesis by (auto simp: mux_ServeHTTP_def plain_set_header)
  next
    case star: False
    show ?thesis
    proof (cases "findHandler mx (entries (admin_routes w)) r")
      case (Chosen p h ms)
      from adm.find_chosen [OF admin_routes_patterns this] False star show ?thesis by simp
    qed (use assms star in \<open>auto simp: mux_ServeHTTP_def\<close>)
  qed
  with False show thesis by (intro other) auto
qed

lemma data_route:
  assumes "p \<in> {''/api/status'', ''/api/overview'', ''/api/activity''}"
  shows "fst (admin_route (path_segs p)) \<in> set data_patterns"
proof -
  have "path_segs ''/api/status'' = [''api'', ''status'']" using path_segs_Join [of "[''api'', ''status'']" "[]"] by simp
  moreover have "path_segs ''/api/overview'' = [''api'', ''overview'']" using path_segs_Join [of "[''api'', ''overview'']" "[]"] by simp
  moreover have "path_segs ''/api/activity'' = [''api'', ''activity'']" using path_segs_Join [of "[''api'', ''activity'']" "[]"] by simp
  ultimately have "path_segs p \<in> {[''api'', ''status''], [''api'', ''overview''], [''api'', ''activity'']}"
    using assms by (elim insertE emptyE) simp_all
  then show ?thesis by (elim insertE emptyE) (simp_all add: data_patterns_def)
qed

text \<open>
  C39. The admin server only looks. It always comes up, and whatever is asked of it, a request leaves the
  configuration, the mail store, the connections of the SMTP server and every recorded event as they were; a
  method other than GET or HEAD leaves everything as it was. Every answer, of a handler or of the
  multiplexer, carries the admin content security policy and no referrer, and the status, the overview and the
  activity list are never cacheable.
\<close>

theorem admin_server_only_reads:
  assumes "NewAdminServer mx w = Some h" and "h r s = (resp, s')"
  shows "adm_cfg s' = adm_cfg s \<and> adm_store s' = adm_store s \<and> admission_of (adm_smtp s') = admission_of (adm_smtp s)
    \<and> same_records (adm_analytics s) (adm_analytics s') \<and> (Method r \<in> {''GET'', ''HEAD''} \<or> s' = s)
    \<and> get_header ''Content-Security-Policy'' resp = adminCSP \<and> get_header ''Referrer-Policy'' resp = ''no-referrer''
    \<and> (Method r \<in> {''GET'', ''HEAD''} \<and> RequestURI mx r \<noteq> ''*''
        \<and> EscapedPath mx r \<in> {''/api/status'', ''/api/overview'', ''/api/activity''}
        \<longrightarrow> get_header ''Cache-Control'' resp = ''no-store'')"
proof -
  define h0 :: "adminPage response" where "h0 = set_header ''Content-Security-Policy'' adminCSP
    (set_header ''Referrer-Policy'' ''no-referrer'' (set_header ''X-Content-Type-Options'' ''nosniff'' no_response))"
  obtain resp0 s0 where run: "mux_ServeHTTP mx (entries (admin_routes w)) r s = (resp0, s0)" by fastforce
  have h: "h = (\<lambda>r s. case mux_ServeHTTP mx (entries (admin_routes w)) r s of
      (resp, s1) \<Rightarrow> (resp\<lparr>rheaders := rheaders (fold (\<lambda>p. set_header (fst p) (snd p)) (rheaders resp) h0)\<rparr>, s1))"
    using assms(1) unfolding NewAdminServer_def adm.registers [OF admin_routes_patterns] Let_def h0_def [symmetric] by simp
  have resp: "resp = resp0\<lparr>rheaders := rheaders (fold (\<lambda>p. set_header (fst p) (snd p)) (rheaders resp0) h0)\<rparr>" "s' = s0"
    using assms(2) unfolding h run by simp_all
  have hdr: "get_header k resp = (case map_of (rev (rheaders resp0)) k of None \<Rightarrow> get_header k h0 | Some v \<Rightarrow> v)" for k
    using fold_set_header [of k "rheaders resp0" h0] unfolding resp by (simp add: get_header_def)
  have policy: "get_header ''Content-Security-Policy'' resp = adminCSP \<and> get_header ''Referrer-Policy'' resp = ''no-referrer''"
    if "plain_headers resp0"
  proof -
    have "map_of (rev (rheaders resp0)) k = None" if "k \<in> {''Content-Security-Policy'', ''Referrer-Policy''}" for k
      using that \<open>plain_headers resp0\<close> by (elim insertE emptyE) (simp_all add: plain_headers_def map_of_eq_None_iff)
    then show ?thesis by (simp add: hdr h0_def)
  qed
  from run show ?thesis
  proof (cases rule: admin_mux_cases)
    case (handled pat)
    have "get_header ''Cache-Control'' resp = ''no-store''"
      if "EscapedPath mx r \<in> {''/api/status'', ''/api/overview'', ''/api/activity''}"
    proof -
      have "pat \<in> set data_patterns" unfolding handled(4) by (rule data_route [OF that])
      from admin_handler_no_store [OF this] handled(1) show ?thesis
        using hdr [of "''Cache-Control''"] by (simp add: no_store_def)
    qed
    note cache = this
    have run0: "admin_handler w pat r s = (resp0, s0)" using handled(1,2) by (simp add: prod_eq_iff)
    have "plain_headers resp0" using admin_handler_plain [of w pat r s] handled(1) by simp
    from policy [OF this] cache handled(3) admin_handler_reads_only [OF run0] resp(2) show ?thesis by blast
  next
    case other
    have "cleanPath p = p" if "p \<in> {''/api/status'', ''/api/overview'', ''/api/activity''}" for p
      using that by (elim insertE emptyE) (simp_all only:, code_simp+)
    with other(3) have "\<not> (Method r \<in> {''GET'', ''HEAD''} \<and> RequestURI mx r \<noteq> ''*''
        \<and> EscapedPath mx r \<in> {''/api/status'', ''/api/overview'', ''/api/activity''})" by blast
    with other(2) policy [OF other(1)] resp(2) show ?thesis by (auto simp only: same_records_refl)
  qed
qed

theorem admin_server_only_reads_witness:
  "\<exists>h resp s'. NewAdminServer example_mux example_adminWorld = Some h \<and>
     h (example_get ''/api/status'')
       \<lparr>adm_cfg = example_config, adm_store = Some empty_store, adm_smtp = None, adm_analytics = Some example_rows, adm_automatic = None,
        adm_manualWeb = None\<rparr> = (resp, s')
     \<and> adm_store s' = Some empty_store \<and> get_header ''Cache-Control'' resp = ''no-store''"
proof -
  let ?s = "\<lparr>adm_cfg = example_config, adm_store = Some empty_store, adm_smtp = None, adm_analytics = Some example_rows, adm_automatic = None,
        adm_manualWeb = None\<rparr>"
  obtain h where h: "NewAdminServer example_mux example_adminWorld = Some h"
    by (simp add: NewAdminServer_def adm.registers [OF admin_routes_patterns])
  obtain resp s' where r: "h (example_get ''/api/status'') ?s = (resp, s')" by (metis surj_pair)
  from admin_server_only_reads [OF h r] have "adm_store s' = Some empty_store" "get_header ''Cache-Control'' resp = ''no-store''"
    by (simp_all add: example_mux_def example_get_def)
  with h r show ?thesis by blast
qed

end
