(* ===== verification/Spec2Isabelle.thy ===== *)
theory Spec2Isabelle
  imports StoreRefine MainProps CanaryMain Metrics AcmeDiag PublicProps AdminRoutes Supervisor
begin

text \<open>
  A verification development of tmpmail, a disposable-mail service written in Go, and of its canary.

  \<^bold>\<open>The program.\<close> tmpmail accepts mail for one domain over SMTP, keeps it for a fixed time and shows it to
  whoever asks, through an HTTP API and a web page. The parts of \<^verbatim>\<open>src/internal/app\<close> are the mail store
  (\<^verbatim>\<open>store.go\<close>: three SQLite tables and one file per message), the SMTP server (\<^verbatim>\<open>smtp.go\<close>: admission of
  connections, the session handlers, certificates from files), the HTTP server (\<^verbatim>\<open>http.go\<close>,
  \<^verbatim>\<open>ratelimit.go\<close>, \<^verbatim>\<open>ui.go\<close>), the presentation of messages (\<^verbatim>\<open>mime.go\<close>), the analytics pipeline
  (\<^verbatim>\<open>analytics.go\<close>, \<^verbatim>\<open>analytics_contract.go\<close>), the private admin server (\<^verbatim>\<open>admin.go\<close>), TLS
  (\<^verbatim>\<open>autotls.go\<close>, \<^verbatim>\<open>manual_https.go\<close>, \<^verbatim>\<open>tls_status.go\<close>, \<^verbatim>\<open>acme_diagnostics.go\<close>), metrics
  (\<^verbatim>\<open>metrics.go\<close>) and configuration (\<^verbatim>\<open>config.go\<close>). \<^verbatim>\<open>src/cmd/tmpmail/main.go\<close> opens them, connects
  them and shuts them down. \<^verbatim>\<open>src/canary/cmd/canary\<close> is a second program that watches the first from
  outside. An SMTP session hands a message to \<^verbatim>\<open>Store.Save\<close> and an event to \<^verbatim>\<open>Analytics.Record\<close>; HTTP
  handlers read the store; the admin server reads the analytics tables and the status of everything else.

  \<^bold>\<open>How it is modelled.\<close> A struct is a record, a handler is a function from the state to a result and a new
  state, an error is a value of a sum or option type, a loop is a recursive function with its termination
  proof. What runs concurrently under one lock, or in one goroutine, is a step; \<open>store_step\<close>,
  \<open>adm_step\<close>, \<open>session_run\<close>, \<open>a_run\<close>, \<open>auto_reachable\<close> and \<open>run_step\<close> put the steps in any order. A call that can
  fail for a reason outside the program takes one element of a stream of faults, a reading of the clock one
  element of a stream of times, a read of the random source one element of a stream of blocks, so that a
  theorem over all streams holds for every pattern of failures. Code of other packages is a parameter: the
  Unicode tables, mail headers and MIME framing, character sets, the HTML parser and renderer, JSON, base64
  and URL escaping, X.509, internationalised names, the certificate manager, the token bucket, the conversion of
  request parameters by the runtime of the API generator, duration and float syntax. Of the standard library,
  the strings, paths, numbers and the HTTP multiplexer are modelled where the program uses them. Strings are byte strings, as in Go. SQL is the list
  function it denotes on the rows in rowid order; a commit that fails leaves the tables as they were.

  \<^bold>\<open>Shared theories.\<close>
  \<^item> \<open>Prelude\<close>: fact collections, lemmas on lists and sums, the streams of the outside world.
  \<^item> \<open>GoStrings\<close>, \<open>GoText\<close>, \<open>GoNet\<close>, \<open>GoPath\<close>: what the program uses of Go's string, UTF-8, number, address
    and path libraries. \<open>ServeMux\<close>, \<open>MuxProps\<close>: the multiplexer of \<^verbatim>\<open>net/http\<close> (patterns, conflicts, the choice
    of the most specific one, clean paths) and the interface \<open>get_site\<close>: a table of GET patterns with the function
    that says where a path goes; a table that satisfies it registers without a panic and is followed exactly.
    \<open>Address\<close>: recipient addresses, two spellings of one inbox get one key.

  \<^bold>\<open>The mail store\<close> (\<^verbatim>\<open>store.go\<close>).
  \<^item> \<open>StoreDb\<close>: the tables \<open>messages\<close>, \<open>blobs\<close> and \<open>pending_deletions\<close>, their statements and consistency
    (\<open>db_ok\<close>). \<open>StoreOps\<close>: the record \<open>store\<close>, transactions, files, the deletion queue. \<open>StoreEvict\<close>: eviction
    as a loop, refining the relation \<open>evicts\<close>. \<open>StoreQueue\<close>: the invariant \<open>store_inv\<close> and the drain of the
    queue. \<open>StoreSave\<close>: \<open>Save\<close>, cut into the stages of the code.
  \<^item> \<open>StoreDelivery\<close>, \<open>StoreProps\<close>, \<open>StoreContract\<close>, \<open>StoreTheorems\<close>: a failed save changes no mail, a
    successful one stores one message per recipient within the storage cap and evicts only what the policy
    names. \<open>StoreExample\<close> holds concrete stores, \<open>StoreQuiet\<close> the store when nothing fails, \<open>StoreLive\<close> that a
    save then succeeds, \<open>StoreCleanup\<close> the expiry of messages: exactly the expired ones go, and the loop ends.
  \<^item> \<open>MailStore\<close>: the interfaces \<open>mail_store\<close> and \<open>readable_store\<close> the clients rely on, interpreted in
    \<open>StoreRead\<close>, which models \<open>ListPageContext\<close>, \<open>GetContext\<close> and \<open>Status\<close>.
  \<^item> \<open>StoreOpen\<close>, \<open>StoreRecovery\<close>: \<open>OpenStore\<close> with migration and recovery after a crash. \<open>StoreSteps\<close>: every
    reachable store satisfies the invariant. \<open>StoreRefine\<close>: every step of a store is a step of an abstract
    mailbox, a set of letters.

  \<^bold>\<open>SMTP\<close> (\<^verbatim>\<open>smtp.go\<close>).
  \<^item> \<open>Admission\<close>: the interface \<open>slots\<close> of a semaphore, the listener that never admits more connections than
    configured, in total or per source. \<open>SmtpSession\<close>: \<open>Mail\<close>, \<open>Rcpt\<close>, \<open>Data\<close>, \<open>Reset\<close>; a positive reply to
    \<^verbatim>\<open>DATA\<close> means stored for every recipient, a negative one means no mail changed. \<open>SmtpServer\<close>: the
    construction of the server and the wait for its certificate. \<open>TlsReload\<close>: certificates from files.

  \<^bold>\<open>HTTP and presentation\<close> (\<^verbatim>\<open>http.go\<close>, \<^verbatim>\<open>ratelimit.go\<close>, \<^verbatim>\<open>ui.go\<close>, \<^verbatim>\<open>mime.go\<close>,
  \<^verbatim>\<open>internal/api/openapi.gen.go\<close>).
  \<^item> \<open>HttpCore\<close>: the wrappers around a handler. \<open>HttpHandlers\<close>: the handlers. \<open>HttpProps\<close>: what they promise;
    a storage error is never shown as expiry, personal data is never cacheable. \<open>HttpServer\<close>: the assets and the
    public server as a composition of its wrappers.
  \<^item> \<open>ApiBindings\<close>: the generated side of the API, which binds path and query to typed parameters, answers what it
    cannot bind and registers four patterns, and the embedded specification. \<open>PublicRoutes\<close>: the table of the
    public server, an instance of \<open>get_site\<close>, and \<open>NewHTTPServer\<close>. \<open>PublicProps\<close>: a clean GET reaches exactly the
    handler its path names, and no request over HTTP changes stored mail.
  \<^item> \<open>Html\<close>: the sanitiser leaves nothing that loads or runs. \<open>Mime\<close>: the parts of a message; the walk returns on
    every input, attachments agree with their listing, text is valid UTF-8.

  \<^bold>\<open>Analytics and administration\<close> (\<^verbatim>\<open>analytics.go\<close>, \<^verbatim>\<open>analytics_contract.go\<close>, \<^verbatim>\<open>admin.go\<close>).
  \<^item> \<open>Analytics\<close>, \<open>AnalyticsWorker\<close>, \<open>AnalyticsProps\<close>: the queue and the worker; every event recorded is queued,
    in the batch, written or counted as dropped.
  \<^item> \<open>Admin\<close>, \<open>AdminProps\<close>: overview and activity list show what the tables hold, filters are literal.
    \<open>AdminServer\<close>: the status document and the handlers. \<open>AdminRoutes\<close>: the server behind its multiplexer, another
    instance of \<open>get_site\<close>, which changes nothing.

  \<^bold>\<open>TLS\<close> (\<^verbatim>\<open>autotls.go\<close>, \<^verbatim>\<open>manual_https.go\<close>, \<^verbatim>\<open>tls_status.go\<close>, \<^verbatim>\<open>acme_diagnostics.go\<close>).
  \<^item> \<open>TlsHost\<close>: names of hosts. \<open>TlsFront\<close>: the plain HTTP side of HTTPS and the interface \<open>cert_source\<close>,
    interpreted by \<open>AutoTlsProps\<close> (certificates obtained automatically, modelled in \<open>AutoTls\<close>) and by
    \<open>ManualHttps\<close> (certificates from files): requests are redirected to HTTPS only when a valid certificate can be
    served there. \<open>AcmeDiag\<close>: the bounded capture of ACME answers and the lines logged of them.

  \<^bold>\<open>The process\<close> (\<^verbatim>\<open>config.go\<close>, \<^verbatim>\<open>metrics.go\<close>, \<^verbatim>\<open>main.go\<close>).
  \<^item> \<open>Config\<close>, \<open>ConfigLoad\<close>, \<open>ConfigProps\<close>: \<open>LoadConfig\<close> with every error, and that a loaded configuration is in
    range. \<open>Metrics\<close>: the collectors, labels and counters. \<open>Main_Program\<close>, \<open>MainProps\<close>: the start, the handlers of
    the two listeners, the health check and the order of the shutdown. \<open>Supervisor\<close>: the command, the settings of the
    HTTP servers, the goroutines, the channel of their results and the select (no server is ever blocked, the first
    result or a signal decides how the process ends), the ticker of the cleanup. This theory: mail accepted over SMTP is served over
    HTTP.

  \<^bold>\<open>The canary\<close> (\<^verbatim>\<open>canary/cmd/canary\<close>). \<open>Canary\<close>, \<open>CanaryProps\<close>: the three checks, the run and its verdict; a
  healthy mail check has seen the probe it sent in the API and on the inbox page. \<open>CanaryMain\<close>: its two endpoints
  behind the multiplexer.

  \<^bold>\<open>Loops and bounds.\<close> No definition has fuel. Two waits of the program may go on as long as the world does
  not answer, \<open>WaitSMTPReady\<close> and \<open>waitForMessage\<close>; they are partial functions with an option result, \<open>None\<close> for
  a wait without end, and it is proved when they return. \<^verbatim>\<open>int64\<close> sums of sizes are kept as integers; they are
  bounded by the storage cap (C6). Ranges of numbers read from the environment are those of \<^verbatim>\<open>strconv\<close>.

  \<^bold>\<open>Not modelled.\<close> HTML templates, style sheets and scripts, which are not Go: a page is the value its template
  renders. The contents of embedded files, the API document among them, are arguments. The registry and the scrape
  handler of Prometheus are its own; updates of metrics inside the store and the SMTP session are left out, as no
  code reads them back. Signals and ticks are inputs of the steps; sockets are outside, what they answer is an
  argument. Log lines are left out, apart from the access log and the ACME diagnostics.
\<close>

section \<open>From SMTP to HTTP\<close>

lemma GetMessage_stored:
  assumes "row_stored s raw m" and "readable_now s m"
  shows "\<exists>w s' msg. GetMessage lib (ID m) s = (w, s') \<and> rstatus w = 200 \<and> rcontent w = Some (JSON_message msg)
    \<and> am_Id msg = ID m \<and> am_Recipient msg = Recipient m \<and> am_From msg = From m \<and> am_Subject msg = Subject m
    \<and> splitRawMessage raw = (am_Headers msg, am_Body msg) \<and> get_header ''Cache-Control'' w = ''no-store, private''"
proof -
  have g: "fst (Get (ID m) s) = Inr (m\<lparr>Received := unix_time (time_Unix (Received m)),
      ExpiresAt := unix_time (time_Unix (ExpiresAt m)), Body := raw\<rparr>)"
    using Get_row_stored [OF _ assms(1)] assms(2) by (simp add: readable_now_def)
  obtain s' where "GetContext (ID m) s = (Inr (m\<lparr>Received := unix_time (time_Unix (Received m)),
      ExpiresAt := unix_time (time_Unix (ExpiresAt m)), Body := raw\<rparr>), s')"
    using g by (cases "GetContext (ID m) s") (simp add: Get_def)
  then show ?thesis
    by (simp add: GetMessage_def writeJSON_def setSensitiveResponseHeaders_def split: prod.split)
qed



end
